(* ===== verification/Prelude.thy ===== *)
theory Prelude
  imports Complex_Main "HOL-Library.AList" "HOL-Library.Sublist"
begin

text \<open>
  What the components share: the model of a database table (an association list from
  primary keys to rows, in insertion order), the contract a table offers its clients
  (\<open>table_store\<close>), the runs of a transactional service (\<open>run_ops\<close>) with the two
  contracts its invariants and its monotone observations are proved from
  (\<open>step_system\<close>, \<open>monotone_system\<close>), and the string operations the
  services use.
\<close>

named_theorems table_simps "rewrite rules for tables"

section \<open>Tables\<close>

text \<open>
  A Django model is a table from primary keys to rows. Primary keys are natural numbers
  (the UUIDs of the code are opaque keys too); a query returns rows in insertion order.
\<close>

type_synonym 'r table = "(nat \<times> 'r) list"

definition tget :: "'r table \<Rightarrow> nat \<Rightarrow> 'r option" where
  "tget t k = map_of t k"

definition tput :: "nat \<Rightarrow> 'r \<Rightarrow> 'r table \<Rightarrow> 'r table" where
  "tput k r t = AList.update k r t"

definition tcount :: "('r \<Rightarrow> bool) \<Rightarrow> 'r table \<Rightarrow> nat" where
  "tcount P t = length (filter (\<lambda>kr. P (snd kr)) t)"

definition tok :: "'r table \<Rightarrow> bool" where
  "tok t \<longleftrightarrow> distinct (map fst t)"

text \<open>The bulk \<open>QuerySet.filter(...).update(...)\<close>.\<close>

definition tupdate_where :: "('r \<Rightarrow> bool) \<Rightarrow> ('r \<Rightarrow> 'r) \<Rightarrow> 'r table \<Rightarrow> 'r table" where
  "tupdate_where P f t = map (\<lambda>(k, r). (k, if P r then f r else r)) t"

lemma tget_Nil [table_simps, simp]: "tget [] k = None"
  by (simp add: tget_def)

lemma tget_tput [table_simps]: "tget (tput k r t) j = (if j = k then Some r else tget t j)"
  by (simp add: tget_def tput_def update_conv)

lemma tok_Nil [simp]: "tok []"
  by (simp add: tok_def)

lemma tok_tput [table_simps]: "tok t \<Longrightarrow> tok (tput k r t)"
  unfolding tok_def tput_def by (rule distinct_update)

lemma tcount_Nil [simp]: "tcount P [] = 0"
  by (simp add: tcount_def)

lemma tcount_Cons: "tcount P ((k, r) # t) = of_bool (P r) + tcount P t"
  by (simp add: tcount_def)

lemma tput_Cons: "tput k r ((j, q) # t) = (if j = k then (k, r) # t else (j, q) # tput k r t)"
  by (simp add: tput_def)

lemma tget_Cons: "tget ((j, q) # t) k = (if j = k then Some q else tget t k)"
  by (simp add: tget_def)

lemma tget_None_iff: "tget t k = None \<longleftrightarrow> k \<notin> fst ` set t"
  by (simp add: tget_def map_of_eq_None_iff)

lemma tget_in_set: "tget t k = Some r \<Longrightarrow> (k, r) \<in> set t"
  by (simp add: tget_def map_of_SomeD)

lemma tget_iff: "tok t \<Longrightarrow> tget t k = Some r \<longleftrightarrow> (k, r) \<in> set t"
  by (simp add: tget_def tok_def)

lemma tput_balance:
  "tok t \<Longrightarrow> tcount P (tput k r t) + (case tget t k of None \<Rightarrow> 0 | Some q \<Rightarrow> of_bool (P q))
     = tcount P t + of_bool (P r)"
proof (induction t)
  case Nil
  then show ?case by (simp add: tput_def tcount_def)
next
  case (Cons x t)
  obtain j q where x: "x = (j, q)" by (cases x)
  from Cons.prems have "tok t" and "j \<notin> fst ` set t"
    by (simp_all add: tok_def x)
  with Cons.IH show ?case
    by (cases "j = k") (auto simp: x tput_Cons tget_Cons tcount_Cons)
qed

lemma tcount_pos: "tget t k = Some r \<Longrightarrow> P r \<Longrightarrow> 0 < tcount P t"
proof (induction t)
  case (Cons x t)
  then show ?case by (cases x) (auto simp: tget_Cons tcount_Cons split: if_splits)
qed simp

lemma tcount_none: "tok t \<Longrightarrow> tcount P t = 0 \<longleftrightarrow> (\<forall>k r. tget t k = Some r \<longrightarrow> \<not> P r)"
  by (force simp: tcount_def filter_empty_conv tget_iff)

lemma tcount_cong: "(\<And>r. P r = Q r) \<Longrightarrow> tcount P t = tcount Q t"
  by (simp add: tcount_def)

lemma tput_new: "tget t k = None \<Longrightarrow> tput k r t = t @ [(k, r)]"
  by (induction t) (auto simp: tput_def tget_Cons split: if_splits)

lemma tput_old: "tok t \<Longrightarrow> tget t k \<noteq> None \<Longrightarrow> tput k r t = map (\<lambda>(j, q). (j, if j = k then r else q)) t"
proof (induction t)
  case (Cons x t)
  obtain j q where x: "x = (j, q)" by (cases x)
  show ?case
  proof (cases "j = k")
    case True
    with Cons.prems have "map (\<lambda>(j, q). (j, if j = k then r else q)) t = t"
      by (intro map_idI) (force simp: tok_def x)
    with True show ?thesis by (simp add: x tput_Cons)
  qed (use Cons in \<open>auto simp: x tput_Cons tget_Cons tok_def\<close>)
qed simp

lemma tok_filter [table_simps]: "tok t \<Longrightarrow> tok (filter P t)"
  by (auto simp: tok_def distinct_map intro: inj_on_subset)

lemma tget_filter:
  assumes "tok t"
  shows "tget (filter (\<lambda>kr. P (snd kr)) t) k = (case tget t k of None \<Rightarrow> None | Some r \<Rightarrow> if P r then Some r else None)"
proof -
  let ?f = "filter (\<lambda>kr. P (snd kr)) t"
  have f: "tget ?f k = Some r \<longleftrightarrow> tget t k = Some r \<and> P r" for r
    using assms tok_filter [OF assms, of "\<lambda>kr. P (snd kr)"] by (simp add: tget_iff)
  show ?thesis
  proof (cases "tget ?f k")
    case None
    with f have "tget t k = Some r \<Longrightarrow> \<not> P r" for r by (metis option.distinct(1))
    with None show ?thesis by (auto split: option.splits)
  next
    case (Some r)
    with f [of r] show ?thesis by simp
  qed
qed

lemma tput_tput: "tput k q (tput k r t) = tput k q t"
  by (induction t) (auto simp: tput_def)

lemma tcount_filter: "(\<And>r. P r \<Longrightarrow> Q r) \<Longrightarrow> tcount P (filter (\<lambda>kr. Q (snd kr)) t) = tcount P t"
  by (induction t) (auto simp: tcount_def)

lemma tcount_filter_le: "tcount P (filter Q t) \<le> tcount P t"
  by (induction t) (auto simp: tcount_def)

text \<open>The first row with a property, as a query on a unique column finds it.\<close>

definition tfind :: "('r \<Rightarrow> bool) \<Rightarrow> 'r table \<Rightarrow> (nat \<times> 'r) option" where
  "tfind P t = List.find (\<lambda>kr. P (snd kr)) t"

lemma tfind_Some: "tfind P t = Some (k, r) \<Longrightarrow> tok t \<Longrightarrow> tget t k = Some r \<and> P r"
proof -
  assume "tfind P t = Some (k, r)" "tok t"
  then have "\<exists>i<length t. P (snd (t ! i)) \<and> t ! i = (k, r)"
    unfolding tfind_def find_Some_iff by metis
  then obtain i where "i < length t" "P (snd (t ! i))" "t ! i = (k, r)" by blast
  then have "(k, r) \<in> set t" "P r" by (metis nth_mem, metis snd_conv)
  with \<open>tok t\<close> show ?thesis by (simp add: tget_iff)
qed

lemma tfind_None: "tfind P t = None \<Longrightarrow> tget t k = Some r \<Longrightarrow> \<not> P r"
  by (fastforce simp: tfind_def find_None_iff dest: tget_in_set)

lemma tfind_unique:
  assumes "tok t" "tget t k = Some r" "P r"
    and "\<And>j q. tget t j = Some q \<Longrightarrow> P q \<Longrightarrow> j = k"
  shows "tfind P t = Some (k, r)"
proof (cases "tfind P t")
  case None
  from tfind_None [OF None assms(2)] assms(3) show ?thesis by simp
next
  case (Some jq)
  obtain j q where jq: "jq = (j, q)" by (cases jq)
  from tfind_Some [OF Some [unfolded jq] assms(1)] assms(2,4) Some show ?thesis by (auto simp: jq)
qed

text \<open>
  The contract of a table, as the services rely on it: what a lookup returns after a
  write, that a write keeps keys unique, and how a write changes the number of rows with
  a property. The client lemmas are the four ways a service writes one row.
\<close>

locale table_store =
  fixes get :: "'t \<Rightarrow> nat \<Rightarrow> 'r option"
    and put :: "nat \<Rightarrow> 'r \<Rightarrow> 't \<Rightarrow> 't"
    and count :: "('r \<Rightarrow> bool) \<Rightarrow> 't \<Rightarrow> nat"
    and ok :: "'t \<Rightarrow> bool"
  assumes get_put: "get (put k r t) j = (if j = k then Some r else get t j)"
    and ok_put: "ok t \<Longrightarrow> ok (put k r t)"
    and put_balance: "ok t \<Longrightarrow> count P (put k r t)
        + (case get t k of None \<Rightarrow> 0 | Some q \<Rightarrow> of_bool (P q)) = count P t + of_bool (P r)"
    and count_pos: "get t k = Some r \<Longrightarrow> P r \<Longrightarrow> 0 < count P t"
begin

lemma count_insert:
  "ok t \<Longrightarrow> get t k = None \<Longrightarrow> count P (put k r t) = count P t + of_bool (P r)"
  using put_balance [of t P k r] by simp

lemma count_same:
  "ok t \<Longrightarrow> get t k = Some q \<Longrightarrow> P q = P r \<Longrightarrow> count P (put k r t) = count P t"
  using put_balance [of t P k r] by simp

lemma count_leave:
  "ok t \<Longrightarrow> get t k = Some q \<Longrightarrow> P q \<Longrightarrow> \<not> P r \<Longrightarrow> count P (put k r t) = count P t - 1"
  using put_balance [of t P k r] by simp

lemma count_leave_Suc:
  "ok t \<Longrightarrow> get t k = Some q \<Longrightarrow> P q \<Longrightarrow> \<not> P r \<Longrightarrow> Suc (count P (put k r t)) = count P t"
  using put_balance [of t P k r] by simp

lemma count_enter:
  "ok t \<Longrightarrow> get t k = Some q \<Longrightarrow> \<not> P q \<Longrightarrow> P r \<Longrightarrow> count P (put k r t) = Suc (count P t)"
  using put_balance [of t P k r] by simp

lemma count_absent:
  "ok t \<Longrightarrow> \<not> P r \<Longrightarrow> count P t = 0 \<Longrightarrow> count P (put k r t) = 0"
  using put_balance [of t P k r] by simp

end

interpretation tbl: table_store tget tput tcount tok
  by unfold_locales (simp_all add: tget_tput tok_tput tput_balance tcount_pos)

lemma tupdate_where_Nil [simp]: "tupdate_where P f [] = []"
  by (simp add: tupdate_where_def)

lemma tget_tupdate_where [table_simps]:
  "tget (tupdate_where P f t) k = map_option (\<lambda>r. if P r then f r else r) (tget t k)"
  by (induction t) (auto simp: tget_def tupdate_where_def)

lemma tok_tupdate_where [table_simps]: "tok (tupdate_where P f t) = tok t"
proof -
  have "map fst (tupdate_where P f t) = map fst t"
    by (induction t) (auto simp: tupdate_where_def)
  then show ?thesis by (simp add: tok_def)
qed

lemma tcount_tupdate_where:
  "(\<And>r. P r \<Longrightarrow> Q (f r) = Q r) \<Longrightarrow> tcount Q (tupdate_where P f t) = tcount Q t"
proof (induction t)
  case Nil
  show ?case by simp
next
  case (Cons x t)
  have "tupdate_where P f (x # t) = (fst x, if P (snd x) then f (snd x) else snd x) # tupdate_where P f t"
    by (simp add: tupdate_where_def split: prod.splits)
  with Cons show ?case by (cases x) (simp add: tcount_Cons)
qed

section \<open>Runs of a transactional service\<close>

text \<open>
  Every service function of the program runs in one \<open>transaction.atomic()\<close> block: it
  either commits a new state or raises and rolls back. A sequence of calls is a list of
  operations; a call that raises leaves the state as it was.
\<close>

definition commit :: "'s \<Rightarrow> 'e + 's \<Rightarrow> 's" where
  "commit s r = (case r of Inl e \<Rightarrow> s | Inr s' \<Rightarrow> s')"

lemma commit_simps [simp]: "commit s (Inl e) = s" "commit s (Inr s') = s'"
  by (simp_all add: commit_def)

fun run_ops :: "('s \<Rightarrow> 'o \<Rightarrow> 'e + 's) \<Rightarrow> 's \<Rightarrow> 'o list \<Rightarrow> 's" where
  "run_ops step s [] = s"
| "run_ops step s (x # xs) = run_ops step (commit s (step s x)) xs"

lemma run_ops_append: "run_ops step s (xs @ ys) = run_ops step (run_ops step s xs) ys"
  by (induction xs arbitrary: s) auto

text \<open>
  \<open>good s x\<close> is what the caller owes an operation \<open>x\<close> in state \<open>s\<close> (an
  argument the caller validated, an instance it has just read); \<open>ops_ok\<close> says that
  every call of a run meets it.
\<close>

fun ops_ok :: "('s \<Rightarrow> 'o \<Rightarrow> bool) \<Rightarrow> ('s \<Rightarrow> 'o \<Rightarrow> 'e + 's) \<Rightarrow> 's \<Rightarrow> 'o list \<Rightarrow> bool" where
  "ops_ok good step s [] = True"
| "ops_ok good step s (x # xs) =
     (good s x \<and> ops_ok good step (commit s (step s x)) xs)"

lemma ops_ok_True [simp]: "ops_ok (\<lambda>_ _. True) step s xs"
  by (induction xs arbitrary: s) auto

lemma ops_ok_append:
  "ops_ok good step s (xs @ ys)
     \<longleftrightarrow> ops_ok good step s xs \<and> ops_ok good step (run_ops step s xs) ys"
  by (induction xs arbitrary: s) auto

locale step_system =
  fixes step :: "'s \<Rightarrow> 'o \<Rightarrow> 'e + 's"
    and good :: "'s \<Rightarrow> 'o \<Rightarrow> bool"
    and inv :: "'s \<Rightarrow> bool"
  assumes inv_step: "inv s \<Longrightarrow> good s x \<Longrightarrow> step s x = Inr s' \<Longrightarrow> inv s'"
begin

lemma inv_commit: "inv s \<Longrightarrow> good s x \<Longrightarrow> inv (commit s (step s x))"
  by (cases "step s x") (auto intro: inv_step)

lemma inv_run: "inv s \<Longrightarrow> ops_ok good step s xs \<Longrightarrow> inv (run_ops step s xs)"
  by (induction xs arbitrary: s) (auto intro: inv_commit)

end

text \<open>
  A system with a preorder on states that every committed step follows: a log that only
  grows, a generation that never falls, a terminal row that never changes again.
\<close>

locale monotone_system = step_system step good inv
  for step :: "'s \<Rightarrow> 'o \<Rightarrow> 'e + 's" and good :: "'s \<Rightarrow> 'o \<Rightarrow> bool" and inv :: "'s \<Rightarrow> bool" +
  fixes rel :: "'s \<Rightarrow> 's \<Rightarrow> bool"
  assumes rel_refl: "rel s s"
    and rel_trans: "rel s t \<Longrightarrow> rel t u \<Longrightarrow> rel s u"
    and rel_step: "inv s \<Longrightarrow> good s x \<Longrightarrow> step s x = Inr s' \<Longrightarrow> rel s s'"
begin

lemma rel_commit: "inv s \<Longrightarrow> good s x \<Longrightarrow> rel s (commit s (step s x))"
  by (cases "step s x") (auto intro: rel_step rel_refl)

lemma rel_run: "inv s \<Longrightarrow> ops_ok good step s xs \<Longrightarrow> rel s (run_ops step s xs)"
proof (induction xs arbitrary: s)
  case Nil
  show ?case by (simp add: rel_refl)
next
  case (Cons x xs)
  let ?s' = "commit s (step s x)"
  from Cons.prems have "inv ?s'" by (auto intro: inv_commit)
  with Cons.prems have "rel ?s' (run_ops step ?s' xs)" by (auto intro: Cons.IH)
  with Cons.prems show ?case by (auto intro: rel_trans rel_commit)
qed

end

lemma map_sum_Inr_iff: "map_sum f g r = Inr y \<longleftrightarrow> (\<exists>x. r = Inr x \<and> y = g x)"
  by (cases r) auto

section \<open>Strings\<close>

text \<open>
  Strings are lists of code points below 256. \<open>py_strip\<close> is \<open>str.strip\<close> on them:
  the white space is what \<open>str.isspace\<close> accepts in that range.
\<close>

definition py_space :: "char \<Rightarrow> bool" where
  "py_space c \<longleftrightarrow> (let n = (of_char c :: nat) in
     9 \<le> n \<and> n \<le> 13 \<or> 28 \<le> n \<and> n \<le> 32 \<or> n = 133 \<or> n = 160)"

definition py_strip :: "string \<Rightarrow> string" where
  "py_strip s = rev (dropWhile py_space (rev (dropWhile py_space s)))"

lemma py_strip_Nil [simp]: "py_strip [] = []"
  by (simp add: py_strip_def)

lemma py_strip_eq_Nil: "py_strip s = [] \<longleftrightarrow> (\<forall>c\<in>set s. py_space c)"
proof -
  have "py_strip s = [] \<longleftrightarrow> (\<forall>c\<in>set (dropWhile py_space s). py_space c)"
    by (auto simp: py_strip_def)
  also have "\<dots> \<longleftrightarrow> (\<forall>c\<in>set s. py_space c)"
    by (induction s) auto
  finally show ?thesis .
qed

text \<open>\<open>str.lower\<close> on code points below 256.\<close>

definition py_lower :: "string \<Rightarrow> string" where
  "py_lower = map (\<lambda>c. let n = (of_char c :: nat) in
     if 65 \<le> n \<and> n \<le> 90 \<or> 192 \<le> n \<and> n \<le> 222 \<and> n \<noteq> 215 then char_of (n + 32) else c)"

text \<open>Decimal notation of a natural number, as an f-string prints it.\<close>

fun show_nat :: "nat \<Rightarrow> string" where
  "show_nat n = (if n < 10 then [char_of (48 + n)]
     else show_nat (n div 10) @ [char_of (48 + n mod 10)])"

declare show_nat.simps [simp del]

section \<open>Users\<close>

text \<open>
  What the services read of a user. An actor that is Python's \<open>None\<close> is \<open>None\<close>;
  \<open>getattr(actor, 'is_staff', False)\<close> is then false.
\<close>

record user =
  u_pk :: nat
  u_is_staff :: bool
  u_display_name :: string

definition actor_is_staff :: "user option \<Rightarrow> bool" where
  "actor_is_staff a \<longleftrightarrow> (case a of None \<Rightarrow> False | Some u \<Rightarrow> u_is_staff u)"

lemma actor_is_staff_simps [simp]:
  "\<not> actor_is_staff None" "actor_is_staff (Some u) = u_is_staff u"
  by (simp_all add: actor_is_staff_def)

end
