(* ===== verification/AuditChain.thy ===== *)
theory AuditChain
  imports Prelude
begin

text \<open>
  The append-only audit log of \<open>apps/audit\<close>: the entry and its hash
  (\<open>AuditLogEntry\<close>), the writers (\<open>record_event\<close>,
  \<open>record_event_from_request\<close>), the batched verifier (\<open>verify_chain\<close>) and the
  exit code of the \<open>verify_audit_chain\<close> command. Two things are not code of the
  repository and are parameters: the digest \<open>h\<close> (SHA-256 over the JSON text of the
  payload) and \<open>ipc\<close>, what the IP address column gives back for a stored value.
\<close>

section \<open>Entries and hashes\<close>

datatype json =
    JNull
  | JBool bool
  | JNum int
  | JStr string
  | JArr "json list"
  | JObj "(string \<times> json) list"

datatype audit_outcome = Success | Failure

record audit_payload =
  ap_event_type :: string
  ap_outcome :: audit_outcome
  ap_actor_id :: "string option"
  ap_actor_ip :: "string option"
  ap_resource_type :: string
  ap_resource_id :: string
  ap_event_detail :: json
  ap_prev_hash :: string

record audit_entry =
  aid :: nat
  event_type :: string
  outcome :: audit_outcome
  actor_id :: "string option"
  actor_email :: string
  actor_ip :: "string option"
  actor_user_agent :: string
  resource_type :: string
  resource_id :: string
  before_state :: "json option"
  after_state :: "json option"
  event_detail :: json
  request_id :: string
  session_id :: string
  prev_hash :: string
  entry_hash :: string

definition payload_of :: "audit_entry \<Rightarrow> audit_payload" where
  "payload_of e = \<lparr>ap_event_type = event_type e, ap_outcome = outcome e,
     ap_actor_id = actor_id e, ap_actor_ip = actor_ip e,
     ap_resource_type = resource_type e, ap_resource_id = resource_id e,
     ap_event_detail = event_detail e, ap_prev_hash = prev_hash e\<rparr>"

definition compute_hash :: "(audit_payload \<Rightarrow> string) \<Rightarrow> audit_entry \<Rightarrow> string" where
  "compute_hash h e = h (payload_of e)"

section \<open>Saving, deleting\<close>

text \<open>
  The log is the table of entries in the order of their ids, with the value the id
  sequence will give next. A model instance has an id once it was saved; \<open>save\<close>
  refuses an instance with a (truthy) id and \<open>delete\<close> refuses always.
\<close>

record audit_log =
  entries :: "audit_entry list"
  next_id :: nat

datatype audit_error = ImmutableUpdate nat | ImmutableDelete

definition save_entry ::
  "(audit_payload \<Rightarrow> string) \<Rightarrow> (string option \<Rightarrow> string option) \<Rightarrow> audit_log \<Rightarrow> nat option
     \<Rightarrow> audit_entry \<Rightarrow> audit_error + audit_log \<times> audit_entry" where
  "save_entry h ipc l pk e =
     (if pk \<noteq> None \<and> pk \<noteq> Some 0 then Inl (ImmutableUpdate (the pk))
      else let e' = e\<lparr>entry_hash := compute_hash h e, aid := next_id l\<rparr>
           in Inr (l\<lparr>entries := entries l @ [e'\<lparr>actor_ip := ipc (actor_ip e)\<rparr>],
                     next_id := Suc (next_id l)\<rparr>, e'))"

definition delete_entry :: "audit_log \<Rightarrow> nat \<Rightarrow> audit_error + audit_log" where
  "delete_entry l k = Inl ImmutableDelete"

section \<open>Recording events\<close>

record event_args =
  ea_event_type :: string
  ea_outcome :: audit_outcome
  ea_actor_id :: "string option"
  ea_actor_email :: string
  ea_actor_ip :: "string option"
  ea_actor_user_agent :: "string option"
  ea_resource_type :: string
  ea_resource_id :: string
  ea_before_state :: "json option"
  ea_after_state :: "json option"
  ea_event_detail :: "json option"
  ea_request_id :: "string option"
  ea_session_id :: string

text \<open>The hash of the entry with the greatest id, or the empty string.\<close>

definition last_hash :: "audit_log \<Rightarrow> string" where
  "last_hash l = (case rev (entries l) of [] \<Rightarrow> '''' | e # _ \<Rightarrow> entry_hash e)"

text \<open>\<open>event_detail or {}\<close>: a missing detail becomes the empty object.\<close>

definition or_empty_obj :: "json option \<Rightarrow> json" where
  "or_empty_obj d = (case d of None \<Rightarrow> JObj [] | Some j \<Rightarrow> j)"

definition or_blank :: "string option \<Rightarrow> string" where
  "or_blank s = (case s of None \<Rightarrow> '''' | Some x \<Rightarrow> x)"

definition new_entry :: "event_args \<Rightarrow> string \<Rightarrow> audit_entry" where
  "new_entry a prev = \<lparr>aid = 0, event_type = ea_event_type a, outcome = ea_outcome a,
     actor_id = ea_actor_id a, actor_email = ea_actor_email a, actor_ip = ea_actor_ip a,
     actor_user_agent = or_blank (ea_actor_user_agent a), resource_type = ea_resource_type a,
     resource_id = ea_resource_id a, before_state = ea_before_state a,
     after_state = ea_after_state a, event_detail = or_empty_obj (ea_event_detail a),
     request_id = or_blank (ea_request_id a), session_id = ea_session_id a,
     prev_hash = prev, entry_hash = ''''\<rparr>"

text \<open>
  \<open>db_ok\<close> says whether the database takes the write. It never does when the user agent
  or the request id is Python's \<open>None\<close>, since those columns are not nullable. A failure
  is swallowed: the function returns no entry and the log is as before (the id sequence
  may have moved).
\<close>

definition nonnull_args :: "event_args \<Rightarrow> bool" where
  "nonnull_args a \<longleftrightarrow> ea_actor_user_agent a \<noteq> None \<and> ea_request_id a \<noteq> None"

definition record_event ::
  "(audit_payload \<Rightarrow> string) \<Rightarrow> (string option \<Rightarrow> string option) \<Rightarrow> bool \<Rightarrow> audit_log \<Rightarrow> event_args
     \<Rightarrow> audit_log \<times> audit_entry option" where
  "record_event h ipc db_ok l a =
     (if \<not> (db_ok \<and> nonnull_args a) then (l\<lparr>next_id := Suc (next_id l)\<rparr>, None)
      else case save_entry h ipc l None (new_entry a (last_hash l)) of
             Inl e \<Rightarrow> (l, None)
           | Inr (l', e) \<Rightarrow> (l', Some e))"

text \<open>
  The wrapper used by views. \<open>rq_context\<close> is \<open>request.audit_context\<close> when that is
  a dict: a key is absent (\<open>None\<close>) or has a value that may be Python's
  \<open>None\<close>. \<open>rq_user\<close> is the authenticated user (pk, email), if there is one.
\<close>

record audit_request =
  rq_context :: "(string \<rightharpoonup> string option) option"
  rq_user :: "(string \<times> string) option"
  rq_session_key :: "string option"

datatype email_arg = Unset | Given string

definition ctx_get :: "(string \<rightharpoonup> string option) \<Rightarrow> string \<Rightarrow> string option \<Rightarrow> string option" where
  "ctx_get c k d = (case c k of None \<Rightarrow> d | Some v \<Rightarrow> v)"

definition truthy_str :: "string option \<Rightarrow> bool" where
  "truthy_str s \<longleftrightarrow> s \<noteq> None \<and> s \<noteq> Some ''''"

definition request_args :: "audit_request \<Rightarrow> email_arg \<Rightarrow> event_args \<Rightarrow> event_args" where
  "request_args rq em a =
     (let c = (case rq_context rq of None \<Rightarrow> Map.empty | Some m \<Rightarrow> m)
      in a\<lparr>ea_actor_id := (if truthy_str (ctx_get c ''actor_id'' None)
                           then ctx_get c ''actor_id'' None
                           else map_option fst (rq_user rq)),
          ea_actor_email := (case em of Given e \<Rightarrow> e
             | Unset \<Rightarrow> (case rq_user rq of Some (_, mail) \<Rightarrow> mail | None \<Rightarrow> '''')),
          ea_actor_ip := ctx_get c ''actor_ip'' (Some ''''),
          ea_actor_user_agent := ctx_get c ''actor_user_agent'' (Some ''''),
          ea_request_id := ctx_get c ''request_id'' (Some ''''),
          ea_session_id := or_blank (rq_session_key rq)\<rparr>)"

definition record_event_from_request where
  "record_event_from_request h ipc db_ok l rq em a =
     record_event h ipc db_ok l (request_args rq em a)"

section \<open>Verification\<close>

datatype violation_reason =
    PrevHashMismatch string string
  | EntryHashMismatch string string

record chain_result =
  cr_ok :: bool
  cr_checked :: nat
  cr_violations :: "(nat \<times> violation_reason) list"

definition clean_result :: chain_result where
  "clean_result = \<lparr>cr_ok = True, cr_checked = 0, cr_violations = []\<rparr>"

definition add_violation :: "chain_result \<Rightarrow> nat \<Rightarrow> violation_reason \<Rightarrow> chain_result" where
  "add_violation r k why =
     r\<lparr>cr_ok := False, cr_violations := cr_violations r @ [(k, why)]\<rparr>"

text \<open>One row of the loop: the linkage check, then the hash check on the stored fields.\<close>

definition check_row ::
  "(audit_payload \<Rightarrow> string) \<Rightarrow> audit_entry \<Rightarrow> string \<times> chain_result \<Rightarrow> string \<times> chain_result" where
  "check_row h e st = (case st of (expected, r) \<Rightarrow>
     let r1 = r\<lparr>cr_checked := Suc (cr_checked r)\<rparr>;
         r2 = (if prev_hash e \<noteq> expected
               then add_violation r1 (aid e) (PrevHashMismatch expected (prev_hash e)) else r1);
         recomputed = h (payload_of e);
         r3 = (if entry_hash e \<noteq> recomputed
               then add_violation r2 (aid e) (EntryHashMismatch (entry_hash e) recomputed) else r2)
     in (entry_hash e, r3))"

text \<open>
  The streaming loop: fetch rows \<open>[off, off + bs)\<close>, stop at the first empty batch. With
  a batch size of 0 the first fetch is already empty.
\<close>

function verify_batches ::
  "(audit_payload \<Rightarrow> string) \<Rightarrow> nat \<Rightarrow> audit_entry list \<Rightarrow> nat \<Rightarrow> string \<times> chain_result
     \<Rightarrow> chain_result" where
  "verify_batches h bs qs off st =
     (let batch = take bs (drop off qs)
      in if batch = [] then snd st
         else verify_batches h bs qs (off + bs) (fold (check_row h) batch st))"
  by pat_completeness auto
termination
  by (relation "measure (\<lambda>(h, bs, qs, off, st). length qs - off)") auto

declare verify_batches.simps [simp del]

definition in_range :: "nat option \<Rightarrow> nat option \<Rightarrow> audit_entry \<Rightarrow> bool" where
  "in_range a b e \<longleftrightarrow> (case a of None \<Rightarrow> True | Some s \<Rightarrow> s \<le> aid e)
     \<and> (case b of None \<Rightarrow> True | Some t \<Rightarrow> aid e \<le> t)"

definition verify_chain ::
  "(audit_payload \<Rightarrow> string) \<Rightarrow> audit_log \<Rightarrow> nat option \<Rightarrow> nat option \<Rightarrow> nat \<Rightarrow> chain_result" where
  "verify_chain h l start_id end_id batch_size =
     verify_batches h batch_size (filter (in_range start_id end_id) (sort_key aid (entries l)))
       0 ('''', clean_result)"

text \<open>The exit code of \<open>verify_audit_chain\<close>: 0 when the chain is intact, else 1.\<close>

definition command_exit ::
  "(audit_payload \<Rightarrow> string) \<Rightarrow> audit_log \<Rightarrow> nat option \<Rightarrow> nat option \<Rightarrow> nat \<Rightarrow> nat" where
  "command_exit h l start_id end_id batch_size =
     (if cr_ok (verify_chain h l start_id end_id batch_size) then 0 else 1)"

section \<open>What the verifier computes\<close>

text \<open>The reference: a linked list of rows, read off the rows without the loop.\<close>

fun chained :: "(audit_payload \<Rightarrow> string) \<Rightarrow> string \<Rightarrow> audit_entry list \<Rightarrow> bool" where
  "chained h p [] = True"
| "chained h p (e # es) =
     (prev_hash e = p \<and> entry_hash e = h (payload_of e) \<and> chained h (entry_hash e) es)"

definition stored_rows :: "audit_log \<Rightarrow> audit_entry list" where
  "stored_rows l = sort_key aid (entries l)"

lemma verify_batches_fold:
  "0 < bs \<Longrightarrow> verify_batches h bs qs off st = snd (fold (check_row h) (drop off qs) st)"
proof (induction h bs qs off st rule: verify_batches.induct)
  case (1 h bs qs off st)
  show ?case
  proof (cases "take bs (drop off qs) = []")
    case True
    with 1 show ?thesis by (subst verify_batches.simps) auto
  next
    case False
    let ?b = "take bs (drop off qs)"
    have split: "drop off qs = ?b @ drop (off + bs) qs"
      by (metis add.commute append_take_drop_id drop_drop)
    from False have "verify_batches h bs qs off st
        = verify_batches h bs qs (off + bs) (fold (check_row h) ?b st)"
      by (subst verify_batches.simps) (simp add: Let_def)
    also have "\<dots> = snd (fold (check_row h) (drop (off + bs) qs) (fold (check_row h) ?b st))"
      using 1 False by simp
    also have "\<dots> = snd (fold (check_row h) (drop off qs) st)"
      by (subst (2) split) simp
    finally show ?thesis .
  qed
qed

lemma fold_check_ok:
  "cr_ok (snd (fold (check_row h) es (p, r))) \<longleftrightarrow> cr_ok r \<and> chained h p es"
  by (induction es arbitrary: p r) (auto simp: check_row_def Let_def add_violation_def)

lemma fold_check_count:
  "cr_checked (snd (fold (check_row h) es (p, r))) = cr_checked r + length es"
  by (induction es arbitrary: p r) (auto simp: check_row_def Let_def add_violation_def)

lemma fold_check_violations:
  "cr_ok r = (cr_violations r = []) \<Longrightarrow>
     cr_ok (snd (fold (check_row h) es (p, r)))
       = (cr_violations (snd (fold (check_row h) es (p, r))) = [])"
  by (induction es arbitrary: p r) (auto simp: check_row_def Let_def add_violation_def)

lemma verify_chain_fold:
  "0 < bs \<Longrightarrow> verify_chain h l a b bs
     = snd (fold (check_row h) (filter (in_range a b) (stored_rows l)) ('''', clean_result))"
  by (simp add: verify_chain_def stored_rows_def verify_batches_fold)

lemma in_range_all [simp]: "in_range None None e"
  by (simp add: in_range_def)

lemma verify_chain_ok_iff:
  "0 < bs \<Longrightarrow> cr_ok (verify_chain h l a b bs)
     \<longleftrightarrow> chained h '''' (filter (in_range a b) (stored_rows l))"
  by (simp add: verify_chain_fold fold_check_ok clean_result_def)

lemma chained_append:
  "chained h p (xs @ ys) \<longleftrightarrow> chained h p xs
     \<and> chained h (case rev xs of [] \<Rightarrow> p | e # _ \<Rightarrow> entry_hash e) ys"
  by (induction xs arbitrary: p) (auto split: list.splits)

lemma chained_last:
  "chained h p xs \<Longrightarrow> xs \<noteq> [] \<Longrightarrow> entry_hash (last xs) = h (payload_of (last xs))"
  by (induction xs arbitrary: p) auto

section \<open>The log the writers produce\<close>

definition log_ordered :: "audit_log \<Rightarrow> bool" where
  "log_ordered l \<longleftrightarrow> sorted_wrt (<) (map aid (entries l)) \<and> (\<forall>e\<in>set (entries l). aid e < next_id l)"

definition log_inv :: "(audit_payload \<Rightarrow> string) \<Rightarrow> audit_log \<Rightarrow> bool" where
  "log_inv h l \<longleftrightarrow> log_ordered l \<and> chained h '''' (entries l)"

definition empty_log :: audit_log where
  "empty_log = \<lparr>entries = [], next_id = 1\<rparr>"

lemma stored_rows_ordered: "log_ordered l \<Longrightarrow> stored_rows l = entries l"
proof -
  assume "log_ordered l"
  then have "sorted (map aid (entries l))"
    by (auto simp: log_ordered_def strict_sorted_iff)
  then show ?thesis by (simp add: stored_rows_def sort_key_id_if_sorted)
qed

lemma record_event_cases:
  obtains (fails) "record_event h ipc ok l a = (l\<lparr>next_id := Suc (next_id l)\<rparr>, None)"
  | (written) e where "record_event h ipc ok l a
        = (l\<lparr>entries := entries l @ [e\<lparr>actor_ip := ipc (ea_actor_ip a)\<rparr>],
             next_id := Suc (next_id l)\<rparr>, Some e)"
      and "aid e = next_id l" and "actor_ip e = ea_actor_ip a"
      and "prev_hash e = last_hash l" and "entry_hash e = h (payload_of e)"
  by (cases "ok \<and> nonnull_args a")
    (auto simp: record_event_def save_entry_def Let_def compute_hash_def payload_of_def
      new_entry_def)

lemma record_event_ordered:
  "log_ordered l \<Longrightarrow> log_ordered (fst (record_event h ipc ok l a))"
  by (rule record_event_cases [of h ipc ok l a])
    (auto simp: log_ordered_def sorted_wrt_append less_Suc_eq)

lemma chained_snoc:
  "chained h '''' (entries l @ [e]) \<longleftrightarrow> chained h '''' (entries l)
     \<and> prev_hash e = last_hash l \<and> entry_hash e = h (payload_of e)"
  by (simp add: chained_append last_hash_def split: list.split)

lemma record_event_inv:
  assumes inv: "log_inv h l" and ip: "ipc (ea_actor_ip a) = ea_actor_ip a"
  shows "log_inv h (fst (record_event h ipc ok l a))"
proof -
  have "chained h '''' (entries (fst (record_event h ipc ok l a)))"
  proof (rule record_event_cases [of h ipc ok l a])
    assume "record_event h ipc ok l a = (l\<lparr>next_id := Suc (next_id l)\<rparr>, None)"
    then show ?thesis using inv by (simp add: log_inv_def)
  next
    fix e
    assume r: "record_event h ipc ok l a
        = (l\<lparr>entries := entries l @ [e\<lparr>actor_ip := ipc (ea_actor_ip a)\<rparr>],
             next_id := Suc (next_id l)\<rparr>, Some e)"
      and e: "actor_ip e = ea_actor_ip a" "prev_hash e = last_hash l"
        "entry_hash e = h (payload_of e)"
    have "e\<lparr>actor_ip := ipc (ea_actor_ip a)\<rparr> = e"
      by (cases e) (use ip e(1) in simp)
    with r e inv show ?thesis by (simp add: log_inv_def chained_snoc)
  qed
  with inv show ?thesis by (simp add: log_inv_def record_event_ordered)
qed

section \<open>The log as a system\<close>

text \<open>
  One call of \<open>record_event\<close> as a step. The caller owes it an IP address that the
  column gives back as it was stored.
\<close>

definition audit_step ::
  "(audit_payload \<Rightarrow> string) \<Rightarrow> (string option \<Rightarrow> string option) \<Rightarrow> audit_log
     \<Rightarrow> bool \<times> event_args \<Rightarrow> audit_error + audit_log" where
  "audit_step h ipc l x = Inr (fst (record_event h ipc (fst x) l (snd x)))"

definition ip_kept :: "(string option \<Rightarrow> string option) \<Rightarrow> audit_log \<Rightarrow> bool \<times> event_args \<Rightarrow> bool" where
  "ip_kept ipc l x \<longleftrightarrow> ipc (ea_actor_ip (snd x)) = ea_actor_ip (snd x)"

definition log_extends :: "audit_log \<Rightarrow> audit_log \<Rightarrow> bool" where
  "log_extends l l' \<longleftrightarrow> prefix (entries l) (entries l')"

lemma record_event_extends: "log_extends l (fst (record_event h ipc ok l a))"
  by (rule record_event_cases [of h ipc ok l a]) (simp_all add: log_extends_def)

interpretation audit: step_system "audit_step h ipc" "ip_kept ipc" "log_inv h" for h ipc
  by unfold_locales (auto simp: audit_step_def ip_kept_def intro: record_event_inv)

interpretation audit_grow: monotone_system "audit_step h ipc" "\<lambda>_ _. True" log_ordered log_extends
  for h ipc
  by unfold_locales
    (auto simp: audit_step_def log_extends_def intro: record_event_ordered
      record_event_extends [unfolded log_extends_def])

lemma empty_log_inv [simp]: "log_inv h empty_log" "log_ordered empty_log"
  by (simp_all add: log_inv_def log_ordered_def empty_log_def)

lemma verify_log_inv: "log_inv h l \<Longrightarrow> 0 < bs \<Longrightarrow> cr_ok (verify_chain h l None None bs)"
  by (simp add: verify_chain_ok_iff stored_rows_ordered log_inv_def)

section \<open>Binding\<close>

text \<open>
  A digest without collisions on the rows at hand, and never the empty string, lets the
  last digest of a linked log determine every hashed field of every row, and the number
  of rows.
\<close>

lemma chained_binding_any_length:
  assumes "chained h p xs" and "chained h p ys" and "\<And>q. h q \<noteq> p"
    and "inj_on h (payload_of ` (set xs \<union> set ys))"
    and "(case rev xs of [] \<Rightarrow> p | e # _ \<Rightarrow> entry_hash e)
       = (case rev ys of [] \<Rightarrow> p | e # _ \<Rightarrow> entry_hash e)"
  shows "map payload_of xs = map payload_of ys"
  using assms
proof (induction xs arbitrary: ys rule: rev_induct)
  case Nil
  then show ?case by (cases ys rule: rev_cases) (auto simp: chained_append)
next
  case (snoc x xs)
  from snoc.prems obtain y zs where ys: "ys = zs @ [y]"
    by (cases ys rule: rev_cases) (auto simp: chained_append)
  from snoc.prems have "h (payload_of x) = h (payload_of y)"
    by (simp add: ys chained_append)
  then have xy: "payload_of x = payload_of y"
    by (rule inj_onD [OF snoc.prems(4)]) (auto simp: ys)
  then have "prev_hash x = prev_hash y" by (simp add: payload_of_def)
  moreover have "inj_on h (payload_of ` (set xs \<union> set zs))"
    using snoc.prems(4) by (rule inj_on_subset) (auto simp: ys)
  ultimately have "map payload_of xs = map payload_of zs"
    using snoc.prems(1-3) by (intro snoc.IH) (auto simp: ys chained_append)
  with xy show ?case by (simp add: ys)
qed

section \<open>Properties\<close>

text \<open>A digest and events for the witnesses: the digest is injective on what they store.\<close>

definition toy_digest :: "audit_payload \<Rightarrow> string" where
  "toy_digest q = CHR ''#'' # ap_event_type q
     @ (case ap_actor_ip q of None \<Rightarrow> ''-'' | Some i \<Rightarrow> CHR ''+'' # i) @ ap_prev_hash q"

definition inet_column :: "string option \<Rightarrow> string option" where
  "inet_column ip = (if ip = Some '''' then None else ip)"

definition login_args :: event_args where
  "login_args = \<lparr>ea_event_type = ''auth.login.success'', ea_outcome = Success,
     ea_actor_id = Some ''7'', ea_actor_email = '''', ea_actor_ip = Some ''10.0.0.1'',
     ea_actor_user_agent = Some ''ua'', ea_resource_type = '''', ea_resource_id = '''',
     ea_before_state = None, ea_after_state = None, ea_event_detail = None,
     ea_request_id = Some ''r1'', ea_session_id = ''''\<rparr>"

definition logout_args :: event_args where
  "logout_args = login_args\<lparr>ea_event_type := ''auth.logout''\<rparr>"

definition sample_log :: audit_log where
  "sample_log = run_ops (audit_step toy_digest inet_column) empty_log
     [(True, login_args), (False, login_args), (True, logout_args)]"

lemma sample_log_inv: "log_inv toy_digest sample_log"
  unfolding sample_log_def
  by (rule audit.inv_run) (simp_all add: ip_kept_def inet_column_def login_args_def logout_args_def)

lemmas audit_eval = sample_log_def audit_step_def record_event_def nonnull_args_def save_entry_def
  new_entry_def compute_hash_def payload_of_def last_hash_def empty_log_def or_blank_def
  or_empty_obj_def login_args_def logout_args_def toy_digest_def inet_column_def Let_def

text \<open>
  C3. Every log the audit service produces verifies: start from the empty table and make
  any sequence of \<open>record_event\<close> calls, some of which the database may refuse; the
  \<open>verify_audit_chain\<close> command over the whole log then exits 0, for every batch size
  above 0. The callers' IP addresses must be ones the column stores unchanged.
\<close>

theorem audit_log_always_verifies:
  assumes "ops_ok (ip_kept ipc) (audit_step h ipc) empty_log xs" and "0 < bs"
  shows "command_exit h (run_ops (audit_step h ipc) empty_log xs) None None bs = 0"
  using audit.inv_run [OF empty_log_inv(1) assms(1)] assms(2)
  by (simp add: command_exit_def verify_log_inv)

theorem audit_log_always_verifies_witness:
  "command_exit toy_digest
     (run_ops (audit_step toy_digest inet_column) empty_log
        [(True, login_args), (False, login_args), (True, logout_args)]) None None 1 = 0"
  by (rule audit_log_always_verifies)
    (simp_all add: ip_kept_def inet_column_def login_args_def logout_args_def)

text \<open>
  The last stored digest binds the whole log. If two logs both pass the verifier and
  end in the same \<open>entry_hash\<close>, then they have the same number of rows and every hashed
  field of every row is the same, provided the digest has no collision among the rows of
  the two logs and is never the empty string. So an edit, an insertion, a reordering or
  a deletion that the verifier accepts changes the final digest.
\<close>

theorem audit_head_hash_binds_log:
  assumes "cr_ok (verify_chain h l None None bs)" and "cr_ok (verify_chain h l' None None bs')"
    and "0 < bs" and "0 < bs'" and "log_ordered l" and "log_ordered l'"
    and "last_hash l = last_hash l'" and "\<And>q. h q \<noteq> ''''"
    and "inj_on h (payload_of ` (set (entries l) \<union> set (entries l')))"
  shows "map payload_of (entries l) = map payload_of (entries l')"
proof (rule chained_binding_any_length)
  show "chained h '''' (entries l)" and "chained h '''' (entries l')"
    using assms(1-6) by (simp_all add: verify_chain_ok_iff stored_rows_ordered)
  show "(case rev (entries l) of [] \<Rightarrow> '''' | e # _ \<Rightarrow> entry_hash e)
      = (case rev (entries l') of [] \<Rightarrow> '''' | e # _ \<Rightarrow> entry_hash e)"
    using assms(7) by (simp add: last_hash_def)
qed (use assms in auto)

theorem audit_head_hash_binds_log_witness:
  "map payload_of (entries sample_log)
     = map payload_of (entries (sample_log\<lparr>entries := map (\<lambda>e. e\<lparr>actor_email := ''x''\<rparr>)
         (entries sample_log)\<rparr>))"
proof (rule audit_head_hash_binds_log [where h = toy_digest and bs = 1 and bs' = 2])
  show "cr_ok (verify_chain toy_digest sample_log None None 1)"
    by (rule verify_log_inv [OF sample_log_inv]) simp
  show "log_ordered sample_log"
    using sample_log_inv by (simp add: log_inv_def)
  have inv': "log_inv toy_digest (sample_log\<lparr>entries := map (\<lambda>e. e\<lparr>actor_email := ''x''\<rparr>)
         (entries sample_log)\<rparr>)"
    by (simp add: log_inv_def log_ordered_def audit_eval)
  then show "log_ordered (sample_log\<lparr>entries := map (\<lambda>e. e\<lparr>actor_email := ''x''\<rparr>)
         (entries sample_log)\<rparr>)" by (simp add: log_inv_def)
  from inv' show "cr_ok (verify_chain toy_digest (sample_log\<lparr>entries := map (\<lambda>e. e\<lparr>actor_email := ''x''\<rparr>)
         (entries sample_log)\<rparr>) None None 2)" by (rule verify_log_inv) simp
  show "inj_on toy_digest (payload_of ` (set (entries sample_log) \<union> set (entries (sample_log
      \<lparr>entries := map (\<lambda>e. e\<lparr>actor_email := ''x''\<rparr>) (entries sample_log)\<rparr>))))"
    by (simp add: audit_eval inj_on_def)
qed (simp_all add: audit_eval)

text \<open>
  C26. What the streaming verifier computes. For every batch size above 0 it counts each
  row of the range once, reports a violation exactly when it is not ok, and is ok exactly
  when the rows of the range, in the order of their ids, are linked from the empty string
  on and each stored digest is that of its row; so the batch size does not matter. With
  batch size 0 it checks nothing and reports a clean chain.
\<close>

theorem verify_chain_spec:
  "verify_chain h l a b 0 = clean_result \<and>
   (0 < bs \<longrightarrow>
     (let r = verify_chain h l a b bs; rows = filter (in_range a b) (stored_rows l)
      in cr_checked r = length rows \<and> (cr_ok r \<longleftrightarrow> cr_violations r = [])
         \<and> (cr_ok r \<longleftrightarrow> chained h '''' rows) \<and> r = verify_chain h l a b 1))"
proof (intro conjI impI)
  show "verify_chain h l a b 0 = clean_result"
    by (simp add: verify_chain_def verify_batches.simps [of _ 0])
next
  assume "0 < bs"
  moreover have "cr_ok clean_result = (cr_violations clean_result = [])"
    by (simp add: clean_result_def)
  ultimately show "let r = verify_chain h l a b bs; rows = filter (in_range a b) (stored_rows l)
      in cr_checked r = length rows \<and> (cr_ok r \<longleftrightarrow> cr_violations r = [])
         \<and> (cr_ok r \<longleftrightarrow> chained h '''' rows) \<and> r = verify_chain h l a b 1"
    by (simp add: Let_def verify_chain_fold fold_check_count fold_check_violations fold_check_ok
        flip: fold_check_violations) (simp add: clean_result_def)
qed

theorem verify_chain_spec_witness:
  "cr_checked (verify_chain toy_digest sample_log (Some 3) None 2) = 1 \<and>
   \<not> cr_ok (verify_chain toy_digest sample_log (Some 3) None 2)"
proof -
  have rows: "filter (in_range (Some 3) None) (stored_rows sample_log) = [entries sample_log ! 1]"
    by (simp add: stored_rows_def audit_eval in_range_def)
  have prev: "prev_hash (entries sample_log ! 1) \<noteq> ''''"
    by (simp add: audit_eval)
  show ?thesis
    using verify_chain_spec [of toy_digest sample_log "Some 3" None 2] prev
    unfolding Let_def rows by fastforce
qed

text \<open>
  Verifying from a start id reports tampering in an intact log: the loop expects the
  empty string before the first row of any range, so if some row precedes row \<open>e\<close>, the
  check of the range that starts at \<open>e\<close> fails on a log in which nothing was changed.
\<close>

theorem ranged_verification_false_alarm:
  assumes "log_inv h l" and "entries l = xs @ e # ys" and "xs \<noteq> []"
    and "\<And>q. h q \<noteq> ''''" and "0 < bs"
  shows "\<not> cr_ok (verify_chain h l (Some (aid e)) None bs)
     \<and> cr_ok (verify_chain h l None None bs)"
proof -
  from assms(1) have ord: "sorted_wrt (<) (map aid (xs @ e # ys))"
    by (simp add: log_inv_def log_ordered_def flip: assms(2))
  then have "filter (in_range (Some (aid e)) None) (xs @ e # ys) = e # ys"
    by (fastforce simp: in_range_def sorted_wrt_append filter_empty_conv filter_id_conv not_le
        intro: less_imp_le)
  moreover have "stored_rows l = xs @ e # ys"
    using assms(1,2) by (simp add: stored_rows_ordered log_inv_def)
  moreover from assms(1-3) have "\<exists>x. prev_hash e = h (payload_of x)"
    by (cases xs rule: rev_cases) (auto simp: log_inv_def chained_append)
  with assms(4) have "prev_hash e \<noteq> ''''" by metis
  ultimately show ?thesis
    using assms(4,5) verify_log_inv [OF assms(1,5)] by (simp add: verify_chain_ok_iff)
qed

theorem ranged_verification_false_alarm_witness:
  "\<not> cr_ok (verify_chain toy_digest sample_log (Some (aid (entries sample_log ! 1))) None 500)"
proof -
  have "entries sample_log = [entries sample_log ! 0] @ (entries sample_log ! 1) # []"
    by (simp add: audit_eval)
  then show ?thesis
    using ranged_verification_false_alarm [OF sample_log_inv, of "[entries sample_log ! 0]" _ "[]" 500]
    by (simp add: toy_digest_def)
qed

text \<open>
  A blank IP address breaks the chain. A request without an audit context is logged
  with the IP address \<open>''\<close>; the digest is taken over the blank string and the IP column
  stores NULL for it, so the verifier recomputes another digest and the command exits 1,
  although nobody changed the log.
\<close>

theorem blank_ip_breaks_chain:
  assumes "log_inv h l" and "rq_context rq = None" and "ipc (Some '''') = None"
    and "\<And>q q'. h q = h q' \<Longrightarrow> ap_actor_ip q = ap_actor_ip q'" and "0 < bs"
  shows "command_exit h (fst (record_event_from_request h ipc True l rq em a)) None None bs = 1"
proof -
  let ?a = "request_args rq em a"
  have args: "nonnull_args ?a" "ea_actor_ip ?a = Some ''''"
    using assms(2) by (simp_all add: request_args_def nonnull_args_def ctx_get_def)
  let ?e = "(new_entry ?a (last_hash l))\<lparr>entry_hash := compute_hash h (new_entry ?a (last_hash l)),
     aid := next_id l\<rparr>"
  let ?l = "fst (record_event_from_request h ipc True l rq em a)"
  have entries: "entries ?l = entries l @ [?e\<lparr>actor_ip := None\<rparr>]"
    using args assms(3)
    by (simp add: record_event_from_request_def record_event_def save_entry_def Let_def new_entry_def)
  have "h (payload_of (?e\<lparr>actor_ip := None\<rparr>)) \<noteq> entry_hash (?e\<lparr>actor_ip := None\<rparr>)"
    using args(2) by (auto simp: compute_hash_def payload_of_def new_entry_def dest!: assms(4))
  then have "\<not> chained h '''' (entries ?l)"
    by (simp add: entries chained_snoc)
  moreover have "log_ordered ?l"
    using assms(1) by (simp add: record_event_from_request_def record_event_ordered log_inv_def)
  ultimately show ?thesis
    using assms(5) by (simp add: command_exit_def verify_chain_ok_iff stored_rows_ordered)
qed

definition ip_digest :: "audit_payload \<Rightarrow> string" where
  "ip_digest q = (case ap_actor_ip q of None \<Rightarrow> ''-'' | Some i \<Rightarrow> CHR ''+'' # i)"

theorem blank_ip_breaks_chain_witness:
  "command_exit ip_digest (fst (record_event_from_request ip_digest inet_column True empty_log
     \<lparr>rq_context = None, rq_user = None, rq_session_key = None\<rparr> Unset login_args)) None None 500 = 1"
  by (rule blank_ip_breaks_chain)
    (auto simp: inet_column_def ip_digest_def split: option.splits)

text \<open>
  The log only grows: no sequence of service calls, whatever the arguments, changes,
  reorders or removes a stored row, and updating or deleting a row through the model is
  refused.
\<close>

theorem audit_log_append_only:
  "prefix (entries empty_log) (entries (run_ops (audit_step h ipc) empty_log xs)) \<and>
   prefix (entries (run_ops (audit_step h ipc) empty_log xs))
     (entries (run_ops (audit_step h ipc) empty_log (xs @ ys)))
   \<and> delete_entry l k = Inl ImmutableDelete
   \<and> save_entry h ipc l (Some (Suc k)) e = Inl (ImmutableUpdate (Suc k))"
proof -
  let ?m = "run_ops (audit_step h ipc) empty_log xs"
  have "log_ordered ?m"
    by (rule audit_grow.inv_run) simp_all
  then have "log_extends ?m (run_ops (audit_step h ipc) ?m ys)"
    by (rule audit_grow.rel_run) simp
  then show ?thesis
    by (simp add: log_extends_def run_ops_append delete_entry_def save_entry_def empty_log_def)
qed

end
