(* ===== verification/WorkItems.thy ===== *)
theory WorkItems
  imports Prelude "HOL-Library.Product_Lexorder"
begin

text \<open>
  The staff workflow engine of \<open>apps/workflows\<close>: work items with their status machine,
  the service functions that change them, the immutable history, the signals sent after
  commit, the SLA breach task and the staff queue. Times are integers (seconds). The
  services take a loaded instance and write single fields of it back, so an instance is
  modelled apart from the row it was loaded from: it may be stale.
\<close>

section \<open>Data\<close>

datatype wi_status = Pending | InProgress | Waiting | Completed | Cancelled

definition status_value :: "wi_status \<Rightarrow> string" where
  "status_value st = (case st of Pending \<Rightarrow> ''pending'' | InProgress \<Rightarrow> ''in_progress''
     | Waiting \<Rightarrow> ''waiting'' | Completed \<Rightarrow> ''completed'' | Cancelled \<Rightarrow> ''cancelled'')"

definition status_values :: "(string \<times> wi_status) list" where
  "status_values = map (\<lambda>st. (status_value st, st)) [Pending, InProgress, Waiting, Completed, Cancelled]"

definition terminal_statuses :: "wi_status list" where
  "terminal_statuses = [Completed, Cancelled]"

definition valid_transitions :: "wi_status \<Rightarrow> wi_status list" where
  "valid_transitions st = (case st of Pending \<Rightarrow> [InProgress, Cancelled]
     | InProgress \<Rightarrow> [Waiting, Completed, Cancelled]
     | Waiting \<Rightarrow> [InProgress, Cancelled]
     | Completed \<Rightarrow> [] | Cancelled \<Rightarrow> [])"

text \<open>Hours to resolution by priority; an unknown priority counts as normal (3).\<close>

definition sla_hours :: "nat \<rightharpoonup> int" where
  "sla_hours = [1 \<mapsto> 4, 2 \<mapsto> 24, 3 \<mapsto> 120, 4 \<mapsto> 240]"

record work_item =
  wi_content :: "string \<times> string"
  wi_title :: string
  wi_description :: string
  wi_status :: wi_status
  wi_assigned_to :: "nat option"
  wi_priority :: nat
  wi_due_at :: "int option"
  wi_sla_breached_at :: "int option"
  wi_escalation_level :: nat
  wi_escalated_at :: "int option"
  wi_completed_at :: "int option"
  wi_created_at :: int
  wi_updated_at :: int

record wi_history =
  h_item :: nat
  h_action :: string
  h_old :: "wi_status option"
  h_new :: "wi_status option"
  h_actor :: "nat option"
  h_notes :: string

record wi_comment =
  c_item :: nat
  c_author :: nat
  c_body :: string

text \<open>Callbacks registered with \<open>transaction.on_commit\<close>, and the signals they send.\<close>

datatype wi_deferred =
    FireCreated nat "nat option"
  | FireClaim nat nat wi_status wi_status
  | FireAssigned nat nat nat
  | FireStatusChanged nat nat wi_status wi_status string
  | FireEscalated nat nat nat string
  | FireCommented nat nat nat

datatype wi_signal =
    SigCreated nat "nat option"
  | SigAssigned nat nat nat
  | SigStatusChanged nat wi_status wi_status nat string
  | SigEscalated nat nat nat string
  | SigCommented nat nat nat

record wf_state =
  wf_items :: "work_item table"
  wf_history :: "wi_history list"
  wf_comments :: "wi_comment table"
  wf_callbacks :: "wi_deferred list"

datatype wf_error =
    NotStaff | EmptyTitle | AlreadyAssigned | TerminalItem | AssigneeNotStaff
  | InvalidStatus | InvalidTransition | MaxEscalation | EmptyBody | MissingRow | DuplicateKey

section \<open>Model properties\<close>

definition is_terminal :: "work_item \<Rightarrow> bool" where
  "is_terminal w \<longleftrightarrow> wi_status w \<in> set terminal_statuses"

definition is_overdue :: "int \<Rightarrow> work_item \<Rightarrow> bool" where
  "is_overdue now w \<longleftrightarrow> (if is_terminal w then False
     else case wi_due_at w of None \<Rightarrow> False | Some d \<Rightarrow> d < now)"

definition is_sla_breached :: "work_item \<Rightarrow> bool" where
  "is_sla_breached w \<longleftrightarrow> wi_sla_breached_at w \<noteq> None"

definition is_escalated :: "work_item \<Rightarrow> bool" where
  "is_escalated w \<longleftrightarrow> 0 < wi_escalation_level w"

definition can_transition_to :: "work_item \<Rightarrow> wi_status \<Rightarrow> bool" where
  "can_transition_to w st \<longleftrightarrow> st \<in> set (valid_transitions (wi_status w))"

section \<open>Helpers of the service layer\<close>

definition record_history ::
  "nat \<Rightarrow> string \<Rightarrow> nat option \<Rightarrow> wi_status option \<Rightarrow> wi_status option \<Rightarrow> string
     \<Rightarrow> wf_state \<Rightarrow> wf_state" where
  "record_history k action actor old new notes s =
     s\<lparr>wf_history := wf_history s @ [\<lparr>h_item = k, h_action = action, h_old = old, h_new = new,
        h_actor = actor, h_notes = notes\<rparr>]\<rparr>"

definition on_commit :: "wi_deferred \<Rightarrow> wf_state \<Rightarrow> wf_state" where
  "on_commit d s = s\<lparr>wf_callbacks := wf_callbacks s @ [d]\<rparr>"

definition compute_due_at :: "int \<Rightarrow> nat \<Rightarrow> int" where
  "compute_due_at now p =
     now + 3600 * (case sla_hours p of Some h \<Rightarrow> h | None \<Rightarrow> the (sla_hours 3))"

text \<open>
  \<open>save(update_fields=...)\<close>: \<open>f\<close> writes the named fields into the stored row; a missing
  row is a \<open>DatabaseError\<close>.
\<close>

definition save_fields ::
  "nat \<Rightarrow> (work_item \<Rightarrow> work_item) \<Rightarrow> wf_state \<Rightarrow> wf_error + wf_state" where
  "save_fields k f s = (case tget (wf_items s) k of None \<Rightarrow> Inl MissingRow
     | Some r \<Rightarrow> Inr (s\<lparr>wf_items := tput k (f r) (wf_items s)\<rparr>))"

section \<open>Service functions\<close>

text \<open>\<open>k\<close> is the primary key the new row gets.\<close>

definition create_work_item ::
  "wf_state \<Rightarrow> int \<Rightarrow> nat \<Rightarrow> string \<times> string \<Rightarrow> string \<Rightarrow> user option \<Rightarrow> string \<Rightarrow> nat \<Rightarrow> int option
     \<Rightarrow> wf_error + wf_state" where
  "create_work_item s now k content title actor description priority due_at =
     (if title = '''' then Inl EmptyTitle
      else if tget (wf_items s) k \<noteq> None then Inl DuplicateKey
      else let due = (case due_at of Some d \<Rightarrow> d | None \<Rightarrow> compute_due_at now priority);
               w = \<lparr>wi_content = content, wi_title = title, wi_description = description,
                    wi_status = Pending, wi_assigned_to = None, wi_priority = priority,
                    wi_due_at = Some due, wi_sla_breached_at = None, wi_escalation_level = 0,
                    wi_escalated_at = None, wi_completed_at = None,
                    wi_created_at = now, wi_updated_at = now\<rparr>
           in Inr (on_commit (FireCreated k (map_option u_pk actor))
                (record_history k ''created'' (map_option u_pk actor) None None description
                  (s\<lparr>wf_items := tput k w (wf_items s)\<rparr>))))"

definition claim_work_item ::
  "wf_state \<Rightarrow> int \<Rightarrow> nat \<Rightarrow> work_item \<Rightarrow> user option \<Rightarrow> wf_error + wf_state" where
  "claim_work_item s now k w actor =
     (if \<not> actor_is_staff actor then Inl NotStaff
      else if wi_assigned_to w \<noteq> None then Inl AlreadyAssigned
      else if is_terminal w then Inl TerminalItem
      else let a = u_pk (the actor); old = wi_status w; new = InProgress
           in case save_fields k (\<lambda>r. r\<lparr>wi_assigned_to := Some a, wi_status := new,
                     wi_updated_at := now\<rparr>) s of
                Inl e \<Rightarrow> Inl e
              | Inr s1 \<Rightarrow> Inr (on_commit (FireClaim k a old new)
                  (record_history k ''claimed'' (Some a) (Some old) (Some new) '''' s1)))"

definition assign_work_item ::
  "wf_state \<Rightarrow> int \<Rightarrow> nat \<Rightarrow> work_item \<Rightarrow> user option \<Rightarrow> user option \<Rightarrow> wf_error + wf_state" where
  "assign_work_item s now k w assignee actor =
     (if \<not> actor_is_staff actor then Inl NotStaff
      else if is_terminal w then Inl TerminalItem
      else if \<not> actor_is_staff assignee then Inl AssigneeNotStaff
      else let a = u_pk (the assignee)
           in case save_fields k (\<lambda>r. r\<lparr>wi_assigned_to := Some a, wi_updated_at := now\<rparr>) s of
                Inl e \<Rightarrow> Inl e
              | Inr s1 \<Rightarrow> Inr (on_commit (FireAssigned k a (u_pk (the actor)))
                  (record_history k ''assigned'' (Some (u_pk (the actor))) None None
                    (''Assigned to '' @ u_display_name (the assignee)) s1)))"

definition update_work_item_status ::
  "wf_state \<Rightarrow> int \<Rightarrow> nat \<Rightarrow> work_item \<Rightarrow> string \<Rightarrow> user option \<Rightarrow> string \<Rightarrow> wf_error + wf_state" where
  "update_work_item_status s now k w new_status actor notes =
     (if \<not> actor_is_staff actor then Inl NotStaff
      else case map_of status_values new_status of
        None \<Rightarrow> Inl InvalidStatus
      | Some new \<Rightarrow>
          if \<not> can_transition_to w new then Inl InvalidTransition
          else let a = u_pk (the actor); old = wi_status w;
                   stamp = (new \<in> set terminal_statuses \<and> wi_completed_at w = None)
               in case save_fields k (\<lambda>r. (if stamp then r\<lparr>wi_completed_at := Some now\<rparr> else r)
                         \<lparr>wi_status := new, wi_updated_at := now\<rparr>) s of
                    Inl e \<Rightarrow> Inl e
                  | Inr s1 \<Rightarrow> Inr (on_commit (FireStatusChanged k a old new notes)
                      (record_history k (''status_changed_to_'' @ new_status) (Some a)
                        (Some old) (Some new) notes s1)))"

text \<open>The instance's own counter is incremented and written over the row's.\<close>

definition escalate_work_item ::
  "wf_state \<Rightarrow> int \<Rightarrow> nat \<Rightarrow> work_item \<Rightarrow> user option \<Rightarrow> string \<Rightarrow> wf_error + wf_state" where
  "escalate_work_item s now k w actor reason =
     (if \<not> actor_is_staff actor then Inl NotStaff
      else if is_terminal w then Inl TerminalItem
      else if wi_escalation_level w \<ge> 2 then Inl MaxEscalation
      else let a = u_pk (the actor); level = wi_escalation_level w + 1;
               esc = (case wi_escalated_at w of None \<Rightarrow> Some now | Some t \<Rightarrow> Some t)
           in case save_fields k (\<lambda>r. r\<lparr>wi_escalation_level := level, wi_escalated_at := esc,
                     wi_updated_at := now\<rparr>) s of
                Inl e \<Rightarrow> Inl e
              | Inr s1 \<Rightarrow> Inr (on_commit (FireEscalated k a level reason)
                  (record_history k ''escalated'' (Some a) None None
                    (if reason \<noteq> '''' then reason else ''Escalated to level '' @ show_nat level) s1)))"

text \<open>\<open>ck\<close> is the primary key of the new comment.\<close>

definition add_comment ::
  "wf_state \<Rightarrow> nat \<Rightarrow> nat \<Rightarrow> work_item \<Rightarrow> user option \<Rightarrow> string \<Rightarrow> wf_error + wf_state" where
  "add_comment s ck k w actor body =
     (if \<not> actor_is_staff actor then Inl NotStaff
      else if is_terminal w then Inl TerminalItem
      else let b = py_strip body in
        if b = '''' then Inl EmptyBody
        else if tget (wf_comments s) ck \<noteq> None then Inl DuplicateKey
        else if tget (wf_items s) k = None then Inl MissingRow
        else let a = u_pk (the actor) in
          Inr (on_commit (FireCommented k a ck)
            (record_history k ''commented'' (Some a) None None (take 200 b)
              (s\<lparr>wf_comments := tput ck \<lparr>c_item = k, c_author = a, c_body = b\<rparr>
                  (wf_comments s)\<rparr>))))"

text \<open>
  What a callback sends when it runs: it reloads the rows by primary key and sends nothing
  when one is gone. \<open>users\<close> says which users exist then.
\<close>

definition has_item :: "wf_state \<Rightarrow> nat \<Rightarrow> bool" where
  "has_item s k \<longleftrightarrow> tget (wf_items s) k \<noteq> None"

definition fire_claim_signals ::
  "(nat \<Rightarrow> bool) \<Rightarrow> wf_state \<Rightarrow> nat \<Rightarrow> nat \<Rightarrow> wi_status \<Rightarrow> wi_status \<Rightarrow> wi_signal list" where
  "fire_claim_signals users s k a old new =
     (if has_item s k \<and> users a
      then [SigAssigned k a a, SigStatusChanged k old new a ''''] else [])"

definition fire_assigned_signal ::
  "(nat \<Rightarrow> bool) \<Rightarrow> wf_state \<Rightarrow> nat \<Rightarrow> nat \<Rightarrow> nat \<Rightarrow> wi_signal list" where
  "fire_assigned_signal users s k b a =
     (if has_item s k \<and> users b \<and> users a then [SigAssigned k b a] else [])"

definition fire_status_changed_signal ::
  "(nat \<Rightarrow> bool) \<Rightarrow> wf_state \<Rightarrow> nat \<Rightarrow> nat \<Rightarrow> wi_status \<Rightarrow> wi_status \<Rightarrow> string \<Rightarrow> wi_signal list" where
  "fire_status_changed_signal users s k a old new notes =
     (if has_item s k \<and> users a then [SigStatusChanged k old new a notes] else [])"

definition fire_escalated_signal ::
  "(nat \<Rightarrow> bool) \<Rightarrow> wf_state \<Rightarrow> nat \<Rightarrow> nat \<Rightarrow> nat \<Rightarrow> string \<Rightarrow> wi_signal list" where
  "fire_escalated_signal users s k a level reason =
     (if has_item s k \<and> users a then [SigEscalated k level a reason] else [])"

definition fire_commented_signal ::
  "(nat \<Rightarrow> bool) \<Rightarrow> wf_state \<Rightarrow> nat \<Rightarrow> nat \<Rightarrow> nat \<Rightarrow> wi_signal list" where
  "fire_commented_signal users s k a ck =
     (if has_item s k \<and> users a \<and> tget (wf_comments s) ck \<noteq> None
      then [SigCommented k ck a] else [])"

definition fire :: "(nat \<Rightarrow> bool) \<Rightarrow> wf_state \<Rightarrow> wi_deferred \<Rightarrow> wi_signal list" where
  "fire users s d = (case d of
     FireCreated k a \<Rightarrow> (if has_item s k then [SigCreated k a] else [])
   | FireClaim k a old new \<Rightarrow> fire_claim_signals users s k a old new
   | FireAssigned k b a \<Rightarrow> fire_assigned_signal users s k b a
   | FireStatusChanged k a old new notes \<Rightarrow> fire_status_changed_signal users s k a old new notes
   | FireEscalated k a level reason \<Rightarrow> fire_escalated_signal users s k a level reason
   | FireCommented k a ck \<Rightarrow> fire_commented_signal users s k a ck)"

section \<open>SLA breaches\<close>

text \<open>
  \<open>locked\<close> holds the rows another transaction has locked (\<open>skip_locked=True\<close>); \<open>fmt\<close>
  is \<open>strftime\<close> on the deadline. The result is the number of rows marked.
\<close>

definition breach_due :: "int \<Rightarrow> work_item \<Rightarrow> bool" where
  "breach_due now w \<longleftrightarrow> (case wi_due_at w of None \<Rightarrow> False | Some d \<Rightarrow> d < now)
     \<and> wi_sla_breached_at w = None \<and> \<not> is_terminal w"

definition check_sla_breaches ::
  "(int \<Rightarrow> string) \<Rightarrow> wf_state \<Rightarrow> int \<Rightarrow> (nat \<Rightarrow> bool) \<Rightarrow> wf_state \<times> nat" where
  "check_sla_breaches fmt s now locked =
     (let breached = filter (\<lambda>kw. \<not> locked (fst kw) \<and> breach_due now (snd kw)) (wf_items s);
          ids = map fst breached
      in if breached = [] then (s, 0)
         else (s\<lparr>wf_items := map (\<lambda>(k, w). (k, if k \<in> set ids
                    then w\<lparr>wi_sla_breached_at := Some now, wi_updated_at := now\<rparr> else w)) (wf_items s),
                 wf_history := wf_history s @ map (\<lambda>(k, w).
                    \<lparr>h_item = k, h_action = ''sla_breached'', h_old = None, h_new = None,
                     h_actor = None,
                     h_notes = ''SLA deadline '' @ fmt (the (wi_due_at w)) @ '' UTC passed without resolution.''\<rparr>)
                    breached\<rparr>,
               length ids))"

section \<open>The staff queue\<close>

text \<open>The database sorts rows without a deadline last.\<close>

definition queue_key :: "nat \<times> work_item \<Rightarrow> nat \<times> (bool \<times> int) \<times> int" where
  "queue_key kw = (wi_priority (snd kw),
     (case wi_due_at (snd kw) of None \<Rightarrow> (True, 0) | Some d \<Rightarrow> (False, d)),
     wi_created_at (snd kw))"

definition queue_match ::
  "nat \<Rightarrow> string option \<Rightarrow> bool \<Rightarrow> bool \<Rightarrow> nat option \<Rightarrow> work_item \<Rightarrow> bool" where
  "queue_match actor status_filter mine unassigned priority w \<longleftrightarrow>
     \<not> is_terminal w
     \<and> (case status_filter of None \<Rightarrow> True
        | Some f \<Rightarrow> (case map_of status_values f of None \<Rightarrow> True | Some st \<Rightarrow> wi_status w = st))
     \<and> (mine \<longrightarrow> wi_assigned_to w = Some actor)
     \<and> (unassigned \<longrightarrow> wi_assigned_to w = None)
     \<and> (case priority of None \<Rightarrow> True | Some p \<Rightarrow> wi_priority w = p)"

definition get_staff_queue ::
  "wf_state \<Rightarrow> nat \<Rightarrow> string option \<Rightarrow> bool \<Rightarrow> bool \<Rightarrow> nat option \<Rightarrow> (nat \<times> work_item) list" where
  "get_staff_queue s actor status_filter mine unassigned priority =
     sort_key queue_key (filter (\<lambda>kw. queue_match actor status_filter mine unassigned priority (snd kw))
       (wf_items s))"

section \<open>The service as a system\<close>

datatype wf_op =
    OpCreate int nat "string \<times> string" string "user option" string nat "int option"
  | OpClaim int nat work_item "user option"
  | OpAssign int nat work_item "user option" "user option"
  | OpUpdate int nat work_item string "user option" string
  | OpEscalate int nat work_item "user option" string
  | OpComment nat nat work_item "user option" string
  | OpSla int "nat \<Rightarrow> bool"

fun wf_step :: "(int \<Rightarrow> string) \<Rightarrow> wf_state \<Rightarrow> wf_op \<Rightarrow> wf_error + wf_state" where
  "wf_step fmt s (OpCreate now k c t a d p due) = create_work_item s now k c t a d p due"
| "wf_step fmt s (OpClaim now k w a) = claim_work_item s now k w a"
| "wf_step fmt s (OpAssign now k w b a) = assign_work_item s now k w b a"
| "wf_step fmt s (OpUpdate now k w st a n) = update_work_item_status s now k w st a n"
| "wf_step fmt s (OpEscalate now k w a r) = escalate_work_item s now k w a r"
| "wf_step fmt s (OpComment ck k w a b) = add_comment s ck k w a b"
| "wf_step fmt s (OpSla now locked) = Inr (fst (check_sla_breaches fmt s now locked))"

text \<open>The instance an operation works on was just read: it equals the stored row.\<close>

fun fresh :: "wf_state \<Rightarrow> wf_op \<Rightarrow> bool" where
  "fresh s (OpClaim now k w a) = (tget (wf_items s) k = Some w)"
| "fresh s (OpAssign now k w b a) = (tget (wf_items s) k = Some w)"
| "fresh s (OpUpdate now k w st a n) = (tget (wf_items s) k = Some w)"
| "fresh s (OpEscalate now k w a r) = (tget (wf_items s) k = Some w)"
| "fresh s (OpComment ck k w a b) = (tget (wf_items s) k = Some w)"
| "fresh s x = True"

definition empty_wf :: wf_state where
  "empty_wf = \<lparr>wf_items = [], wf_history = [], wf_comments = [], wf_callbacks = []\<rparr>"

section \<open>Invariant\<close>

definition item_ok :: "work_item \<Rightarrow> bool" where
  "item_ok w \<longleftrightarrow> (is_terminal w \<longleftrightarrow> wi_completed_at w \<noteq> None)
     \<and> wi_escalation_level w \<le> 2
     \<and> (0 < wi_escalation_level w \<longleftrightarrow> wi_escalated_at w \<noteq> None)"

text \<open>
  Replaying the history of an item from \<open>Pending\<close>: every row that records a new status
  must record the current one as the old one, and the move must be one of the table or a
  claim (to \<open>InProgress\<close> from a non-terminal status).
\<close>

definition legal_move :: "wi_status \<Rightarrow> wi_status \<Rightarrow> bool" where
  "legal_move a b \<longleftrightarrow> b \<in> set (valid_transitions a)
     \<or> (a \<notin> set terminal_statuses \<and> b = InProgress)"

fun replay_history :: "wi_status \<Rightarrow> wi_history list \<Rightarrow> wi_status option" where
  "replay_history st [] = Some st"
| "replay_history st (h # hs) = (case h_new h of
     None \<Rightarrow> replay_history st hs
   | Some st' \<Rightarrow> if h_old h = Some st \<and> legal_move st st' then replay_history st' hs else None)"

definition item_history :: "wf_state \<Rightarrow> nat \<Rightarrow> wi_history list" where
  "item_history s k = filter (\<lambda>h. h_item h = k) (wf_history s)"

definition wf_inv :: "wf_state \<Rightarrow> bool" where
  "wf_inv s \<longleftrightarrow> tok (wf_items s)
     \<and> (\<forall>k. tget (wf_items s) k = None \<longrightarrow> item_history s k = [])
     \<and> (\<forall>k w. tget (wf_items s) k = Some w \<longrightarrow> item_ok w
          \<and> replay_history Pending (item_history s k) = Some (wi_status w))"

lemma replay_history_append:
  "replay_history st (xs @ ys) = Option.bind (replay_history st xs) (\<lambda>st'. replay_history st' ys)"
  by (induction xs arbitrary: st) (auto split: option.split)

lemma item_history_record [simp]:
  "item_history (record_history k action a old new n s) j
     = item_history s j @ (if j = k then [\<lparr>h_item = k, h_action = action, h_old = old,
         h_new = new, h_actor = a, h_notes = n\<rparr>] else [])"
  by (simp add: item_history_def record_history_def)

lemma wf_items_simps [simp]:
  "wf_items (record_history k action a old new n s) = wf_items s"
  "wf_items (on_commit d s) = wf_items s"
  "item_history (on_commit d s) j = item_history s j"
  "item_history (s\<lparr>wf_items := t\<rparr>) j = item_history s j"
  "item_history (s\<lparr>wf_comments := c\<rparr>) j = item_history s j"
  by (simp_all add: record_history_def on_commit_def item_history_def)

text \<open>
  Every service function but the SLA task ends in the same way: it writes one row,
  appends one history row and registers one callback.
\<close>

lemma wf_inv_write:
  assumes inv: "wf_inv s" and k: "tget (wf_items s) k = Some w" and ok: "item_ok v"
    and new: "case new of None \<Rightarrow> wi_status v = wi_status w
       | Some st \<Rightarrow> old = Some (wi_status w) \<and> legal_move (wi_status w) st \<and> wi_status v = st"
  shows "wf_inv (on_commit d (record_history k act a old new notes
           (s\<lparr>wf_items := tput k v (wf_items s)\<rparr>)))"
proof -
  have "replay_history Pending (item_history s k) = Some (wi_status w)"
    using inv k by (simp add: wf_inv_def)
  then have "replay_history Pending (item_history s k
      @ [\<lparr>h_item = k, h_action = act, h_old = old, h_new = new, h_actor = a, h_notes = notes\<rparr>])
      = Some (wi_status v)"
    using new by (cases new) (simp_all add: replay_history_append)
  with inv ok show ?thesis
    by (simp add: wf_inv_def tget_tput tok_tput)
qed

lemma item_ok_new:
  "wi_status w = Pending \<Longrightarrow> wi_completed_at w = None \<Longrightarrow> wi_escalation_level w = 0
     \<Longrightarrow> wi_escalated_at w = None \<Longrightarrow> item_ok w"
  by (simp add: item_ok_def is_terminal_def terminal_statuses_def)

lemma create_inv: "wf_inv s \<Longrightarrow> create_work_item s now k c t a d p due = Inr s' \<Longrightarrow> wf_inv s'"
  by (auto simp: create_work_item_def Let_def wf_inv_def tget_tput tok_tput item_ok_new
      split: if_splits)

lemma save_fields_Inr:
  "save_fields k f s = Inr s' \<longleftrightarrow> (\<exists>r. tget (wf_items s) k = Some r
     \<and> s' = s\<lparr>wf_items := tput k (f r) (wf_items s)\<rparr>)"
  by (auto simp: save_fields_def split: option.splits)

lemma wf_inv_item: "wf_inv s \<Longrightarrow> tget (wf_items s) k = Some w \<Longrightarrow> item_ok w"
  by (simp add: wf_inv_def)

lemmas item_simps = item_ok_def is_terminal_def terminal_statuses_def legal_move_def
  can_transition_to_def

lemma claim_inv:
  assumes "wf_inv s" and "tget (wf_items s) k = Some w"
    and "claim_work_item s now k w a = Inr s'"
  shows "wf_inv s'"
  using assms wf_inv_item [OF assms(1,2)]
  by (auto simp: claim_work_item_def save_fields_Inr Let_def item_simps
      intro!: wf_inv_write split: if_splits sum.splits)

lemma assign_inv:
  assumes "wf_inv s" and "tget (wf_items s) k = Some w"
    and "assign_work_item s now k w b a = Inr s'"
  shows "wf_inv s'"
  using assms wf_inv_item [OF assms(1,2)]
  by (auto simp: assign_work_item_def save_fields_Inr Let_def item_simps
      intro!: wf_inv_write split: if_splits sum.splits)

lemma update_inv:
  assumes "wf_inv s" and "tget (wf_items s) k = Some w"
    and "update_work_item_status s now k w st a notes = Inr s'"
  shows "wf_inv s'"
  using assms wf_inv_item [OF assms(1,2)]
  by (auto simp: update_work_item_status_def save_fields_Inr Let_def item_simps valid_transitions_def
      intro!: wf_inv_write split: if_splits sum.splits option.splits wi_status.splits)

lemma escalate_inv:
  assumes "wf_inv s" and "tget (wf_items s) k = Some w"
    and "escalate_work_item s now k w a r = Inr s'"
  shows "wf_inv s'"
  using assms wf_inv_item [OF assms(1,2)]
  by (auto simp: escalate_work_item_def save_fields_Inr Let_def item_simps
      intro!: wf_inv_write split: if_splits sum.splits option.splits)

lemma wf_inv_comments [simp]: "wf_inv (s\<lparr>wf_comments := c\<rparr>) = wf_inv s"
  by (simp add: wf_inv_def)

lemma comment_inv:
  assumes "wf_inv s" and "add_comment s ck k w a b = Inr s'"
  shows "wf_inv s'"
  using assms
  by (auto simp: add_comment_def Let_def wf_inv_def replay_history_append split: if_splits)

lemma tok_unique: "tok t \<Longrightarrow> (k, v) \<in> set t \<Longrightarrow> (k, w) \<in> set t \<Longrightarrow> v = w"
  using tget_iff [of t k v] tget_iff [of t k w] by simp

lemma sla_table:
  assumes "tok t"
  shows "map (\<lambda>(k, w). (k, if k \<in> set (map fst (filter
       (\<lambda>kw. \<not> locked (fst kw) \<and> breach_due now (snd kw)) t)) then f w else w)) t
     = map (\<lambda>(k, w). (k, if \<not> locked k \<and> breach_due now w then f w else w)) t"
proof (rule map_cong [OF refl])
  fix x assume x: "x \<in> set t"
  obtain k w where kw: "x = (k, w)" by (cases x)
  have "k \<in> set (map fst (filter (\<lambda>kw. \<not> locked (fst kw) \<and> breach_due now (snd kw)) t))
      \<longleftrightarrow> \<not> locked k \<and> breach_due now w"
    using x by (auto simp: kw image_iff dest: tok_unique [OF assms])
  then show "(case x of (k, w) \<Rightarrow> (k, if k \<in> set (map fst (filter
       (\<lambda>kw. \<not> locked (fst kw) \<and> breach_due now (snd kw)) t)) then f w else w))
     = (case x of (k, w) \<Rightarrow> (k, if \<not> locked k \<and> breach_due now w then f w else w))"
    by (simp add: kw)
qed

lemma tget_map_rows: "tget (map (\<lambda>(k, w). (k, g k w)) t) k = map_option (g k) (tget t k)"
  by (induction t) (auto simp: tget_Cons)

lemma tok_map_rows: "tok (map (\<lambda>(k, w). (k, g k w)) t) = tok t"
  by (simp add: tok_def comp_def case_prod_beta)

text \<open>What the task does to each row, and that it changes nothing else of an item.\<close>

definition sla_mark :: "int \<Rightarrow> (nat \<Rightarrow> bool) \<Rightarrow> nat \<Rightarrow> work_item \<Rightarrow> work_item" where
  "sla_mark now locked k w = (if \<not> locked k \<and> breach_due now w
     then w\<lparr>wi_sla_breached_at := Some now, wi_updated_at := now\<rparr> else w)"

lemma sla_mark_frame [simp]:
  "wi_status (sla_mark now locked k w) = wi_status w"
  "item_ok (sla_mark now locked k w) = item_ok w"
  "is_terminal (sla_mark now locked k w) = is_terminal w"
  by (simp_all add: sla_mark_def item_ok_def is_terminal_def)

lemma sla_items:
  assumes "tok (wf_items s)"
  shows "wf_items (fst (check_sla_breaches fmt s now locked))
    = map (\<lambda>(k, w). (k, sla_mark now locked k w)) (wf_items s)"
proof (cases "filter (\<lambda>kw. \<not> locked (fst kw) \<and> breach_due now (snd kw)) (wf_items s) = []")
  case True
  then have "(k, w) \<in> set (wf_items s) \<Longrightarrow> sla_mark now locked k w = w" for k w
    by (auto simp: filter_empty_conv sla_mark_def)
  with True show ?thesis
    by (auto simp: check_sla_breaches_def intro!: map_idI [symmetric])
next
  case False
  then show ?thesis
    using sla_table [OF assms] by (simp add: check_sla_breaches_def Let_def sla_mark_def)
qed

lemma sla_history:
  "wf_history (fst (check_sla_breaches fmt s now locked)) = wf_history s
     @ map (\<lambda>(k, w). \<lparr>h_item = k, h_action = ''sla_breached'', h_old = None, h_new = None,
         h_actor = None,
         h_notes = ''SLA deadline '' @ fmt (the (wi_due_at w)) @ '' UTC passed without resolution.''\<rparr>)
       (filter (\<lambda>kw. \<not> locked (fst kw) \<and> breach_due now (snd kw)) (wf_items s))"
  by (simp add: check_sla_breaches_def Let_def)

lemma replay_history_silent: "\<forall>h\<in>set hs. h_new h = None \<Longrightarrow> replay_history st hs = Some st"
  by (induction hs) auto

lemma sla_inv:
  assumes "wf_inv s"
  shows "wf_inv (fst (check_sla_breaches fmt s now locked))"
proof -
  let ?s' = "fst (check_sla_breaches fmt s now locked)"
  from assms have ok: "tok (wf_items s)" by (simp add: wf_inv_def)
  have hist: "\<exists>hs. item_history ?s' k = item_history s k @ hs \<and> (\<forall>h\<in>set hs. h_new h = None)
      \<and> (tget (wf_items s) k = None \<longrightarrow> hs = [])" for k
    unfolding item_history_def sla_history filter_append
    by (intro exI conjI, rule refl) (auto simp: tget_None_iff filter_empty_conv image_iff)
  show ?thesis
    unfolding wf_inv_def
  proof (intro conjI allI impI)
    show "tok (wf_items ?s')" using ok by (simp add: sla_items tok_map_rows)
  next
    fix k assume "tget (wf_items ?s') k = None"
    then have "tget (wf_items s) k = None" by (simp add: sla_items [OF ok] tget_map_rows)
    with hist [of k] assms show "item_history ?s' k = []" by (auto simp: wf_inv_def)
  next
    fix k w assume "tget (wf_items ?s') k = Some w"
    then obtain v where v: "tget (wf_items s) k = Some v" "w = sla_mark now locked k v"
      by (auto simp: sla_items [OF ok] tget_map_rows)
    with assms show "item_ok w" by (simp add: wf_inv_def)
    from v assms have "replay_history Pending (item_history s k) = Some (wi_status w)"
      by (simp add: wf_inv_def)
    with hist [of k] show "replay_history Pending (item_history ?s' k) = Some (wi_status w)"
      by (auto simp: replay_history_append replay_history_silent)
  qed
qed

interpretation workflow: step_system "wf_step fmt" fresh wf_inv for fmt
proof unfold_locales
  fix s x s'
  assume "wf_inv s" and "fresh s x" and "wf_step fmt s x = Inr s'"
  then show "wf_inv s'"
    by (cases x) (auto intro: create_inv claim_inv assign_inv update_inv escalate_inv comment_inv sla_inv)
qed

lemma empty_wf_inv [simp]: "wf_inv empty_wf"
  by (simp add: wf_inv_def empty_wf_def item_history_def)

section \<open>Terminal items\<close>

definition terminal_kept :: "wf_state \<Rightarrow> wf_state \<Rightarrow> bool" where
  "terminal_kept s s' \<longleftrightarrow> (\<forall>k w. tget (wf_items s) k = Some w \<longrightarrow> is_terminal w
     \<longrightarrow> tget (wf_items s') k = Some w)"

lemma terminal_kept_write:
  "tget (wf_items s) k = Some w \<Longrightarrow> \<not> is_terminal w \<Longrightarrow>
     terminal_kept s (on_commit d (record_history k act a old new notes
       (s\<lparr>wf_items := tput k v (wf_items s)\<rparr>)))"
  by (auto simp: terminal_kept_def tget_tput)

lemma terminal_kept_comment [simp]:
  "terminal_kept s (on_commit d (record_history k act a old new notes (s\<lparr>wf_comments := c\<rparr>)))"
  by (simp add: terminal_kept_def)

lemma no_transition_from_terminal: "can_transition_to w st \<Longrightarrow> \<not> is_terminal w"
  by (cases "wi_status w")
    (auto simp: can_transition_to_def is_terminal_def terminal_statuses_def valid_transitions_def)

lemma step_terminal_kept:
  assumes "wf_inv s" and "fresh s x" and "wf_step fmt s x = Inr s'"
  shows "terminal_kept s s'"
proof (cases x)
  case (OpCreate now k c t a d p due)
  with assms show ?thesis
    by (auto simp: create_work_item_def Let_def terminal_kept_def tget_tput split: if_splits)
next
  case (OpSla now locked)
  with assms show ?thesis
    by (auto simp: terminal_kept_def wf_inv_def sla_items tget_map_rows sla_mark_def breach_due_def)
qed (use assms in \<open>auto simp: claim_work_item_def assign_work_item_def update_work_item_status_def
      escalate_work_item_def add_comment_def save_fields_Inr Let_def
      intro!: terminal_kept_write dest: no_transition_from_terminal
      split: if_splits sum.splits option.splits\<close>)

interpretation workflow_terminal:
  monotone_system "wf_step fmt" fresh wf_inv terminal_kept for fmt
  by unfold_locales (auto simp: terminal_kept_def intro: step_terminal_kept [unfolded terminal_kept_def, rule_format])

section \<open>Properties\<close>

text \<open>Two staff members and a short run for the witnesses.\<close>

definition alice :: user where
  "alice = \<lparr>u_pk = 1, u_is_staff = True, u_display_name = ''Alice''\<rparr>"

definition bob :: user where
  "bob = \<lparr>u_pk = 2, u_is_staff = True, u_display_name = ''Bob''\<rparr>"

definition new_item :: work_item where
  "new_item = \<lparr>wi_content = (''portal.servicerequest'', ''9''), wi_title = ''Pothole'',
     wi_description = ''big'', wi_status = Pending, wi_assigned_to = None, wi_priority = 2,
     wi_due_at = Some 86500, wi_sla_breached_at = None, wi_escalation_level = 0,
     wi_escalated_at = None, wi_completed_at = None, wi_created_at = 100, wi_updated_at = 100\<rparr>"

definition claimed_item :: work_item where
  "claimed_item = new_item\<lparr>wi_assigned_to := Some 1, wi_status := InProgress, wi_updated_at := 200\<rparr>"

definition short_run :: "wf_op list" where
  "short_run = [OpCreate 100 5 (''portal.servicerequest'', ''9'') ''Pothole'' None ''big'' 2 None,
     OpClaim 200 5 new_item (Some alice),
     OpUpdate 300 5 claimed_item ''completed'' (Some alice) ''done'']"

lemmas wf_eval = short_run_def create_work_item_def claim_work_item_def update_work_item_status_def
  save_fields_def record_history_def on_commit_def compute_due_at_def sla_hours_def empty_wf_def
  new_item_def claimed_item_def alice_def bob_def Let_def tput_def tget_def is_terminal_def
  terminal_statuses_def status_values_def status_value_def can_transition_to_def valid_transitions_def

lemma short_run_fresh: "ops_ok fresh (wf_step fmt) empty_wf short_run"
  by (simp add: wf_eval)

lemma short_run_item:
  "tget (wf_items (run_ops (wf_step fmt) empty_wf short_run)) 5
     = Some (claimed_item\<lparr>wi_status := Completed, wi_updated_at := 300, wi_completed_at := Some 300\<rparr>)"
  by (simp add: wf_eval)

text \<open>
  C6. The history explains every work item. After any sequence of service calls on
  just-read instances, with SLA checks in between, replaying an item's history rows from
  \<open>Pending\<close> succeeds (each row's old status is the current one, each move is one of the
  transition table or a claim) and ends in the item's status; the item has a completion
  time exactly when it is completed or cancelled, and its escalation level is at most 2
  and positive exactly when an escalation time is set.
\<close>

theorem history_explains_items:
  assumes "ops_ok fresh (wf_step fmt) empty_wf xs"
    and "s = run_ops (wf_step fmt) empty_wf xs" and "tget (wf_items s) k = Some w"
  shows "replay_history Pending (item_history s k) = Some (wi_status w)
    \<and> (wi_completed_at w \<noteq> None \<longleftrightarrow> wi_status w \<in> {Completed, Cancelled})
    \<and> wi_escalation_level w \<le> 2 \<and> (0 < wi_escalation_level w \<longleftrightarrow> wi_escalated_at w \<noteq> None)"
proof -
  have "wf_inv s" using assms(1,2) by (simp add: workflow.inv_run)
  with assms(3) show ?thesis
    by (auto simp: wf_inv_def item_ok_def is_terminal_def terminal_statuses_def)
qed

theorem history_explains_items_witness:
  "replay_history Pending (item_history (run_ops (wf_step (\<lambda>_. '''')) empty_wf short_run) 5) = Some Completed"
  using history_explains_items [OF short_run_fresh refl short_run_item, of "\<lambda>_. ''''"] by simp

text \<open>
  Completed and cancelled items are frozen: once a work item is terminal, no further
  sequence of service calls on just-read instances changes any field of its row.
\<close>

theorem terminal_items_frozen:
  assumes "ops_ok fresh (wf_step fmt) empty_wf (xs @ ys)"
    and "tget (wf_items (run_ops (wf_step fmt) empty_wf xs)) k = Some w"
    and "wi_status w \<in> {Completed, Cancelled}"
  shows "tget (wf_items (run_ops (wf_step fmt) empty_wf (xs @ ys))) k = Some w"
proof -
  let ?s = "run_ops (wf_step fmt) empty_wf xs"
  from assms(1) have ok: "ops_ok fresh (wf_step fmt) empty_wf xs" "ops_ok fresh (wf_step fmt) ?s ys"
    by (simp_all add: ops_ok_append)
  then have "terminal_kept ?s (run_ops (wf_step fmt) ?s ys)"
    by (intro workflow_terminal.rel_run workflow.inv_run) simp_all
  with assms(2,3) show ?thesis
    by (auto simp: terminal_kept_def run_ops_append is_terminal_def terminal_statuses_def)
qed

theorem terminal_items_frozen_witness:
  "tget (wf_items (run_ops (wf_step (\<lambda>_. '''')) empty_wf
     (short_run @ [OpUpdate 400 5 (claimed_item\<lparr>wi_status := Completed, wi_updated_at := 300,
        wi_completed_at := Some 300\<rparr>) ''in_progress'' (Some bob) '''', OpSla 999999 (\<lambda>_. False)]))) 5
   = Some (claimed_item\<lparr>wi_status := Completed, wi_updated_at := 300, wi_completed_at := Some 300\<rparr>)"
  by (rule terminal_items_frozen [OF _ short_run_item])
    (simp_all add: ops_ok_append short_run_fresh short_run_item)

text \<open>
  A stale instance defeats the claim guards. The service checks the instance it was
  given and never re-reads or locks the row, so two staff members who both loaded an
  unassigned item can both claim it: both calls succeed, the second replaces the first
  assignee, and the history holds two claims. If the item is completed in between, the
  stale claim reopens it and leaves a non-terminal item with a completion time.
\<close>

theorem stale_claim_breaks_workflow:
  assumes "tget (wf_items s) k = Some w" and "wi_assigned_to w = None" and "\<not> is_terminal w"
    and "u_is_staff a" and "u_is_staff b"
  shows "(\<exists>s1 s2. claim_work_item s t1 k w (Some a) = Inr s1
      \<and> claim_work_item s1 t2 k w (Some b) = Inr s2
      \<and> map_option wi_assigned_to (tget (wf_items s2) k) = Some (Some (u_pk b))
      \<and> map h_actor (filter (\<lambda>h. h_action h = ''claimed'') (item_history s2 k))
          = map h_actor (filter (\<lambda>h. h_action h = ''claimed'') (item_history s k))
              @ [Some (u_pk a), Some (u_pk b)])
    \<and> (\<exists>s1 s2 s3 v. claim_work_item s t1 k w (Some a) = Inr s1
      \<and> update_work_item_status s1 t2 k (the (tget (wf_items s1) k)) ''completed'' (Some a) [] = Inr s2
      \<and> claim_work_item s2 t3 k w (Some b) = Inr s3 \<and> tget (wf_items s3) k = Some v
      \<and> wi_status v = InProgress \<and> wi_completed_at v \<noteq> None)"
  using assms
  by (simp add: claim_work_item_def update_work_item_status_def save_fields_def Let_def tget_tput
      status_values_def status_value_def can_transition_to_def valid_transitions_def terminal_statuses_def)

theorem stale_claim_breaks_workflow_witness:
  "\<exists>s1 s2. claim_work_item (empty_wf\<lparr>wf_items := [(5, new_item)]\<rparr>) 1 5 new_item (Some alice) = Inr s1
      \<and> claim_work_item s1 2 5 new_item (Some bob) = Inr s2
      \<and> map_option wi_assigned_to (tget (wf_items s2) 5) = Some (Some 2)"
  using stale_claim_breaks_workflow [of "empty_wf\<lparr>wf_items := [(5, new_item)]\<rparr>" 5 new_item alice bob 1 2]
  by (auto simp: wf_eval)

text \<open>
  The SLA task marks each item that needs it once. Exactly the open items whose
  deadline has passed, that carry no mark yet and whose row is not locked get the breach
  time; no other row and no other field but the update time changes, one history row is
  written per mark, the result is their number, and running the task again at the same
  time finds nothing.
\<close>

theorem sla_check_exact:
  assumes "tok (wf_items s)"
  shows "let s' = fst (check_sla_breaches fmt s now locked);
           n = snd (check_sla_breaches fmt s now locked)
      in (\<forall>k. tget (wf_items s') k = map_option (sla_mark now locked k) (tget (wf_items s) k))
       \<and> n = length (filter (\<lambda>kw. \<not> locked (fst kw) \<and> breach_due now (snd kw)) (wf_items s))
       \<and> length (wf_history s') = length (wf_history s) + n
       \<and> check_sla_breaches fmt s' now locked = (s', 0)"
proof -
  let ?s' = "fst (check_sla_breaches fmt s now locked)"
  have "\<not> breach_due now (sla_mark now locked k w)" if "\<not> locked k" for k w
    using that by (auto simp: sla_mark_def breach_due_def)
  then have "filter (\<lambda>kw. \<not> locked (fst kw) \<and> breach_due now (snd kw)) (wf_items ?s') = []"
    by (auto simp: sla_items [OF assms] filter_empty_conv)
  then have again: "check_sla_breaches fmt ?s' now locked = (?s', 0)"
    by (simp add: check_sla_breaches_def)
  have n: "snd (check_sla_breaches fmt s now locked)
      = length (filter (\<lambda>kw. \<not> locked (fst kw) \<and> breach_due now (snd kw)) (wf_items s))"
    by (simp add: check_sla_breaches_def Let_def)
  show ?thesis
    by (simp add: Let_def again n sla_items [OF assms] tget_map_rows sla_history)
qed

theorem sla_check_exact_witness:
  "snd (check_sla_breaches (\<lambda>_. '''') (empty_wf\<lparr>wf_items := [(5, new_item), (6, new_item)]\<rparr>)
      90000 (\<lambda>k. k = 6)) = 1"
  using sla_check_exact [of "empty_wf\<lparr>wf_items := [(5, new_item), (6, new_item)]\<rparr>" "\<lambda>_. ''''"
      90000 "\<lambda>k. k = 6"]
  by (simp add: Let_def tok_def) (simp add: new_item_def breach_due_def is_terminal_def terminal_statuses_def)

end
