(* ===== verification/Appointments.thy ===== *)
theory Appointments
  imports Prelude
begin

text \<open>
  The data of \<open>apps/appointments\<close> that the slot, booking and availability services
  share: scheduling policies with their three-level fallback, appointment types,
  locations, slots, bookings, no-show records, the booking audit log and the signals,
  and the state of the component. Times are integers (seconds since the epoch, UTC).
\<close>

section \<open>Policies\<close>

record policy =
  slot_interval_minutes :: nat
  buffer_before_minutes :: nat
  buffer_after_minutes :: nat
  min_lead_time_hours :: nat
  max_advance_days :: nat
  max_active_bookings_per_citizen :: nat
  booking_frequency_days :: nat
  waitlist_enabled :: bool
  waitlist_acceptance_window_hours :: nat
  max_waitlist_per_slot :: nat
  waitlist_notify_batch_size :: nat
  no_show_warning_threshold :: nat
  no_show_suspension_threshold :: nat
  cancellation_notice_hours :: nat
  reschedule_notice_hours :: nat
  max_reschedule_count :: nat

text \<open>\<open>settings.CIVICOS['APPOINTMENTS']\<close> is a dict; \<open>dget\<close> is \<open>dict.get\<close> with a default.\<close>

type_synonym settings = "string \<rightharpoonup> nat"

definition dget :: "settings \<Rightarrow> string \<Rightarrow> nat \<Rightarrow> nat" where
  "dget s k d = (case s k of None \<Rightarrow> d | Some v \<Rightarrow> v)"

definition policy_from_settings :: "settings \<Rightarrow> policy" where
  "policy_from_settings s = \<lparr>
     slot_interval_minutes = dget s ''DEFAULT_SLOT_INTERVAL_MINUTES'' 15,
     buffer_before_minutes = dget s ''DEFAULT_BUFFER_BEFORE_MINUTES'' 0,
     buffer_after_minutes = dget s ''DEFAULT_BUFFER_AFTER_MINUTES'' 0,
     min_lead_time_hours = dget s ''DEFAULT_MIN_LEAD_HOURS'' 1,
     max_advance_days = dget s ''DEFAULT_MAX_ADVANCE_DAYS'' 180,
     max_active_bookings_per_citizen = dget s ''DEFAULT_MAX_ACTIVE_BOOKINGS'' 3,
     booking_frequency_days = dget s ''DEFAULT_BOOKING_FREQUENCY_DAYS'' 0,
     waitlist_enabled = True,
     waitlist_acceptance_window_hours = dget s ''WAITLIST_ACCEPTANCE_WINDOW_HOURS'' 2,
     max_waitlist_per_slot = 10,
     waitlist_notify_batch_size = dget s ''WAITLIST_NOTIFY_BATCH_SIZE'' 3,
     no_show_warning_threshold = dget s ''GLOBAL_NO_SHOW_WARNING_THRESHOLD'' 1,
     no_show_suspension_threshold = dget s ''GLOBAL_NO_SHOW_SUSPENSION_THRESHOLD'' 3,
     cancellation_notice_hours = 24,
     reschedule_notice_hours = 24,
     max_reschedule_count = 3\<rparr>"

record appointment_type =
  at_service_type :: nat
  at_slug :: string
  at_duration_minutes :: nat
  at_capacity_per_slot :: nat
  at_requires_confirmation :: bool
  at_non_punitive_no_show :: bool
  at_policy :: "policy option"

record location =
  loc_timezone :: string
  loc_policy :: "policy option"

definition resolve_policy :: "settings \<Rightarrow> appointment_type \<Rightarrow> location option \<Rightarrow> policy" where
  "resolve_policy cfg t loc = (case at_policy t of
     Some p \<Rightarrow> p
   | None \<Rightarrow> (case loc of
       None \<Rightarrow> policy_from_settings cfg
     | Some l \<Rightarrow> (case loc_policy l of Some p \<Rightarrow> p | None \<Rightarrow> policy_from_settings cfg)))"

section \<open>Slots, bookings, no-show records\<close>

datatype slot_status = Available | Partial | Full | Blocked | SlotCancelled | SlotCompleted

record slot =
  sl_type :: nat
  sl_staff :: nat
  sl_location :: nat
  sl_start :: int
  sl_end :: int
  sl_eff_start :: int
  sl_eff_end :: int
  sl_capacity :: nat
  sl_spaces :: nat
  sl_status :: slot_status
  sl_note :: string

definition available_spaces :: "slot \<Rightarrow> int" where
  "available_spaces sl = int (sl_capacity sl) - int (sl_spaces sl)"

definition slot_is_available :: "slot \<Rightarrow> bool" where
  "slot_is_available sl \<longleftrightarrow> sl_status sl \<in> {Available, Partial} \<and> 0 < available_spaces sl"

datatype booking_status = BPending | BConfirmed | BRejected | BCancelled | BCompleted

text \<open>The answers and preferences a booking is created with; a rescheduling copies them.\<close>

record intake =
  appointment_mode :: string
  form_responses :: "(string \<times> string) list"
  booking_channel :: string
  interpreter_needed :: bool
  interpreter_language :: string
  accessibility_needs :: string
  language :: string
  consent_recorded_at :: "int option"
  consent_version :: string

record booking =
  bk_slot :: nat
  bk_citizen :: nat
  bk_status :: booking_status
  bk_intake :: intake
  bk_no_show :: bool
  bk_rescheduled :: bool
  bk_rescheduled_from :: "nat option"
  bk_reschedule_count :: nat
  bk_cancelled_at :: "int option"
  bk_cancelled_by :: "nat option"
  bk_cancellation_reason :: string
  bk_late_cancellation :: bool
  bk_reminders :: "string list"
  bk_created_at :: int

definition booking_is_active :: "booking \<Rightarrow> bool" where
  "booking_is_active b \<longleftrightarrow> bk_status b = BPending \<or> bk_status b = BConfirmed"

record no_show_record =
  ns_count :: nat
  ns_late :: nat
  ns_total :: nat
  ns_last_at :: "int option"
  ns_flagged :: bool
  ns_flagged_at :: "int option"
  ns_flagged_by :: "nat option"
  ns_suspended :: bool

definition new_no_show_record :: no_show_record where
  "new_no_show_record = \<lparr>ns_count = 0, ns_late = 0, ns_total = 0, ns_last_at = None,
     ns_flagged = False, ns_flagged_at = None, ns_flagged_by = None, ns_suspended = False\<rparr>"

section \<open>The audit log and the signals\<close>

datatype appt_action =
    ActCreated | ActConfirmed | ActRejected | ActCancelledCitizen | ActCancelledStaff
  | ActCancelledSystem | ActRescheduled | ActCompleted | ActNoShowMarked | ActConsentRecorded

datatype audit_detail =
    DetailEmpty
  | DetailCreated nat string string bool
  | DetailConsent string
  | DetailCancelled bool nat bool
  | DetailMovedTo nat nat
  | DetailMovedFrom nat nat nat
  | DetailNoShow nat bool bool nat
  | DetailSlot nat

datatype actor_role = RoleSystem | RoleOrganizer | RoleSubscriber

record booking_audit =
  ba_booking :: nat
  ba_action :: appt_action
  ba_actor :: "nat option"
  ba_role :: actor_role
  ba_ip :: "string option"
  ba_previous :: "booking_status option"
  ba_new :: "booking_status option"
  ba_detail :: audit_detail

datatype appt_signal =
    BookingCreated nat nat nat string
  | BookingConfirmed nat nat
  | BookingCancelled nat nat "nat option" bool
  | BookingRescheduled nat nat nat
  | NoShowMarked nat nat nat
  | BookingCompleted nat
  | BookingRejected nat nat

text \<open>
  The state: the tables, the audit log (append-only), the signals dispatched after commit
  and the reminder tasks revoked.
\<close>

record appt_state =
  ap_slots :: "slot table"
  ap_bookings :: "booking table"
  ap_noshow :: "no_show_record table"
  ap_audit :: "booking_audit list"
  ap_signals :: "appt_signal list"
  ap_revoked :: "string list"

text \<open>Rows the services only read: appointment types, locations and the settings.\<close>

record appt_env =
  en_type :: "nat \<Rightarrow> appointment_type"
  en_location :: "nat \<Rightarrow> location"
  en_settings :: settings

definition slot_policy :: "appt_env \<Rightarrow> nat \<Rightarrow> nat \<Rightarrow> policy" where
  "slot_policy env t loc = resolve_policy (en_settings env) (en_type env t) (Some (en_location env loc))"

definition day_seconds :: int where
  "day_seconds = 86400"

definition hour_seconds :: int where
  "hour_seconds = 3600"

end
