(* ===== verification/Booking.thy ===== *)
theory Booking
  imports Appointments
begin

text \<open>
  The booking lifecycle service (\<open>services/booking.py\<close>), the two administrative slot
  operations (\<open>services/slots.py\<close>) and the two maintenance tasks of \<open>tasks.py\<close> that
  write slots and bookings. Every function runs in one transaction, so it returns an error
  or the new state.
\<close>

datatype appt_error =
    CitizenSuspended | SlotFullErr | FrequencyWindow | MaxActiveBookings | RescheduleCount
  | RescheduleWindow | InvalidStatusTransition | SlotHasBookings nat | TerminalSlot
  | NoSuchSlot | NoSuchBooking | DuplicateId

section \<open>Helpers\<close>

definition write_audit ::
  "nat \<Rightarrow> appt_action \<Rightarrow> user option \<Rightarrow> booking_status option \<Rightarrow> booking_status option
     \<Rightarrow> audit_detail \<Rightarrow> string option \<Rightarrow> appt_state \<Rightarrow> appt_state" where
  "write_audit k act actor prev new detail ip s =
     s\<lparr>ap_audit := ap_audit s @ [\<lparr>ba_booking = k, ba_action = act,
         ba_actor = map_option u_pk actor,
         ba_role = (case actor of None \<Rightarrow> RoleSystem
            | Some u \<Rightarrow> if u_is_staff u then RoleOrganizer else RoleSubscriber),
         ba_ip = ip, ba_previous = prev, ba_new = new, ba_detail = detail\<rparr>]\<rparr>"

definition get_no_show_record :: "appt_state \<Rightarrow> nat \<Rightarrow> no_show_record" where
  "get_no_show_record s c = (case tget (ap_noshow s) c of None \<Rightarrow> new_no_show_record | Some r \<Rightarrow> r)"

text \<open>
  Best effort: \<open>rev_ok\<close> says which task ids the broker accepts; a failure is only logged.
\<close>

definition revoke_reminder_tasks :: "(string \<Rightarrow> bool) \<Rightarrow> booking \<Rightarrow> appt_state \<Rightarrow> appt_state" where
  "revoke_reminder_tasks rev_ok b s = s\<lparr>ap_revoked := ap_revoked s
     @ filter (\<lambda>t. t \<noteq> '''' \<and> rev_ok t) (bk_reminders b)\<rparr>"

definition update_slot_status :: "slot \<Rightarrow> slot" where
  "update_slot_status sl = sl\<lparr>sl_status :=
     (if sl_spaces sl = 0 then Available
      else if sl_spaces sl < sl_capacity sl then Partial else Full)\<rparr>"

text \<open>\<open>max(0, spaces_used - 1)\<close> is natural subtraction.\<close>

definition release_space :: "slot \<Rightarrow> slot" where
  "release_space sl = update_slot_status (sl\<lparr>sl_spaces := sl_spaces sl - 1\<rparr>)"

definition take_space :: "slot \<Rightarrow> slot" where
  "take_space sl = update_slot_status (sl\<lparr>sl_spaces := sl_spaces sl + 1\<rparr>)"

definition set_slot :: "nat \<Rightarrow> slot \<Rightarrow> appt_state \<Rightarrow> appt_state" where
  "set_slot k sl s = s\<lparr>ap_slots := tput k sl (ap_slots s)\<rparr>"

definition set_booking :: "nat \<Rightarrow> booking \<Rightarrow> appt_state \<Rightarrow> appt_state" where
  "set_booking k b s = s\<lparr>ap_bookings := tput k b (ap_bookings s)\<rparr>"

definition set_no_show :: "nat \<Rightarrow> no_show_record \<Rightarrow> appt_state \<Rightarrow> appt_state" where
  "set_no_show c r s = s\<lparr>ap_noshow := tput c r (ap_noshow s)\<rparr>"

definition signal :: "appt_signal \<Rightarrow> appt_state \<Rightarrow> appt_state" where
  "signal x s = s\<lparr>ap_signals := ap_signals s @ [x]\<rparr>"

text \<open>
  The client IP: the first entry of \<open>X-Forwarded-For\<close>, or \<open>REMOTE_ADDR\<close>; an
  IPv4-mapped IPv6 address loses its prefix. \<open>rq\<close> is (header, address) of the request.
\<close>

definition before_comma :: "string \<Rightarrow> string" where
  "before_comma s = takeWhile (\<lambda>c. c \<noteq> CHR '','') s"

definition extract_ip :: "(string \<times> string) option \<Rightarrow> string option" where
  "extract_ip rq = (case rq of None \<Rightarrow> None
     | Some (xff, addr) \<Rightarrow>
         let ip = (if xff \<noteq> '''' then py_strip (before_comma xff) else addr)
         in if ip = '''' then None
            else let ip' = (if take 7 ip = ''::ffff:'' then drop 7 ip else ip)
                 in if ip' = '''' then None else Some ip')"

section \<open>Creating a booking\<close>

definition bookable :: "slot \<Rightarrow> bool" where
  "bookable sl \<longleftrightarrow> sl_status sl \<in> {Available, Partial} \<and> sl_spaces sl < sl_capacity sl"

text \<open>A confirmed or completed booking of the same service that starts at or after the cutoff.\<close>

definition has_recent_booking :: "appt_env \<Rightarrow> appt_state \<Rightarrow> nat \<Rightarrow> nat \<Rightarrow> int \<Rightarrow> bool" where
  "has_recent_booking env s citizen service cutoff =
     (\<exists>kb\<in>set (ap_bookings s). let b = snd kb in
        bk_citizen b = citizen \<and> bk_status b \<in> {BConfirmed, BCompleted}
        \<and> (case tget (ap_slots s) (bk_slot b) of None \<Rightarrow> False
           | Some sl \<Rightarrow> at_service_type (en_type env (sl_type sl)) = service \<and> cutoff \<le> sl_start sl))"

definition active_count :: "appt_state \<Rightarrow> nat \<Rightarrow> nat" where
  "active_count s citizen = tcount (\<lambda>b. bk_citizen b = citizen \<and> booking_is_active b) (ap_bookings s)"

definition new_booking :: "nat \<Rightarrow> nat \<Rightarrow> booking_status \<Rightarrow> intake \<Rightarrow> int \<Rightarrow> booking" where
  "new_booking slot citizen st i now = \<lparr>bk_slot = slot, bk_citizen = citizen, bk_status = st,
     bk_intake = i, bk_no_show = False, bk_rescheduled = False, bk_rescheduled_from = None,
     bk_reschedule_count = 0, bk_cancelled_at = None, bk_cancelled_by = None,
     bk_cancellation_reason = '''', bk_late_cancellation = False,
     bk_reminders = [], bk_created_at = now\<rparr>"

text \<open>
  The function in its two halves: the guards (they return the locked slot row or the
  error) and the writes.
\<close>

definition create_guard ::
  "appt_env \<Rightarrow> appt_state \<Rightarrow> int \<Rightarrow> nat \<Rightarrow> nat \<Rightarrow> appt_error + slot" where
  "create_guard env s now slot citizen =
     (if (case tget (ap_noshow s) citizen of None \<Rightarrow> False | Some r \<Rightarrow> ns_suspended r)
      then Inl CitizenSuspended
      else case tget (ap_slots s) slot of
        None \<Rightarrow> Inl NoSuchSlot
      | Some sl \<Rightarrow>
          if \<not> bookable sl then Inl SlotFullErr
          else let t = en_type env (sl_type sl); p = slot_policy env (sl_type sl) (sl_location sl)
          in if 0 < booking_frequency_days p
               \<and> has_recent_booking env s citizen (at_service_type t)
                   (now - day_seconds * int (booking_frequency_days p))
             then Inl FrequencyWindow
             else if max_active_bookings_per_citizen p \<le> active_count s citizen
             then Inl MaxActiveBookings
             else Inr sl)"

definition create_write ::
  "appt_env \<Rightarrow> appt_state \<Rightarrow> int \<Rightarrow> nat \<Rightarrow> nat \<Rightarrow> slot \<Rightarrow> nat \<Rightarrow> intake \<Rightarrow> user option
     \<Rightarrow> (string \<times> string) option \<Rightarrow> appt_error + appt_state" where
  "create_write env s now k slot sl citizen i actor rq =
     (if tget (ap_bookings s) k \<noteq> None then Inl DuplicateId
      else let t = en_type env (sl_type sl);
               st = (if at_requires_confirmation t then BPending else BConfirmed);
               ip = extract_ip rq;
               s1 = set_slot slot (take_space sl) (set_booking k (new_booking slot citizen st i now) s);
               s2 = write_audit k ActCreated actor None (Some st)
                      (DetailCreated slot (at_slug t) (booking_channel i) (st = BConfirmed)) ip s1;
               s3 = (if consent_recorded_at i \<noteq> None
                     then write_audit k ActConsentRecorded actor None None
                            (DetailConsent (consent_version i)) ip s2
                     else s2);
               s4 = signal (BookingCreated k slot citizen (booking_channel i)) s3
           in Inr (if st = BConfirmed then signal (BookingConfirmed k slot) s4 else s4))"

definition create_booking ::
  "appt_env \<Rightarrow> appt_state \<Rightarrow> int \<Rightarrow> nat \<Rightarrow> nat \<Rightarrow> nat \<Rightarrow> intake \<Rightarrow> user option
     \<Rightarrow> (string \<times> string) option \<Rightarrow> appt_error + appt_state" where
  "create_booking env s now k slot citizen i actor rq =
     (case create_guard env s now slot citizen of
        Inl e \<Rightarrow> Inl e
      | Inr sl \<Rightarrow> create_write env s now k slot sl citizen i actor rq)"

section \<open>Confirming, cancelling, rejecting\<close>

definition confirm_booking ::
  "appt_state \<Rightarrow> nat \<Rightarrow> user \<Rightarrow> string option \<Rightarrow> appt_error + appt_state" where
  "confirm_booking s k actor ip = (case tget (ap_bookings s) k of
     None \<Rightarrow> Inl NoSuchBooking
   | Some b \<Rightarrow>
       if bk_status b \<noteq> BPending then Inl InvalidStatusTransition
       else Inr (signal (BookingConfirmed k (bk_slot b))
              (write_audit k ActConfirmed (Some actor) (Some (bk_status b)) (Some BConfirmed) DetailEmpty ip
                (set_booking k (b\<lparr>bk_status := BConfirmed\<rparr>) s))))"

definition cancel_booking ::
  "appt_env \<Rightarrow> (string \<Rightarrow> bool) \<Rightarrow> appt_state \<Rightarrow> int \<Rightarrow> nat \<Rightarrow> user option \<Rightarrow> string \<Rightarrow> string option
     \<Rightarrow> appt_error + appt_state" where
  "cancel_booking env rev_ok s now k actor reason ip = (case tget (ap_bookings s) k of
     None \<Rightarrow> Inl NoSuchBooking
   | Some b \<Rightarrow>
       if bk_status b \<in> {BCancelled, BCompleted, BRejected} then Inl InvalidStatusTransition
       else case tget (ap_slots s) (bk_slot b) of
         None \<Rightarrow> Inl NoSuchSlot
       | Some sl \<Rightarrow>
           let was_confirmed = (bk_status b = BConfirmed);
               p = slot_policy env (sl_type sl) (sl_location sl);
               is_late = (sl_start sl < now + hour_seconds * int (cancellation_notice_hours p));
               act = (case actor of None \<Rightarrow> ActCancelledSystem
                      | Some u \<Rightarrow> if u_is_staff u then ActCancelledStaff else ActCancelledCitizen);
               b' = b\<lparr>bk_status := BCancelled, bk_cancelled_at := Some now,
                      bk_cancelled_by := map_option u_pk actor, bk_cancellation_reason := reason,
                      bk_late_cancellation := is_late\<rparr>;
               s1 = set_slot (bk_slot b) (release_space sl)
                      (revoke_reminder_tasks rev_ok b (set_booking k b' s));
               r = get_no_show_record s1 (bk_citizen b);
               s2 = (if is_late \<and> was_confirmed
                     then set_no_show (bk_citizen b) (r\<lparr>ns_late := ns_late r + 1\<rparr>) s1 else s1)
           in Inr (signal (BookingCancelled k (bk_slot b) (map_option u_pk actor) is_late)
                (write_audit k act actor (Some (bk_status b)) (Some BCancelled)
                  (DetailCancelled is_late (bk_slot b) was_confirmed) ip s2)))"

definition reject_booking ::
  "appt_state \<Rightarrow> int \<Rightarrow> nat \<Rightarrow> user \<Rightarrow> string \<Rightarrow> string option \<Rightarrow> appt_error + appt_state" where
  "reject_booking s now k actor reason ip = (case tget (ap_bookings s) k of
     None \<Rightarrow> Inl NoSuchBooking
   | Some b \<Rightarrow>
       if bk_status b \<noteq> BPending then Inl InvalidStatusTransition
       else case tget (ap_slots s) (bk_slot b) of
         None \<Rightarrow> Inl NoSuchSlot
       | Some sl \<Rightarrow> Inr (signal (BookingRejected k (bk_slot b))
           (write_audit k ActRejected (Some actor) (Some (bk_status b)) (Some BRejected)
             (DetailSlot (bk_slot b)) ip
             (set_slot (bk_slot b) (release_space sl)
               (set_booking k (b\<lparr>bk_status := BRejected, bk_cancelled_at := Some now,
                  bk_cancelled_by := Some (u_pk actor), bk_cancellation_reason := reason\<rparr>) s)))))"

section \<open>Rescheduling\<close>

text \<open>
  The new booking takes the answers, preferences and consent of the old one. Both slot rows
  are locked in key order; when they are the same row, the two writes hit one object, so
  the second starts from the result of the first. \<open>new_loc\<close> is the location of the
  slot instance the caller passed.
\<close>

definition rescheduled_booking :: "nat \<Rightarrow> nat \<Rightarrow> booking \<Rightarrow> int \<Rightarrow> booking" where
  "rescheduled_booking k new_slot b now = (new_booking new_slot (bk_citizen b) BConfirmed (bk_intake b) now)
     \<lparr>bk_rescheduled_from := Some k, bk_reschedule_count := bk_reschedule_count b + 1\<rparr>"

definition reschedule_booking ::
  "appt_env \<Rightarrow> (string \<Rightarrow> bool) \<Rightarrow> appt_state \<Rightarrow> int \<Rightarrow> nat \<Rightarrow> nat \<Rightarrow> nat \<Rightarrow> nat \<Rightarrow> user \<Rightarrow> string
     \<Rightarrow> string option \<Rightarrow> appt_error + appt_state" where
  "reschedule_booking env rev_ok s now k k' new_slot new_loc actor reason ip =
    (case tget (ap_bookings s) k of
       None \<Rightarrow> Inl NoSuchBooking
     | Some b \<Rightarrow>
         if bk_status b \<noteq> BConfirmed then Inl InvalidStatusTransition
         else if bk_no_show b then Inl InvalidStatusTransition
         else case tget (ap_slots s) (bk_slot b) of
           None \<Rightarrow> Inl NoSuchSlot
         | Some old \<Rightarrow>
             let p = slot_policy env (sl_type old) new_loc
             in if max_reschedule_count p \<le> bk_reschedule_count b then Inl RescheduleCount
             else if sl_start old \<le> now + hour_seconds * int (reschedule_notice_hours p)
             then Inl RescheduleWindow
             else case tget (ap_slots s) new_slot of
               None \<Rightarrow> Inl NoSuchSlot
             | Some new \<Rightarrow>
                 if \<not> bookable new then Inl SlotFullErr
                 else if tget (ap_bookings s) k' \<noteq> None then Inl DuplicateId
                 else let
                   b' = b\<lparr>bk_status := BCancelled, bk_rescheduled := True, bk_cancelled_at := Some now,
                     bk_cancelled_by := Some (u_pk actor),
                     bk_cancellation_reason :=
                       (if reason \<noteq> '''' then reason else ''Rescheduled by citizen/staff.'')\<rparr>;
                   s1 = set_slot (bk_slot b) (release_space old)
                          (revoke_reminder_tasks rev_ok b (set_booking k b' s));
                   new1 = (if new_slot = bk_slot b then release_space old else new);
                   s2 = set_slot new_slot (take_space new1)
                          (set_booking k' (rescheduled_booking k new_slot b now) s1)
                 in Inr (signal (BookingRescheduled k k' new_slot)
                   (write_audit k' ActCreated (Some actor) None (Some BConfirmed)
                     (DetailMovedFrom k (bk_slot b) (bk_reschedule_count b + 1)) ip
                   (write_audit k ActRescheduled (Some actor) (Some (bk_status b)) (Some BCancelled)
                     (DetailMovedTo k' new_slot) ip s2))))"

section \<open>No-shows and completion\<close>

definition escalate_no_show :: "policy \<Rightarrow> int \<Rightarrow> user \<Rightarrow> no_show_record \<Rightarrow> no_show_record" where
  "escalate_no_show p now actor r =
     (if no_show_suspension_threshold p \<le> ns_count r
      then (let r' = r\<lparr>ns_suspended := True\<rparr> in
            if \<not> ns_flagged r'
            then r'\<lparr>ns_flagged := True, ns_flagged_at := Some now, ns_flagged_by := Some (u_pk actor)\<rparr>
            else r')
      else if no_show_warning_threshold p \<le> ns_count r \<and> \<not> ns_flagged r
      then r\<lparr>ns_flagged := True, ns_flagged_at := Some now, ns_flagged_by := Some (u_pk actor)\<rparr>
      else r)"

definition mark_no_show ::
  "appt_env \<Rightarrow> appt_state \<Rightarrow> int \<Rightarrow> nat \<Rightarrow> user \<Rightarrow> string option \<Rightarrow> appt_error + appt_state" where
  "mark_no_show env s now k actor ip = (case tget (ap_bookings s) k of
     None \<Rightarrow> Inl NoSuchBooking
   | Some b \<Rightarrow>
       if bk_status b \<noteq> BConfirmed then Inl InvalidStatusTransition
       else if bk_no_show b then Inl InvalidStatusTransition
       else case tget (ap_slots s) (bk_slot b) of
         None \<Rightarrow> Inl NoSuchSlot
       | Some sl \<Rightarrow>
           let r0 = get_no_show_record s (bk_citizen b);
               r1 = r0\<lparr>ns_count := ns_count r0 + 1, ns_total := ns_total r0 + 1, ns_last_at := Some now\<rparr>;
               r = escalate_no_show (slot_policy env (sl_type sl) (sl_location sl)) now actor r1
           in Inr (signal (NoShowMarked k (bk_citizen b) (ns_count r1))
                (write_audit k ActNoShowMarked (Some actor) (Some BConfirmed) (Some BConfirmed)
                  (DetailNoShow (ns_count r1) (ns_flagged r) (ns_suspended r) (bk_slot b)) ip
                (set_no_show (bk_citizen b) r (set_booking k (b\<lparr>bk_no_show := True\<rparr>) s)))))"

definition complete_booking ::
  "appt_state \<Rightarrow> nat \<Rightarrow> user option \<Rightarrow> string option \<Rightarrow> appt_error + appt_state" where
  "complete_booking s k actor ip = (case tget (ap_bookings s) k of
     None \<Rightarrow> Inl NoSuchBooking
   | Some b \<Rightarrow>
       if bk_status b \<noteq> BConfirmed then Inl InvalidStatusTransition
       else let r = get_no_show_record s (bk_citizen b)
       in Inr (signal (BookingCompleted k)
            (write_audit k ActCompleted actor (Some (bk_status b)) (Some BCompleted)
              (DetailSlot (bk_slot b)) ip
            (set_no_show (bk_citizen b) (r\<lparr>ns_total := ns_total r + 1\<rparr>)
              (set_booking k (b\<lparr>bk_status := BCompleted\<rparr>) s)))))"

section \<open>Blocking and cancelling slots\<close>

definition active_on_slot :: "appt_state \<Rightarrow> nat \<Rightarrow> nat" where
  "active_on_slot s k = tcount (\<lambda>b. bk_slot b = k \<and> booking_is_active b) (ap_bookings s)"

definition add_note :: "string \<Rightarrow> string \<Rightarrow> string \<Rightarrow> string" where
  "add_note tag existing reason =
     (if existing \<noteq> '''' then py_strip (existing @ [CHR 0x0A] @ tag @ reason) else tag @ reason)"

definition block_slot :: "appt_state \<Rightarrow> nat \<Rightarrow> string \<Rightarrow> appt_error + appt_state" where
  "block_slot s k reason = (case tget (ap_slots s) k of
     None \<Rightarrow> Inl NoSuchSlot
   | Some sl \<Rightarrow>
       if sl_status sl \<in> {SlotCompleted, SlotCancelled} then Inl TerminalSlot
       else if sl_status sl = Blocked then Inr s
       else if 0 < active_on_slot s k then Inl (SlotHasBookings (active_on_slot s k))
       else let sl1 = sl\<lparr>sl_status := Blocked\<rparr> in
         Inr (set_slot k (if reason \<noteq> ''''
           then sl1\<lparr>sl_note := add_note ''[BLOCKED] '' (sl_note sl) reason\<rparr> else sl1) s))"

definition cancel_slot :: "appt_state \<Rightarrow> nat \<Rightarrow> string \<Rightarrow> appt_error + appt_state" where
  "cancel_slot s k reason = (case tget (ap_slots s) k of
     None \<Rightarrow> Inl NoSuchSlot
   | Some sl \<Rightarrow>
       if sl_status sl = SlotCompleted then Inl TerminalSlot
       else if sl_status sl = SlotCancelled then Inr s
       else if 0 < active_on_slot s k then Inl (SlotHasBookings (active_on_slot s k))
       else let sl1 = sl\<lparr>sl_status := SlotCancelled\<rparr> in
         Inr (set_slot k (if reason \<noteq> ''''
           then sl1\<lparr>sl_note := add_note ''[CANCELLED] '' (sl_note sl) reason\<rparr> else sl1) s))"

section \<open>Maintenance tasks\<close>

definition slot_is_past :: "int \<Rightarrow> slot \<Rightarrow> bool" where
  "slot_is_past now sl \<longleftrightarrow> sl_end sl < now \<and> sl_status sl \<in> {Available, Partial, Full}"

definition mark_past_slots_completed :: "appt_state \<Rightarrow> int \<Rightarrow> appt_state \<times> nat" where
  "mark_past_slots_completed s now =
     (s\<lparr>ap_slots := tupdate_where (slot_is_past now) (\<lambda>sl. sl\<lparr>sl_status := SlotCompleted\<rparr>) (ap_slots s)\<rparr>,
      tcount (slot_is_past now) (ap_slots s))"

text \<open>
  The newest 200 expired pending bookings, one transaction each; \<open>clock\<close> is the time at
  which the task reaches a booking. A booking that is no longer pending is skipped, an
  error is logged.
\<close>

definition expired_pending :: "appt_state \<Rightarrow> int \<Rightarrow> nat list" where
  "expired_pending s cutoff = take 200 (map fst (sort_key (\<lambda>kb. - bk_created_at (snd kb))
     (filter (\<lambda>kb. bk_status (snd kb) = BPending \<and> bk_created_at (snd kb) < cutoff) (ap_bookings s))))"

fun cleanup_loop ::
  "appt_env \<Rightarrow> (string \<Rightarrow> bool) \<Rightarrow> (nat \<Rightarrow> int) \<Rightarrow> appt_state \<Rightarrow> nat list \<Rightarrow> appt_state \<times> nat" where
  "cleanup_loop env rev_ok clock s [] = (s, 0)"
| "cleanup_loop env rev_ok clock s (k # ks) = (case tget (ap_bookings s) k of
     None \<Rightarrow> cleanup_loop env rev_ok clock s ks
   | Some b \<Rightarrow>
       if bk_status b \<noteq> BPending then cleanup_loop env rev_ok clock s ks
       else case cancel_booking env rev_ok s (clock k) k None ''Pending timeout exceeded.'' None of
         Inl e \<Rightarrow> cleanup_loop env rev_ok clock s ks
       | Inr s' \<Rightarrow> (let (s'', n) = cleanup_loop env rev_ok clock s' ks in (s'', Suc n)))"

definition cleanup_expired_pending_bookings ::
  "appt_env \<Rightarrow> (string \<Rightarrow> bool) \<Rightarrow> appt_state \<Rightarrow> int \<Rightarrow> (nat \<Rightarrow> int) \<Rightarrow> appt_state \<times> nat" where
  "cleanup_expired_pending_bookings env rev_ok s now clock =
     cleanup_loop env rev_ok clock s (expired_pending s
       (now - 60 * int (dget (en_settings env) ''PENDING_BOOKING_TIMEOUT_MINUTES'' 30)))"

text \<open>
  \<open>Slot.objects.bulk_create(..., ignore_conflicts=True)\<close>: a row whose key is taken is
  left out.
\<close>

fun bulk_create_slots :: "(nat \<times> slot) list \<Rightarrow> slot table \<Rightarrow> slot table" where
  "bulk_create_slots [] t = t"
| "bulk_create_slots ((k, sl) # rows) t =
     bulk_create_slots rows (if tget t k = None then tput k sl t else t)"

section \<open>The component as a transition system\<close>

datatype appt_op =
    OpCreate int nat nat nat intake "user option" "(string \<times> string) option"
  | OpConfirm nat user "string option"
  | OpCancel int nat "user option" string "string option"
  | OpReschedule int nat nat nat nat user string "string option"
  | OpNoShow int nat user "string option"
  | OpComplete nat "user option" "string option"
  | OpReject int nat user string "string option"
  | OpBlock nat string
  | OpCancelSlot nat string
  | OpPastSlots int
  | OpCleanup int "nat \<Rightarrow> int"
  | OpAddSlots "(nat \<times> slot) list"

fun appt_step ::
  "appt_env \<Rightarrow> (string \<Rightarrow> bool) \<Rightarrow> appt_state \<Rightarrow> appt_op \<Rightarrow> appt_error + appt_state" where
  "appt_step env rev_ok s (OpCreate now k slot c i actor rq) = create_booking env s now k slot c i actor rq"
| "appt_step env rev_ok s (OpConfirm k actor ip) = confirm_booking s k actor ip"
| "appt_step env rev_ok s (OpCancel now k actor reason ip) = cancel_booking env rev_ok s now k actor reason ip"
| "appt_step env rev_ok s (OpReschedule now k k' new_slot new_loc actor reason ip) =
     reschedule_booking env rev_ok s now k k' new_slot new_loc actor reason ip"
| "appt_step env rev_ok s (OpNoShow now k actor ip) = mark_no_show env s now k actor ip"
| "appt_step env rev_ok s (OpComplete k actor ip) = complete_booking s k actor ip"
| "appt_step env rev_ok s (OpReject now k actor reason ip) = reject_booking s now k actor reason ip"
| "appt_step env rev_ok s (OpBlock k reason) = block_slot s k reason"
| "appt_step env rev_ok s (OpCancelSlot k reason) = cancel_slot s k reason"
| "appt_step env rev_ok s (OpPastSlots now) = Inr (fst (mark_past_slots_completed s now))"
| "appt_step env rev_ok s (OpCleanup now clock) =
     Inr (fst (cleanup_expired_pending_bookings env rev_ok s now clock))"
| "appt_step env rev_ok s (OpAddSlots rows) =
     Inr (s\<lparr>ap_slots := bulk_create_slots rows (ap_slots s)\<rparr>)"

text \<open>
  New slots are the rows \<open>generate_slots_for_range\<close> builds: available, nothing used, and a
  capacity of at least one (a check constraint of the table).
\<close>

fun op_ok :: "appt_op \<Rightarrow> bool" where
  "op_ok (OpAddSlots rows) =
     list_all (\<lambda>(k, sl). sl_spaces sl = 0 \<and> sl_status sl = Available \<and> 1 \<le> sl_capacity sl) rows"
| "op_ok _ = True"

end
