(* ===== verification/BookingCorrect.thy ===== *)
theory BookingCorrect
  imports Booking
begin

text \<open>
  Correctness of the booking lifecycle: occupancy accounting, the caps on active bookings,
  the audit trail, frozen terminal bookings, no-show escalation, rescheduling and the
  maintenance tasks.
\<close>

section \<open>Occupancy\<close>

definition holds_space :: "booking \<Rightarrow> bool" where
  "holds_space b \<longleftrightarrow> bk_status b \<in> {BPending, BConfirmed, BCompleted}"

definition holders :: "nat \<Rightarrow> booking table \<Rightarrow> nat" where
  "holders k t = tcount (\<lambda>b. bk_slot b = k \<and> holds_space b) t"

definition actives :: "nat \<Rightarrow> booking table \<Rightarrow> nat" where
  "actives k t = tcount (\<lambda>b. bk_slot b = k \<and> booking_is_active b) t"

text \<open>The stored status of a slot that is open for booking agrees with its counters.\<close>

definition status_agrees :: "slot \<Rightarrow> bool" where
  "status_agrees sl \<longleftrightarrow> (case sl_status sl of
     Available \<Rightarrow> sl_spaces sl = 0
   | Partial \<Rightarrow> 0 < sl_spaces sl \<and> sl_spaces sl < sl_capacity sl
   | Full \<Rightarrow> sl_spaces sl = sl_capacity sl
   | _ \<Rightarrow> True)"

definition slot_ok :: "booking table \<Rightarrow> nat \<Rightarrow> slot \<Rightarrow> bool" where
  "slot_ok t k sl \<longleftrightarrow> sl_spaces sl = holders k t \<and> sl_spaces sl \<le> sl_capacity sl
     \<and> 1 \<le> sl_capacity sl \<and> status_agrees sl
     \<and> (sl_status sl \<in> {Blocked, SlotCancelled} \<longrightarrow> actives k t = 0)"

definition tables_ok :: "slot table \<Rightarrow> booking table \<Rightarrow> bool" where
  "tables_ok sls t \<longleftrightarrow> tok sls \<and> tok t \<and> (\<forall>k sl. tget sls k = Some sl \<longrightarrow> slot_ok t k sl)
     \<and> (\<forall>j b. tget t j = Some b \<longrightarrow> tget sls (bk_slot b) \<noteq> None)"

lemma tables_okD:
  "tables_ok sls t \<Longrightarrow> tok sls" "tables_ok sls t \<Longrightarrow> tok t"
  "tables_ok sls t \<Longrightarrow> tget sls k = Some sl \<Longrightarrow> slot_ok t k sl"
  "tables_ok sls t \<Longrightarrow> tget t j = Some b \<Longrightarrow> \<exists>sl. tget sls (bk_slot b) = Some sl"
  by (auto simp: tables_ok_def)

lemma active_holds: "booking_is_active b \<Longrightarrow> holds_space b"
  by (auto simp: booking_is_active_def holds_space_def)

lemma holders_pos: "tget t j = Some b \<Longrightarrow> holds_space b \<Longrightarrow> 0 < holders (bk_slot b) t"
  by (auto simp: holders_def intro: tbl.count_pos)

lemma actives_pos: "tget t j = Some b \<Longrightarrow> booking_is_active b \<Longrightarrow> 0 < actives (bk_slot b) t"
  by (auto simp: actives_def intro: tbl.count_pos)

lemma update_slot_status_fields [simp]:
  "sl_spaces (update_slot_status sl) = sl_spaces sl" "sl_capacity (update_slot_status sl) = sl_capacity sl"
  "sl_start (update_slot_status sl) = sl_start sl" "sl_type (update_slot_status sl) = sl_type sl"
  "sl_location (update_slot_status sl) = sl_location sl"
  by (simp_all add: update_slot_status_def)

lemma update_slot_status_agrees:
  "sl_spaces sl \<le> sl_capacity sl \<Longrightarrow> status_agrees (update_slot_status sl)"
  by (auto simp: status_agrees_def update_slot_status_def)

lemma update_slot_status_open [simp]:
  "sl_status (update_slot_status sl) \<noteq> Blocked" "sl_status (update_slot_status sl) \<noteq> SlotCancelled"
  "sl_status (update_slot_status sl) \<noteq> SlotCompleted"
  by (simp_all add: update_slot_status_def)

lemma take_space_simps [simp]:
  "sl_spaces (take_space sl) = Suc (sl_spaces sl)" "sl_capacity (take_space sl) = sl_capacity sl"
  "sl_status (take_space sl) \<noteq> Blocked" "sl_status (take_space sl) \<noteq> SlotCancelled"
  by (simp_all add: take_space_def)

lemma release_space_simps [simp]:
  "sl_spaces (release_space sl) = sl_spaces sl - 1" "sl_capacity (release_space sl) = sl_capacity sl"
  "sl_status (release_space sl) \<noteq> Blocked" "sl_status (release_space sl) \<noteq> SlotCancelled"
  by (simp_all add: release_space_def)

lemma bookable_release:
  "bookable sl \<Longrightarrow> bookable (release_space sl)"
  by (auto simp: bookable_def release_space_def update_slot_status_def)

lemma slot_ok_other:
  assumes "tok t" and "bk_slot b \<noteq> k" and "case tget t j of None \<Rightarrow> True | Some q \<Rightarrow> bk_slot q \<noteq> k"
  shows "slot_ok (tput j b t) k sl = slot_ok t k sl"
proof -
  have "tcount (\<lambda>b. bk_slot b = k \<and> P b) (tput j b t) = tcount (\<lambda>b. bk_slot b = k \<and> P b) t" for P
    using assms by (cases "tget t j") (simp_all add: tbl.count_insert tbl.count_same)
  then show ?thesis by (simp add: slot_ok_def holders_def actives_def)
qed

lemma tables_write:
  assumes ok: "tables_ok sls t" and k: "tget sls k = Some sl" and t': "tok t'"
    and this_ok: "slot_ok t' k sl'"
    and others: "\<And>i sl. i \<noteq> k \<Longrightarrow> slot_ok t i sl \<Longrightarrow> slot_ok t' i sl"
    and refs: "\<And>j b. tget t' j = Some b \<Longrightarrow> bk_slot b = k \<or> (\<exists>i q. tget t i = Some q \<and> bk_slot q = bk_slot b)"
  shows "tables_ok (tput k sl' sls) t'"
  using assms unfolding tables_ok_def
  by (auto simp: tget_tput tok_tput) metis

lemma tables_book:
  assumes ok: "tables_ok sls t" and j: "tget t j = None" and k: "tget sls (bk_slot b) = Some sl"
    and "bookable sl" and b: "holds_space b"
  shows "tables_ok (tput (bk_slot b) (take_space sl) sls) (tput j b t)"
proof (rule tables_write [OF ok k])
  from ok have tok: "tok t" and slk: "slot_ok t (bk_slot b) sl"
    using k by (simp_all add: tables_okD)
  then show "tok (tput j b t)" by (simp add: tok_tput)
  show "slot_ok (tput j b t) (bk_slot b) (take_space sl)"
    using slk tok j b \<open>bookable sl\<close>
    by (auto simp: slot_ok_def holders_def tbl.count_insert bookable_def)
      (auto simp: take_space_def intro!: update_slot_status_agrees)
  show "slot_ok (tput j b t) i sl" if "i \<noteq> bk_slot b" "slot_ok t i sl" for i sl
    using that tok j by (simp add: slot_ok_other)
  show "bk_slot q = bk_slot b \<or> (\<exists>i p. tget t i = Some p \<and> bk_slot p = bk_slot q)"
    if "tget (tput j b t) l = Some q" for l q
    using that by (auto simp: tget_tput split: if_splits)
qed

lemma tables_release:
  assumes ok: "tables_ok sls t" and j: "tget t j = Some b" and k: "tget sls (bk_slot b) = Some sl"
    and b: "booking_is_active b" and b': "bk_slot b' = bk_slot b" "\<not> holds_space b'"
  shows "tables_ok (tput (bk_slot b) (release_space sl) sls) (tput j b' t)"
proof (rule tables_write [OF ok k])
  from ok have tok: "tok t" and slk: "slot_ok t (bk_slot b) sl"
    using k by (simp_all add: tables_okD)
  then show "tok (tput j b' t)" by (simp add: tok_tput)
  show "slot_ok (tput j b' t) (bk_slot b) (release_space sl)"
    using slk tok j b' active_holds [OF b]
    by (auto simp: slot_ok_def holders_def tbl.count_leave)
      (auto simp: release_space_def intro!: update_slot_status_agrees)
  show "slot_ok (tput j b' t) i sl" if "i \<noteq> bk_slot b" "slot_ok t i sl" for i sl
    using that tok j b' by (simp add: slot_ok_other)
  show "bk_slot q = bk_slot b \<or> (\<exists>i p. tget t i = Some p \<and> bk_slot p = bk_slot q)"
    if "tget (tput j b' t) l = Some q" for l q
    using that b' by (auto simp: tget_tput split: if_splits)
qed

lemma tables_keep:
  assumes ok: "tables_ok sls t" and j: "tget t j = Some b"
    and b': "bk_slot b' = bk_slot b" "holds_space b' = holds_space b"
    "booking_is_active b' \<Longrightarrow> booking_is_active b"
  shows "tables_ok sls (tput j b' t)"
proof -
  from ok have tok: "tok t" by (rule tables_okD)
  have act: "actives k (tput j b' t) = 0" if none: "actives k t = 0" for k
  proof (cases "bk_slot b' = k \<and> booking_is_active b'")
    case True
    with j b' have "0 < actives k t" by (auto dest: actives_pos)
    with none show ?thesis by simp
  next
    case False
    with tok none show ?thesis unfolding actives_def by (intro tbl.count_absent)
  qed
  have "holders k (tput j b' t) = holders k t" for k
    using tok j b' by (simp add: holders_def tbl.count_same)
  with act have slots: "slot_ok (tput j b' t) k sl" if "slot_ok t k sl" for k sl
    using that by (auto simp: slot_ok_def)
  show ?thesis
    unfolding tables_ok_def
  proof (intro conjI allI impI)
    show "tok sls" "tok (tput j b' t)" using ok by (simp_all add: tables_okD tok_tput)
    show "slot_ok (tput j b' t) k sl" if "tget sls k = Some sl" for k sl
      using that ok by (auto intro: slots tables_okD)
    show "tget sls (bk_slot q) \<noteq> None" if "tget (tput j b' t) i = Some q" for i q
      using that j b' ok by (auto simp: tget_tput dest: tables_okD(4) split: if_splits)
  qed
qed

lemma tables_slot:
  assumes ok: "tables_ok sls t" and k: "tget sls k = Some sl"
    and "sl_spaces sl' = sl_spaces sl" "sl_capacity sl' = sl_capacity sl" "status_agrees sl'"
    "sl_status sl' \<in> {Blocked, SlotCancelled} \<Longrightarrow> actives k t = 0"
  shows "tables_ok (tput k sl' sls) t"
  by (rule tables_write [OF ok k])
    (use assms tables_okD(3) [OF ok k] in \<open>auto simp: tables_okD slot_ok_def\<close>)

section \<open>The abstract life of a booking\<close>

text \<open>
  The moves of a booking's status, and the trail the audit log keeps of them: the entries
  that carry a new status (a consent entry carries none).
\<close>

inductive booking_move :: "booking_status option \<Rightarrow> booking_status option \<Rightarrow> bool" where
  born: "st = BPending \<or> st = BConfirmed \<Longrightarrow> booking_move None (Some st)"
| confirmed: "booking_move (Some BPending) (Some BConfirmed)"
| rejected: "booking_move (Some BPending) (Some BRejected)"
| cancelled: "st = BPending \<or> st = BConfirmed \<Longrightarrow> booking_move (Some st) (Some BCancelled)"
| completed: "booking_move (Some BConfirmed) (Some BCompleted)"
| missed: "booking_move (Some BConfirmed) (Some BConfirmed)"

inductive_simps booking_move_None [simp]: "booking_move None st"
inductive_simps booking_move_Some [simp]: "booking_move (Some p) (Some q)"

definition trail :: "booking_audit list \<Rightarrow> (nat \<times> booking_status option \<times> booking_status option) list" where
  "trail A = map (\<lambda>a. (ba_booking a, ba_previous a, ba_new a)) (filter (\<lambda>a. ba_new a \<noteq> None) A)"

definition trail_of :: "nat \<Rightarrow> booking_audit list \<Rightarrow> (booking_status option \<times> booking_status option) list" where
  "trail_of j A = map snd (filter (\<lambda>x. fst x = j) (trail A))"

fun trail_end ::
  "booking_status option \<Rightarrow> (booking_status option \<times> booking_status option) list
     \<Rightarrow> booking_status option option" where
  "trail_end cur [] = Some cur"
| "trail_end cur ((p, n) # xs) = (if p = cur \<and> booking_move p n then trail_end n xs else None)"

lemma trail_end_append:
  "trail_end cur (xs @ ys) = (case trail_end cur xs of None \<Rightarrow> None | Some st \<Rightarrow> trail_end st ys)"
  by (induction cur xs rule: trail_end.induct) auto

definition logged ::
  "(nat \<times> booking_status option \<times> booking_status option) list
     \<Rightarrow> booking_audit list \<Rightarrow> booking_audit list \<Rightarrow> bool" where
  "logged ms A A' \<longleftrightarrow> (\<exists>rows. A' = A @ rows \<and> trail rows = ms)"

lemma logged_trail_of: "logged ms A A' \<Longrightarrow> trail_of j A' = trail_of j A @ map snd (filter (\<lambda>x. fst x = j) ms)"
  by (auto simp: logged_def trail_of_def trail_def)

lemma logged_prefix: "logged ms A A' \<Longrightarrow> prefix A A'"
  by (auto simp: logged_def)

definition citizen_active :: "nat \<Rightarrow> booking table \<Rightarrow> nat" where
  "citizen_active c t = tcount (\<lambda>b. bk_citizen b = c \<and> booking_is_active b) t"

text \<open>
  What administration and the maintenance tasks may do to slots: add new empty ones,
  complete some, block or cancel those without active bookings; counters stay.
\<close>

definition slot_adjusted :: "nat \<Rightarrow> slot option \<Rightarrow> slot option \<Rightarrow> bool" where
  "slot_adjusted n x y \<longleftrightarrow> (case (x, y) of
     (None, None) \<Rightarrow> True
   | (None, Some sl') \<Rightarrow> sl_spaces sl' = 0 \<and> 1 \<le> sl_capacity sl' \<and> sl_status sl' = Available
   | (Some sl, None) \<Rightarrow> False
   | (Some sl, Some sl') \<Rightarrow> sl_spaces sl' = sl_spaces sl \<and> sl_capacity sl' = sl_capacity sl
       \<and> (sl_status sl' = sl_status sl \<or> sl_status sl' = SlotCompleted
          \<or> sl_status sl' \<in> {Blocked, SlotCancelled} \<and> n = 0))"

definition slots_adjusted :: "booking table \<Rightarrow> slot table \<Rightarrow> slot table \<Rightarrow> bool" where
  "slots_adjusted t sls sls' \<longleftrightarrow> (tok sls \<longrightarrow> tok sls')
     \<and> (\<forall>k. slot_adjusted (actives k t) (tget sls k) (tget sls' k))"

type_synonym appt_core = "slot table \<times> booking table \<times> booking_audit list"

definition core :: "appt_state \<Rightarrow> appt_core" where
  "core s = (ap_slots s, ap_bookings s, ap_audit s)"

text \<open>
  The component's specification: four ways a booking lives and one way slots change. Every
  move that changes a booking logs it; \<open>M\<close> is the greatest number of active bookings any
  policy allows one citizen.
\<close>

inductive appt_move :: "nat \<Rightarrow> appt_core \<Rightarrow> appt_core \<Rightarrow> bool" for M where
  move_create:
    "\<lbrakk>tget t j = None; tget sls (bk_slot b) = Some sl; bookable sl; booking_is_active b;
      citizen_active (bk_citizen b) t < M; logged [(j, None, Some (bk_status b))] A A'\<rbrakk>
     \<Longrightarrow> appt_move M (sls, t, A) (tput (bk_slot b) (take_space sl) sls, tput j b t, A')"
| move_update:
    "\<lbrakk>tget t j = Some b; bk_slot b' = bk_slot b; bk_citizen b' = bk_citizen b;
      booking_is_active b; holds_space b'; booking_move (Some (bk_status b)) (Some (bk_status b'));
      logged [(j, Some (bk_status b), Some (bk_status b'))] A A'\<rbrakk>
     \<Longrightarrow> appt_move M (sls, t, A) (sls, tput j b' t, A')"
| move_close:
    "\<lbrakk>tget t j = Some b; bk_slot b' = bk_slot b; bk_citizen b' = bk_citizen b;
      tget sls (bk_slot b) = Some sl; booking_is_active b; \<not> holds_space b';
      booking_move (Some (bk_status b)) (Some (bk_status b'));
      logged [(j, Some (bk_status b), Some (bk_status b'))] A A'\<rbrakk>
     \<Longrightarrow> appt_move M (sls, t, A) (tput (bk_slot b) (release_space sl) sls, tput j b' t, A')"
| move_rebook:
    "\<lbrakk>tget t j = Some b; bk_status b = BConfirmed; bk_status b' = BCancelled;
      bk_slot b' = bk_slot b; bk_citizen b' = bk_citizen b; tget sls (bk_slot b) = Some old;
      sls1 = tput (bk_slot b) (release_space old) sls; tget t i = None;
      tget sls1 (bk_slot d) = Some new; bookable new; bk_status d = BConfirmed;
      bk_citizen d = bk_citizen b;
      logged [(j, Some BConfirmed, Some BCancelled), (i, None, Some BConfirmed)] A A'\<rbrakk>
     \<Longrightarrow> appt_move M (sls, t, A)
          (tput (bk_slot d) (take_space new) sls1, tput i d (tput j b' t), A')"
| move_slots:
    "slots_adjusted t sls sls' \<Longrightarrow> appt_move M (sls, t, A) (sls', t, A)"

section \<open>What the moves keep\<close>

fun core_ok :: "nat \<Rightarrow> appt_core \<Rightarrow> bool" where
  "core_ok M (sls, t, A) \<longleftrightarrow> tables_ok sls t \<and> (\<forall>c. citizen_active c t \<le> M)
     \<and> (\<forall>j. trail_end None (trail_of j A) = Some (map_option bk_status (tget t j)))"

lemma citizen_active_other:
  "tok t \<Longrightarrow> tget t j = Some b \<Longrightarrow> bk_citizen b' = bk_citizen b
     \<Longrightarrow> booking_is_active b \<Longrightarrow> citizen_active c (tput j b' t) \<le> citizen_active c t"
  using tbl.put_balance [of t "\<lambda>b. bk_citizen b = c \<and> booking_is_active b" j b']
  by (auto simp: citizen_active_def of_bool_def split: if_splits)

lemma citizen_active_close:
  "tok t \<Longrightarrow> tget t j = Some b \<Longrightarrow> bk_citizen b' = bk_citizen b \<Longrightarrow> booking_is_active b
     \<Longrightarrow> \<not> booking_is_active b'
     \<Longrightarrow> citizen_active c (tput j b' t) + of_bool (c = bk_citizen b) = citizen_active c t"
  using tbl.put_balance [of t "\<lambda>b. bk_citizen b = c \<and> booking_is_active b" j b']
  by (auto simp: citizen_active_def)

lemma citizen_active_book:
  "tok t \<Longrightarrow> tget t j = None
     \<Longrightarrow> citizen_active c (tput j b t) \<le> citizen_active c t + of_bool (c = bk_citizen b)"
  by (auto simp: citizen_active_def tbl.count_insert)

lemma trail_logged:
  assumes "trail_end None (trail_of j A) = Some (map_option bk_status (tget t j))"
    and "logged [(i, p, n)] A A'" and "p = map_option bk_status (tget t i)"
    and "n = Some (bk_status b)" and "booking_move p n"
  shows "trail_end None (trail_of j A') = Some (map_option bk_status (tget (tput i b t) j))"
  using assms by (auto simp: logged_trail_of trail_end_append tget_tput)

lemma tables_adjusted:
  assumes ok: "tables_ok sls t" and adj: "slots_adjusted t sls sls'"
  shows "tables_ok sls' t"
  unfolding tables_ok_def
proof (intro conjI allI impI)
  show "tok sls'" "tok t" using ok adj by (simp_all add: tables_okD slots_adjusted_def)
  show "tget sls' (bk_slot b) \<noteq> None" if "tget t j = Some b" for j b
  proof -
    from tables_okD(4) [OF ok that] obtain sl where "tget sls (bk_slot b) = Some sl" ..
    with adj have "slot_adjusted (actives (bk_slot b) t) (Some sl) (tget sls' (bk_slot b))"
      unfolding slots_adjusted_def by metis
    then show ?thesis by (auto simp: slot_adjusted_def split: option.splits)
  qed
  show "slot_ok t k sl'" if k: "tget sls' k = Some sl'" for k sl'
  proof (cases "tget sls k")
    case None
    have "bk_slot b \<noteq> k" if "tget t j = Some b" for j b
      using tables_okD(4) [OF ok that] None by auto
    then have "holders k t = 0" "actives k t = 0"
      using ok by (auto simp: holders_def actives_def tables_okD tcount_none)
    moreover from adj None k have "slot_adjusted (actives k t) None (Some sl')"
      unfolding slots_adjusted_def by metis
    ultimately show ?thesis
      by (simp add: slot_adjusted_def slot_ok_def status_agrees_def)
  next
    case (Some sl)
    from adj Some k have "slot_adjusted (actives k t) (Some sl) (Some sl')"
      unfolding slots_adjusted_def by metis
    with tables_okD(3) [OF ok Some] show ?thesis
      by (auto simp: slot_adjusted_def slot_ok_def status_agrees_def split: slot_status.splits)
  qed
qed

lemma core_ok_move:
  assumes "appt_move M x y" and "core_ok M x"
  shows "core_ok M y"
  using assms
proof (induction rule: appt_move.induct)
  case (move_create t j sls b sl A A')
  then have ok: "tables_ok sls t" and tok: "tok t" and cap: "\<And>c. citizen_active c t \<le> M"
    by (auto intro: tables_okD)
  have "citizen_active c (tput j b t) \<le> M" for c
    using citizen_active_book [OF tok move_create.hyps(1), of c b] cap [of c] move_create.hyps(5)
    by (cases "c = bk_citizen b") auto
  moreover have "tables_ok (tput (bk_slot b) (take_space sl) sls) (tput j b t)"
    using move_create.hyps by (intro tables_book [OF ok]) (auto intro: active_holds)
  moreover have "booking_move None (Some (bk_status b))"
    using move_create.hyps(4) by (auto simp: booking_is_active_def)
  ultimately show ?case
    using move_create by (auto intro!: trail_logged)
next
  case (move_update t j b b' A A' sls)
  then have ok: "tables_ok sls t" and tok: "tok t" and cap: "\<And>c. citizen_active c t \<le> M"
    by (auto intro: tables_okD)
  have "citizen_active c (tput j b' t) \<le> M" for c
    using citizen_active_other [OF tok move_update.hyps(1), of b' c] cap [of c] move_update.hyps(3,4)
    by (auto intro: le_trans)
  moreover have "tables_ok sls (tput j b' t)"
    using move_update.hyps by (intro tables_keep [OF ok]) (auto dest: active_holds)
  ultimately show ?case
    using move_update by (auto intro!: trail_logged)
next
  case (move_close t j b b' sls sl A A')
  then have ok: "tables_ok sls t" and tok: "tok t" and cap: "\<And>c. citizen_active c t \<le> M"
    by (auto intro: tables_okD)
  have "citizen_active c (tput j b' t) \<le> M" for c
    using citizen_active_other [OF tok move_close.hyps(1), of b' c] cap [of c] move_close.hyps(3,5)
    by (auto intro: le_trans)
  moreover have "tables_ok (tput (bk_slot b) (release_space sl) sls) (tput j b' t)"
    using move_close.hyps by (intro tables_release [OF ok])
  ultimately show ?case
    using move_close by (auto intro!: trail_logged)
next
  case (move_rebook t j b b' sls old sls1 i d new A A')
  then have ok: "tables_ok sls t" and tok: "tok t" and cap: "\<And>c. citizen_active c t \<le> M"
    and act: "booking_is_active b" "\<not> booking_is_active b'" "\<not> holds_space b'" "holds_space d"
    and trl: "\<And>j. trail_end None (trail_of j A) = Some (map_option bk_status (tget t j))"
    by (auto simp: booking_is_active_def holds_space_def intro: tables_okD)
  let ?t1 = "tput j b' t"
  have ok1: "tables_ok sls1 ?t1"
    unfolding \<open>sls1 = _\<close> using move_rebook.hyps act by (intro tables_release [OF ok])
  have i: "tget ?t1 i = None" "i \<noteq> j" using move_rebook.hyps by (auto simp: tget_tput)
  have "tables_ok (tput (bk_slot d) (take_space new) sls1) (tput i d ?t1)"
    using move_rebook.hyps act i by (intro tables_book [OF ok1])
  moreover have "citizen_active c (tput i d ?t1) \<le> M" for c
    using citizen_active_close [OF tok move_rebook.hyps(1,5) act(1,2), of c] cap [of c]
      citizen_active_book [OF tok_tput [OF tok] i(1), of c d] move_rebook.hyps(12)
    by (cases "c = bk_citizen b") auto
  moreover have "trail_end None (trail_of k A') = Some (map_option bk_status (tget (tput i d ?t1) k))" for k
    using trl [of k] move_rebook.hyps i
    by (auto simp: logged_trail_of [OF move_rebook.hyps(13)] trail_end_append tget_tput)
  ultimately show ?case by simp
next
  case (move_slots t sls sls' A)
  then show ?case by (auto intro: tables_adjusted)
qed

text \<open>Over time: terminal bookings stay as they are, the audit log grows at its end.\<close>

fun core_later :: "appt_core \<Rightarrow> appt_core \<Rightarrow> bool" where
  "core_later (sls, t, A) (sls', t', A') \<longleftrightarrow>
     (\<forall>j b. tget t j = Some b \<longrightarrow> \<not> booking_is_active b \<longrightarrow> tget t' j = Some b) \<and> prefix A A'"

lemma core_later_refl [simp]: "core_later x x"
  by (cases x) auto

lemma core_later_trans: "core_later x y \<Longrightarrow> core_later y z \<Longrightarrow> core_later x z"
  by (cases x; cases y; cases z) (auto intro: prefix_order.trans)

lemma core_later_move: "appt_move M x y \<Longrightarrow> core_later x y"
  by (induction rule: appt_move.induct)
    (auto simp: tget_tput booking_is_active_def intro: logged_prefix)

lemma core_ok_moves: "(appt_move M)\<^sup>*\<^sup>* x y \<Longrightarrow> core_ok M x \<Longrightarrow> core_ok M y"
  by (induction rule: rtranclp_induct) (auto intro: core_ok_move)

lemma core_later_moves: "(appt_move M)\<^sup>*\<^sup>* x y \<Longrightarrow> core_later x y"
  by (induction rule: rtranclp_induct) (auto intro: core_later_move core_later_trans)

end
