(* ===== verification/BookingRefine.thy ===== *)
theory BookingRefine
  imports BookingCorrect "HOL-Library.Multiset"
begin

text \<open>
  The services refine the abstract moves of \<open>BookingCorrect\<close>, so every run keeps its
  invariant; suspension is permanent, and what the expiry task leaves.
\<close>

section \<open>Each service is a move\<close>

lemmas appt_updates = set_slot_def set_booking_def set_no_show_def signal_def write_audit_def
  revoke_reminder_tasks_def core_def Let_def

definition policy_cap :: "appt_env \<Rightarrow> nat \<Rightarrow> bool" where
  "policy_cap env M \<longleftrightarrow> (\<forall>t loc. max_active_bookings_per_citizen (slot_policy env t loc) \<le> M)"

lemma logged_append: "trail rows = ms \<Longrightarrow> logged ms A (A @ rows)"
  by (auto simp: logged_def)

lemma active_count_eq: "active_count s c = citizen_active c (ap_bookings s)"
  by (simp add: active_count_def citizen_active_def)

lemma create_guard_Inr:
  assumes "create_guard env s now slot c = Inr sl" and "policy_cap env M"
  shows "tget (ap_slots s) slot = Some sl \<and> bookable sl \<and> citizen_active c (ap_bookings s) < M"
  using assms
  by (auto simp: create_guard_def Let_def active_count_eq policy_cap_def not_le
      split: if_splits option.splits intro: less_le_trans)

lemma create_move:
  assumes "create_booking env s now k slot c i actor rq = Inr s'" and "policy_cap env M"
  shows "appt_move M (core s) (core s')"
proof -
  from assms(1) obtain sl where g: "create_guard env s now slot c = Inr sl"
    and w: "create_write env s now k slot sl c i actor rq = Inr s'"
    by (auto simp: create_booking_def split: sum.splits)
  from g assms(2) have sl: "tget (ap_slots s) slot = Some sl" "bookable sl"
    "citizen_active c (ap_bookings s) < M"
    by (auto dest: create_guard_Inr)
  let ?st = "if at_requires_confirmation (en_type env (sl_type sl)) then BPending else BConfirmed"
  let ?b = "new_booking slot c ?st i now"
  from w have k: "tget (ap_bookings s) k = None"
    by (auto simp: create_write_def split: if_splits)
  obtain rows where "core s' = (tput slot (take_space sl) (ap_slots s), tput k ?b (ap_bookings s), ap_audit s @ rows)"
    and rows: "trail rows = [(k, None, Some ?st)]"
    using w k by (auto simp: create_write_def appt_updates trail_def split: if_splits)
  moreover have "appt_move M (core s) (tput (bk_slot ?b) (take_space sl) (ap_slots s),
      tput k ?b (ap_bookings s), ap_audit s @ rows)"
    unfolding core_def using k sl rows
    by (intro move_create logged_append) (simp_all add: new_booking_def booking_is_active_def)
  ultimately show ?thesis by (simp add: new_booking_def)
qed

lemma confirm_move:
  assumes "confirm_booking s k actor ip = Inr s'"
  shows "appt_move M (core s) (core s')"
  using assms
  by (auto simp: confirm_booking_def appt_updates booking_is_active_def holds_space_def trail_def
      split: option.splits if_splits intro!: move_update logged_append)

lemma no_show_move:
  assumes "mark_no_show env s now k actor ip = Inr s'"
  shows "appt_move M (core s) (core s')"
  using assms
  by (auto simp: mark_no_show_def appt_updates booking_is_active_def holds_space_def trail_def
      split: option.splits if_splits intro!: move_update logged_append)

lemma complete_move:
  assumes "complete_booking s k actor ip = Inr s'"
  shows "appt_move M (core s) (core s')"
  using assms
  by (auto simp: complete_booking_def appt_updates booking_is_active_def holds_space_def trail_def
      split: option.splits if_splits intro!: move_update logged_append)

lemma reject_move:
  assumes "reject_booking s now k actor reason ip = Inr s'"
  shows "appt_move M (core s) (core s')"
  using assms
  by (auto simp: reject_booking_def appt_updates booking_is_active_def holds_space_def trail_def
      split: option.splits if_splits intro!: move_close logged_append)

lemma open_status: "st \<notin> {BCancelled, BCompleted, BRejected} \<longleftrightarrow> st = BPending \<or> st = BConfirmed"
  by (cases st) auto

lemma cancel_move:
  assumes "cancel_booking env rev_ok s now k actor reason ip = Inr s'"
  shows "appt_move M (core s) (core s')"
proof -
  from assms obtain b sl where b: "tget (ap_bookings s) k = Some b"
    and st: "bk_status b \<notin> {BCancelled, BCompleted, BRejected}"
    and sl: "tget (ap_slots s) (bk_slot b) = Some sl"
    by (auto simp: cancel_booking_def split: option.splits if_splits)
  from st have st': "bk_status b = BPending \<or> bk_status b = BConfirmed"
    by (simp only: open_status)
  define b' rows where "b' = the (tget (ap_bookings s') k)"
    and "rows = drop (length (ap_audit s)) (ap_audit s')"
  then have s': "core s' = (tput (bk_slot b) (release_space sl) (ap_slots s),
      tput k b' (ap_bookings s), ap_audit s @ rows)"
    and rows: "trail rows = [(k, Some (bk_status b), Some BCancelled)]"
    and b': "bk_slot b' = bk_slot b" "bk_citizen b' = bk_citizen b" "bk_status b' = BCancelled"
    using assms b st' sl by (auto simp: cancel_booking_def appt_updates trail_def tget_tput)
  show ?thesis
    unfolding s' unfolding core_def using b sl st' rows b'
    by (intro move_close [where b = b] logged_append)
      (auto simp: booking_is_active_def holds_space_def)
qed

lemma reschedule_move:
  assumes "reschedule_booking env rev_ok s now k k' slot loc actor reason ip = Inr s'"
  shows "appt_move M (core s) (core s')"
proof -
  from assms obtain b old new where b: "tget (ap_bookings s) k = Some b" "bk_status b = BConfirmed"
    "\<not> bk_no_show b" and k': "tget (ap_bookings s) k' = None"
    and old: "tget (ap_slots s) (bk_slot b) = Some old" and new: "tget (ap_slots s) slot = Some new"
    and bookable: "bookable new"
    by (auto simp: reschedule_booking_def Let_def split: option.splits if_splits)
  let ?new = "if slot = bk_slot b then release_space old else new"
  let ?d = "rescheduled_booking k slot b now"
  let ?sls1 = "tput (bk_slot b) (release_space old) (ap_slots s)"
  define b' rows where "b' = the (tget (ap_bookings s') k)"
    and "rows = drop (length (ap_audit s)) (ap_audit s')"
  then have s': "core s' = (tput slot (take_space ?new) ?sls1,
      tput k' ?d (tput k b' (ap_bookings s)), ap_audit s @ rows)"
    and rows: "trail rows = [(k, Some BConfirmed, Some BCancelled), (k', None, Some BConfirmed)]"
    and b': "bk_slot b' = bk_slot b" "bk_citizen b' = bk_citizen b" "bk_status b' = BCancelled"
    using assms b k' old new
    by (auto simp: reschedule_booking_def appt_updates trail_def tget_tput split: if_splits)
  have d: "bk_slot ?d = slot" "bk_citizen ?d = bk_citizen b" "bk_status ?d = BConfirmed"
    by (simp_all add: rescheduled_booking_def new_booking_def)
  have "tget ?sls1 slot = Some ?new" "bookable ?new"
    using old new bookable by (auto simp: tget_tput bookable_release)
  then have "appt_move M (core s) (tput (bk_slot ?d) (take_space ?new) ?sls1,
      tput k' ?d (tput k b' (ap_bookings s)), ap_audit s @ rows)"
    unfolding core_def using b b' old k' d rows
    by (intro move_rebook [where b = b and new = ?new] logged_append) simp_all
  then show ?thesis by (simp only: s' d)
qed

lemma adjusted_write:
  assumes "tget sls k = Some sl" and "slot_adjusted (actives k t) (Some sl) (Some sl')"
  shows "slots_adjusted t sls (tput k sl' sls)"
  using assms
  by (auto simp: slots_adjusted_def tget_tput tok_tput slot_adjusted_def split: option.splits)

lemma adjusted_refl: "slots_adjusted t sls sls"
  by (auto simp: slots_adjusted_def slot_adjusted_def split: option.splits)

lemma block_move:
  assumes "block_slot s k reason = Inr s'"
  shows "appt_move M (core s) (core s')"
  using assms
  by (auto simp: block_slot_def appt_updates slot_adjusted_def active_on_slot_def actives_def
      split: option.splits if_splits intro!: move_slots adjusted_write adjusted_refl)

lemma cancel_slot_move:
  assumes "cancel_slot s k reason = Inr s'"
  shows "appt_move M (core s) (core s')"
  using assms
  by (auto simp: cancel_slot_def appt_updates slot_adjusted_def active_on_slot_def actives_def
      split: option.splits if_splits intro!: move_slots adjusted_write adjusted_refl)

lemma past_move: "appt_move M (core s) (core (fst (mark_past_slots_completed s now)))"
  by (auto simp: mark_past_slots_completed_def core_def slots_adjusted_def tget_tupdate_where
      tok_tupdate_where slot_adjusted_def split: option.splits intro!: move_slots)

lemma bulk_create_get:
  "tget (bulk_create_slots rows t) k
     = (case tget t k of None \<Rightarrow> tget rows k | Some sl \<Rightarrow> Some sl)"
  by (induction rows t rule: bulk_create_slots.induct)
    (auto simp: tget_tput tget_Cons split: option.splits)

lemma bulk_create_ok: "tok t \<Longrightarrow> tok (bulk_create_slots rows t)"
  by (induction rows t rule: bulk_create_slots.induct) (auto simp: tok_tput)

lemma add_slots_move:
  assumes "op_ok (OpAddSlots rows)"
  shows "appt_move M (core s) (core (s\<lparr>ap_slots := bulk_create_slots rows (ap_slots s)\<rparr>))"
  using assms
  by (force simp: core_def slots_adjusted_def bulk_create_ok bulk_create_get slot_adjusted_def
      list_all_iff split: option.splits dest!: tget_in_set intro!: move_slots)

lemma cleanup_moves: "(appt_move M)\<^sup>*\<^sup>* (core s) (core (fst (cleanup_loop env rev_ok clock s ks)))"
proof (induction ks arbitrary: s)
  case (Cons k ks)
  show ?case
  proof (cases "cancel_booking env rev_ok s (clock k) k None ''Pending timeout exceeded.'' None")
    case (Inl e)
    then show ?thesis using Cons by (simp split: option.splits)
  next
    case (Inr s')
    then have "appt_move M (core s) (core s')" by (rule cancel_move)
    then have "(appt_move M)\<^sup>*\<^sup>* (core s) (core (fst (cleanup_loop env rev_ok clock s' ks)))"
      using Cons.IH by (rule converse_rtranclp_into_rtranclp)
    then show ?thesis
      using Inr Cons by (simp add: case_prod_beta split: option.splits)
  qed
qed simp

text \<open>Every call that commits is a sequence of moves: the component refines its specification.\<close>

lemma step_moves:
  assumes "policy_cap env M" and "op_ok x" and "appt_step env rev_ok s x = Inr s'"
  shows "(appt_move M)\<^sup>*\<^sup>* (core s) (core s')"
proof -
  consider now clock where "x = OpCleanup now clock" | "\<And>now clock. x \<noteq> OpCleanup now clock" by blast
  then show ?thesis
  proof cases
    case 1
    with assms(3) show ?thesis
      by (auto simp: cleanup_expired_pending_bookings_def cleanup_moves)
  next
    case 2
    with assms have "appt_move M (core s) (core s')"
      by (cases x) (auto intro: create_move confirm_move cancel_move reschedule_move no_show_move
          complete_move reject_move block_move cancel_slot_move past_move add_slots_move)
    then show ?thesis by (rule r_into_rtranclp)
  qed
qed

definition appt_inv :: "nat \<Rightarrow> appt_state \<Rightarrow> bool" where
  "appt_inv M s \<longleftrightarrow> core_ok M (core s)"

text \<open>
  What a run owes the services: new slots are empty ones, and no policy allows a citizen
  more than \<open>M\<close> active bookings.
\<close>

definition appt_owed :: "appt_env \<Rightarrow> nat \<Rightarrow> appt_state \<Rightarrow> appt_op \<Rightarrow> bool" where
  "appt_owed env M s x \<longleftrightarrow> policy_cap env M \<and> op_ok x"

interpretation booking: monotone_system "appt_step env rev_ok" "appt_owed env M" "appt_inv M"
  "\<lambda>s s'. core_later (core s) (core s')" for env rev_ok M
proof unfold_locales
  fix s x s'
  assume owed: "appt_owed env M s x" and step: "appt_step env rev_ok s x = Inr s'"
  then have m: "(appt_move M)\<^sup>*\<^sup>* (core s) (core s')"
    by (intro step_moves) (auto simp: appt_owed_def)
  show "appt_inv M s'" if "appt_inv M s"
    using that core_ok_moves [OF m] by (simp add: appt_inv_def)
  show "core_later (core s) (core s')" by (rule core_later_moves [OF m])
qed (auto intro: core_later_trans)

definition no_appts :: appt_state where
  "no_appts = \<lparr>ap_slots = [], ap_bookings = [], ap_noshow = [], ap_audit = [], ap_signals = [],
     ap_revoked = []\<rparr>"

lemma no_appts_inv [simp]: "appt_inv M no_appts"
  by (simp add: appt_inv_def core_def no_appts_def tables_ok_def citizen_active_def trail_of_def trail_def)

lemma appt_inv_run:
  assumes "policy_cap env M" and "list_all op_ok xs" and "appt_inv M s"
  shows "appt_inv M (run_ops (appt_step env rev_ok) s xs)"
proof -
  have "ops_ok (appt_owed env M) (appt_step env rev_ok) s xs"
    using assms(1,2) by (induction xs arbitrary: s) (auto simp: appt_owed_def)
  with assms(3) show ?thesis by (rule booking.inv_run)
qed

section \<open>Suspension\<close>

definition suspended :: "appt_state \<Rightarrow> nat \<Rightarrow> bool" where
  "suspended s c \<longleftrightarrow> (case tget (ap_noshow s) c of None \<Rightarrow> False | Some r \<Rightarrow> ns_suspended r)"

definition suspension_kept :: "appt_state \<Rightarrow> appt_state \<Rightarrow> bool" where
  "suspension_kept s s' \<longleftrightarrow> (\<forall>c. suspended s c \<longrightarrow> suspended s' c)"

lemma suspended_create: "suspended s c \<Longrightarrow> create_booking env s now k slot c i actor rq = Inl CitizenSuspended"
  by (simp add: create_booking_def create_guard_def suspended_def)

lemma suspension_same: "ap_noshow s' = ap_noshow s \<Longrightarrow> suspension_kept s s'"
  by (simp add: suspension_kept_def suspended_def)

lemma suspension_put:
  assumes "ap_noshow s' = tput c r (ap_noshow s)"
    and "ns_suspended (get_no_show_record s c) \<Longrightarrow> ns_suspended r"
  shows "suspension_kept s s'"
  using assms
  by (auto simp: suspension_kept_def suspended_def get_no_show_record_def tget_tput split: option.splits)

lemma escalate_suspended: "ns_suspended r \<Longrightarrow> ns_suspended (escalate_no_show p now actor r)"
  by (simp add: escalate_no_show_def Let_def)

lemma suspension_cancel:
  "cancel_booking env rev_ok s now k actor reason ip = Inr s' \<Longrightarrow> suspension_kept s s'"
  by (auto simp: cancel_booking_def appt_updates get_no_show_record_def split: option.splits if_splits
      intro: suspension_same suspension_put)

lemma suspension_no_show: "mark_no_show env s now k actor ip = Inr s' \<Longrightarrow> suspension_kept s s'"
  by (auto simp: mark_no_show_def appt_updates split: option.splits if_splits
      intro!: suspension_put escalate_suspended)

lemma suspension_complete: "complete_booking s k actor ip = Inr s' \<Longrightarrow> suspension_kept s s'"
  by (auto simp: complete_booking_def appt_updates split: option.splits if_splits intro!: suspension_put)

lemma suspension_cleanup: "suspension_kept s (fst (cleanup_loop env rev_ok clock s ks))"
proof (induction ks arbitrary: s)
  case (Cons k ks)
  show ?case
  proof (cases "cancel_booking env rev_ok s (clock k) k None ''Pending timeout exceeded.'' None")
    case (Inl e)
    then show ?thesis using Cons by (simp split: option.splits)
  next
    case (Inr s')
    from suspension_cancel [OF this] Cons.IH [of s']
    have "suspension_kept s (fst (cleanup_loop env rev_ok clock s' ks))"
      by (simp add: suspension_kept_def)
    then show ?thesis using Inr Cons by (simp add: case_prod_beta split: option.splits)
  qed
qed (simp add: suspension_kept_def)

lemma suspension_step: "appt_step env rev_ok s x = Inr s' \<Longrightarrow> suspension_kept s s'"
proof (cases x)
  case (OpCreate now k slot c i actor rq)
  moreover assume "appt_step env rev_ok s x = Inr s'"
  ultimately show ?thesis
    by (auto simp: create_booking_def create_write_def appt_updates split: sum.splits if_splits
        intro!: suspension_same)
next
  case (OpReschedule now k k' slot loc actor reason ip)
  moreover assume "appt_step env rev_ok s x = Inr s'"
  ultimately show ?thesis
    by (auto simp: reschedule_booking_def appt_updates split: option.splits if_splits intro!: suspension_same)
next
  case (OpCleanup now clock)
  moreover assume "appt_step env rev_ok s x = Inr s'"
  ultimately show ?thesis
    by (auto simp: cleanup_expired_pending_bookings_def suspension_cleanup)
qed (auto simp: confirm_booking_def reject_booking_def block_slot_def cancel_slot_def
    mark_past_slots_completed_def appt_updates split: option.splits if_splits
    intro: suspension_same suspension_cancel suspension_no_show suspension_complete)

interpretation suspension: monotone_system "appt_step env rev_ok" "\<lambda>_ _. True" "\<lambda>_. True" suspension_kept
  for env rev_ok
  by unfold_locales (auto simp: suspension_kept_def dest: suspension_step [unfolded suspension_kept_def])

section \<open>The expiry task\<close>

lemma cancel_system:
  assumes "tget (ap_bookings s) k = Some b" and "bk_status b = BPending"
    and "tget (ap_slots s) (bk_slot b) = Some sl"
  shows "\<exists>s' b'. cancel_booking env rev_ok s now k None reason None = Inr s'
    \<and> ap_bookings s' = tput k b' (ap_bookings s) \<and> bk_status b' = BCancelled \<and> bk_slot b' = bk_slot b
    \<and> ap_slots s' = tput (bk_slot b) (release_space sl) (ap_slots s)"
  using assms by (simp add: cancel_booking_def appt_updates) (intro exI conjI, rule refl, simp_all)

text \<open>Every booking refers to a slot; cancelling a pending one keeps that.\<close>

definition refs_ok :: "appt_state \<Rightarrow> bool" where
  "refs_ok s \<longleftrightarrow> (\<forall>j b. tget (ap_bookings s) j = Some b \<longrightarrow> tget (ap_slots s) (bk_slot b) \<noteq> None)"

lemma cleanup_result:
  assumes "refs_ok s" and "distinct ks"
    and "\<And>k. k \<in> set ks \<Longrightarrow> \<exists>b. tget (ap_bookings s) k = Some b \<and> bk_status b = BPending"
  shows "snd (cleanup_loop env rev_ok clock s ks) = length ks
    \<and> (\<forall>j. j \<notin> set ks \<longrightarrow> tget (ap_bookings (fst (cleanup_loop env rev_ok clock s ks))) j = tget (ap_bookings s) j)
    \<and> (\<forall>j\<in>set ks. map_option bk_status (tget (ap_bookings (fst (cleanup_loop env rev_ok clock s ks))) j)
         = Some BCancelled)"
  using assms
proof (induction ks arbitrary: s)
  case Nil
  show ?case by simp
next
  case (Cons k ks)
  from Cons.prems(3) [of k] obtain b where b: "tget (ap_bookings s) k = Some b" "bk_status b = BPending"
    by auto
  with Cons.prems(1) obtain sl where "tget (ap_slots s) (bk_slot b) = Some sl"
    by (auto simp: refs_ok_def)
  with b obtain s' b' where
    s': "cancel_booking env rev_ok s (clock k) k None ''Pending timeout exceeded.'' None = Inr s'"
    and upd: "ap_bookings s' = tput k b' (ap_bookings s)" "bk_status b' = BCancelled"
      "bk_slot b' = bk_slot b" "ap_slots s' = tput (bk_slot b) (release_space sl) (ap_slots s)"
    using cancel_system by blast
  have "refs_ok s'" using Cons.prems(1) b upd by (auto simp: refs_ok_def tget_tput)
  moreover have "\<exists>b. tget (ap_bookings s') j = Some b \<and> bk_status b = BPending" if "j \<in> set ks" for j
    using that Cons.prems(2,3) upd by (auto simp: tget_tput)
  ultimately show ?case
    using Cons.IH [of s'] Cons.prems(2) b s' upd by (auto simp: case_prod_beta tget_tput)
qed

lemma expired_pending_set:
  assumes "tok (ap_bookings s)"
    and "length (filter (\<lambda>kb. bk_status (snd kb) = BPending \<and> bk_created_at (snd kb) < cutoff) (ap_bookings s)) \<le> 200"
  shows "distinct (expired_pending s cutoff) \<and> set (expired_pending s cutoff)
    = {k. \<exists>b. tget (ap_bookings s) k = Some b \<and> bk_status b = BPending \<and> bk_created_at b < cutoff}"
proof -
  let ?due = "filter (\<lambda>kb. bk_status (snd kb) = BPending \<and> bk_created_at (snd kb) < cutoff) (ap_bookings s)"
  let ?srt = "sort_key (\<lambda>kb. - bk_created_at (snd kb)) ?due"
  have all: "expired_pending s cutoff = map fst ?srt"
    using assms(2) by (simp add: expired_pending_def)
  have "distinct (map fst ?due)" using assms(1) by (auto simp: tok_def intro: distinct_map_filter)
  moreover have "distinct (map fst ?srt) = distinct (map fst ?due)"
    by (rule mset_eq_imp_distinct_iff) simp
  ultimately have "distinct (map fst ?srt)" by simp
  moreover have "set (map fst ?srt)
      = {k. \<exists>b. tget (ap_bookings s) k = Some b \<and> bk_status b = BPending \<and> bk_created_at b < cutoff}"
    using assms(1) by (auto simp: tget_iff image_iff)
  ultimately show ?thesis by (simp only: all)
qed

end
