(* ===== verification/BookingProps.thy ===== *)
theory BookingProps
  imports BookingRefine
begin

text \<open>
  The properties of the booking lifecycle, with a small service as the concrete instance.
\<close>

section \<open>A small service\<close>

text \<open>A small service for the concrete instances: one appointment type, two slots, one clerk.\<close>

definition demo_type :: appointment_type where
  "demo_type = \<lparr>at_service_type = 1, at_slug = ''permit'', at_duration_minutes = 30,
     at_capacity_per_slot = 2, at_requires_confirmation = False,
     at_non_punitive_no_show = True, at_policy = None\<rparr>"

definition demo_env :: appt_env where
  "demo_env = \<lparr>en_type = (\<lambda>_. demo_type),
     en_location = (\<lambda>_. \<lparr>loc_timezone = ''UTC'', loc_policy = None\<rparr>),
     en_settings = [''DEFAULT_MAX_ACTIVE_BOOKINGS'' \<mapsto> 1, ''GLOBAL_NO_SHOW_SUSPENSION_THRESHOLD'' \<mapsto> 1]\<rparr>"

definition demo_slot :: "int \<Rightarrow> slot" where
  "demo_slot t = \<lparr>sl_type = 1, sl_staff = 1, sl_location = 1, sl_start = t, sl_end = t + 1800,
     sl_eff_start = t, sl_eff_end = t + 1800, sl_capacity = 2, sl_spaces = 0, sl_status = Available,
     sl_note = ''''\<rparr>"

definition demo_intake :: intake where
  "demo_intake = \<lparr>appointment_mode = ''in_person'', form_responses = [], booking_channel = ''online'',
     interpreter_needed = False, interpreter_language = '''', accessibility_needs = '''',
     language = ''en'', consent_recorded_at = None, consent_version = ''''\<rparr>"

definition clerk :: user where
  "clerk = \<lparr>u_pk = 1, u_is_staff = True, u_display_name = ''Clerk''\<rparr>"

definition demo_slots :: "(nat \<times> slot) list" where
  "demo_slots = [(1, demo_slot 1000000), (2, demo_slot 2000000)]"

definition demo_ops :: "appt_op list" where
  "demo_ops = [OpAddSlots demo_slots, OpCreate 0 10 1 7 demo_intake None None]"

lemmas demo_defs = demo_type_def demo_env_def demo_slot_def demo_intake_def clerk_def demo_slots_def

lemma demo_policy [simp]:
  "slot_policy demo_env t loc = policy_from_settings (en_settings demo_env)"
  by (simp add: slot_policy_def resolve_policy_def demo_defs)

lemma demo_cap: "policy_cap demo_env 1"
  by (simp add: policy_cap_def policy_from_settings_def dget_def) (simp add: demo_defs)

lemma demo_ops_ok: "list_all op_ok demo_ops"
  by (simp add: demo_ops_def demo_defs)

definition demo_booking :: booking where
  "demo_booking = new_booking 1 7 BConfirmed demo_intake 0"

lemmas demo_eval = demo_defs slot_policy_def resolve_policy_def demo_booking_def new_booking_def policy_from_settings_def dget_def
  create_booking_def create_guard_def create_write_def cancel_booking_def mark_no_show_def
  escalate_no_show_def get_no_show_record_def new_no_show_record_def
  appt_updates bookable_def take_space_def release_space_def
  update_slot_status_def extract_ip_def active_count_def tcount_def tget_def tput_def no_appts_def
  hour_seconds_def day_seconds_def

definition demo_state :: appt_state where
  "demo_state = run_ops (appt_step demo_env (\<lambda>_. True)) no_appts demo_ops"

lemma demo_state_eq:
  "demo_state = no_appts\<lparr>ap_slots := [(1, (demo_slot 1000000)\<lparr>sl_spaces := 1, sl_status := Partial\<rparr>),
       (2, demo_slot 2000000)],
     ap_bookings := [(10, demo_booking)],
     ap_audit := [\<lparr>ba_booking = 10, ba_action = ActCreated, ba_actor = None, ba_role = RoleSystem,
       ba_ip = None, ba_previous = None, ba_new = Some BConfirmed,
       ba_detail = DetailCreated 1 ''permit'' ''online'' True\<rparr>],
     ap_signals := [BookingCreated 10 1 7 ''online'', BookingConfirmed 10 1]\<rparr>"
  by (simp add: demo_state_def demo_ops_def) (simp add: demo_eval)

lemma demo_inv: "appt_inv 1 demo_state"
  unfolding demo_state_def by (intro appt_inv_run demo_cap demo_ops_ok no_appts_inv)

section \<open>Properties\<close>

text \<open>
  C1. No overbooking by the booking and slot services. Starting without appointments, after any
  sequence of calls of \<open>services/booking.py\<close> and \<open>services/slots.py\<close>, runs of the tasks of
  \<open>tasks.py\<close> and insertions of valid slots, and with a bound on the policies' booking caps, the
  stored \<open>spaces_used\<close> of every slot is exactly its number of pending, confirmed and
  completed bookings and at most its capacity, an open slot's stored status agrees with the
  counter, a blocked or cancelled slot has no active booking, and every booking's slot exists.
  The exclusive appointments of the GovStack interface, which block a slot under the booking that
  holds it (\<open>_lock_slot\<close> in \<open>services/govstack_appointment.py\<close>), are not among these calls.
\<close>

theorem no_overbooking:
  assumes "list_all op_ok xs" and "s = run_ops (appt_step env rev_ok) no_appts xs"
    and "policy_cap env M"
  shows "(\<forall>k sl. tget (ap_slots s) k = Some sl \<longrightarrow>
        sl_spaces sl = length (filter (\<lambda>kb. bk_slot (snd kb) = k
          \<and> bk_status (snd kb) \<in> {BPending, BConfirmed, BCompleted}) (ap_bookings s))
      \<and> sl_spaces sl \<le> sl_capacity sl
      \<and> (sl_status sl = Available \<longrightarrow> sl_spaces sl = 0)
      \<and> (sl_status sl = Partial \<longrightarrow> 0 < sl_spaces sl \<and> sl_spaces sl < sl_capacity sl)
      \<and> (sl_status sl = Full \<longrightarrow> sl_spaces sl = sl_capacity sl)
      \<and> (sl_status sl \<in> {Blocked, SlotCancelled} \<longrightarrow> active_on_slot s k = 0))
    \<and> (\<forall>j b. tget (ap_bookings s) j = Some b \<longrightarrow> tget (ap_slots s) (bk_slot b) \<noteq> None)"
proof -
  have "appt_inv M s" unfolding assms(2) using assms(1,3) by (simp add: appt_inv_run)
  then have ok: "tables_ok (ap_slots s) (ap_bookings s)" by (simp add: appt_inv_def core_def)
  show ?thesis
  proof (intro conjI allI impI)
    fix k sl assume "tget (ap_slots s) k = Some sl"
    then have slk: "slot_ok (ap_bookings s) k sl" by (rule tables_okD(3) [OF ok])
    then show "sl_spaces sl = length (filter (\<lambda>kb. bk_slot (snd kb) = k
          \<and> bk_status (snd kb) \<in> {BPending, BConfirmed, BCompleted}) (ap_bookings s))"
      by (simp add: slot_ok_def holders_def tcount_def holds_space_def)
    from slk show "sl_spaces sl \<le> sl_capacity sl" by (simp add: slot_ok_def)
    from slk show "sl_spaces sl = 0" if "sl_status sl = Available"
      using that by (simp add: slot_ok_def status_agrees_def)
    from slk show "0 < sl_spaces sl" "sl_spaces sl < sl_capacity sl" if "sl_status sl = Partial"
      using that by (simp_all add: slot_ok_def status_agrees_def)
    from slk show "sl_spaces sl = sl_capacity sl" if "sl_status sl = Full"
      using that by (simp add: slot_ok_def status_agrees_def)
    from slk show "active_on_slot s k = 0" if "sl_status sl \<in> {Blocked, SlotCancelled}"
      using that by (auto simp: slot_ok_def actives_def active_on_slot_def)
  qed (use tables_okD(4) [OF ok] in auto)
qed

theorem no_overbooking_witness:
  "\<exists>sl. tget (ap_slots demo_state) 1 = Some sl \<and> sl_status sl = Partial
    \<and> 0 < sl_spaces sl \<and> sl_spaces sl < sl_capacity sl"
proof -
  have sl: "tget (ap_slots demo_state) 1 = Some ((demo_slot 1000000)\<lparr>sl_spaces := 1, sl_status := Partial\<rparr>)"
    by (simp add: demo_state_eq) (simp add: demo_eval)
  from no_overbooking [OF demo_ops_ok demo_state_def demo_cap] sl
  have "0 < sl_spaces ((demo_slot 1000000)\<lparr>sl_spaces := 1, sl_status := Partial\<rparr>)
    \<and> sl_spaces ((demo_slot 1000000)\<lparr>sl_spaces := 1, sl_status := Partial\<rparr>)
        < sl_capacity ((demo_slot 1000000)\<lparr>sl_spaces := 1, sl_status := Partial\<rparr>)" by fastforce
  with sl show ?thesis by (intro exI [of _ "(demo_slot 1000000)\<lparr>sl_spaces := 1, sl_status := Partial\<rparr>"]) simp
qed

text \<open>
  C27. A citizen never holds more active bookings than the most generous policy allows, as
  long as calls do not interleave: after any sequence of calls the pending and confirmed
  bookings of each citizen number at most \<open>M\<close>, where \<open>M\<close> bounds every
  policy's \<open>max_active_bookings_per_citizen\<close>; rescheduling does not get around it.
\<close>

theorem active_bookings_capped:
  assumes "list_all op_ok xs" and "policy_cap env M"
  shows "active_count (run_ops (appt_step env rev_ok) no_appts xs) c \<le> M"
proof -
  have "appt_inv M (run_ops (appt_step env rev_ok) no_appts xs)"
    using assms by (simp add: appt_inv_run)
  then show ?thesis by (simp add: appt_inv_def core_def active_count_eq)
qed

theorem active_bookings_capped_witness: "active_count demo_state 7 \<le> 1 \<and> active_count demo_state 7 = 1"
  using active_bookings_capped [OF demo_ops_ok demo_cap, of "\<lambda>_. True" 7]
  by (simp add: demo_state_def [symmetric]) (simp add: demo_state_eq demo_eval booking_is_active_def)

text \<open>
  Interleaved, the cap fails. \<open>create_booking\<close> locks the slot row only, so two requests
  of one citizen for different slots can both pass the guards before either writes; both
  writes then succeed on the rows the guards read, and a citizen who was one below the cap
  ends above it.
\<close>

theorem concurrent_create_exceeds_cap:
  assumes "tok (ap_bookings s)"
    and "create_guard env s now1 slot1 c = Inr sl1" and "create_guard env s now2 slot2 c = Inr sl2"
    and "slot1 \<noteq> slot2" and "k1 \<noteq> k2"
    and "tget (ap_bookings s) k1 = None" and "tget (ap_bookings s) k2 = None"
    and "active_count s c + 1
      = max_active_bookings_per_citizen (slot_policy env (sl_type sl2) (sl_location sl2))"
  shows "\<exists>s1 s2. create_write env s now1 k1 slot1 sl1 c i1 a1 rq1 = Inr s1
    \<and> tget (ap_slots s1) slot2 = Some sl2
    \<and> create_write env s1 now2 k2 slot2 sl2 c i2 a2 rq2 = Inr s2
    \<and> max_active_bookings_per_citizen (slot_policy env (sl_type sl2) (sl_location sl2))
        < active_count s2 c"
proof -
  have guards: "tget (ap_slots s) slot2 = Some sl2"
    using assms(3) by (auto simp: create_guard_def Let_def split: if_splits option.splits)
  let ?st = "\<lambda>sl. if at_requires_confirmation (en_type env (sl_type sl)) then BPending else BConfirmed"
  let ?b1 = "new_booking slot1 c (?st sl1) i1 now1" and ?b2 = "new_booking slot2 c (?st sl2) i2 now2"
  from assms(6) obtain s1 where s1: "create_write env s now1 k1 slot1 sl1 c i1 a1 rq1 = Inr s1"
    and b1: "ap_bookings s1 = tput k1 ?b1 (ap_bookings s)"
    and sl1: "ap_slots s1 = tput slot1 (take_space sl1) (ap_slots s)"
    by (simp add: create_write_def appt_updates split: if_splits)
  from assms(5,7) b1 obtain s2 where s2: "create_write env s1 now2 k2 slot2 sl2 c i2 a2 rq2 = Inr s2"
    and b2: "ap_bookings s2 = tput k2 ?b2 (tput k1 ?b1 (ap_bookings s))"
    by (simp add: create_write_def appt_updates tget_tput split: if_splits)
  have "active_count s2 c = active_count s c + 2"
    unfolding active_count_def b2 using assms(1,5,6,7)
    by (simp add: tbl.count_insert tok_tput tget_tput new_booking_def booking_is_active_def)
  with assms(8) s1 s2 guards sl1 assms(4) show ?thesis by (auto simp: tget_tput)
qed

theorem concurrent_create_exceeds_cap_witness:
  "\<exists>s2. 1 < active_count s2 7 \<and> (\<exists>s1. create_write demo_env s1 0 21 2 (demo_slot 2000000) 7 demo_intake None None = Inr s2)"
proof -
  let ?s = "no_appts\<lparr>ap_slots := demo_slots\<rparr>"
  have "active_count ?s 7 = 0" "tok (ap_bookings ?s)"
    "create_guard demo_env ?s 0 1 7 = Inr (demo_slot 1000000)"
    "create_guard demo_env ?s 0 2 7 = Inr (demo_slot 2000000)"
    by (simp_all add: demo_eval)
  moreover have "max_active_bookings_per_citizen (slot_policy demo_env t l) = 1" for t l
    by (simp add: policy_from_settings_def dget_def) (simp add: demo_env_def)
  ultimately show ?thesis
    using concurrent_create_exceeds_cap [of ?s demo_env 0 1 7 "demo_slot 1000000" 0 2 "demo_slot 2000000"
        20 21 demo_intake None None demo_intake None None]
    by (auto simp: no_appts_def)
qed

text \<open>
  C22. The service functions implement the specification of a booking's life: whatever
  sequence of calls and tasks runs, the tables and the audit log evolve by moves of
  \<open>appt_move\<close> only - a booking is born pending or confirmed on a bookable slot, changes
  status along \<open>booking_move\<close> while its slot's counter follows, is replaced by a
  rescheduling, or slots change without touching counters.
\<close>

theorem services_refine_moves:
  assumes "list_all op_ok xs" and "policy_cap env M"
  shows "(appt_move M)\<^sup>*\<^sup>* (core s) (core (run_ops (appt_step env rev_ok) s xs))"
  using assms(1)
proof (induction xs arbitrary: s)
  case (Cons x xs)
  have "(appt_move M)\<^sup>*\<^sup>* (core s) (core (commit s (appt_step env rev_ok s x)))"
    using Cons.prems assms(2) by (cases "appt_step env rev_ok s x") (auto intro: step_moves)
  with Cons show ?case by (auto intro: rtranclp_trans)
qed simp

theorem services_refine_moves_witness: "(appt_move 1)\<^sup>*\<^sup>* (core no_appts) (core demo_state)"
  using services_refine_moves [OF demo_ops_ok demo_cap, of no_appts "\<lambda>_. True"]
  by (simp add: demo_state_def)

text \<open>
  The audit log explains every booking. After any run, the audit entries of a booking
  that carry a new status form a chain of legal moves from nothing to the booking's current
  status: each entry's previous status is the status the entry before it left.
\<close>

theorem audit_trail_explains_booking:
  assumes "list_all op_ok xs" and "policy_cap env M"
    and "s = run_ops (appt_step env rev_ok) no_appts xs"
  shows "trail_end None (trail_of j (ap_audit s)) = Some (map_option bk_status (tget (ap_bookings s) j))"
proof -
  have "appt_inv M s" unfolding assms(3) using assms(1,2) by (simp add: appt_inv_run)
  then show ?thesis by (simp add: appt_inv_def core_def)
qed

theorem audit_trail_explains_booking_witness:
  "trail_end None (trail_of 10 (ap_audit demo_state)) = Some (Some BConfirmed)"
  using audit_trail_explains_booking [OF demo_ops_ok demo_cap demo_state_def, of 10]
  by (simp add: demo_state_eq) (simp add: demo_eval)

text \<open>
  Closed bookings are final and the audit log is append-only: once a booking is
  cancelled, completed or rejected, no later sequence of calls or tasks changes any field of
  its row, and every later audit log extends the present one.
\<close>

theorem closed_bookings_final:
  assumes "list_all op_ok xs" and "policy_cap env M" and "appt_inv M s"
    and "tget (ap_bookings s) j = Some b" and "bk_status b \<in> {BCancelled, BCompleted, BRejected}"
    and "s' = run_ops (appt_step env rev_ok) s xs"
  shows "tget (ap_bookings s') j = Some b \<and> prefix (ap_audit s) (ap_audit s')"
proof -
  have "ops_ok (appt_owed env M) (appt_step env rev_ok) s xs"
    using assms(1,2) by (induction xs arbitrary: s) (auto simp: appt_owed_def)
  then have "core_later (core s) (core s')"
    unfolding assms(6) using assms(3) by (intro booking.rel_run)
  with assms(4,5) show ?thesis by (auto simp: core_def booking_is_active_def)
qed

definition demo_cancelled :: appt_state where
  "demo_cancelled = run_ops (appt_step demo_env (\<lambda>_. True)) demo_state [OpCancel 500000 10 None ''x'' None]"

theorem closed_bookings_final_witness:
  "\<exists>b. tget (ap_bookings demo_cancelled) 10 = Some b \<and> bk_status b = BCancelled
    \<and> tget (ap_bookings (run_ops (appt_step demo_env (\<lambda>_. True)) demo_cancelled
          [OpComplete 10 None None, OpPastSlots 9000000])) 10 = Some b"
proof -
  have "appt_inv 1 demo_cancelled"
    unfolding demo_cancelled_def by (intro appt_inv_run demo_cap demo_inv) simp
  moreover obtain b where "tget (ap_bookings demo_cancelled) 10 = Some b" "bk_status b = BCancelled"
    unfolding demo_cancelled_def demo_state_eq by (simp add: demo_eval)
  ultimately show ?thesis
    using closed_bookings_final [OF _ demo_cap, of "[OpComplete 10 None None, OpPastSlots 9000000]"
        demo_cancelled 10 b _ "\<lambda>_. True"]
    by auto
qed

text \<open>
  Escalation bites and lasts. When a no-show mark brings a citizen's count to the
  suspension threshold of the booking's policy, the record is suspended and flagged, and
  from then on, whatever services and tasks run, every \<open>create_booking\<close> for that citizen
  is refused as suspended: no function of the service layer lifts a suspension. The
  appointment type's non-punitive flag, whatever its value, makes no difference.
\<close>

theorem no_show_suspension_lasts:
  assumes "mark_no_show env s now k actor ip = Inr s1" and "tget (ap_bookings s) k = Some b"
    and "tget (ap_slots s) (bk_slot b) = Some sl"
    and "at_non_punitive_no_show (en_type env (sl_type sl)) = non_punitive"
    and "no_show_suspension_threshold (slot_policy env (sl_type sl) (sl_location sl))
      \<le> ns_count (get_no_show_record s (bk_citizen b)) + 1"
    and "s2 = run_ops (appt_step env' rev_ok) s1 xs"
  shows "ns_flagged (get_no_show_record s1 (bk_citizen b))
    \<and> create_booking env' s2 t k' slot (bk_citizen b) i a rq = Inl CitizenSuspended"
proof -
  have s1: "suspended s1 (bk_citizen b) \<and> ns_flagged (get_no_show_record s1 (bk_citizen b))"
    using assms(1-3,5)
    by (auto simp: mark_no_show_def appt_updates escalate_no_show_def suspended_def
        get_no_show_record_def [of s1] tget_tput split: if_splits)
  have "suspension_kept s1 s2" unfolding assms(6) by (intro suspension.rel_run) simp_all
  with s1 have "suspended s2 (bk_citizen b)" by (simp add: suspension_kept_def)
  with s1 show ?thesis by (simp add: suspended_create)
qed

theorem no_show_suspension_lasts_witness:
  "\<exists>s1. mark_no_show demo_env demo_state 3 10 clerk None = Inr s1
    \<and> create_booking demo_env s1 4 11 2 7 demo_intake None None = Inl CitizenSuspended"
proof -
  obtain s1 where s1: "mark_no_show demo_env demo_state 3 10 clerk None = Inr s1"
    by (simp add: demo_state_eq) (simp add: demo_eval)
  have "create_booking demo_env (run_ops (appt_step demo_env (\<lambda>_. True)) s1 []) 4 11 2 (bk_citizen demo_booking)
      demo_intake None None = Inl CitizenSuspended"
    using no_show_suspension_lasts [OF s1, of demo_booking "(demo_slot 1000000)\<lparr>sl_spaces := 1, sl_status := Partial\<rparr>"
        True "run_ops (appt_step demo_env (\<lambda>_. True)) s1 []" demo_env "\<lambda>_. True" "[]" 4 11 2 demo_intake None None]
    by (simp add: demo_state_eq) (simp add: demo_eval)
  with s1 show ?thesis by (simp add: demo_booking_def new_booking_def)
qed

text \<open>
  Cancelling reopens a completed slot. \<open>_update_slot_status\<close> recomputes the status
  from the counters alone, so cancelling a booking that was still confirmed when the nightly
  task completed its past slot turns the slot available or partial again, and bookable,
  although completed slots are meant to be immutable; a new booking on the past slot then
  passes the slot guard.
\<close>

theorem cancel_reopens_completed_slot:
  assumes "appt_inv M s" and "tget (ap_bookings s) k = Some b" and "bk_status b = BConfirmed"
    and "tget (ap_slots s) (bk_slot b) = Some sl" and "sl_end sl < now"
    and "sl_status sl \<in> {Available, Partial, Full}"
    and "s1 = fst (mark_past_slots_completed s now)"
  shows "map_option sl_status (tget (ap_slots s1) (bk_slot b)) = Some SlotCompleted
    \<and> block_slot s1 (bk_slot b) reason = Inl TerminalSlot
    \<and> (\<exists>s2 sl2. cancel_booking env rev_ok s1 t k actor reason ip = Inr s2
         \<and> tget (ap_slots s2) (bk_slot b) = Some sl2 \<and> bookable sl2 \<and> sl_end sl2 = sl_end sl)"
proof -
  have past: "slot_is_past now sl" using assms(5,6) by (simp add: slot_is_past_def)
  with assms(2,4,7) have s1: "tget (ap_slots s1) (bk_slot b) = Some (sl\<lparr>sl_status := SlotCompleted\<rparr>)"
    "tget (ap_bookings s1) k = Some b"
    by (simp_all add: mark_past_slots_completed_def tget_tupdate_where)
  have "slot_ok (ap_bookings s) (bk_slot b) sl"
    using assms(1,4) by (auto simp: appt_inv_def core_def intro: tables_okD)
  moreover have "0 < holders (bk_slot b) (ap_bookings s)"
    using assms(2,3) by (auto simp: holds_space_def intro: holders_pos)
  ultimately have "bookable (release_space (sl\<lparr>sl_status := SlotCompleted\<rparr>))"
    by (auto simp: slot_ok_def bookable_def release_space_def update_slot_status_def)
  moreover have "sl_end (release_space (sl\<lparr>sl_status := SlotCompleted\<rparr>)) = sl_end sl"
    by (simp add: release_space_def update_slot_status_def)
  ultimately show ?thesis
    using s1 assms(3) by (simp add: block_slot_def cancel_booking_def appt_updates tget_tput)
qed

theorem cancel_reopens_completed_slot_witness:
  "\<exists>s2 sl2. cancel_booking demo_env (\<lambda>_. True) (fst (mark_past_slots_completed demo_state 1500000))
       1600000 10 (Some clerk) ''late'' None = Inr s2 \<and> tget (ap_slots s2) 1 = Some sl2 \<and> bookable sl2"
  using cancel_reopens_completed_slot [OF demo_inv, of 10 demo_booking
      "(demo_slot 1000000)\<lparr>sl_spaces := 1, sl_status := Partial\<rparr>" 1500000
      "fst (mark_past_slots_completed demo_state 1500000)" "''late''" demo_env "\<lambda>_. True" 1600000 "Some clerk" None]
  by (simp add: demo_state_eq)
    (simp add: demo_defs demo_booking_def new_booking_def tget_def no_appts_def, blast)

text \<open>
  The expiry task empties the backlog. When at most 200 pending bookings are past the
  timeout, one run cancels each of them and reports their number, changes no other booking,
  and leaves no pending booking older than the cutoff.
\<close>

theorem cleanup_cancels_expired:
  assumes "appt_inv M s"
    and "cutoff = now - 60 * int (dget (en_settings env) ''PENDING_BOOKING_TIMEOUT_MINUTES'' 30)"
    and "length (filter (\<lambda>kb. bk_status (snd kb) = BPending \<and> bk_created_at (snd kb) < cutoff)
           (ap_bookings s)) \<le> 200"
    and "cleanup_expired_pending_bookings env rev_ok s now clock = (s', n)"
  shows "n = card {k. \<exists>b. tget (ap_bookings s) k = Some b \<and> bk_status b = BPending \<and> bk_created_at b < cutoff}
    \<and> (\<forall>k. case tget (ap_bookings s) k of
          None \<Rightarrow> tget (ap_bookings s') k = None
        | Some b \<Rightarrow> if bk_status b = BPending \<and> bk_created_at b < cutoff
            then map_option bk_status (tget (ap_bookings s') k) = Some BCancelled
            else tget (ap_bookings s') k = Some b)"
proof -
  from assms(1) have ok: "tables_ok (ap_slots s) (ap_bookings s)" by (simp add: appt_inv_def core_def)
  let ?ks = "expired_pending s cutoff"
  let ?due = "{k. \<exists>b. tget (ap_bookings s) k = Some b \<and> bk_status b = BPending \<and> bk_created_at b < cutoff}"
  have ks: "distinct ?ks" "set ?ks = ?due"
    using expired_pending_set [OF tables_okD(2) [OF ok] assms(3)] by simp_all
  have run: "cleanup_loop env rev_ok clock s ?ks = (s', n)"
    using assms(2,4) by (simp add: cleanup_expired_pending_bookings_def)
  have "refs_ok s" using tables_okD(4) [OF ok] by (auto simp: refs_ok_def)
  with ks have "n = length ?ks \<and> (\<forall>j. j \<notin> ?due \<longrightarrow> tget (ap_bookings s') j = tget (ap_bookings s) j)
      \<and> (\<forall>j\<in>?due. map_option bk_status (tget (ap_bookings s') j) = Some BCancelled)"
    using cleanup_result [of s ?ks env rev_ok clock] unfolding run by auto
  moreover have "length ?ks = card ?due" using ks distinct_card by metis
  ultimately show ?thesis by (auto split: option.splits)
qed

definition pending_state :: appt_state where
  "pending_state = no_appts\<lparr>ap_slots := [(1, (demo_slot 1000000)\<lparr>sl_spaces := 1, sl_status := Partial\<rparr>)],
     ap_bookings := [(10, demo_booking\<lparr>bk_status := BPending\<rparr>)],
     ap_audit := [\<lparr>ba_booking = 10, ba_action = ActCreated, ba_actor = None, ba_role = RoleSystem,
       ba_ip = None, ba_previous = None, ba_new = Some BPending, ba_detail = DetailEmpty\<rparr>]\<rparr>"

lemma pending_state_inv: "appt_inv 1 pending_state"
  by (auto simp: appt_inv_def core_def pending_state_def no_appts_def demo_booking_def new_booking_def
      tables_ok_def tok_def tget_def slot_ok_def holders_def holds_space_def tcount_def
      status_agrees_def demo_slot_def citizen_active_def booking_is_active_def trail_of_def trail_def)

theorem cleanup_cancels_expired_witness:
  "map_option bk_status (tget (ap_bookings (fst (cleanup_expired_pending_bookings demo_env (\<lambda>_. True)
      pending_state 5000 (\<lambda>_. 5000)))) 10) = Some BCancelled"
proof -
  obtain s' n where run: "cleanup_expired_pending_bookings demo_env (\<lambda>_. True) pending_state 5000 (\<lambda>_. 5000) = (s', n)"
    by fastforce
  have few: "length (filter (\<lambda>kb. bk_status (snd kb) = BPending \<and> bk_created_at (snd kb) < cutoff)
      (ap_bookings pending_state)) \<le> 200" for cutoff
    by (simp add: pending_state_def)
  have old: "tget (ap_bookings pending_state) 10 = Some (demo_booking\<lparr>bk_status := BPending\<rparr>)"
    "bk_created_at demo_booking = 0" "dget (en_settings demo_env) ''PENDING_BOOKING_TIMEOUT_MINUTES'' 30 = 30"
    by (simp_all add: pending_state_def tget_def demo_booking_def new_booking_def dget_def demo_env_def)
  from cleanup_cancels_expired [OF pending_state_inv refl few run] old show ?thesis
    by (auto simp: run dest!: spec [of _ 10])
qed

end
