(* ===== verification/Availability.thy ===== *)
theory Availability
  imports Booking
begin

text \<open>
  Slot availability (\<open>services/availability.py\<close>), slot generation
  (\<open>generate_slots_for_range\<close> in \<open>services/slots.py\<close>) and the validation of the rows they
  read (\<open>clean\<close> of templates, exceptions and slots in \<open>models.py\<close>). Dates are proleptic
  ordinals (\<open>date.toordinal\<close>), times of day seconds since midnight. Time zones are a
  parameter: \<open>utc tz d m\<close> is the instant of minute \<open>m\<close> of local day \<open>d\<close>, \<open>known tz\<close>
  says whether \<open>ZoneInfo\<close> finds the name.
\<close>

section \<open>Templates and exceptions\<close>

record template =
  tp_staff :: nat
  tp_day :: nat
  tp_start :: nat
  tp_end :: nat
  tp_from :: int
  tp_until :: "int option"

definition active_on :: "int \<Rightarrow> template \<Rightarrow> bool" where
  "active_on d t \<longleftrightarrow> tp_from t \<le> d \<and> (case tp_until t of None \<Rightarrow> True | Some u \<Rightarrow> d \<le> u)"

definition ranges_overlap :: "template \<Rightarrow> template \<Rightarrow> bool" where
  "ranges_overlap a b \<longleftrightarrow>
     (case tp_until b of None \<Rightarrow> True | Some e \<Rightarrow> tp_from a \<le> e)
     \<and> (case tp_until a of None \<Rightarrow> True | Some e \<Rightarrow> tp_from b \<le> e)"

datatype template_error = EndBeforeStart | UntilBeforeFrom | RangeOverlap nat

text \<open>\<open>AvailabilityTemplate.clean\<close>: \<open>pk\<close> is the row's own key when it is already stored.\<close>

fun first_overlap :: "nat option \<Rightarrow> template \<Rightarrow> template table \<Rightarrow> nat option" where
  "first_overlap pk t [] = None"
| "first_overlap pk t ((k, other) # rows) =
     (if tp_staff other = tp_staff t \<and> tp_day other = tp_day t \<and> pk \<noteq> Some k
         \<and> ranges_overlap t other
      then Some k else first_overlap pk t rows)"

definition template_clean :: "nat option \<Rightarrow> template \<Rightarrow> template table \<Rightarrow> template_error option" where
  "template_clean pk t rows =
     (if tp_end t \<le> tp_start t then Some EndBeforeStart
      else if (case tp_until t of None \<Rightarrow> False | Some u \<Rightarrow> u < tp_from t) then Some UntilBeforeFrom
      else map_option RangeOverlap (first_overlap pk t rows))"

datatype exc_type = Holiday | Leave | Override | Training

record staff_exception =
  se_staff :: nat
  se_date :: int
  se_type :: exc_type
  se_start :: "nat option"
  se_end :: "nat option"

datatype exception_error = OverrideTimesMissing | OverrideEndBeforeStart

definition exception_clean :: "staff_exception \<Rightarrow> exception_error option" where
  "exception_clean e = (if se_type e = Override then
     (case (se_start e, se_end e) of
        (Some a, Some b) \<Rightarrow> if b \<le> a then Some OverrideEndBeforeStart else None
      | _ \<Rightarrow> Some OverrideTimesMissing)
     else None)"

text \<open>\<open>Slot.clean\<close> collects the fields in error.\<close>

definition slot_clean :: "slot \<Rightarrow> string list" where
  "slot_clean sl =
     (if sl_end sl \<le> sl_start sl then [''end_datetime''] else [])
     @ (if sl_capacity sl < 1 then [''capacity''] else [])
     @ (if sl_capacity sl < sl_spaces sl then [''spaces_used''] else [])
     @ (if sl_start sl < sl_eff_start sl then [''effective_start''] else [])
     @ (if sl_eff_end sl < sl_end sl then [''effective_end''] else [])"

record staff_profile =
  st_types :: "nat list"
  st_accepting :: bool
  st_location :: "nat option"
  st_daily_cap :: "nat option"

record calendar =
  ca_staff :: "staff_profile table"
  ca_templates :: "template table"
  ca_exceptions :: "staff_exception table"

text \<open>The slot dicts the service returns; \<open>slot_id\<close> is \<open>None\<close> and \<open>waitlist_count\<close> 0 in all.\<close>

record offer =
  of_staff :: nat
  of_location :: nat
  of_type :: nat
  of_start :: int
  of_end :: int
  of_eff_start :: int
  of_eff_end :: int
  of_timezone :: string
  of_spaces :: nat

section \<open>The interval walk\<close>

definition overlaps :: "int \<Rightarrow> int \<Rightarrow> int \<Rightarrow> int \<Rightarrow> bool" where
  "overlaps a_start a_end b_start b_end \<longleftrightarrow> a_start < b_end \<and> b_start < a_end"

definition collision :: "int \<Rightarrow> int \<Rightarrow> (int \<times> int) list \<Rightarrow> bool" where
  "collision a b busy \<longleftrightarrow> list_ex (\<lambda>(p, q). overlaps a b p q) busy"

text \<open>
  The \<open>while True\<close> loop over one window; it returns the starts it appends. The stride is
  the policy's interval, which only form validation keeps above zero, so the loop is a
  partial function: not returning is \<open>None\<close>.
\<close>

record walk_ctx =
  wk_duration :: int
  wk_stride :: int
  wk_before :: int
  wk_after :: int
  wk_end :: int
  wk_earliest :: int
  wk_latest :: "int option"
  wk_busy :: "(int \<times> int) list"

partial_function (option) walk :: "walk_ctx \<Rightarrow> int \<Rightarrow> int list \<Rightarrow> int list option" where
  "walk w start acc =
     (if wk_end w < start + wk_duration w + wk_after w then Some acc
      else if start < wk_earliest w then walk w (start + wk_stride w) acc
      else if (case wk_latest w of None \<Rightarrow> False | Some l \<Rightarrow> l < start) then Some acc
      else walk w (start + wk_stride w)
        (if collision (start - wk_before w) (start + wk_duration w + wk_after w) (wk_busy w)
         then acc else acc @ [start]))"

section \<open>Available slots\<close>

text \<open>Loops whose body may not return: the results are appended in order.\<close>

fun gather :: "('a \<Rightarrow> 'b list option) \<Rightarrow> 'a list \<Rightarrow> 'b list option" where
  "gather f [] = Some []"
| "gather f (x # xs) = (case f x of None \<Rightarrow> None
     | Some ys \<Rightarrow> (case gather f xs of None \<Rightarrow> None | Some zs \<Rightarrow> Some (ys @ zs)))"

definition iso_weekday :: "int \<Rightarrow> nat" where
  "iso_weekday d = (if d mod 7 = 0 then 7 else nat (d mod 7))"

definition minute_seconds :: int where
  "minute_seconds = 60"

definition location_tz :: "appt_env \<Rightarrow> (string \<Rightarrow> bool) \<Rightarrow> string \<Rightarrow> nat \<Rightarrow> string \<times> string" where
  "location_tz env known default_tz loc =
     (let name = (if loc_timezone (en_location env loc) \<noteq> '''' then loc_timezone (en_location env loc)
                  else default_tz)
      in (name, if known name then name else ''UTC''))"

text \<open>The newest exception of the date: \<open>order_by("-pk").first()\<close>.\<close>

definition exception_on :: "calendar \<Rightarrow> nat \<Rightarrow> int \<Rightarrow> staff_exception option" where
  "exception_on cal st d =
     (let rows = filter (\<lambda>ke. se_staff (snd ke) = st \<and> se_date (snd ke) = d) (ca_exceptions cal)
      in case sort_key (\<lambda>ke. - int (fst ke)) rows of [] \<Rightarrow> None | (k, e) # _ \<Rightarrow> Some e)"

text \<open>The windows of a day in local seconds; \<open>None\<close> when the staff member does not work.\<close>

definition day_windows :: "calendar \<Rightarrow> nat \<Rightarrow> int \<Rightarrow> (nat option \<times> nat option) list option" where
  "day_windows cal st d =
     (let tpls = filter (\<lambda>kt. tp_staff (snd kt) = st \<and> tp_day (snd kt) = iso_weekday d
                          \<and> active_on d (snd kt)) (ca_templates cal)
      in if tpls = [] then None
         else case exception_on cal st d of
           None \<Rightarrow> Some (map (\<lambda>kt. (Some (tp_start (snd kt)), Some (tp_end (snd kt)))) tpls)
         | Some e \<Rightarrow> if se_type e \<in> {Holiday, Leave, Training} then None
             else Some [(se_start e, se_end e)])"

definition busy_status :: "slot_status \<Rightarrow> bool" where
  "busy_status st \<longleftrightarrow> st \<in> {Available, Partial, Full, Blocked}"

definition busy_times :: "slot table \<Rightarrow> nat \<Rightarrow> int \<Rightarrow> int \<Rightarrow> int \<Rightarrow> (int \<times> int) list" where
  "busy_times sls st day_start day_end max_buffer =
     map (\<lambda>ks. (sl_eff_start (snd ks), sl_eff_end (snd ks)))
       (filter (\<lambda>ks. sl_staff (snd ks) = st \<and> sl_eff_start (snd ks) < day_end + max_buffer
          \<and> day_start - max_buffer < sl_eff_end (snd ks) \<and> busy_status (sl_status (snd ks))) sls)"

definition spaces_today :: "slot table \<Rightarrow> nat \<Rightarrow> int \<Rightarrow> int \<Rightarrow> nat" where
  "spaces_today sls st day_start day_end = sum_list (map (\<lambda>ks. sl_spaces (snd ks))
     (filter (\<lambda>ks. sl_staff (snd ks) = st \<and> day_start \<le> sl_start (snd ks) \<and> sl_start (snd ks) < day_end
        \<and> 0 < sl_spaces (snd ks)) sls))"

definition day_context ::
  "appt_env \<Rightarrow> slot table \<Rightarrow> int \<Rightarrow> nat \<Rightarrow> nat \<Rightarrow> nat \<Rightarrow> int \<Rightarrow> int \<Rightarrow> walk_ctx" where
  "day_context env sls now type st loc day_start window_end =
     (let p = slot_policy env type loc;
          before = minute_seconds * int (buffer_before_minutes p);
          after = minute_seconds * int (buffer_after_minutes p)
      in \<lparr>wk_duration = minute_seconds * int (at_duration_minutes (en_type env type)),
          wk_stride = minute_seconds * int (slot_interval_minutes p),
          wk_before = before, wk_after = after, wk_end = window_end,
          wk_earliest = now + hour_seconds * int (min_lead_time_hours p),
          wk_latest = (if 0 < max_advance_days p then Some (now + day_seconds * int (max_advance_days p)) else None),
          wk_busy = busy_times sls st day_start (day_start + day_seconds) (max before after)\<rparr>)"

definition mk_offer :: "appt_env \<Rightarrow> nat \<Rightarrow> nat \<Rightarrow> nat \<Rightarrow> string \<Rightarrow> walk_ctx \<Rightarrow> int \<Rightarrow> offer" where
  "mk_offer env type st loc tz w t = \<lparr>of_staff = st, of_location = loc, of_type = type,
     of_start = t, of_end = t + wk_duration w, of_eff_start = t - wk_before w,
     of_eff_end = t + wk_duration w + wk_after w, of_timezone = tz,
     of_spaces = at_capacity_per_slot (en_type env type)\<rparr>"

text \<open>One staff member on one day.\<close>

definition staff_day ::
  "appt_env \<Rightarrow> (string \<Rightarrow> bool) \<Rightarrow> (string \<Rightarrow> int \<Rightarrow> nat \<Rightarrow> int) \<Rightarrow> string \<Rightarrow> calendar \<Rightarrow> slot table
     \<Rightarrow> int \<Rightarrow> nat \<Rightarrow> int \<Rightarrow> nat \<times> staff_profile \<Rightarrow> offer list option" where
  "staff_day env known utc default_tz cal sls now type d kst =
     (case kst of (st, prof) \<Rightarrow> case st_location prof of
        None \<Rightarrow> Some []
      | Some loc \<Rightarrow>
          let (tz_name, tz) = location_tz env known default_tz loc
          in case day_windows cal st d of
            None \<Rightarrow> Some []
          | Some windows \<Rightarrow>
              let day_start = utc tz d 0; day_end = day_start + day_seconds
              in if (case st_daily_cap prof of None \<Rightarrow> False
                     | Some cap \<Rightarrow> cap \<le> spaces_today sls st day_start day_end)
                 then Some []
                 else gather (\<lambda>win. case win of
                     (Some a, Some b) \<Rightarrow>
                       let w = day_context env sls now type st loc day_start (utc tz d (b div 60))
                       in map_option (map (mk_offer env type st loc tz_name w)) (walk w (utc tz d (a div 60)) [])
                   | _ \<Rightarrow> Some []) windows)"

definition eligible_staff ::
  "calendar \<Rightarrow> nat \<Rightarrow> nat option \<Rightarrow> nat option \<Rightarrow> (nat \<times> staff_profile) list" where
  "eligible_staff cal type staff loc = filter (\<lambda>(k, p). type \<in> set (st_types p) \<and> st_accepting p
     \<and> (case staff of None \<Rightarrow> True | Some s \<Rightarrow> k = s)
     \<and> (case loc of None \<Rightarrow> True | Some l \<Rightarrow> st_location p = Some l)) (ca_staff cal)"

definition citizen_blocked :: "appt_env \<Rightarrow> appt_state \<Rightarrow> int \<Rightarrow> nat \<Rightarrow> nat option \<Rightarrow> bool" where
  "citizen_blocked env s now type citizen =
     (let freq = booking_frequency_days (resolve_policy (en_settings env) (en_type env type) None)
      in case citizen of None \<Rightarrow> False
       | Some c \<Rightarrow> 0 < freq \<and> has_recent_booking env s c (at_service_type (en_type env type))
           (now - day_seconds * int freq))"

definition get_available_slots ::
  "appt_env \<Rightarrow> (string \<Rightarrow> bool) \<Rightarrow> (string \<Rightarrow> int \<Rightarrow> nat \<Rightarrow> int) \<Rightarrow> string \<Rightarrow> calendar \<Rightarrow> appt_state
     \<Rightarrow> int \<Rightarrow> nat \<Rightarrow> int \<Rightarrow> int \<Rightarrow> nat option \<Rightarrow> nat option \<Rightarrow> nat option \<Rightarrow> offer list option" where
  "get_available_slots env known utc default_tz cal s now type date_from date_to loc staff citizen =
     (let eligible = eligible_staff cal type staff loc
      in if eligible = [] then Some []
         else if citizen_blocked env s now type citizen then Some []
         else map_option (sort_key of_start)
           (gather (\<lambda>d. gather (staff_day env known utc default_tz cal (ap_slots s) now type d) eligible)
              [date_from..date_to]))"

section \<open>Slot generation\<close>

definition offer_slot :: "offer \<Rightarrow> slot" where
  "offer_slot x = \<lparr>sl_type = of_type x, sl_staff = of_staff x, sl_location = of_location x,
     sl_start = of_start x, sl_end = of_end x, sl_eff_start = of_eff_start x, sl_eff_end = of_eff_end x,
     sl_capacity = of_spaces x, sl_spaces = 0, sl_status = Available, sl_note = ''''\<rparr>"

text \<open>
  \<open>uuid i\<close> is the primary key Python assigns to the \<open>i\<close>th new row; the count is the number
  of those keys in the table afterwards. The result is \<open>None\<close> when the walk does not return.
\<close>

definition generate_slots_for_range ::
  "appt_env \<Rightarrow> (string \<Rightarrow> bool) \<Rightarrow> (string \<Rightarrow> int \<Rightarrow> nat \<Rightarrow> int) \<Rightarrow> string \<Rightarrow> calendar \<Rightarrow> (nat \<Rightarrow> nat)
     \<Rightarrow> appt_state \<Rightarrow> int \<Rightarrow> nat \<Rightarrow> nat \<Rightarrow> int \<Rightarrow> int \<Rightarrow> (appt_state \<times> nat) option" where
  "generate_slots_for_range env known utc default_tz cal uuid s now type staff date_from date_to =
     (case get_available_slots env known utc default_tz cal s now type date_from date_to None (Some staff) None of
        None \<Rightarrow> None
      | Some computed \<Rightarrow>
          if computed = [] then Some (s, 0)
          else let pks = map uuid [0..<length computed];
                   s' = s\<lparr>ap_slots := bulk_create_slots (zip pks (map offer_slot computed)) (ap_slots s)\<rparr>
          in Some (s', length (filter (\<lambda>kr. fst kr \<in> set pks) (ap_slots s'))))"

text \<open>
  The nightly task: every active staff member with every active type linked to them, over
  the horizon. \<open>active\<close> says which types and locations are active; \<open>uuid\<close> gives each combination
  its own keys and \<open>now\<close> its own reading of the clock. A combination that fails is logged and
  skipped and the soft time limit ends the loop early: both are runs over a shorter list.
\<close>

definition task_combinations :: "calendar \<Rightarrow> (nat \<Rightarrow> bool) \<Rightarrow> (nat \<Rightarrow> bool) \<Rightarrow> (nat \<times> nat) list" where
  "task_combinations cal active_type active_loc =
     concat (map (\<lambda>(k, p). map (Pair k) (filter active_type (remdups (st_types p))))
       (filter (\<lambda>(k, p). st_accepting p
          \<and> (case st_location p of None \<Rightarrow> False | Some l \<Rightarrow> active_loc l)) (ca_staff cal)))"

fun generate_slots_for_period ::
  "appt_env \<Rightarrow> (string \<Rightarrow> bool) \<Rightarrow> (string \<Rightarrow> int \<Rightarrow> nat \<Rightarrow> int) \<Rightarrow> string \<Rightarrow> calendar
     \<Rightarrow> (nat \<times> nat \<Rightarrow> nat \<Rightarrow> nat) \<Rightarrow> (nat \<times> nat \<Rightarrow> int) \<Rightarrow> int \<Rightarrow> int \<Rightarrow> appt_state \<Rightarrow> (nat \<times> nat) list
     \<Rightarrow> (appt_state \<times> nat \<times> nat) option" where
  "generate_slots_for_period env known utc tz cal uuid now today date_to s [] = Some (s, 0, 0)"
| "generate_slots_for_period env known utc tz cal uuid now today date_to s ((st, type) # rest) =
     (case generate_slots_for_range env known utc tz cal (uuid (st, type)) s (now (st, type)) type st today date_to of
        None \<Rightarrow> None
      | Some (s', created) \<Rightarrow>
          (case generate_slots_for_period env known utc tz cal uuid now today date_to s' rest of
             None \<Rightarrow> None
           | Some (s'', tot, n) \<Rightarrow> Some (s'', created + tot, n + 1)))"

end
