(* ===== verification/AvailabilityProps.thy ===== *)
theory AvailabilityProps
  imports Availability
begin

text \<open>
  What the availability service promises: the interval walk is the filtered grid of its
  window, every offer fits its window and the policy and clashes with no slot of the staff
  member, and generating the same range twice adds nothing.
\<close>

section \<open>The walk is a filtered grid\<close>

definition grid_size :: "walk_ctx \<Rightarrow> int \<Rightarrow> nat" where
  "grid_size w start =
     nat ((wk_end w - wk_after w - wk_duration w - start) div wk_stride w + 1)"

definition grid :: "walk_ctx \<Rightarrow> int \<Rightarrow> int list" where
  "grid w start = map (\<lambda>i. start + int i * wk_stride w) [0..<grid_size w start]"

definition accepts :: "walk_ctx \<Rightarrow> int \<Rightarrow> bool" where
  "accepts w t \<longleftrightarrow> wk_earliest w \<le> t \<and> (case wk_latest w of None \<Rightarrow> True | Some l \<Rightarrow> t \<le> l)
     \<and> \<not> collision (t - wk_before w) (t + wk_duration w + wk_after w) (wk_busy w)"

lemma grid_size_0:
  assumes "0 < wk_stride w"
  shows "grid_size w start = 0 \<longleftrightarrow> wk_end w < start + wk_duration w + wk_after w"
proof -
  have "(wk_end w - wk_after w - wk_duration w - start) div wk_stride w < 0
      \<longleftrightarrow> wk_end w - wk_after w - wk_duration w - start < 0"
    using assms by (rule pos_imp_zdiv_neg_iff)
  then show ?thesis unfolding grid_size_def by linarith
qed

lemma grid_size_step:
  assumes "0 < wk_stride w" and "grid_size w start = Suc n"
  shows "grid_size w (start + wk_stride w) = n"
proof -
  let ?e = "wk_end w - wk_after w - wk_duration w - start"
  have "(?e - wk_stride w) div wk_stride w = ?e div wk_stride w - 1"
    using assms(1) div_add_self2 [of "wk_stride w" "?e - wk_stride w"] by simp
  moreover have "wk_end w - wk_after w - wk_duration w - (start + wk_stride w) = ?e - wk_stride w" by simp
  ultimately have "grid_size w (start + wk_stride w) = nat (?e div wk_stride w)"
    unfolding grid_size_def by (simp only:)
  then show ?thesis using assms(2) unfolding grid_size_def by linarith
qed

lemma grid_Cons:
  assumes "0 < wk_stride w" and "grid_size w start = Suc n"
  shows "grid w start = start # grid w (start + wk_stride w)"
proof -
  have "grid w start = map (\<lambda>i. start + int i * wk_stride w) (0 # map Suc [0..<n])"
    unfolding grid_def assms(2) by (simp only: upt_conv_Cons zero_less_Suc map_Suc_upt)
  then show ?thesis
    by (simp add: grid_def grid_size_step [OF assms] algebra_simps)
qed

lemma grid_ge: "0 < wk_stride w \<Longrightarrow> t \<in> set (grid w start) \<Longrightarrow> start \<le> t"
  by (auto simp: grid_def)

lemma walk_grid:
  assumes "0 < wk_stride w"
  shows "walk w start acc = Some (acc @ filter (accepts w) (grid w start))"
proof (induction "grid_size w start" arbitrary: start acc)
  case 0
  then have "wk_end w < start + wk_duration w + wk_after w" using grid_size_0 [OF assms] by metis
  then show ?case using 0 by (subst walk.simps) (simp add: grid_def)
next
  case (Suc n)
  note sz = Suc.hyps(2) [symmetric]
  have fits: "\<not> wk_end w < start + wk_duration w + wk_after w"
    using sz grid_size_0 [OF assms, of start] by simp
  have IH: "walk w (start + wk_stride w) acc'
      = Some (acc' @ filter (accepts w) (grid w (start + wk_stride w)))" for acc'
    by (rule Suc.hyps(1)) (simp add: grid_size_step [OF assms sz])
  note cons = grid_Cons [OF assms sz]
  show ?case
  proof (cases "case wk_latest w of None \<Rightarrow> False | Some l \<Rightarrow> l < start")
    case True
    then have "\<not> accepts w t" if "t \<in> set (grid w start)" for t
      using grid_ge [OF assms that] by (auto simp: accepts_def split: option.splits)
    then have none: "filter (accepts w) (grid w start) = []" by (auto simp: filter_empty_conv)
    show ?thesis
    proof (cases "start < wk_earliest w")
      case True
      then show ?thesis using none fits IH by (subst walk.simps) (simp add: cons split: if_splits)
    next
      case False
      then show ?thesis using none fits True by (subst walk.simps) simp
    qed
  next
    case False
    then show ?thesis
      using fits IH by (subst walk.simps) (auto simp: cons accepts_def split: option.splits)
  qed
qed

lemma set_grid:
  assumes "0 < wk_stride w" and "t \<in> set (grid w start)"
  shows "t + wk_duration w + wk_after w \<le> wk_end w"
  using assms(2)
proof (induction "grid_size w start" arbitrary: start)
  case 0
  then show ?case by (simp add: grid_def)
next
  case (Suc n)
  note sz = Suc.hyps(2) [symmetric]
  from Suc.prems consider "t = start" | "t \<in> set (grid w (start + wk_stride w))"
    by (auto simp: grid_Cons [OF assms(1) sz])
  then show ?case
  proof cases
    case 1
    then show ?thesis using sz grid_size_0 [OF assms(1), of start] by simp
  next
    case 2
    then show ?thesis using Suc.hyps(1) grid_size_step [OF assms(1) sz] by blast
  qed
qed

text \<open>A loop of bodies that return returns, and its result is what the bodies produce.\<close>

lemma gather_all:
  assumes "\<And>x. x \<in> set xs \<Longrightarrow> \<exists>ys. f x = Some ys \<and> (\<forall>z. z \<in> set ys \<longleftrightarrow> P x z)"
  shows "\<exists>zs. gather f xs = Some zs \<and> (\<forall>z. z \<in> set zs \<longleftrightarrow> (\<exists>x\<in>set xs. P x z))"
  using assms
proof (induction xs)
  case (Cons x xs)
  from Cons.prems [of x] obtain ys where ys: "f x = Some ys" "\<forall>z. z \<in> set ys \<longleftrightarrow> P x z" by auto
  from Cons obtain zs where zs: "gather f xs = Some zs" "\<forall>z. z \<in> set zs \<longleftrightarrow> (\<exists>x\<in>set xs. P x z)" by auto
  from ys zs show ?case by simp
qed simp

section \<open>What is offered\<close>

text \<open>
  The policy intervals are positive; times of day are below midnight; a local day is
  regular when each of its minutes falls into the 24 hours from its midnight.
\<close>

definition intervals_ok :: "appt_env \<Rightarrow> nat \<Rightarrow> bool" where
  "intervals_ok env type \<longleftrightarrow> (\<forall>loc. 0 < slot_interval_minutes (slot_policy env type loc))"

definition day_regular :: "(string \<Rightarrow> int \<Rightarrow> nat \<Rightarrow> int) \<Rightarrow> string \<Rightarrow> int \<Rightarrow> bool" where
  "day_regular utc tz d \<longleftrightarrow>
     (\<forall>m<1440. utc tz d 0 \<le> utc tz d m \<and> utc tz d m \<le> utc tz d 0 + day_seconds)"

definition times_ok :: "calendar \<Rightarrow> bool" where
  "times_ok cal \<longleftrightarrow> list_all (\<lambda>(k, t). tp_start t < 86400 \<and> tp_end t < 86400) (ca_templates cal)
     \<and> list_all (\<lambda>(k, e). (case se_start e of None \<Rightarrow> True | Some a \<Rightarrow> a < 86400)
          \<and> (case se_end e of None \<Rightarrow> True | Some b \<Rightarrow> b < 86400)) (ca_exceptions cal)"

definition capped :: "slot table \<Rightarrow> nat \<Rightarrow> staff_profile \<Rightarrow> int \<Rightarrow> bool" where
  "capped sls st prof day_start \<longleftrightarrow> (case st_daily_cap prof of None \<Rightarrow> False
     | Some cap \<Rightarrow> cap \<le> spaces_today sls st day_start (day_start + day_seconds))"

text \<open>An offer of a staff member on a day: a point of the grid of one of the day's windows.\<close>

definition offered ::
  "appt_env \<Rightarrow> (string \<Rightarrow> bool) \<Rightarrow> (string \<Rightarrow> int \<Rightarrow> nat \<Rightarrow> int) \<Rightarrow> string \<Rightarrow> calendar \<Rightarrow> slot table
     \<Rightarrow> int \<Rightarrow> nat \<Rightarrow> int \<Rightarrow> nat \<Rightarrow> staff_profile \<Rightarrow> offer \<Rightarrow> bool" where
  "offered env known utc dtz cal sls now type d st prof x \<longleftrightarrow>
     (\<exists>loc wins a b t. st_location prof = Some loc \<and> day_windows cal st d = Some wins
        \<and> (Some a, Some b) \<in> set wins
        \<and> (let (name, tz) = location_tz env known dtz loc;
               w = day_context env sls now type st loc (utc tz d 0) (utc tz d (b div 60))
           in \<not> capped sls st prof (utc tz d 0) \<and> t \<in> set (grid w (utc tz d (a div 60)))
              \<and> accepts w t \<and> x = mk_offer env type st loc name w t))"

lemma stride_pos: "intervals_ok env type \<Longrightarrow> 0 < wk_stride (day_context env sls now type st loc ds we)"
  by (simp add: intervals_ok_def day_context_def Let_def minute_seconds_def)

lemma staff_day_set:
  assumes "intervals_ok env type"
  shows "\<exists>ys. staff_day env known utc dtz cal sls now type d (st, prof) = Some ys
    \<and> (\<forall>x. x \<in> set ys \<longleftrightarrow> offered env known utc dtz cal sls now type d st prof x)"
proof (cases "st_location prof")
  case None
  then show ?thesis by (simp add: staff_day_def offered_def)
next
  case (Some loc)
  obtain name tz where tz: "location_tz env known dtz loc = (name, tz)" by fastforce
  show ?thesis
  proof (cases "day_windows cal st d")
    case None
    with Some tz show ?thesis by (simp add: staff_day_def offered_def)
  next
    case (Some wins)
    let ?w = "\<lambda>b. day_context env sls now type st loc (utc tz d 0) (utc tz d (b div 60))"
    let ?f = "\<lambda>win. case win of
        (Some a, Some b) \<Rightarrow> let w = day_context env sls now type st loc (utc tz d 0) (utc tz d (b div 60))
          in map_option (map (mk_offer env type st loc name w)) (walk w (utc tz d (a div 60)) [])
      | _ \<Rightarrow> Some []"
    let ?P = "\<lambda>win x. \<exists>a b t. win = (Some a, Some b)
        \<and> t \<in> set (grid (?w b) (utc tz d (a div 60))) \<and> accepts (?w b) t
        \<and> x = mk_offer env type st loc name (?w b) t"
    have "\<exists>ys. ?f win = Some ys \<and> (\<forall>x. x \<in> set ys \<longleftrightarrow> ?P win x)" for win
      by (auto simp: Let_def walk_grid [OF stride_pos [OF assms]] split: prod.splits option.splits)
    from gather_all [of wins ?f ?P, OF this] obtain ys where ys: "gather ?f wins = Some ys"
      and "\<forall>x. x \<in> set ys \<longleftrightarrow> (\<exists>win\<in>set wins. ?P win x)" by (elim exE conjE)
    moreover have "staff_day env known utc dtz cal sls now type d (st, prof)
        = (if capped sls st prof (utc tz d 0) then Some [] else Some ys)"
      using \<open>st_location prof = Some loc\<close> Some tz ys
      by (simp add: staff_day_def capped_def Let_def)
    ultimately show ?thesis
      using \<open>st_location prof = Some loc\<close> Some tz
      by (cases "capped sls st prof (utc tz d 0)") (simp_all add: offered_def Let_def Bex_def, blast)
  qed
qed

lemma available_set:
  assumes "intervals_ok env type"
  shows "\<exists>xs. get_available_slots env known utc dtz cal s now type d0 d1 loc staff citizen = Some xs
    \<and> sorted (map of_start xs)
    \<and> (\<forall>x. x \<in> set xs \<longleftrightarrow> \<not> citizen_blocked env s now type citizen
         \<and> (\<exists>st prof d. (st, prof) \<in> set (eligible_staff cal type staff loc) \<and> d0 \<le> d \<and> d \<le> d1
              \<and> offered env known utc dtz cal (ap_slots s) now type d st prof x))"
proof -
  let ?f = "\<lambda>d. gather (staff_day env known utc dtz cal (ap_slots s) now type d)
      (eligible_staff cal type staff loc)"
  have day: "\<exists>ys. staff_day env known utc dtz cal (ap_slots s) now type d kp = Some ys
      \<and> (\<forall>x. x \<in> set ys \<longleftrightarrow> offered env known utc dtz cal (ap_slots s) now type d (fst kp) (snd kp) x)" for d kp
    using staff_day_set [OF assms] by (cases kp) simp
  have "\<exists>ys. ?f d = Some ys \<and> (\<forall>x. x \<in> set ys \<longleftrightarrow> (\<exists>kp\<in>set (eligible_staff cal type staff loc).
      offered env known utc dtz cal (ap_slots s) now type d (fst kp) (snd kp) x))" for d
    by (rule gather_all) (rule day)
  from gather_all [of "[d0..d1]" ?f, OF this] obtain zs where zs: "gather ?f [d0..d1] = Some zs"
    and mem: "\<forall>x. x \<in> set zs \<longleftrightarrow> (\<exists>d\<in>set [d0..d1]. \<exists>kp\<in>set (eligible_staff cal type staff loc).
      offered env known utc dtz cal (ap_slots s) now type d (fst kp) (snd kp) x)" by auto
  have "x \<in> set zs \<longleftrightarrow> (\<exists>st prof d. (st, prof) \<in> set (eligible_staff cal type staff loc) \<and> d0 \<le> d \<and> d \<le> d1
      \<and> offered env known utc dtz cal (ap_slots s) now type d st prof x)" for x
    using mem by fastforce
  then show ?thesis
    using zs by (cases "eligible_staff cal type staff loc = []") (auto simp: get_available_slots_def Let_def)
qed

lemma grid_iff:
  assumes "0 < wk_stride w"
  shows "t \<in> set (grid w start) \<longleftrightarrow>
    (\<exists>i::nat. t = start + int i * wk_stride w) \<and> t + wk_duration w + wk_after w \<le> wk_end w"
proof
  assume "t \<in> set (grid w start)"
  then show "(\<exists>i::nat. t = start + int i * wk_stride w) \<and> t + wk_duration w + wk_after w \<le> wk_end w"
    using set_grid [OF assms] by (auto simp: grid_def)
next
  assume "(\<exists>i::nat. t = start + int i * wk_stride w) \<and> t + wk_duration w + wk_after w \<le> wk_end w"
  then obtain i :: nat where t: "t = start + int i * wk_stride w"
    and "int i * wk_stride w \<le> wk_end w - wk_after w - wk_duration w - start"
    by (auto simp: algebra_simps)
  then have "int i * wk_stride w div wk_stride w
      \<le> (wk_end w - wk_after w - wk_duration w - start) div wk_stride w"
    using assms by (intro zdiv_mono1)
  then have "i < grid_size w start" using assms by (simp add: grid_size_def)
  then show "t \<in> set (grid w start)" by (auto simp: grid_def t)
qed

lemma grid_sorted: "0 < wk_stride w \<Longrightarrow> sorted_wrt (<) (grid w start)"
  by (simp add: grid_def sorted_wrt_map sorted_wrt_upt)

lemma collision_iff:
  "collision a b (busy_times sls st ds de mb) \<longleftrightarrow>
     (\<exists>k sl. (k, sl) \<in> set sls \<and> sl_staff sl = st \<and> sl_eff_start sl < de + mb \<and> ds - mb < sl_eff_end sl
        \<and> busy_status (sl_status sl) \<and> overlaps a b (sl_eff_start sl) (sl_eff_end sl))"
  by (fastforce simp: collision_def busy_times_def list_ex_iff)

lemma window_times:
  assumes "times_ok cal" and "day_windows cal st d = Some wins" and "(Some a, Some b) \<in> set wins"
  shows "a < 86400 \<and> b < 86400"
proof -
  have exc: "\<exists>k. (k, e) \<in> set (ca_exceptions cal)" if "exception_on cal st d = Some e" for e
  proof -
    let ?rows = "filter (\<lambda>ke. se_staff (snd ke) = st \<and> se_date (snd ke) = d) (ca_exceptions cal)"
    from that obtain k es where "sort_key (\<lambda>ke. - int (fst ke)) ?rows = (k, e) # es"
      by (auto simp: exception_on_def Let_def split: list.splits)
    then have "(k, e) \<in> set (sort_key (\<lambda>ke. - int (fst ke)) ?rows)" by simp
    then show ?thesis by auto
  qed
  show ?thesis
  proof (cases "exception_on cal st d")
    case None
    with assms show ?thesis
      by (fastforce simp: day_windows_def Let_def times_ok_def list_all_iff split: if_splits)
  next
    case (Some e)
    with assms have ab: "se_start e = Some a" "se_end e = Some b"
      by (auto simp: day_windows_def Let_def split: if_splits)
    from exc [OF Some] obtain k where "(k, e) \<in> set (ca_exceptions cal)" ..
    with assms(1) have "(case se_start e of None \<Rightarrow> True | Some a \<Rightarrow> a < 86400)
        \<and> (case se_end e of None \<Rightarrow> True | Some b \<Rightarrow> b < 86400)"
      unfolding times_ok_def list_all_iff by blast
    with ab show ?thesis by simp
  qed
qed

lemma minute_of_day: "m < 86400 \<Longrightarrow> m div 60 < (1440::nat)"
  by (simp add: div_less_iff_less_mult)

text \<open>
  On a regular day the query for busy times misses no slot that could clash, so an offer
  clashes with no busy slot of the staff member at all.
\<close>

lemma offered_facts:
  assumes "offered env known utc dtz cal sls now type d st prof x"
  obtains loc name tz wins a b where "st_location prof = Some loc" "location_tz env known dtz loc = (name, tz)"
    "day_windows cal st d = Some wins" "(Some a, Some b) \<in> set wins"
    "\<not> capped sls st prof (utc tz d 0)"
    "of_start x \<in> set (grid (day_context env sls now type st loc (utc tz d 0) (utc tz d (b div 60))) (utc tz d (a div 60)))"
    "accepts (day_context env sls now type st loc (utc tz d 0) (utc tz d (b div 60))) (of_start x)"
    "x = mk_offer env type st loc name
       (day_context env sls now type st loc (utc tz d 0) (utc tz d (b div 60))) (of_start x)"
proof -
  from assms obtain loc wins a b t where *: "st_location prof = Some loc" "day_windows cal st d = Some wins"
    "(Some a, Some b) \<in> set wins"
    "let (name, tz) = location_tz env known dtz loc;
         w = day_context env sls now type st loc (utc tz d 0) (utc tz d (b div 60))
     in \<not> capped sls st prof (utc tz d 0) \<and> t \<in> set (grid w (utc tz d (a div 60)))
        \<and> accepts w t \<and> x = mk_offer env type st loc name w t"
    unfolding offered_def by blast
  obtain name tz where tz: "location_tz env known dtz loc = (name, tz)" by fastforce
  from *(4) have "of_start x = t" by (simp add: tz Let_def mk_offer_def)
  with * tz show ?thesis by (intro that [of loc name tz wins a b]) (simp_all add: Let_def)
qed

lemma day_context_simps [simp]:
  "wk_duration (day_context env sls now type st loc ds we) = minute_seconds * int (at_duration_minutes (en_type env type))"
  "wk_end (day_context env sls now type st loc ds we) = we"
  "wk_before (day_context env sls now type st loc ds we)
     = minute_seconds * int (buffer_before_minutes (slot_policy env type loc))"
  "wk_after (day_context env sls now type st loc ds we)
     = minute_seconds * int (buffer_after_minutes (slot_policy env type loc))"
  "wk_earliest (day_context env sls now type st loc ds we)
     = now + hour_seconds * int (min_lead_time_hours (slot_policy env type loc))"
  "wk_stride (day_context env sls now type st loc ds we)
     = minute_seconds * int (slot_interval_minutes (slot_policy env type loc))"
  by (simp_all add: day_context_def Let_def)

text \<open>Where an offer lies, and what its bounds are on a regular day.\<close>

lemma offered_bounds:
  assumes "offered env known utc dtz cal sls now type d st prof x" and "intervals_ok env type"
    and "times_ok cal" and "\<And>tz. day_regular utc tz d"
  obtains tz loc where "st_location prof = Some loc"
    "utc tz d 0 - wk_before (day_context env sls now type st loc (utc tz d 0) 0) \<le> of_eff_start x"
    "of_eff_end x \<le> utc tz d 0 + day_seconds"
    "\<not> collision (of_eff_start x) (of_eff_end x) (busy_times sls st (utc tz d 0) (utc tz d 0 + day_seconds)
       (max (wk_before (day_context env sls now type st loc (utc tz d 0) 0))
            (wk_after (day_context env sls now type st loc (utc tz d 0) 0))))"
    "\<not> capped sls st prof (utc tz d 0)"
proof -
  from assms(1) obtain loc name tz wins a b where loc: "st_location prof = Some loc"
    and wins: "day_windows cal st d = Some wins" "(Some a, Some b) \<in> set wins"
    and cap: "\<not> capped sls st prof (utc tz d 0)"
    and g: "of_start x \<in> set (grid (day_context env sls now type st loc (utc tz d 0) (utc tz d (b div 60))) (utc tz d (a div 60)))"
    and acc: "accepts (day_context env sls now type st loc (utc tz d 0) (utc tz d (b div 60))) (of_start x)"
    and x: "x = mk_offer env type st loc name
       (day_context env sls now type st loc (utc tz d 0) (utc tz d (b div 60))) (of_start x)"
    by (rule offered_facts)
  have "a div 60 < 1440" "b div 60 < 1440"
    using window_times [OF assms(3) wins] by (simp_all add: minute_of_day)
  with assms(4) have reg: "utc tz d 0 \<le> utc tz d (a div 60)" "utc tz d (b div 60) \<le> utc tz d 0 + day_seconds"
    unfolding day_regular_def by blast+
  let ?w = "day_context env sls now type st loc (utc tz d 0) (utc tz d (b div 60))"
  have eff: "of_eff_start x = of_start x - wk_before ?w" "of_eff_end x = of_start x + wk_duration ?w + wk_after ?w"
    by (subst x, simp add: mk_offer_def)+
  have "utc tz d 0 \<le> of_start x" "of_eff_end x \<le> utc tz d 0 + day_seconds"
    using reg grid_ge [OF stride_pos [OF assms(2)] g] set_grid [OF stride_pos [OF assms(2)] g] eff by simp_all
  moreover from acc have "\<not> collision (of_eff_start x) (of_eff_end x) (wk_busy ?w)"
    unfolding accepts_def eff by blast
  ultimately show ?thesis
    using loc cap eff by (intro that [of loc tz]) (simp_all add: day_context_def Let_def)
qed

lemma offered_no_clash:
  assumes "offered env known utc dtz cal sls now type d st prof x" and "intervals_ok env type"
    and "times_ok cal" and "\<And>tz. day_regular utc tz d"
    and sl: "(k, sl) \<in> set sls" "sl_staff sl = st" "busy_status (sl_status sl)"
  shows "\<not> overlaps (of_eff_start x) (of_eff_end x) (sl_eff_start sl) (sl_eff_end sl)"
proof
  assume ov: "overlaps (of_eff_start x) (of_eff_end x) (sl_eff_start sl) (sl_eff_end sl)"
  from assms(1-4) obtain tz loc where
    b: "utc tz d 0 - wk_before (day_context env sls now type st loc (utc tz d 0) 0) \<le> of_eff_start x"
    "of_eff_end x \<le> utc tz d 0 + day_seconds"
    and none: "\<not> collision (of_eff_start x) (of_eff_end x) (busy_times sls st (utc tz d 0) (utc tz d 0 + day_seconds)
       (max (wk_before (day_context env sls now type st loc (utc tz d 0) 0))
            (wk_after (day_context env sls now type st loc (utc tz d 0) 0))))" (is "\<not> collision _ _ (busy_times _ _ _ _ ?mb)")
    by (rule offered_bounds)
  have "0 \<le> ?mb" "wk_before (day_context env sls now type st loc (utc tz d 0) 0) \<le> ?mb"
    by (simp_all add: le_max_iff_disj minute_seconds_def)
  with b ov have "sl_eff_start sl < utc tz d 0 + day_seconds + ?mb" "utc tz d 0 - ?mb < sl_eff_end sl"
    unfolding overlaps_def by linarith+
  with none sl ov show False by (auto simp: collision_iff)
qed

section \<open>Properties\<close>

text \<open>
  C28. The walk over an availability window returns, and returns exactly the grid: for a
  positive interval the result is the strictly increasing list of the points
  \<open>start + i * interval\<close> whose slot and trailing buffer end inside the window, that respect
  the lead time and the booking horizon, and whose buffered interval overlaps no busy time;
  the early exit at the horizon and the skipping loses none.
\<close>

theorem walk_is_filtered_grid:
  assumes "0 < wk_stride w"
  shows "\<exists>ts. walk w start [] = Some ts \<and> sorted_wrt (<) ts
    \<and> (\<forall>t. t \<in> set ts \<longleftrightarrow> (\<exists>i::nat. t = start + int i * wk_stride w)
         \<and> t + wk_duration w + wk_after w \<le> wk_end w \<and> wk_earliest w \<le> t
         \<and> (\<forall>l. wk_latest w = Some l \<longrightarrow> t \<le> l)
         \<and> (\<forall>(p, q)\<in>set (wk_busy w). q \<le> t - wk_before w \<or> t + wk_duration w + wk_after w \<le> p))"
proof -
  have "accepts w t \<longleftrightarrow> wk_earliest w \<le> t \<and> (\<forall>l. wk_latest w = Some l \<longrightarrow> t \<le> l)
      \<and> (\<forall>(p, q)\<in>set (wk_busy w). q \<le> t - wk_before w \<or> t + wk_duration w + wk_after w \<le> p)" for t
    by (auto simp: accepts_def collision_def list_ex_iff overlaps_def not_less split: option.splits)
  then show ?thesis
    using walk_grid [OF assms, of start "[]"] grid_sorted [OF assms, of start] assms
    by (auto simp: grid_iff sorted_wrt_filter)
qed

definition demo_walk :: walk_ctx where
  "demo_walk = \<lparr>wk_duration = 1800, wk_stride = 900, wk_before = 0, wk_after = 300, wk_end = 7200,
     wk_earliest = 900, wk_latest = Some 4000, wk_busy = [(3900, 4000)]\<rparr>"

theorem walk_is_filtered_grid_witness: "\<exists>ts. walk demo_walk 0 [] = Some ts \<and> 900 \<in> set ts \<and> 0 \<notin> set ts"
  using walk_is_filtered_grid [of demo_walk 0]
  by (auto simp: demo_walk_def intro!: exI [of _ "1::nat"])

text \<open>
  C11. Every offer is sound. A returned slot belongs to an accepting staff member of the
  requested type, and of the requested person and place if one was asked for, at their own
  location. There is a requested local day and one of the windows the staff member works on it,
  by a template or an exception, such that the slot starts in the window and ends, with its
  trailing buffer, within it, on that day. It starts no earlier than the lead time and no later
  than the horizon allows, lasts the type's duration, and its buffered interval overlaps no
  stored available, partial, full or blocked slot of that staff member; the list is sorted by
  start. The intervals of the policies are positive, the stored times of day lie before
  midnight, and the local days of the request are regular: no minute of them lies more than 24
  hours after their midnight.
\<close>

theorem offers_are_sound:
  assumes "intervals_ok env type" and "times_ok cal"
    and "\<And>tz d. d0 \<le> d \<Longrightarrow> d \<le> d1 \<Longrightarrow> day_regular utc tz d"
    and "get_available_slots env known utc dtz cal s now type d0 d1 loc staff citizen = Some xs"
    and "x \<in> set xs"
  shows "sorted (map of_start xs)
    \<and> (\<exists>prof d wins a b tz. (of_staff x, prof) \<in> set (ca_staff cal) \<and> type \<in> set (st_types prof) \<and> st_accepting prof
         \<and> st_location prof = Some (of_location x) \<and> d0 \<le> d \<and> d \<le> d1
         \<and> day_windows cal (of_staff x) d = Some wins \<and> (Some a, Some b) \<in> set wins
         \<and> location_tz env known dtz (of_location x) = (of_timezone x, tz)
         \<and> utc tz d (a div 60) \<le> of_start x
         \<and> of_end x + minute_seconds * int (buffer_after_minutes (slot_policy env type (of_location x))) \<le> utc tz d (b div 60)
         \<and> utc tz d 0 \<le> of_start x \<and> of_end x \<le> utc tz d 0 + day_seconds)
    \<and> (\<forall>k. staff = Some k \<longrightarrow> of_staff x = k) \<and> (\<forall>l. loc = Some l \<longrightarrow> of_location x = l)
    \<and> now + hour_seconds * int (min_lead_time_hours (slot_policy env type (of_location x))) \<le> of_start x
    \<and> (0 < max_advance_days (slot_policy env type (of_location x)) \<longrightarrow>
         of_start x \<le> now + day_seconds * int (max_advance_days (slot_policy env type (of_location x))))
    \<and> of_end x = of_start x + minute_seconds * int (at_duration_minutes (en_type env type))
    \<and> (\<forall>k sl. (k, sl) \<in> set (ap_slots s) \<longrightarrow> sl_staff sl = of_staff x \<longrightarrow> busy_status (sl_status sl)
         \<longrightarrow> \<not> overlaps (of_eff_start x) (of_eff_end x) (sl_eff_start sl) (sl_eff_end sl))"
proof -
  from available_set [OF assms(1), of known utc dtz cal s now d0 d1 loc staff citizen] assms(4,5)
  obtain st prof d where e: "(st, prof) \<in> set (eligible_staff cal type staff loc)" "d0 \<le> d" "d \<le> d1"
    and off: "offered env known utc dtz cal (ap_slots s) now type d st prof x"
    and srt: "sorted (map of_start xs)"
    by auto
  from off obtain l name tz wins a b where l: "st_location prof = Some l" "day_windows cal st d = Some wins"
    and ab: "(Some a, Some b) \<in> set wins" and tz: "location_tz env known dtz l = (name, tz)"
    and g: "of_start x \<in> set (grid (day_context env (ap_slots s) now type st l (utc tz d 0) (utc tz d (b div 60))) (utc tz d (a div 60)))"
    and acc: "accepts (day_context env (ap_slots s) now type st l (utc tz d 0) (utc tz d (b div 60))) (of_start x)"
    and x: "x = mk_offer env type st l name
       (day_context env (ap_slots s) now type st l (utc tz d 0) (utc tz d (b div 60))) (of_start x)"
    by (rule offered_facts)
  have f: "of_staff x = st" "of_location x = l" "of_timezone x = name"
    "of_end x = of_start x + minute_seconds * int (at_duration_minutes (en_type env type))"
    by (subst x, simp add: mk_offer_def)+
  have clear: "\<not> overlaps (of_eff_start x) (of_eff_end x) (sl_eff_start sl) (sl_eff_end sl)"
    if "(k, sl) \<in> set (ap_slots s)" "sl_staff sl = st" "busy_status (sl_status sl)" for k sl
    using offered_no_clash [OF off assms(1,2) assms(3) [OF e(2,3)] that] .
  note pos = stride_pos [OF assms(1)]
  have win: "utc tz d (a div 60) \<le> of_start x"
    "of_end x + minute_seconds * int (buffer_after_minutes (slot_policy env type l)) \<le> utc tz d (b div 60)"
    using grid_ge [OF pos g] set_grid [OF pos g] by (simp_all add: f day_context_def Let_def)
  have "a div 60 < 1440" "b div 60 < 1440"
    using window_times [OF assms(2) l(2) ab] by (simp_all add: minute_of_day)
  with assms(3) [OF e(2,3)] have "utc tz d 0 \<le> utc tz d (a div 60)" "utc tz d (b div 60) \<le> utc tz d 0 + day_seconds"
    unfolding day_regular_def by blast+
  moreover have "0 \<le> minute_seconds * int (buffer_after_minutes (slot_policy env type l))" by (simp add: minute_seconds_def)
  ultimately have day: "utc tz d 0 \<le> of_start x" "of_end x \<le> utc tz d 0 + day_seconds" using win by linarith+
  from acc have time: "now + hour_seconds * int (min_lead_time_hours (slot_policy env type l)) \<le> of_start x"
    "0 < max_advance_days (slot_policy env type l) \<longrightarrow>
       of_start x \<le> now + day_seconds * int (max_advance_days (slot_policy env type l))"
    by (auto simp: accepts_def day_context_def Let_def)
  from e(1) have staff: "(st, prof) \<in> set (ca_staff cal)" "type \<in> set (st_types prof)" "st_accepting prof"
    "staff = Some k \<Longrightarrow> st = k" "loc = Some m \<Longrightarrow> l = m" for k m
    using l(1) by (auto simp: eligible_staff_def)
  have "\<exists>prof d wins a b tz. (of_staff x, prof) \<in> set (ca_staff cal) \<and> type \<in> set (st_types prof) \<and> st_accepting prof
      \<and> st_location prof = Some (of_location x) \<and> d0 \<le> d \<and> d \<le> d1
      \<and> day_windows cal (of_staff x) d = Some wins \<and> (Some a, Some b) \<in> set wins
      \<and> location_tz env known dtz (of_location x) = (of_timezone x, tz)
      \<and> utc tz d (a div 60) \<le> of_start x
      \<and> of_end x + minute_seconds * int (buffer_after_minutes (slot_policy env type (of_location x))) \<le> utc tz d (b div 60)
      \<and> utc tz d 0 \<le> of_start x \<and> of_end x \<le> utc tz d 0 + day_seconds"
    using staff(1-3) l e(2,3) ab tz win day unfolding f(1-3) by blast
  moreover have "\<forall>k. staff = Some k \<longrightarrow> of_staff x = k" "\<forall>m. loc = Some m \<longrightarrow> of_location x = m"
    using staff(4,5) by (auto simp: f)
  ultimately show ?thesis using srt time clear f by simp
qed

end
