(* ===== verification/GenerationProps.thy ===== *)
theory GenerationProps
  imports AvailabilityProps
begin

text \<open>
  Slot generation over a calendar: repetition adds nothing, overlapping offers double book a
  staff member, and a 25-hour day hides busy times. The concrete instances use one office.
\<close>

section \<open>A small office\<close>

text \<open>
  One staff member, Mondays 9:00 to 10:00, half-hour appointments, the default policy of the
  settings (a 15-minute interval). Day 1 is a Monday; times are UTC.
\<close>

definition office_type :: appointment_type where
  "office_type = \<lparr>at_service_type = 1, at_slug = ''permit'', at_duration_minutes = 30,
     at_capacity_per_slot = 1, at_requires_confirmation = False,
     at_non_punitive_no_show = False, at_policy = None\<rparr>"

definition office_env :: appt_env where
  "office_env = \<lparr>en_type = (\<lambda>_. office_type),
     en_location = (\<lambda>_. \<lparr>loc_timezone = ''UTC'', loc_policy = None\<rparr>), en_settings = Map.empty\<rparr>"

definition office_calendar :: calendar where
  "office_calendar = \<lparr>ca_staff = [(1, \<lparr>st_types = [1], st_accepting = True, st_location = Some 1,
       st_daily_cap = None\<rparr>)],
     ca_templates = [(1, \<lparr>tp_staff = 1, tp_day = 1, tp_start = 32400, tp_end = 36000, tp_from = 0,
       tp_until = None\<rparr>)],
     ca_exceptions = []\<rparr>"

definition plain_utc :: "string \<Rightarrow> int \<Rightarrow> nat \<Rightarrow> int" where
  "plain_utc tz d m = d * 86400 + int m * 60"

definition office_empty :: appt_state where
  "office_empty = \<lparr>ap_slots = [], ap_bookings = [], ap_noshow = [], ap_audit = [], ap_signals = [],
     ap_revoked = []\<rparr>"

definition office_offer :: "int \<Rightarrow> offer" where
  "office_offer t = \<lparr>of_staff = 1, of_location = 1, of_type = 1, of_start = t, of_end = t + 1800,
     of_eff_start = t, of_eff_end = t + 1800, of_timezone = ''UTC'', of_spaces = 1\<rparr>"

lemma office_intervals: "intervals_ok office_env t"
  by (simp add: intervals_ok_def slot_policy_def resolve_policy_def office_env_def office_type_def
      policy_from_settings_def dget_def)

lemma office_times: "times_ok office_calendar"
  by (simp add: times_ok_def office_calendar_def)

lemma office_regular: "day_regular plain_utc tz d"
  by (simp add: day_regular_def plain_utc_def day_seconds_def)

definition office_walk :: walk_ctx where
  "office_walk = \<lparr>wk_duration = 1800, wk_stride = 900, wk_before = 0, wk_after = 0, wk_end = 122400,
     wk_earliest = 3600, wk_latest = Some 15552000, wk_busy = []\<rparr>"

lemma office_context: "day_context office_env [] 0 1 1 1 86400 122400 = office_walk"
  by (simp add: day_context_def office_walk_def slot_policy_def resolve_policy_def policy_from_settings_def
      dget_def office_env_def office_type_def busy_times_def minute_seconds_def hour_seconds_def day_seconds_def)

lemma office_grid: "grid office_walk 118800 = [118800, 119700, 120600]"
  by (simp add: grid_def grid_size_def office_walk_def eval_nat_numeral)

lemma office_walk_result: "walk office_walk 118800 [] = Some [118800, 119700, 120600]"
proof -
  have "0 < wk_stride office_walk" by (simp add: office_walk_def)
  from walk_grid [OF this] show ?thesis
    by (simp add: office_grid) (simp add: accepts_def collision_def office_walk_def)
qed

lemma office_windows: "day_windows office_calendar 1 1 = Some [(Some 32400, Some 36000)]"
  by (simp add: day_windows_def office_calendar_def iso_weekday_def active_on_def exception_on_def)

lemma office_mk_offer: "mk_offer office_env 1 1 1 ''UTC'' office_walk t = office_offer t"
  by (simp add: mk_offer_def office_offer_def office_walk_def office_env_def office_type_def)

lemma office_offers:
  "get_available_slots office_env (\<lambda>_. True) plain_utc ''UTC'' office_calendar office_empty 0 1 1 1 None (Some 1) None
     = Some [office_offer 118800, office_offer 119700, office_offer 120600]"
proof -
  have tz: "location_tz office_env (\<lambda>_. True) ''UTC'' 1 = (''UTC'', ''UTC'')"
    by (simp add: location_tz_def office_env_def Let_def)
  have day: "staff_day office_env (\<lambda>_. True) plain_utc ''UTC'' office_calendar [] 0 1 1
      (1, \<lparr>st_types = [1], st_accepting = True, st_location = Some 1, st_daily_cap = None\<rparr>)
    = Some [office_offer 118800, office_offer 119700, office_offer 120600]"
    using office_context office_walk_result
    by (simp add: staff_day_def tz [simplified] office_windows [simplified] plain_utc_def Let_def
        office_mk_offer [simplified])
  have "eligible_staff office_calendar 1 (Some 1) None
      = [(1, \<lparr>st_types = [1], st_accepting = True, st_location = Some 1, st_daily_cap = None\<rparr>)]"
    by (simp add: eligible_staff_def office_calendar_def)
  then show ?thesis
    using day by (simp add: get_available_slots_def citizen_blocked_def office_empty_def) (simp add: office_offer_def)
qed

text \<open>The soundness of offers, at the office: the first offer starts after the lead time, on Monday.\<close>

theorem offers_are_sound_witness:
  "0 + hour_seconds * int (min_lead_time_hours (slot_policy office_env 1 1)) \<le> of_start (office_offer 118800)
    \<and> of_end (office_offer 118800) = of_start (office_offer 118800) + 1800
    \<and> 86400 \<le> of_start (office_offer 118800)"
  using offers_are_sound [OF office_intervals office_times office_regular office_offers, of "office_offer 118800"]
  by (auto simp: office_offer_def office_env_def office_type_def minute_seconds_def plain_utc_def)

section \<open>Generating twice\<close>

lemma bulk_create_append:
  assumes "distinct (map fst rows)" and "\<And>k. k \<in> set (map fst rows) \<Longrightarrow> tget t k = None"
  shows "bulk_create_slots rows t = t @ rows"
  using assms
proof (induction rows t rule: bulk_create_slots.induct)
  case (2 k sl rows t)
  then have "tget t k = None" by simp
  moreover from 2 have "tget (t @ [(k, sl)]) j = None" if "j \<in> set (map fst rows)" for j
    using that by (auto simp: tget_def map_add_def)
  ultimately show ?case using 2 by (simp add: tput_new)
qed simp

lemma grid_busy: "grid (w\<lparr>wk_busy := b\<rparr>) start = grid w start"
  by (simp add: grid_def grid_size_def)

lemma context_busy:
  "day_context env sls' now type st loc ds we = (day_context env sls now type st loc ds we)
     \<lparr>wk_busy := wk_busy (day_context env sls' now type st loc ds we)\<rparr>"
  by (simp add: day_context_def Let_def)

text \<open>Fewer stored slots, the same spaces: nothing offered before is lost.\<close>

lemma offered_mono:
  assumes off: "offered env known utc dtz cal (sls @ new) now type d st prof x"
    and free: "\<And>k sl. (k, sl) \<in> set new \<Longrightarrow> sl_spaces sl = 0"
  shows "offered env known utc dtz cal sls now type d st prof x"
proof -
  from off obtain loc name tz wins a b where o: "st_location prof = Some loc"
    "location_tz env known dtz loc = (name, tz)" "day_windows cal st d = Some wins" "(Some a, Some b) \<in> set wins"
    "\<not> capped (sls @ new) st prof (utc tz d 0)"
    "of_start x \<in> set (grid (day_context env (sls @ new) now type st loc (utc tz d 0) (utc tz d (b div 60))) (utc tz d (a div 60)))"
    "accepts (day_context env (sls @ new) now type st loc (utc tz d 0) (utc tz d (b div 60))) (of_start x)"
    "x = mk_offer env type st loc name
       (day_context env (sls @ new) now type st loc (utc tz d 0) (utc tz d (b div 60))) (of_start x)"
    by (rule offered_facts)
  let ?w = "\<lambda>sls. day_context env sls now type st loc (utc tz d 0) (utc tz d (b div 60))"
  have g: "grid (?w (sls @ new)) = grid (?w sls)"
    by (rule ext) (subst context_busy [of _ "sls @ new" _ _ _ _ _ _ sls], rule grid_busy)
  have "filter (\<lambda>ks. sl_staff (snd ks) = st \<and> ds \<le> sl_start (snd ks) \<and> sl_start (snd ks) < de
      \<and> 0 < sl_spaces (snd ks)) new = []" for ds de
    using free by (auto simp: filter_empty_conv)
  then have cap: "\<not> capped sls st prof (utc tz d 0)"
    using o(5) by (simp add: capped_def spaces_today_def split: option.splits)
  have acc: "accepts (?w sls) (of_start x)"
    using o(7) by (auto simp: accepts_def day_context_def Let_def collision_def busy_times_def split: option.splits)
  have mk: "mk_offer env type st loc name (?w (sls @ new)) = mk_offer env type st loc name (?w sls)"
    by (rule ext) (simp add: mk_offer_def)
  show ?thesis
    unfolding offered_def using o(1-4,6,8) g cap acc mk
    by (intro exI [of _ loc] exI [of _ wins] exI [of _ a] exI [of _ b] exI [of _ "of_start x"])
      (simp add: Let_def)
qed

text \<open>
  C10. Generation is idempotent. The first run of \<open>generate_slots_for_range\<close> appends exactly
  one slot per offer \<open>get_available_slots\<close> computes, in its order, each under its own fresh
  key, reports their number and touches no booking; running it again for the same staff member,
  type and dates at the same clock time adds no slot and returns 0. This needs what the code
  assumes: the keys Python draws are new, durations and intervals are positive, stored times of
  day lie before midnight, and the local days are regular, that is at most 24 hours long.
\<close>

theorem generation_idempotent:
  assumes "intervals_ok env type" and "times_ok cal"
    and "\<And>tz d. d0 \<le> d \<Longrightarrow> d \<le> d1 \<Longrightarrow> day_regular utc tz d"
    and "0 < at_duration_minutes (en_type env type)"
    and "inj uuid" and "\<And>i. tget (ap_slots s) (uuid i) = None"
    and gen: "generate_slots_for_range env known utc dtz cal uuid s now type staff d0 d1 = Some (s1, n)"
  shows "generate_slots_for_range env known utc dtz cal uuid' s1 now type staff d0 d1 = Some (s1, 0)
    \<and> (\<exists>xs. get_available_slots env known utc dtz cal s now type d0 d1 None (Some staff) None = Some xs
         \<and> ap_slots s1 = ap_slots s @ zip (map uuid [0..<length xs]) (map offer_slot xs) \<and> n = length xs)
    \<and> s1 = s\<lparr>ap_slots := ap_slots s1\<rparr>"
proof -
  let ?get = "\<lambda>s. get_available_slots env known utc dtz cal s now type d0 d1 None (Some staff) None"
  let ?off = "\<lambda>s x. \<exists>st prof d. (st, prof) \<in> set (eligible_staff cal type (Some staff) None) \<and> d0 \<le> d \<and> d \<le> d1
      \<and> offered env known utc dtz cal (ap_slots s) now type d st prof x"
  have get: "\<exists>xs. ?get s = Some xs \<and> (\<forall>x. x \<in> set xs \<longleftrightarrow> ?off s x)" for s
    using available_set [OF assms(1), of known utc dtz cal s now d0 d1 None "Some staff" None]
    by (auto simp: citizen_blocked_def)
  from get [of s] obtain xs where xs: "?get s = Some xs" "\<And>x. x \<in> set xs \<longleftrightarrow> ?off s x" by auto
  show ?thesis
  proof (cases "xs = []")
    case True
    with gen xs have "s1 = s" "n = 0" by (auto simp: generate_slots_for_range_def)
    with True xs show ?thesis by (simp add: generate_slots_for_range_def)
  next
    case False
    define new where "new = zip (map uuid [0..<length xs]) (map offer_slot xs)"
    have keys: "map fst new = map uuid [0..<length xs]" by (simp add: new_def)
    have "bulk_create_slots new (ap_slots s) = ap_slots s @ new"
      using assms(5,6) by (intro bulk_create_append) (auto simp: keys distinct_map inj_on_def inj_def)
    with gen xs False have s1: "ap_slots s1 = ap_slots s @ new" and kept: "s1 = s\<lparr>ap_slots := ap_slots s1\<rparr>"
      and n: "n = length (filter (\<lambda>kr. fst kr \<in> set (map uuid [0..<length xs])) (ap_slots s @ new))"
      by (auto simp: generate_slots_for_range_def Let_def new_def)
    have "filter (\<lambda>kr. fst kr \<in> set (map uuid [0..<length xs])) (ap_slots s) = []"
      using assms(6) by (force simp: filter_empty_conv tget_None_iff)
    moreover have "filter (\<lambda>kr. fst kr \<in> set (map uuid [0..<length xs])) new = new"
      by (rule filter_True) (auto simp: new_def dest: set_zip_leftD)
    ultimately have n': "n = length new" by (simp only: n filter_append append_Nil)
    from get [of s1] obtain ys where ys: "?get s1 = Some ys" "\<And>x. x \<in> set ys \<longleftrightarrow> ?off s1 x" by auto
    have "y \<notin> set ys" for y
    proof
      assume "y \<in> set ys"
      with ys obtain st prof d where e: "(st, prof) \<in> set (eligible_staff cal type (Some staff) None)" "d0 \<le> d" "d \<le> d1"
        and off: "offered env known utc dtz cal (ap_slots s @ new) now type d st prof y"
        by (auto simp: s1)
      have "offered env known utc dtz cal (ap_slots s) now type d st prof y"
        by (rule offered_mono [OF off]) (auto simp: new_def offer_slot_def dest!: set_zip_rightD)
      with e xs have "y \<in> set xs" by auto
      then obtain i where "i < length xs" "xs ! i = y" by (auto simp: in_set_conv_nth)
      then have k: "(uuid i, offer_slot y) \<in> set new"
        unfolding new_def set_zip by (intro CollectI exI [of _ i]) simp
      from off obtain l name tz wins a b where
        y: "y = mk_offer env type st l name
         (day_context env (ap_slots s @ new) now type st l (utc tz d 0) (utc tz d (b div 60))) (of_start y)"
        by (rule offered_facts)
      have eff: "of_staff y = st"
        "of_eff_start y = of_start y - minute_seconds * int (buffer_before_minutes (slot_policy env type l))"
        "of_eff_end y = of_start y + minute_seconds * int (at_duration_minutes (en_type env type))
          + minute_seconds * int (buffer_after_minutes (slot_policy env type l))"
        by (subst y, simp add: mk_offer_def)+
      then have f: "of_staff y = st" "of_eff_start y < of_eff_end y"
        using assms(4) by (simp_all add: minute_seconds_def)
      have "\<not> overlaps (of_eff_start y) (of_eff_end y) (sl_eff_start (offer_slot y)) (sl_eff_end (offer_slot y))"
        by (rule offered_no_clash [OF off assms(1,2) assms(3) [OF e(2,3)]])
          (use k f in \<open>auto simp: offer_slot_def busy_status_def\<close>)
      with f show False by (simp add: overlaps_def offer_slot_def)
    qed
    then have "ys = []" by (cases ys) auto
    with ys have "generate_slots_for_range env known utc dtz cal uuid' s1 now type staff d0 d1 = Some (s1, 0)"
      by (simp add: generate_slots_for_range_def)
    moreover have "n = length xs" by (simp add: n' new_def)
    ultimately show ?thesis using xs(1) s1 kept unfolding new_def by blast
  qed
qed

theorem generation_idempotent_witness:
  "\<exists>s1. generate_slots_for_range office_env (\<lambda>_. True) plain_utc ''UTC'' office_calendar id office_empty 0 1 1 1 1
       = Some (s1, 3)
     \<and> generate_slots_for_range office_env (\<lambda>_. True) plain_utc ''UTC'' office_calendar Suc s1 0 1 1 1 1 = Some (s1, 0)
     \<and> map fst (ap_slots s1) = [0, 1, 2]"
proof -
  obtain s1 where s1: "generate_slots_for_range office_env (\<lambda>_. True) plain_utc ''UTC'' office_calendar id
      office_empty 0 1 1 1 1 = Some (s1, 3)"
    using office_offers
    by (simp add: generate_slots_for_range_def Let_def) (simp add: office_empty_def tget_def tput_def eval_nat_numeral)
  have pos: "0 < at_duration_minutes (en_type office_env 1)" and new: "tget (ap_slots office_empty) (id i) = None" for i
    by (simp_all add: office_env_def office_type_def office_empty_def)
  from generation_idempotent [OF office_intervals office_times office_regular pos inj_on_id new s1, of Suc] s1 office_offers
  show ?thesis by (auto simp: office_empty_def eval_nat_numeral)
qed

section \<open>Where the algorithm falls short\<close>

text \<open>The slot generated from an office offer, and what \<open>create_booking\<close> needs of the office.\<close>

definition office_intake :: intake where
  "office_intake = \<lparr>appointment_mode = ''in_person'', form_responses = [], booking_channel = ''online'',
     interpreter_needed = False, interpreter_language = '''', accessibility_needs = '''',
     language = ''en'', consent_recorded_at = None, consent_version = ''''\<rparr>"

text \<open>
  The default policy double books staff. With the settings' default interval of 15
  minutes and a half-hour appointment type, one run of slot generation persists slots that
  overlap each other for the same staff member (a walk checks its results against stored
  slots, not against each other), and two citizens can then book two of them: the staff
  member has two confirmed one-person appointments at the same time.
\<close>

theorem default_policy_double_books:
  "\<exists>s1 s2 s3 a b. generate_slots_for_range office_env (\<lambda>_. True) plain_utc ''UTC'' office_calendar id office_empty 0 1 1 1 1
       = Some (s1, 3)
     \<and> create_booking office_env s1 0 1 0 7 office_intake None None = Inr s2
     \<and> create_booking office_env s2 0 2 1 8 office_intake None None = Inr s3
     \<and> tget (ap_slots s3) 0 = Some a \<and> tget (ap_slots s3) 1 = Some b
     \<and> sl_staff a = sl_staff b \<and> sl_status a = Full \<and> sl_status b = Full
     \<and> overlaps (sl_start a) (sl_end a) (sl_start b) (sl_end b)
     \<and> map_option bk_status (tget (ap_bookings s3) 1) = Some BConfirmed
     \<and> map_option bk_status (tget (ap_bookings s3) 2) = Some BConfirmed"
proof -
  let ?s1 = "office_empty\<lparr>ap_slots := [(0, offer_slot (office_offer 118800)),
      (1, offer_slot (office_offer 119700)), (2, offer_slot (office_offer 120600))]\<rparr>"
  have gen: "generate_slots_for_range office_env (\<lambda>_. True) plain_utc ''UTC'' office_calendar id office_empty 0 1 1 1 1
      = Some (?s1, 3)"
    using office_offers
    by (simp add: generate_slots_for_range_def Let_def) (simp add: office_empty_def tget_def tput_def eval_nat_numeral)
  have p: "booking_frequency_days (slot_policy office_env t l) = 0"
    "max_active_bookings_per_citizen (slot_policy office_env t l) = 3" for t l
    by (simp_all add: slot_policy_def resolve_policy_def office_env_def office_type_def policy_from_settings_def dget_def)
  have t: "en_type office_env i = office_type" for i by (simp add: office_env_def)
  have "\<exists>s2 s3 a b. create_booking office_env ?s1 0 1 0 7 office_intake None None = Inr s2
     \<and> create_booking office_env s2 0 2 1 8 office_intake None None = Inr s3
     \<and> tget (ap_slots s3) 0 = Some a \<and> tget (ap_slots s3) 1 = Some b
     \<and> sl_staff a = sl_staff b \<and> sl_status a = Full \<and> sl_status b = Full
     \<and> overlaps (sl_start a) (sl_end a) (sl_start b) (sl_end b)
     \<and> map_option bk_status (tget (ap_bookings s3) 1) = Some BConfirmed
     \<and> map_option bk_status (tget (ap_bookings s3) 2) = Some BConfirmed"
    by (simp add: create_booking_def create_guard_def create_write_def p t Let_def office_type_def office_intake_def
        office_empty_def offer_slot_def office_offer_def bookable_def take_space_def update_slot_status_def
        set_slot_def set_booking_def write_audit_def signal_def tget_def tput_def new_booking_def
        active_count_def tcount_def overlaps_def)
  with gen show ?thesis by blast
qed

text \<open>
  A Monday that ends daylight saving time: its first two hours are followed by a repeated
  one, so the local day has 25 hours. One slot of the evening shift, 23:00 to 23:30, is stored.
\<close>

definition autumn_utc :: "string \<Rightarrow> int \<Rightarrow> nat \<Rightarrow> int" where
  "autumn_utc tz d m = d * 86400 + int m * 60 + (if d = 1 \<and> 120 \<le> m then 3600 else 0)
     + (if 1 < d then 3600 else 0)"

definition evening_calendar :: calendar where
  "evening_calendar = office_calendar\<lparr>ca_templates := [(1, \<lparr>tp_staff = 1, tp_day = 1, tp_start = 82800,
     tp_end = 84600, tp_from = 0, tp_until = None\<rparr>)]\<rparr>"

definition evening_slot :: slot where
  "evening_slot = (offer_slot (office_offer 172800))\<lparr>sl_spaces := 1, sl_status := Full\<rparr>"

lemma evening_walk:
  "walk (office_walk\<lparr>wk_end := 174600\<rparr>) 172800 [] = Some [172800]"
proof -
  have "0 < wk_stride (office_walk\<lparr>wk_end := 174600\<rparr>)" by (simp add: office_walk_def)
  from walk_grid [OF this] show ?thesis
    by (simp add: grid_def grid_size_def accepts_def collision_def office_walk_def)
qed

text \<open>
  A 25-hour day hides busy times. The query for busy slots ends 24 hours after local
  midnight, so on the day daylight saving time ends a fully booked slot of the last local
  hour is not seen, and the very same time is offered again for the same staff member,
  although the busy-time window is there to prevent double booking.
\<close>

theorem long_day_hides_busy_slot:
  "\<exists>x. get_available_slots office_env (\<lambda>_. True) autumn_utc ''UTC'' evening_calendar
         (office_empty\<lparr>ap_slots := [(5, evening_slot)]\<rparr>) 0 1 1 1 None (Some 1) None = Some [x]
     \<and> of_staff x = sl_staff evening_slot \<and> sl_status evening_slot = Full
     \<and> of_start x = sl_start evening_slot
     \<and> overlaps (of_eff_start x) (of_eff_end x) (sl_eff_start evening_slot) (sl_eff_end evening_slot)"
proof -
  have ctx: "day_context office_env [(5, evening_slot)] 0 1 1 1 86400 174600 = office_walk\<lparr>wk_end := 174600\<rparr>"
    by (simp add: day_context_def office_walk_def slot_policy_def resolve_policy_def policy_from_settings_def
        dget_def office_env_def office_type_def busy_times_def minute_seconds_def hour_seconds_def day_seconds_def
        evening_slot_def offer_slot_def office_offer_def)
  have tz: "location_tz office_env (\<lambda>_. True) ''UTC'' 1 = (''UTC'', ''UTC'')"
    by (simp add: location_tz_def office_env_def Let_def)
  have wins: "day_windows evening_calendar 1 1 = Some [(Some 82800, Some 84600)]"
    by (simp add: day_windows_def evening_calendar_def office_calendar_def iso_weekday_def active_on_def exception_on_def)
  have mk: "mk_offer office_env 1 1 1 ''UTC'' (office_walk\<lparr>wk_end := 174600\<rparr>) t = office_offer t" for t
    by (simp add: mk_offer_def office_offer_def office_walk_def office_env_def office_type_def)
  have day: "staff_day office_env (\<lambda>_. True) autumn_utc ''UTC'' evening_calendar [(5, evening_slot)] 0 1 1
      (1, \<lparr>st_types = [1], st_accepting = True, st_location = Some 1, st_daily_cap = None\<rparr>)
    = Some [office_offer 172800]"
    using ctx evening_walk
    by (simp add: staff_day_def tz [simplified] wins [simplified] autumn_utc_def Let_def mk [simplified])
  have "eligible_staff evening_calendar 1 (Some 1) None
      = [(1, \<lparr>st_types = [1], st_accepting = True, st_location = Some 1, st_daily_cap = None\<rparr>)]"
    by (simp add: eligible_staff_def evening_calendar_def office_calendar_def)
  then have "get_available_slots office_env (\<lambda>_. True) autumn_utc ''UTC'' evening_calendar
      (office_empty\<lparr>ap_slots := [(5, evening_slot)]\<rparr>) 0 1 1 1 None (Some 1) None = Some [office_offer 172800]"
    using day by (simp add: get_available_slots_def citizen_blocked_def)
  then show ?thesis by (simp add: evening_slot_def offer_slot_def office_offer_def overlaps_def)
qed

end
