(* ===== verification/Delivery.thy ===== *)
theory Delivery
  imports Prelude
begin

text \<open>
  The recipient delivery state machine (\<open>appointments/services/delivery_state.py\<close>): a row
  per recipient with a lease token, attempt counter and history, and the store of rows under
  idempotency keys. Times are the code's floats, taken as real numbers (no NaN); the backoff
  function is the caller's.
\<close>

section \<open>The row\<close>

datatype delivery_status =
    DPending | DInFlight | DRetry | DDelivered | DAcknowledged | DCancelled | DDeadLetter

definition delivery_terminal :: "delivery_status list" where
  "delivery_terminal = [DDelivered, DAcknowledged, DCancelled, DDeadLetter]"

record recipient_delivery =
  rd_correlation :: string
  rd_key :: string
  rd_recipient :: string
  rd_max_attempts :: int
  rd_status :: delivery_status
  rd_attempts :: nat
  rd_next_attempt_at :: real
  rd_last_error :: "string option"
  rd_lease :: "string option"
  rd_acknowledged_at :: "real option"
  rd_history :: "(string \<times> delivery_status) list"

definition new_delivery :: "string \<Rightarrow> string \<Rightarrow> string \<Rightarrow> int \<Rightarrow> recipient_delivery" where
  "new_delivery corr key ref max_attempts = \<lparr>rd_correlation = corr, rd_key = key, rd_recipient = ref,
     rd_max_attempts = max_attempts, rd_status = DPending, rd_attempts = 0, rd_next_attempt_at = 0,
     rd_last_error = None, rd_lease = None, rd_acknowledged_at = None, rd_history = []\<rparr>"

definition append_history :: "string \<Rightarrow> recipient_delivery \<Rightarrow> recipient_delivery" where
  "append_history ev r = r\<lparr>rd_history := rd_history r @ [(ev, rd_status r)]\<rparr>"

definition rd_claim :: "string \<Rightarrow> real \<Rightarrow> recipient_delivery \<Rightarrow> bool \<times> recipient_delivery" where
  "rd_claim token now r =
     (if rd_status r \<in> set delivery_terminal \<or> now < rd_next_attempt_at r then (False, r)
      else (True, append_history ''claim''
        (r\<lparr>rd_status := DInFlight, rd_lease := Some token, rd_attempts := rd_attempts r + 1\<rparr>)))"

definition rd_succeed :: "string \<Rightarrow> recipient_delivery \<Rightarrow> bool \<times> recipient_delivery" where
  "rd_succeed token r =
     (if rd_status r \<noteq> DInFlight \<or> rd_lease r \<noteq> Some token then (False, r)
      else (True, append_history ''success''
        (r\<lparr>rd_status := DDelivered, rd_lease := None, rd_last_error := None\<rparr>)))"

definition rd_fail ::
  "(nat \<Rightarrow> real) \<Rightarrow> string \<Rightarrow> string \<Rightarrow> real \<Rightarrow> recipient_delivery \<Rightarrow> bool \<times> recipient_delivery" where
  "rd_fail backoff token err now r =
     (if rd_status r \<noteq> DInFlight \<or> rd_lease r \<noteq> Some token then (False, r)
      else let r1 = r\<lparr>rd_lease := None, rd_last_error := Some (take 240 err)\<rparr>;
               r2 = (if rd_max_attempts r1 \<le> int (rd_attempts r1)
                     then r1\<lparr>rd_status := DDeadLetter\<rparr>
                     else r1\<lparr>rd_status := DRetry,
                             rd_next_attempt_at := now + max 0 (backoff (rd_attempts r1))\<rparr>)
           in (True, append_history ''failure'' r2))"

definition rd_cancel :: "recipient_delivery \<Rightarrow> bool \<times> recipient_delivery" where
  "rd_cancel r =
     (if rd_status r \<in> set delivery_terminal then (rd_status r = DCancelled, r)
      else (True, append_history ''cancel'' (r\<lparr>rd_status := DCancelled, rd_lease := None\<rparr>)))"

definition rd_acknowledge :: "real \<Rightarrow> recipient_delivery \<Rightarrow> bool \<times> recipient_delivery" where
  "rd_acknowledge now r =
     (if rd_status r \<noteq> DDelivered then (False, r)
      else (True, append_history ''ack''
        (r\<lparr>rd_status := DAcknowledged, rd_acknowledged_at := Some now\<rparr>)))"

definition rd_replay :: "recipient_delivery \<Rightarrow> bool \<times> recipient_delivery" where
  "rd_replay r =
     (if rd_status r \<noteq> DDeadLetter then (False, r)
      else (True, append_history ''replay''
        (r\<lparr>rd_status := DRetry, rd_next_attempt_at := 0, rd_last_error := None\<rparr>)))"

section \<open>The store\<close>

datatype delivery_error = NonPositiveAttempts | UnknownKey | NotAuthorized

type_synonym delivery_store = "(string \<times> recipient_delivery) list"

definition store_create ::
  "delivery_store \<Rightarrow> string \<Rightarrow> string \<Rightarrow> string \<Rightarrow> int
     \<Rightarrow> delivery_error + (delivery_store \<times> recipient_delivery)" where
  "store_create st corr key ref max_attempts = (case map_of st key of
     Some row \<Rightarrow> Inr (st, row)
   | None \<Rightarrow> if max_attempts < 1 then Inl NonPositiveAttempts
       else let row = new_delivery corr key ref max_attempts in Inr (st @ [(key, row)], row))"

definition store_get :: "delivery_store \<Rightarrow> string \<Rightarrow> delivery_error + recipient_delivery" where
  "store_get st key = (case map_of st key of None \<Rightarrow> Inl UnknownKey | Some r \<Rightarrow> Inr r)"

definition all_statuses :: "delivery_status list" where
  "all_statuses = [DPending, DInFlight, DRetry, DDelivered, DAcknowledged, DCancelled, DDeadLetter]"

text \<open>The counters per status, and the sum of attempts under the key \<open>attempts\<close>.\<close>

definition store_metrics :: "delivery_store \<Rightarrow> (delivery_status \<times> nat) list \<times> nat" where
  "store_metrics st =
     (foldl (\<lambda>res kr. map (\<lambda>(s, n). (s, if s = rd_status (snd kr) then n + 1 else n)) res)
        (map (\<lambda>s. (s, 0)) all_statuses) st,
      sum_list (map (\<lambda>kr. rd_attempts (snd kr)) st))"

definition operational_status ::
  "delivery_store \<Rightarrow> string \<Rightarrow> bool
     \<Rightarrow> delivery_error + (string \<times> delivery_status \<times> nat \<times> string) list" where
  "operational_status st owner authorized =
     (if \<not> authorized then Inl NotAuthorized
      else Inr (map (\<lambda>kr. (rd_key (snd kr), rd_status (snd kr), rd_attempts (snd kr), owner)) st))"

section \<open>Runs of a row\<close>

datatype delivery_op =
    DClaim string real
  | DSucceed string
  | DFail string string real
  | DCancel
  | DAck real
  | DReplay

fun apply_delivery :: "(nat \<Rightarrow> real) \<Rightarrow> delivery_op \<Rightarrow> recipient_delivery \<Rightarrow> bool \<times> recipient_delivery" where
  "apply_delivery backoff (DClaim token now) r = rd_claim token now r"
| "apply_delivery backoff (DSucceed token) r = rd_succeed token r"
| "apply_delivery backoff (DFail token err now) r = rd_fail backoff token err now r"
| "apply_delivery backoff DCancel r = rd_cancel r"
| "apply_delivery backoff (DAck now) r = rd_acknowledge now r"
| "apply_delivery backoff DReplay r = rd_replay r"

text \<open>A refused call is an error that leaves the row; \<open>run_ops\<close> then keeps it.\<close>

definition delivery_step ::
  "(nat \<Rightarrow> real) \<Rightarrow> recipient_delivery \<Rightarrow> delivery_op \<Rightarrow> recipient_delivery + recipient_delivery" where
  "delivery_step backoff r x = (case apply_delivery backoff x r of (ok, r') \<Rightarrow> if ok then Inr r' else Inl r')"

lemmas delivery_ops = rd_claim_def rd_succeed_def rd_fail_def rd_cancel_def rd_acknowledge_def
  rd_replay_def append_history_def delivery_terminal_def

lemma refused_keeps_row: "delivery_step backoff r x = Inl r' \<Longrightarrow> r' = r"
  by (cases x) (auto simp: delivery_step_def delivery_ops Let_def split: if_splits)

text \<open>The legal moves, each with its history event.\<close>

inductive delivery_move :: "delivery_status \<Rightarrow> string \<Rightarrow> delivery_status \<Rightarrow> bool" where
  "st \<in> {DPending, DInFlight, DRetry} \<Longrightarrow> delivery_move st ''claim'' DInFlight"
| "delivery_move DInFlight ''success'' DDelivered"
| "st = DRetry \<or> st = DDeadLetter \<Longrightarrow> delivery_move DInFlight ''failure'' st"
| "st \<in> {DPending, DInFlight, DRetry} \<Longrightarrow> delivery_move st ''cancel'' DCancelled"
| "delivery_move DDelivered ''ack'' DAcknowledged"
| "delivery_move DDeadLetter ''replay'' DRetry"

code_pred delivery_move .

inductive_simps delivery_move_iff: "delivery_move st ev st'"
inductive_cases delivery_move_delivered: "delivery_move DDelivered ev st'"
inductive_cases delivery_move_acked: "delivery_move DAcknowledged ev st'"

fun delivery_path :: "delivery_status \<Rightarrow> (string \<times> delivery_status) list \<Rightarrow> delivery_status option" where
  "delivery_path st [] = Some st"
| "delivery_path st ((ev, st') # h) = (if delivery_move st ev st' then delivery_path st' h else None)"

lemma delivery_path_append:
  "delivery_path st (h @ h') = (case delivery_path st h of None \<Rightarrow> None | Some st' \<Rightarrow> delivery_path st' h')"
  by (induction st h rule: delivery_path.induct) auto

definition delivery_inv :: "recipient_delivery \<Rightarrow> bool" where
  "delivery_inv r \<longleftrightarrow> delivery_path DPending (rd_history r) = Some (rd_status r)
     \<and> rd_attempts r = length (filter (\<lambda>e. fst e = ''claim'') (rd_history r))
     \<and> (rd_lease r \<noteq> None \<longleftrightarrow> rd_status r = DInFlight)
     \<and> (rd_acknowledged_at r \<noteq> None \<longleftrightarrow> rd_status r = DAcknowledged)"

interpretation delivery: step_system "delivery_step backoff" "\<lambda>_ _. True" delivery_inv for backoff
proof unfold_locales
  fix r x r'
  assume "delivery_inv r" and "delivery_step backoff r x = Inr r'"
  then show "delivery_inv r'"
    by (cases x; cases "rd_status r")
      (auto simp: delivery_inv_def delivery_step_def delivery_ops Let_def delivery_path_append
        delivery_move_iff split: if_splits)
qed

lemma new_delivery_inv [simp]: "delivery_inv (new_delivery corr key ref m)"
  by (simp add: delivery_inv_def new_delivery_def)

lemma path_after_delivery:
  "delivery_path st h = Some st' \<Longrightarrow> st = DDelivered \<or> st = DAcknowledged
     \<Longrightarrow> filter (\<lambda>e. fst e = ''success'') h = []"
  by (induction st h rule: delivery_path.induct) (auto simp: delivery_move_iff split: if_splits)

lemma path_successes:
  "delivery_path st h = Some st' \<Longrightarrow> length (filter (\<lambda>e. fst e = ''success'') h) \<le> 1"
proof (induction st h rule: delivery_path.induct)
  case (2 st ev st1 h)
  then have m: "delivery_move st ev st1" and p: "delivery_path st1 h = Some st'"
    by (auto split: if_splits)
  show ?case
  proof (cases "ev = ''success''")
    case True
    with m have "st1 = DDelivered" by (auto simp: delivery_move_iff)
    with path_after_delivery [OF p] True show ?thesis by simp
  next
    case False
    with 2 m p show ?thesis by simp
  qed
qed simp

section \<open>Fencing\<close>

text \<open>A worker without the lease stays without it until it claims again.\<close>

interpretation fence: step_system "delivery_step backoff" "\<lambda>_ x. \<forall>now. x \<noteq> DClaim token now"
  "\<lambda>r. rd_lease r \<noteq> Some token" for backoff token
proof unfold_locales
  fix r x r'
  assume "rd_lease r \<noteq> Some token" and "\<forall>now. x \<noteq> DClaim token now" and "delivery_step backoff r x = Inr r'"
  then show "rd_lease r' \<noteq> Some token"
    by (cases x) (auto simp: delivery_step_def delivery_ops Let_def split: if_splits)
qed

lemma fence_run:
  assumes "rd_lease r \<noteq> Some token" and "\<And>now. DClaim token now \<notin> set xs"
  shows "rd_lease (run_ops (delivery_step backoff) r xs) \<noteq> Some token"
proof -
  have "ops_ok (\<lambda>_ x. \<forall>now. x \<noteq> DClaim token now) (delivery_step backoff) r xs"
    using assms(2) by (induction xs arbitrary: r) auto
  with assms(1) show ?thesis by (rule fence.inv_run)
qed

section \<open>Properties\<close>

definition slow_delivery :: recipient_delivery where
  "slow_delivery = new_delivery ''c'' ''k'' ''r'' 3"

text \<open>
  C15. The history explains a delivery. After any sequence of claims, results, cancellations,
  acknowledgements and replays on a new row, its history is a chain of legal moves from
  pending to the row's status; the attempt counter is the number of claims; a lease is held
  exactly in flight; an acknowledgement time is set exactly on acknowledged rows; and the
  history contains at most one success.
\<close>

theorem delivery_history_explains_row:
  assumes "r = run_ops (delivery_step backoff) (new_delivery corr key ref m) xs"
  shows "delivery_path DPending (rd_history r) = Some (rd_status r)
    \<and> rd_attempts r = length (filter (\<lambda>e. fst e = ''claim'') (rd_history r))
    \<and> (rd_lease r \<noteq> None \<longleftrightarrow> rd_status r = DInFlight)
    \<and> (rd_acknowledged_at r \<noteq> None \<longleftrightarrow> rd_status r = DAcknowledged)
    \<and> length (filter (\<lambda>e. fst e = ''success'') (rd_history r)) \<le> 1"
proof -
  have "delivery_inv r" unfolding assms by (intro delivery.inv_run) simp_all
  then show ?thesis using path_successes by (auto simp: delivery_inv_def)
qed

theorem delivery_history_explains_row_witness:
  "delivery_path DPending (rd_history (run_ops (delivery_step (\<lambda>_. 1)) slow_delivery
     [DClaim ''a'' 0, DSucceed ''a'', DSucceed ''a'', DAck 5])) = Some DAcknowledged"
  using delivery_history_explains_row [OF refl, of "\<lambda>_. 1" "''c''" "''k''" "''r''" 3
      "[DClaim ''a'' 0, DSucceed ''a'', DSucceed ''a'', DAck 5]"]
  by (simp add: slow_delivery_def) (simp add: delivery_step_def delivery_ops new_delivery_def)

text \<open>
  A superseded worker is fenced. When another worker's claim succeeds on a row, the
  results the previous worker reports are refused and leave the row unchanged, whatever
  happens in between, until that worker claims again.
\<close>

theorem superseded_worker_fenced:
  assumes "rd_claim b now r = (True, r1)" and "a \<noteq> b" and "\<And>t. DClaim a t \<notin> set xs"
    and "r2 = run_ops (delivery_step backoff) r1 xs"
  shows "rd_succeed a r2 = (False, r2) \<and> rd_fail backoff a err t r2 = (False, r2)"
proof -
  have "rd_lease r1 \<noteq> Some a" using assms(1,2) by (auto simp: delivery_ops split: if_splits)
  with assms(3,4) have "rd_lease r2 \<noteq> Some a" by (simp add: fence_run)
  then show ?thesis by (simp add: rd_succeed_def rd_fail_def)
qed

theorem superseded_worker_fenced_witness:
  "\<exists>r1. rd_claim ''b'' 1 (snd (rd_claim ''a'' 0 slow_delivery)) = (True, r1)
     \<and> rd_succeed ''a'' r1 = (False, r1)"
proof -
  obtain r1 where r1: "rd_claim ''b'' 1 (snd (rd_claim ''a'' 0 slow_delivery)) = (True, r1)"
    by (simp add: delivery_ops slow_delivery_def new_delivery_def)
  with superseded_worker_fenced [OF r1, of "''a''" "[]" r1 "\<lambda>_. 1"] show ?thesis by simp
qed

text \<open>
  A claim takes work that is in flight, without end. Any number of workers can claim
  one row in turn, each taking the lease of the one before although none reported a
  result; every claim counts an attempt, the counter passes the row's maximum, and the row
  is neither retried nor dead-lettered.
\<close>

theorem claims_steal_leases_unbounded:
  "let r = run_ops (delivery_step backoff) (new_delivery corr key ref m) (map (\<lambda>w. DClaim w 0) (ws @ [w]))
   in rd_attempts r = Suc (length ws) \<and> rd_status r = DInFlight \<and> rd_lease r = Some w
      \<and> rd_max_attempts r = m \<and> rd_last_error r = None"
proof -
  have "let r = run_ops (delivery_step backoff) q (map (\<lambda>w. DClaim w 0) (ws @ [w]))
     in rd_attempts r = Suc (rd_attempts q + length ws) \<and> rd_status r = DInFlight \<and> rd_lease r = Some w
        \<and> rd_max_attempts r = rd_max_attempts q \<and> rd_last_error r = rd_last_error q"
    if "rd_status q \<notin> set delivery_terminal" and "rd_next_attempt_at q = 0" for q
    using that
  proof (induction ws arbitrary: q)
    case Nil
    then show ?case by (simp add: delivery_step_def rd_claim_def append_history_def)
  next
    case (Cons v ws)
    let ?q = "snd (rd_claim v 0 q)"
    from Cons.prems have q: "delivery_step backoff q (DClaim v 0) = Inr ?q"
      "rd_status ?q \<notin> set delivery_terminal" "rd_next_attempt_at ?q = 0"
      "rd_attempts ?q = Suc (rd_attempts q)" "rd_max_attempts ?q = rd_max_attempts q"
      "rd_last_error ?q = rd_last_error q"
      by (simp_all add: delivery_step_def rd_claim_def append_history_def delivery_terminal_def)
    from Cons.IH [OF q(2,3)] show ?case by (simp add: q Let_def)
  qed
  from this [of "new_delivery corr key ref m"] show ?thesis
    by (simp add: new_delivery_def delivery_terminal_def Let_def)
qed

end
