(* ===== verification/BatchLease.thy ===== *)
theory BatchLease
  imports Prelude
begin

text \<open>
  The owner-token and generation lease of a bulk payment batch
  (\<open>apps/payments/govstack_batch_lease.py\<close>): acquire, replay or take over, assert, extend
  and release. Times are integers; each call carries the time it reads. A call runs in one
  transaction under the row locks, so it is atomic.
\<close>

section \<open>Rows, handles, operations\<close>

record lease_row =
  bl_owner :: string
  bl_generation :: nat
  bl_expires :: int

record lease_handle =
  lh_batch :: nat
  lh_owner :: string
  lh_generation :: nat

datatype lease_error = OwnerTokenRequired | NoSuchBatch | OwnershipLost

definition default_ttl :: int where
  "default_ttl = 300"

text \<open>\<open>batches\<close> are the keys of the batch table; the result \<open>None\<close> is a busy lease.\<close>

definition acquire ::
  "nat set \<Rightarrow> lease_row table \<Rightarrow> nat \<Rightarrow> string \<Rightarrow> int \<Rightarrow> int
     \<Rightarrow> lease_error + (lease_handle option \<times> lease_row table)" where
  "acquire batches leases batch owner now ttl =
     (if owner = '''' then Inl OwnerTokenRequired
      else if batch \<notin> batches then Inl NoSuchBatch
      else case tget leases batch of
        None \<Rightarrow> Inr (Some \<lparr>lh_batch = batch, lh_owner = owner, lh_generation = 1\<rparr>,
          tput batch \<lparr>bl_owner = owner, bl_generation = 1, bl_expires = now + ttl\<rparr> leases)
      | Some l \<Rightarrow>
          if bl_owner l = owner \<and> now < bl_expires l
          then Inr (Some \<lparr>lh_batch = batch, lh_owner = owner, lh_generation = bl_generation l\<rparr>, leases)
          else if bl_expires l \<le> now
          then (let l' = l\<lparr>bl_owner := owner, bl_generation := bl_generation l + 1, bl_expires := now + ttl\<rparr>
                in Inr (Some \<lparr>lh_batch = batch, lh_owner = owner, lh_generation = bl_generation l'\<rparr>,
                        tput batch l' leases))
          else Inr (None, leases))"

definition current_locked :: "lease_row table \<Rightarrow> lease_handle \<Rightarrow> int \<Rightarrow> lease_error + lease_row" where
  "current_locked leases h now = (case tget leases (lh_batch h) of
     None \<Rightarrow> Inl OwnershipLost
   | Some l \<Rightarrow> if bl_owner l \<noteq> lh_owner h \<or> bl_generation l \<noteq> lh_generation h \<or> bl_expires l \<le> now
       then Inl OwnershipLost else Inr l)"

definition assert_current_owner :: "lease_row table \<Rightarrow> lease_handle \<Rightarrow> int \<Rightarrow> lease_error + lease_row" where
  "assert_current_owner leases h now = current_locked leases h now"

definition heartbeat ::
  "lease_row table \<Rightarrow> lease_handle \<Rightarrow> int \<Rightarrow> int \<Rightarrow> lease_error + (lease_handle \<times> lease_row table)" where
  "heartbeat leases h now ttl = (case current_locked leases h now of
     Inl e \<Rightarrow> Inl e
   | Inr l \<Rightarrow> Inr (h, tput (lh_batch h) (l\<lparr>bl_expires := now + ttl\<rparr>) leases))"

definition release :: "lease_row table \<Rightarrow> lease_handle \<Rightarrow> int \<Rightarrow> lease_error + lease_row table" where
  "release leases h now = (case current_locked leases h now of
     Inl e \<Rightarrow> Inl e
   | Inr l \<Rightarrow> Inr (tput (lh_batch h) (l\<lparr>bl_expires := now\<rparr>) leases))"

section \<open>Runs\<close>

text \<open>The lease table together with every handle handed out so far.\<close>

record lease_sys =
  ls_leases :: "lease_row table"
  ls_issued :: "lease_handle list"

datatype lease_op =
    LAcquire nat string int int
  | LHeartbeat lease_handle int int
  | LRelease lease_handle int

fun lease_step :: "nat set \<Rightarrow> lease_sys \<Rightarrow> lease_op \<Rightarrow> lease_error + lease_sys" where
  "lease_step batches s (LAcquire batch owner now ttl) =
     (case acquire batches (ls_leases s) batch owner now ttl of
        Inl e \<Rightarrow> Inl e
      | Inr (h, t) \<Rightarrow> Inr (s\<lparr>ls_leases := t,
          ls_issued := ls_issued s @ (case h of None \<Rightarrow> [] | Some h \<Rightarrow> [h])\<rparr>))"
| "lease_step batches s (LHeartbeat h now ttl) =
     (case heartbeat (ls_leases s) h now ttl of Inl e \<Rightarrow> Inl e | Inr (h', t) \<Rightarrow> Inr (s\<lparr>ls_leases := t\<rparr>))"
| "lease_step batches s (LRelease h now) =
     (case release (ls_leases s) h now of Inl e \<Rightarrow> Inl e | Inr t \<Rightarrow> Inr (s\<lparr>ls_leases := t\<rparr>))"

definition generation :: "lease_row table \<Rightarrow> nat \<Rightarrow> nat" where
  "generation t b = (case tget t b of None \<Rightarrow> 0 | Some l \<Rightarrow> bl_generation l)"

lemma current_lockedD:
  "current_locked t h now = Inr l \<Longrightarrow> tget t (lh_batch h) = Some l \<and> bl_owner l = lh_owner h
     \<and> bl_generation l = lh_generation h \<and> now < bl_expires l"
  by (auto simp: current_locked_def split: option.splits if_splits)

text \<open>
  The moves of the system: a handle is issued on the present row or on a row of the next
  generation, or a row's expiry changes.
\<close>

definition handle_for :: "nat \<Rightarrow> lease_row \<Rightarrow> lease_handle" where
  "handle_for b l = \<lparr>lh_batch = b, lh_owner = bl_owner l, lh_generation = bl_generation l\<rparr>"

lemma handle_for_simps [simp]:
  "lh_batch (handle_for b l) = b" "lh_owner (handle_for b l) = bl_owner l"
  "lh_generation (handle_for b l) = bl_generation l"
  by (simp_all add: handle_for_def)

inductive lease_move :: "lease_sys \<Rightarrow> lease_sys \<Rightarrow> bool" where
  stay: "lease_move s s"
| replay: "tget (ls_leases s) b = Some l
    \<Longrightarrow> lease_move s (s\<lparr>ls_issued := ls_issued s @ [handle_for b l]\<rparr>)"
| take: "bl_generation l = Suc (generation (ls_leases s) b)
    \<Longrightarrow> lease_move s (s\<lparr>ls_leases := tput b l (ls_leases s), ls_issued := ls_issued s @ [handle_for b l]\<rparr>)"
| extend: "tget (ls_leases s) b = Some l
    \<Longrightarrow> lease_move s (s\<lparr>ls_leases := tput b (l\<lparr>bl_expires := e\<rparr>) (ls_leases s)\<rparr>)"

lemma acquire_cases:
  assumes "acquire batches t b owner now ttl = Inr (h, t')"
  obtains "h = None" "t' = t"
  | l where "h = Some (handle_for b l)" "tget t b = Some l" "t' = t"
  | l where "h = Some (handle_for b l)" "bl_generation l = Suc (generation t b)" "t' = tput b l t"
proof (cases "tget t b")
  case None
  let ?l = "\<lparr>bl_owner = owner, bl_generation = 1, bl_expires = now + ttl\<rparr>"
  from None assms have "h = Some (handle_for b ?l)" "t' = tput b ?l t"
    by (auto simp: acquire_def handle_for_def split: if_splits)
  with None that(3) [of ?l] show ?thesis by (simp add: generation_def)
next
  case (Some l)
  let ?l = "l\<lparr>bl_owner := owner, bl_generation := bl_generation l + 1, bl_expires := now + ttl\<rparr>"
  consider "bl_owner l = owner \<and> now < bl_expires l" | "\<not> (bl_owner l = owner \<and> now < bl_expires l)" "bl_expires l \<le> now"
    | "\<not> (bl_owner l = owner \<and> now < bl_expires l)" "\<not> bl_expires l \<le> now" by blast
  then show ?thesis
  proof cases
    case 1
    with Some assms have "h = Some (handle_for b l)" "t' = t"
      by (auto simp: acquire_def handle_for_def split: if_splits)
    with Some that(2) show ?thesis by blast
  next
    case 2
    with Some assms have "h = Some (handle_for b ?l)" "t' = tput b ?l t"
      by (auto simp: acquire_def handle_for_def Let_def split: if_splits)
    with Some that(3) [of ?l] show ?thesis by (simp add: generation_def)
  next
    case 3
    with Some assms have "h = None" "t' = t" by (auto simp: acquire_def split: if_splits)
    with that(1) show ?thesis by blast
  qed
qed

lemma lease_step_move:
  assumes "lease_step batches s x = Inr s'"
  shows "lease_move s s'"
proof (cases x)
  case (LAcquire b owner now ttl)
  with assms obtain h t' where a: "acquire batches (ls_leases s) b owner now ttl = Inr (h, t')"
    and s': "s' = s\<lparr>ls_leases := t', ls_issued := ls_issued s @ (case h of None \<Rightarrow> [] | Some h \<Rightarrow> [h])\<rparr>"
    by (auto split: sum.splits)
  from a show ?thesis
    by (cases rule: acquire_cases) (auto simp: s' intro: lease_move.intros)
next
  case (LHeartbeat h now ttl)
  with assms show ?thesis
    by (auto simp: heartbeat_def dest!: current_lockedD split: sum.splits prod.splits intro: extend)
next
  case (LRelease h now)
  with assms show ?thesis
    by (auto simp: release_def dest!: current_lockedD split: sum.splits intro: extend)
qed

definition handle_ok :: "lease_row table \<Rightarrow> lease_handle \<Rightarrow> bool" where
  "handle_ok t h \<longleftrightarrow> (\<exists>l. tget t (lh_batch h) = Some l \<and> lh_generation h \<le> bl_generation l
     \<and> (lh_generation h = bl_generation l \<longrightarrow> lh_owner h = bl_owner l))"

definition lease_inv :: "lease_sys \<Rightarrow> bool" where
  "lease_inv s \<longleftrightarrow> (\<forall>h\<in>set (ls_issued s). handle_ok (ls_leases s) h)
     \<and> (\<forall>h\<in>set (ls_issued s). \<forall>h'\<in>set (ls_issued s).
          lh_batch h = lh_batch h' \<longrightarrow> lh_generation h = lh_generation h' \<longrightarrow> lh_owner h = lh_owner h')"

definition generations_grow :: "lease_sys \<Rightarrow> lease_sys \<Rightarrow> bool" where
  "generations_grow s s' \<longleftrightarrow> (\<forall>b. generation (ls_leases s) b \<le> generation (ls_leases s') b)
     \<and> set (ls_issued s) \<subseteq> set (ls_issued s')"

lemma handle_ok_generation:
  "handle_ok t h \<Longrightarrow> lh_generation h \<le> generation t (lh_batch h)"
  by (auto simp: handle_ok_def generation_def)

lemma lease_invD:
  "lease_inv s \<Longrightarrow> g \<in> set (ls_issued s) \<Longrightarrow> handle_ok (ls_leases s) g"
  "lease_inv s \<Longrightarrow> g \<in> set (ls_issued s) \<Longrightarrow> h \<in> set (ls_issued s) \<Longrightarrow> lh_batch g = lh_batch h
     \<Longrightarrow> lh_generation g = lh_generation h \<Longrightarrow> lh_owner g = lh_owner h"
  unfolding lease_inv_def by blast+

lemma handle_ok_owner:
  "handle_ok t g \<Longrightarrow> tget t (lh_batch g) = Some l \<Longrightarrow> lh_generation g = bl_generation l
     \<Longrightarrow> lh_owner g = bl_owner l"
  by (simp add: handle_ok_def)

text \<open>One more handle keeps the invariant when it agrees with every handle of its generation.\<close>

lemma lease_inv_issue:
  assumes "lease_inv s" and "\<And>g. g \<in> set (ls_issued s) \<Longrightarrow> handle_ok t g" and "handle_ok t h"
    and "\<And>g. g \<in> set (ls_issued s) \<Longrightarrow> lh_batch g = lh_batch h \<Longrightarrow> lh_generation g = lh_generation h
      \<Longrightarrow> lh_owner g = lh_owner h"
    and "ls_leases s' = t" and "ls_issued s' = ls_issued s @ [h]"
  shows "lease_inv s'"
  unfolding lease_inv_def
proof (intro conjI ballI impI)
  fix g assume "g \<in> set (ls_issued s')"
  with assms(2,3,5,6) show "handle_ok (ls_leases s') g" by auto
next
  fix g g' assume "g \<in> set (ls_issued s')" "g' \<in> set (ls_issued s')" and eq: "lh_batch g = lh_batch g'"
    "lh_generation g = lh_generation g'"
  then consider "g = g'" | "g = h" "g' \<in> set (ls_issued s)" | "g' = h" "g \<in> set (ls_issued s)"
    | "g \<in> set (ls_issued s)" "g' \<in> set (ls_issued s)"
    using assms(6) by fastforce
  then show "lh_owner g = lh_owner g'"
  proof cases
    case 1
    then show ?thesis by simp
  next
    case 2
    then show ?thesis using assms(4) [of g'] eq by simp
  next
    case 3
    then show ?thesis using assms(4) [of g] eq by simp
  next
    case 4
    then show ?thesis using lease_invD(2) [OF assms(1)] eq by blast
  qed
qed

lemma lease_inv_move: "lease_move s s' \<Longrightarrow> lease_inv s \<Longrightarrow> lease_inv s'"
proof (induction rule: lease_move.induct)
  case (stay s)
  then show ?case .
next
  case (replay s b l)
  show ?case
  proof (rule lease_inv_issue [OF replay.prems])
    fix g assume "g \<in> set (ls_issued s)"
    then have ok: "handle_ok (ls_leases s) g" by (rule lease_invD(1) [OF replay.prems])
    then show "handle_ok (ls_leases s) g" .
    assume "lh_batch g = lh_batch (handle_for b l)" "lh_generation g = lh_generation (handle_for b l)"
    with replay.hyps show "lh_owner g = lh_owner (handle_for b l)"
      using handle_ok_owner [OF ok] by simp
  qed (use replay.hyps in \<open>simp_all add: handle_ok_def\<close>)
next
  case (take l s b)
  have old: "lh_generation g < bl_generation l" if "g \<in> set (ls_issued s)" "lh_batch g = b" for g
    using handle_ok_generation [OF lease_invD(1) [OF take.prems that(1)]] that(2) take.hyps by simp
  show ?case
  proof (rule lease_inv_issue [OF take.prems])
    fix g assume g: "g \<in> set (ls_issued s)"
    show "handle_ok (tput b l (ls_leases s)) g"
    proof (cases "lh_batch g = b")
      case True
      with old [OF g] show ?thesis by (simp add: handle_ok_def tget_tput)
    next
      case False
      with lease_invD(1) [OF take.prems g] show ?thesis by (simp add: handle_ok_def tget_tput)
    qed
    assume "lh_batch g = lh_batch (handle_for b l)" "lh_generation g = lh_generation (handle_for b l)"
    with old [OF g] show "lh_owner g = lh_owner (handle_for b l)" by simp
  qed (simp_all add: handle_ok_def tget_tput)
next
  case (extend s b l e)
  let ?s' = "s\<lparr>ls_leases := tput b (l\<lparr>bl_expires := e\<rparr>) (ls_leases s)\<rparr>"
  have same: "handle_ok (ls_leases ?s') g = handle_ok (ls_leases s) g" for g
    using extend.hyps by (cases "lh_batch g = b") (simp_all add: handle_ok_def tget_tput)
  show ?case
    unfolding lease_inv_def
  proof (intro conjI ballI impI)
    fix g assume "g \<in> set (ls_issued ?s')"
    then show "handle_ok (ls_leases ?s') g"
      unfolding same by (intro lease_invD(1) [OF extend.prems]) simp
  next
    fix g h assume "g \<in> set (ls_issued ?s')" "h \<in> set (ls_issued ?s')"
      "lh_batch g = lh_batch h" "lh_generation g = lh_generation h"
    then show "lh_owner g = lh_owner h"
      by (intro lease_invD(2) [OF extend.prems]) simp_all
  qed
qed

lemma generations_grow_move: "lease_move s s' \<Longrightarrow> generations_grow s s'"
  by (induction rule: lease_move.induct) (auto simp: generations_grow_def generation_def tget_tput)

interpretation lease: monotone_system "lease_step batches" "\<lambda>_ _. True" lease_inv generations_grow
  for batches
proof unfold_locales
  show "generations_grow s s" for s by (simp add: generations_grow_def)
  show "generations_grow s u" if "generations_grow s t" "generations_grow t u" for s t u
    using that unfolding generations_grow_def by (meson le_trans subset_trans)
  show "lease_inv s'" "generations_grow s s'" if "lease_inv s" "lease_step batches s x = Inr s'" for s x s'
    using that lease_step_move [of batches s x s'] by (auto intro: lease_inv_move generations_grow_move)
qed

definition no_leases :: lease_sys where
  "no_leases = \<lparr>ls_leases = [], ls_issued = []\<rparr>"

lemma no_leases_inv [simp]: "lease_inv no_leases"
  by (simp add: no_leases_def lease_inv_def)

section \<open>What a guarded write may rely on\<close>

text \<open>
  The contract of an ownership check, for the services that write under a lease: a check
  that passes pins the generation and owner of the lease to those of the handle.
\<close>

locale ownership_guard =
  fixes check :: "'t \<Rightarrow> lease_handle \<Rightarrow> int \<Rightarrow> 'e + 'l"
    and holder :: "'t \<Rightarrow> nat \<Rightarrow> lease_handle option"
  assumes check_pins: "check t h now = Inr l \<Longrightarrow> holder t (lh_batch h) = Some h"
begin

text \<open>A write guarded by the check happens under the present handle.\<close>

lemma guarded_write:
  "(case check t h now of Inl e \<Rightarrow> Inl (f e) | Inr l \<Rightarrow> w) = Inr y
     \<Longrightarrow> holder t (lh_batch h) = Some h \<and> w = Inr y"
  by (auto intro: check_pins split: sum.splits)

lemma one_holder:
  "check t h now = Inr l \<Longrightarrow> check t h' now' = Inr l' \<Longrightarrow> lh_batch h = lh_batch h' \<Longrightarrow> h = h'"
  by (metis check_pins option.inject)

end

definition lease_holder :: "lease_row table \<Rightarrow> nat \<Rightarrow> lease_handle option" where
  "lease_holder t b = map_option (handle_for b) (tget t b)"

interpretation batch_guard: ownership_guard assert_current_owner lease_holder
  by unfold_locales
    (auto simp: assert_current_owner_def lease_holder_def handle_for_def dest!: current_lockedD)

text \<open>The present holder of a lease has been issued its handle.\<close>

definition holders_issued :: "lease_sys \<Rightarrow> bool" where
  "holders_issued s \<longleftrightarrow> (\<forall>b h. lease_holder (ls_leases s) b = Some h \<longrightarrow> h \<in> set (ls_issued s))"

lemma holders_issued_move: "lease_move s s' \<Longrightarrow> holders_issued s \<Longrightarrow> holders_issued s'"
proof (induction rule: lease_move.induct)
  case (extend s b l e)
  then have "lease_holder (tput b (l\<lparr>bl_expires := e\<rparr>) (ls_leases s)) c = lease_holder (ls_leases s) c" for c
    by (simp add: lease_holder_def tget_tput handle_for_def)
  with extend show ?case by (simp add: holders_issued_def)
qed (auto simp: holders_issued_def lease_holder_def tget_tput)

section \<open>Acquisition\<close>

lemma acquire_grant:
  assumes "acquire batches t b owner now ttl = Inr (Some h, t')" and "0 < ttl"
  shows "\<exists>l. assert_current_owner t' h now = Inr l \<and> lh_owner h = owner \<and> lh_batch h = b"
proof (cases "tget t b")
  case None
  with assms show ?thesis
    by (auto simp: acquire_def assert_current_owner_def current_locked_def tget_tput split: if_splits)
next
  case (Some l)
  with assms show ?thesis
    by (auto simp: acquire_def assert_current_owner_def current_locked_def Let_def tget_tput split: if_splits)
qed

lemma acquire_busy_iff:
  assumes "owner \<noteq> ''''" and "b \<in> batches"
  shows "(\<exists>t'. acquire batches t b owner now ttl = Inr (None, t'))
    \<longleftrightarrow> (\<exists>l. tget t b = Some l \<and> bl_owner l \<noteq> owner \<and> now < bl_expires l)"
  using assms by (auto simp: acquire_def Let_def split: option.splits)

section \<open>Properties\<close>

text \<open>
  C4. Leases fence. In any run of acquisitions, heartbeats and releases by any callers,
  with any clock readings: two handles issued for one batch with the same generation carry
  the same owner token; and once a handle's generation has been superseded, no later run of
  calls makes it valid again - the ownership check, a heartbeat and a release with it are
  all refused.
\<close>

theorem lease_generations_fence:
  assumes "s = run_ops (lease_step batches) no_leases xs" and "h \<in> set (ls_issued s)"
    and "h' \<in> set (ls_issued s)" and "lh_batch h = lh_batch h'"
    and "s' = run_ops (lease_step batches) s ys"
  shows "(if lh_generation h = lh_generation h' then lh_owner h = lh_owner h'
    else if lh_generation h < lh_generation h'
      then assert_current_owner (ls_leases s') h now = Inl OwnershipLost
         \<and> heartbeat (ls_leases s') h now ttl = Inl OwnershipLost
         \<and> release (ls_leases s') h now = Inl OwnershipLost
      else assert_current_owner (ls_leases s') h' now = Inl OwnershipLost)"
proof -
  have inv: "lease_inv s" unfolding assms(1) by (intro lease.inv_run) simp_all
  then have grow: "generations_grow s s'" unfolding assms(5) by (intro lease.rel_run) simp_all
  have lost: "current_locked (ls_leases s') g now = Inl OwnershipLost"
    if "lh_generation g < lh_generation g'" "g' \<in> set (ls_issued s)" "lh_batch g = lh_batch g'" for g g'
  proof -
    have "lh_generation g' \<le> generation (ls_leases s) (lh_batch g')"
      by (rule handle_ok_generation [OF lease_invD(1) [OF inv that(2)]])
    with grow that have "lh_generation g < generation (ls_leases s') (lh_batch g)"
      unfolding generations_grow_def by (simp add: less_le_trans [OF _ le_trans])
    then show ?thesis
      by (auto simp: current_locked_def generation_def split: option.splits)
  qed
  show ?thesis
  proof (cases "lh_generation h" "lh_generation h'" rule: linorder_cases)
    case equal
    with lease_invD(2) [OF inv assms(2,3,4)] show ?thesis by simp
  next
    case less
    with lost [of h h'] assms(3,4) show ?thesis
      by (simp add: assert_current_owner_def heartbeat_def release_def)
  next
    case greater
    with lost [of h' h] assms(2,4) show ?thesis by (simp add: assert_current_owner_def)
  qed
qed

definition takeover_run :: "lease_op list" where
  "takeover_run = [LAcquire 1 ''a'' 0 300, LAcquire 1 ''b'' 100 300, LAcquire 1 ''b'' 400 300]"

theorem lease_generations_fence_witness:
  "heartbeat (ls_leases (run_ops (lease_step {1}) no_leases takeover_run))
     \<lparr>lh_batch = 1, lh_owner = ''a'', lh_generation = 1\<rparr> 401 300 = Inl OwnershipLost"
proof -
  let ?s = "run_ops (lease_step {1}) no_leases takeover_run"
  have "ls_issued ?s = [\<lparr>lh_batch = 1, lh_owner = ''a'', lh_generation = 1\<rparr>,
      \<lparr>lh_batch = 1, lh_owner = ''b'', lh_generation = 2\<rparr>]"
    by (simp add: takeover_run_def acquire_def no_leases_def tget_def tput_def)
  then show ?thesis
    using lease_generations_fence [OF refl, of "\<lparr>lh_batch = 1, lh_owner = ''a'', lh_generation = 1\<rparr>" "{1}" takeover_run
        "\<lparr>lh_batch = 1, lh_owner = ''b'', lh_generation = 2\<rparr>" ?s "[]" 401 300]
    by simp
qed

end
