(* ===== verification/BatchDecision.thy ===== *)
theory BatchDecision
  imports BatchLease "HOL-Library.List_Lexorder" "HOL-Library.Char_ord"
begin

text \<open>
  The batch policy (\<open>govstack_batch_policy.py\<close>) and the fenced, idempotent decisions made
  with it (\<open>govstack_batch_decision.py\<close>). The fingerprint - SHA-256 of canonical JSON - is a
  parameter \<open>fp\<close> on the canonical payload; thresholds and ratios are real numbers.
\<close>

section \<open>The policy\<close>

record child_item =
  ci_id :: string
  ci_status :: string
  ci_amount :: string

record batch_decision =
  bd_state :: string
  bd_kick_back :: bool
  bd_retry_ids :: "string list"
  bd_settled_ids :: "string list"

definition final_statuses :: "string list" where
  "final_statuses = [''settled'', ''rejected'']"

definition non_final_statuses :: "string list" where
  "non_final_statuses = [''retryable'', ''uncertain'', ''review'', ''unresolved'']"

definition evaluate :: "child_item list \<Rightarrow> real \<Rightarrow> batch_decision" where
  "evaluate items failure_threshold =
     (let settled_ids = map ci_id (filter (\<lambda>i. ci_status i = ''settled'') items);
          statuses = map ci_status items;
          non_final = filter (\<lambda>s. s \<in> set non_final_statuses) statuses;
          rejected_count = length (filter (\<lambda>s. s = ''rejected'') statuses);
          blocking_count = length (filter (\<lambda>s. s \<notin> set final_statuses) statuses);
          ratio = (if items \<noteq> [] then real blocking_count / real (length items) else 0);
          state = (if items \<noteq> [] \<and> failure_threshold < ratio then ''paused''
            else if ''unresolved'' \<in> set non_final then ''unresolved''
            else if ''uncertain'' \<in> set non_final then ''uncertain''
            else if ''retryable'' \<in> set non_final then ''retryable''
            else if ''review'' \<in> set non_final then ''review''
            else if 0 < rejected_count then ''partial''
            else ''completed'');
          retry_ids = map ci_id (filter (\<lambda>i. ci_status i \<in> {''retryable'', ''uncertain'', ''unresolved''}) items)
      in \<lparr>bd_state = state, bd_kick_back = (state = ''paused'' \<or> non_final \<noteq> []),
          bd_retry_ids = retry_ids, bd_settled_ids = settled_ids\<rparr>)"

text \<open>\<open>select_partial_retry\<close>: the items are dicts, any key of which may be missing.\<close>

record retry_item =
  ri_id :: string
  ri_status :: "string option"
  ri_lease_expires :: "real option"

record retry_lease =
  rl_item :: string
  rl_owner :: string
  rl_expires :: real

definition select_partial_retry :: "retry_item list \<Rightarrow> string \<Rightarrow> real \<Rightarrow> int \<Rightarrow> retry_lease list" where
  "select_partial_retry items owner now lease_seconds =
     (if owner = '''' \<or> lease_seconds \<le> 0 then []
      else map (\<lambda>i. \<lparr>rl_item = ri_id i, rl_owner = take 100 owner, rl_expires = now + of_int lease_seconds\<rparr>)
        (filter (\<lambda>i. \<not> (ri_id i = '''' \<or> ri_status i \<in> {Some ''settled'', Some ''rejected''})
            \<and> ri_status i \<in> {Some ''retryable'', Some ''uncertain'', Some ''review''}
            \<and> \<not> (case ri_lease_expires i of None \<Rightarrow> False | Some e \<Rightarrow> now < e)) items))"

section \<open>Decisions\<close>

datatype decision_action = ActEmpty | ActPause | ActRetry | ActReview | ActTerminal | ActReturnFunds

record gs_decision =
  gd_batch :: nat
  gd_fingerprint :: string
  gd_owner :: string
  gd_generation :: nat
  gd_state :: string
  gd_action :: decision_action
  gd_total :: nat
  gd_settled :: nat
  gd_rejected :: nat
  gd_non_final :: nat
  gd_reason :: string
  gd_retry_ids :: "string list"
  gd_settled_ids :: "string list"
  gd_kick_back :: bool

text \<open>The canonical items are sorted by id; the payload of the fingerprint.\<close>

definition canonical_items :: "child_item list \<Rightarrow> child_item list" where
  "canonical_items items = sort_key ci_id items"

type_synonym fp_payload = "nat \<times> child_item list \<times> real \<times> bool"

definition fingerprint :: "(fp_payload \<Rightarrow> string) \<Rightarrow> nat \<Rightarrow> child_item list \<Rightarrow> real \<Rightarrow> bool \<Rightarrow> string" where
  "fingerprint fp batch items threshold return_funds =
     fp (batch, canonical_items items, threshold, return_funds)"

definition decision_reason :: "batch_decision \<Rightarrow> nat \<Rightarrow> string" where
  "decision_reason policy total_count =
     (if total_count = 0 then ''empty_batch'' else ''policy_'' @ bd_state policy)"

definition decision_action_of :: "batch_decision \<Rightarrow> nat \<Rightarrow> nat \<Rightarrow> nat \<Rightarrow> bool \<Rightarrow> decision_action" where
  "decision_action_of policy total_count rejected_count non_final_count return_funds =
     (if total_count = 0 then ActEmpty
      else if 0 < non_final_count then
        (if bd_state policy = ''paused'' then ActPause
         else if bd_state policy \<in> {''retryable'', ''uncertain''} then ActRetry
         else ActReview)
      else if bd_state policy \<notin> {''completed'', ''partial''} then ActReview
      else if 0 < rejected_count \<and> return_funds then ActReturnFunds
      else ActTerminal)"

datatype decision_error =
    LeaseLost lease_error
  | NonFinalConflict
  | GenerationConflict

text \<open>
  \<open>decide\<close>: the decisions of the batch are locked while it looks for a conflicting or an
  existing one, so within a transaction the insert meets no duplicate; the retry after an
  \<open>IntegrityError\<close>, which a concurrent insert causes, returns the row found as a replay
  and is the branch of an existing row.
\<close>

definition decide ::
  "(fp_payload \<Rightarrow> string) \<Rightarrow> lease_row table \<Rightarrow> gs_decision list \<Rightarrow> nat \<Rightarrow> lease_handle \<Rightarrow> child_item list
     \<Rightarrow> real \<Rightarrow> bool \<Rightarrow> int \<Rightarrow> decision_error + (gs_decision \<times> bool \<times> batch_decision \<times> gs_decision list)" where
  "decide fp leases decs batch h items0 threshold return_funds now =
     (let items = canonical_items items0;
          policy = evaluate items threshold;
          total_count = length items;
          settled_count = length (filter (\<lambda>i. ci_status i = ''settled'') items);
          rejected_count = length (filter (\<lambda>i. ci_status i = ''rejected'') items);
          non_final_count = total_count - settled_count - rejected_count;
          key = fingerprint fp batch items threshold return_funds;
          action = decision_action_of policy total_count rejected_count non_final_count return_funds
      in if 0 < non_final_count \<and> action \<in> {ActTerminal, ActReturnFunds} then Inl NonFinalConflict
      else case assert_current_owner leases h now of
        Inl e \<Rightarrow> Inl (LeaseLost e)
      | Inr l \<Rightarrow>
          if list_ex (\<lambda>d. gd_batch d = batch \<and> gd_generation d = lh_generation h \<and> gd_fingerprint d \<noteq> key) decs
          then Inl GenerationConflict
          else (case filter (\<lambda>d. gd_batch d = batch \<and> gd_fingerprint d = key) decs of
            d # _ \<Rightarrow> Inr (d, False, policy, decs)
          | [] \<Rightarrow> let d = \<lparr>gd_batch = batch, gd_fingerprint = key, gd_owner = lh_owner h,
                gd_generation = lh_generation h, gd_state = bd_state policy, gd_action = action,
                gd_total = total_count, gd_settled = settled_count, gd_rejected = rejected_count,
                gd_non_final = non_final_count, gd_reason = decision_reason policy total_count,
                gd_retry_ids = bd_retry_ids policy, gd_settled_ids = bd_settled_ids policy,
                gd_kick_back = bd_kick_back policy\<rparr>
              in Inr (d, True, policy, decs @ [d])))"

section \<open>Runs of workers\<close>

record decision_sys =
  dy_lease :: lease_sys
  dy_decisions :: "gs_decision list"

datatype decision_op =
    OpLease lease_op
  | OpDecide nat lease_handle "child_item list" real bool int

fun decision_step ::
  "(fp_payload \<Rightarrow> string) \<Rightarrow> nat set \<Rightarrow> decision_sys \<Rightarrow> decision_op \<Rightarrow> decision_error + decision_sys" where
  "decision_step fp batches s (OpLease x) =
     (case lease_step batches (dy_lease s) x of Inl e \<Rightarrow> Inl (LeaseLost e) | Inr l \<Rightarrow> Inr (s\<lparr>dy_lease := l\<rparr>))"
| "decision_step fp batches s (OpDecide batch h items threshold return_funds now) =
     (case decide fp (ls_leases (dy_lease s)) (dy_decisions s) batch h items threshold return_funds now of
        Inl e \<Rightarrow> Inl e | Inr (d, created, policy, ds) \<Rightarrow> Inr (s\<lparr>dy_decisions := ds\<rparr>))"

text \<open>A worker decides for the batch its handle was issued for.\<close>

fun decides_own_batch :: "decision_op \<Rightarrow> bool" where
  "decides_own_batch (OpDecide batch h items threshold return_funds now) = (lh_batch h = batch)"
| "decides_own_batch (OpLease x) = True"

section \<open>One decision\<close>

lemma decide_holder:
  assumes "decide fp leases decs batch h items threshold rf now = Inr y"
  shows "lease_holder leases (lh_batch h) = Some h"
  using assms
  by (auto simp: decide_def Let_def split: if_splits sum.splits intro: batch_guard.check_pins)

lemma decide_replay:
  assumes "decide fp leases decs batch h items threshold rf now = Inr (d, False, policy, ds)"
  shows "ds = decs \<and> d \<in> set decs \<and> gd_batch d = batch"
proof -
  from assms have ds: "ds = decs" and
    "\<exists>xs. filter (\<lambda>d. gd_batch d = batch
       \<and> gd_fingerprint d = fingerprint fp batch (canonical_items items) threshold rf) decs = d # xs"
    by (auto simp: decide_def Let_def split: if_splits sum.splits list.splits)
  then obtain xs where xs: "filter (\<lambda>d. gd_batch d = batch
       \<and> gd_fingerprint d = fingerprint fp batch (canonical_items items) threshold rf) decs = d # xs" by blast
  have "d \<in> set (d # xs)" by simp
  then have "d \<in> set decs \<and> gd_batch d = batch" unfolding xs [symmetric] by simp
  with ds show ?thesis by simp
qed

lemma decide_create:
  assumes "decide fp leases decs batch h items threshold rf now = Inr (d, True, policy, ds)"
  shows "ds = decs @ [d] \<and> gd_batch d = batch \<and> gd_owner d = lh_owner h \<and> gd_generation d = lh_generation h
    \<and> (\<forall>e\<in>set decs. gd_batch e = batch \<longrightarrow>
         gd_fingerprint e \<noteq> gd_fingerprint d \<and> gd_generation e \<noteq> lh_generation h)"
proof -
  let ?key = "fingerprint fp batch (canonical_items items) threshold rf"
  from assms have "\<not> list_ex (\<lambda>d. gd_batch d = batch \<and> gd_generation d = lh_generation h \<and> gd_fingerprint d \<noteq> ?key) decs"
    and "filter (\<lambda>d. gd_batch d = batch \<and> gd_fingerprint d = ?key) decs = []"
    and "ds = decs @ [d]" "gd_batch d = batch" "gd_owner d = lh_owner h" "gd_generation d = lh_generation h"
      "gd_fingerprint d = ?key"
    by (auto simp: decide_def Let_def split: if_splits sum.splits list.splits)
  then show ?thesis by (auto simp: list_ex_iff filter_empty_conv)
qed

lemma decide_create_counts:
  assumes "decide fp leases decs batch h items th rf now = Inr (d, True, policy, ds)"
  shows "gd_settled d = length (filter (\<lambda>i. ci_status i = ''settled'') (canonical_items items))"
    and "gd_rejected d = length (filter (\<lambda>i. ci_status i = ''rejected'') (canonical_items items))"
    and "gd_action d = decision_action_of (evaluate (canonical_items items) th) (length (canonical_items items))
      (length (filter (\<lambda>i. ci_status i = ''rejected'') (canonical_items items)))
      (length (canonical_items items) - length (filter (\<lambda>i. ci_status i = ''settled'') (canonical_items items))
         - length (filter (\<lambda>i. ci_status i = ''rejected'') (canonical_items items))) rf"
  using assms
  by (clarsimp simp: decide_def Let_def simp del: insert_iff split: if_split_asm sum.split_asm list.split_asm)+

lemma evaluate_state_final:
  assumes "\<And>i. i \<in> set items \<Longrightarrow> ci_status i \<in> set final_statuses" and "0 \<le> threshold"
  shows "bd_state (evaluate items threshold) \<in> {''completed'', ''partial''}"
proof -
  have none: "filter (\<lambda>s. s \<notin> set final_statuses) (map ci_status items) = []"
    "filter (\<lambda>s. s \<in> set non_final_statuses) (map ci_status items) = []"
    using assms(1) by (fastforce simp: filter_empty_conv final_statuses_def non_final_statuses_def)+
  show ?thesis unfolding evaluate_def Let_def none using assms(2) by simp
qed

lemma counts_split:
  "length (filter (\<lambda>i. ci_status i = ''settled'') items) + length (filter (\<lambda>i. ci_status i = ''rejected'') items)
     + length (filter (\<lambda>i. ci_status i \<notin> set final_statuses) items) = length items"
  by (induction items) (auto simp: final_statuses_def)

lemma canonical_length [simp]: "length (canonical_items items) = length items"
  and canonical_set [simp]: "set (canonical_items items) = set items"
  by (simp_all add: canonical_items_def)

lemma non_final_canonical:
  "length items - (length (filter (\<lambda>i. ci_status i = ''settled'') (canonical_items items))
     + length (filter (\<lambda>i. ci_status i = ''rejected'') (canonical_items items)))
   = length (filter (\<lambda>i. ci_status i \<notin> set final_statuses) (canonical_items items))"
  using counts_split [of "canonical_items items"] by simp

section \<open>The invariant of the decision log\<close>

definition decisions_ok :: "decision_sys \<Rightarrow> bool" where
  "decisions_ok s \<longleftrightarrow> holders_issued (dy_lease s)
     \<and> distinct (map (\<lambda>d. (gd_batch d, gd_fingerprint d)) (dy_decisions s))
     \<and> distinct (map (\<lambda>d. (gd_batch d, gd_generation d)) (dy_decisions s))
     \<and> (\<forall>d\<in>set (dy_decisions s). \<lparr>lh_batch = gd_batch d, lh_owner = gd_owner d,
          lh_generation = gd_generation d\<rparr> \<in> set (ls_issued (dy_lease s)))"

lemma decisions_ok_decide:
  assumes ok: "decisions_ok s" and own: "lh_batch h = batch"
    and d: "decide fp (ls_leases (dy_lease s)) (dy_decisions s) batch h items threshold rf now
      = Inr (d, created, policy, ds)"
  shows "decisions_ok (s\<lparr>dy_decisions := ds\<rparr>)"
proof (cases created)
  case False
  with d have "ds = dy_decisions s" by (auto dest: decide_replay)
  with ok show ?thesis by simp
next
  case True
  with d have new: "ds = dy_decisions s @ [d]" "gd_batch d = batch" "gd_owner d = lh_owner h"
    "gd_generation d = lh_generation h"
    "\<And>e. e \<in> set (dy_decisions s) \<Longrightarrow> gd_batch e = batch
       \<Longrightarrow> gd_fingerprint e \<noteq> gd_fingerprint d \<and> gd_generation e \<noteq> lh_generation h"
    by (auto dest: decide_create)
  from decide_holder [OF d] ok have "h \<in> set (ls_issued (dy_lease s))"
    by (auto simp: decisions_ok_def holders_issued_def)
  moreover have "\<lparr>lh_batch = gd_batch d, lh_owner = gd_owner d, lh_generation = gd_generation d\<rparr> = h"
    using new own by (cases h) simp
  ultimately show ?thesis
    using ok new(1,2,4) new(5) unfolding decisions_ok_def by fastforce
qed

interpretation decisions: step_system "decision_step fp batches" "\<lambda>_. decides_own_batch" decisions_ok
  for fp batches
proof unfold_locales
  fix s x s'
  assume ok: "decisions_ok s" and own: "decides_own_batch x" and step: "decision_step fp batches s x = Inr s'"
  show "decisions_ok s'"
  proof (cases x)
    case (OpLease y)
    with step obtain l where l: "lease_step batches (dy_lease s) y = Inr l" "s' = s\<lparr>dy_lease := l\<rparr>"
      by (auto split: sum.splits)
    have "holders_issued l"
      using ok lease_step_move [OF l(1)] by (auto simp: decisions_ok_def intro: holders_issued_move)
    moreover have "set (ls_issued (dy_lease s)) \<subseteq> set (ls_issued l)"
      using generations_grow_move [OF lease_step_move [OF l(1)]] by (simp add: generations_grow_def)
    ultimately show ?thesis using ok l(2) by (auto simp: decisions_ok_def)
  next
    case (OpDecide batch h items threshold rf now)
    with step own ok show ?thesis by (auto split: sum.splits intro: decisions_ok_decide)
  qed
qed

definition no_decisions :: decision_sys where
  "no_decisions = \<lparr>dy_lease = no_leases, dy_decisions = []\<rparr>"

lemma no_decisions_ok [simp]: "decisions_ok no_decisions"
  by (simp add: decisions_ok_def no_decisions_def holders_issued_def no_leases_def lease_holder_def)

section \<open>Properties\<close>

text \<open>
  One decision per input and per lease. In any run of lease operations and decisions in
  which workers decide for the batch of their handle, the log holds at most one decision
  per batch and fingerprint and at most one per batch and lease generation, and every
  decision carries the owner and generation of a handle that \<open>acquire\<close> issued.
\<close>

theorem decisions_unique:
  assumes "ops_ok (\<lambda>_. decides_own_batch) (decision_step fp batches) no_decisions xs"
    and "s = run_ops (decision_step fp batches) no_decisions xs"
  shows "distinct (map (\<lambda>d. (gd_batch d, gd_fingerprint d)) (dy_decisions s))
    \<and> distinct (map (\<lambda>d. (gd_batch d, gd_generation d)) (dy_decisions s))
    \<and> (\<forall>d\<in>set (dy_decisions s). \<lparr>lh_batch = gd_batch d, lh_owner = gd_owner d,
         lh_generation = gd_generation d\<rparr> \<in> set (ls_issued (dy_lease s)))"
proof -
  have "decisions_ok s" unfolding assms(2) using assms(1) by (intro decisions.inv_run) simp_all
  then show ?thesis by (simp add: decisions_ok_def)
qed

definition paid_child :: child_item where
  "paid_child = \<lparr>ci_id = ''1'', ci_status = ''settled'', ci_amount = ''5.00''\<rparr>"

definition decision_run :: "decision_op list" where
  "decision_run = (let h = \<lparr>lh_batch = 1, lh_owner = ''a'', lh_generation = 1\<rparr>
     in [OpLease (LAcquire 1 ''a'' 0 300), OpDecide 1 h [paid_child] (1/4) True 10,
         OpDecide 1 h [paid_child] (1/4) True 20])"

lemmas decision_eval = decision_run_def paid_child_def no_decisions_def no_leases_def acquire_def
  decide_def assert_current_owner_def current_locked_def evaluate_def canonical_items_def
  decision_action_of_def fingerprint_def final_statuses_def non_final_statuses_def Let_def tget_def tput_def

theorem decisions_unique_witness:
  "distinct (map (\<lambda>d. (gd_batch d, gd_fingerprint d))
     (dy_decisions (run_ops (decision_step (\<lambda>_. ''f'') {1}) no_decisions decision_run)))"
  using decisions_unique [of "\<lambda>_. ''f''" "{1}" decision_run, OF _ refl]
  by (simp add: decision_run_def Let_def)

text \<open>
  A terminal outcome needs final children. For a non-negative threshold, a decision that
  \<open>decide\<close> creates is terminal or returns funds exactly when the batch has children and each
  is settled or rejected; it returns funds exactly when moreover returning funds is enabled
  and some child is rejected; its three counts add up to the number of children; and the
  run-time check against a terminal decision over non-final children never fires.
\<close>

theorem terminal_decisions_final:
  assumes "0 \<le> threshold"
    and "decide fp leases decs batch h items threshold rf now = Inr (d, True, policy, ds)"
  shows "(gd_action d \<in> {ActTerminal, ActReturnFunds}
      \<longleftrightarrow> items \<noteq> [] \<and> (\<forall>i\<in>set items. ci_status i \<in> {''settled'', ''rejected''}))
    \<and> (gd_action d = ActReturnFunds \<longleftrightarrow> (\<forall>i\<in>set items. ci_status i \<in> {''settled'', ''rejected''})
         \<and> (\<exists>i\<in>set items. ci_status i = ''rejected'') \<and> rf)
    \<and> gd_settled d + gd_rejected d + gd_non_final d = length items \<and> gd_total d = length items
    \<and> decide fp leases' decs' batch' h' items threshold rf' now' \<noteq> Inl NonFinalConflict"
proof -
  let ?c = "canonical_items items"
  let ?nf = "length (filter (\<lambda>i. ci_status i \<notin> set final_statuses) ?c)"
  let ?rj = "length (filter (\<lambda>i. ci_status i = ''rejected'') ?c)"
  have d: "gd_action d = decision_action_of (evaluate ?c threshold) (length ?c) ?rj ?nf rf"
    "gd_total d = length ?c" "gd_non_final d = ?nf" "gd_rejected d = ?rj"
    "gd_settled d = length (filter (\<lambda>i. ci_status i = ''settled'') ?c)"
    using assms(2) by (auto simp: decide_def Let_def non_final_canonical split: if_splits sum.splits list.splits)
  have nf: "?nf = 0 \<longleftrightarrow> (\<forall>i\<in>set items. ci_status i \<in> {''settled'', ''rejected''})"
    by (simp add: filter_empty_conv final_statuses_def)
  have rj: "0 < ?rj \<longleftrightarrow> (\<exists>i\<in>set items. ci_status i = ''rejected'')"
    by (simp add: filter_empty_conv)
  have st: "bd_state (evaluate ?c threshold) \<in> {''completed'', ''partial''}" if "?nf = 0"
  proof (rule evaluate_state_final [OF _ assms(1)])
    fix i assume "i \<in> set ?c"
    with that show "ci_status i \<in> set final_statuses" by (auto simp: filter_empty_conv)
  qed
  have "length ?c = 0 \<longleftrightarrow> items = []" by simp
  then have "gd_action d \<in> {ActTerminal, ActReturnFunds} \<longleftrightarrow> items \<noteq> [] \<and> ?nf = 0"
    and "gd_action d = ActReturnFunds \<longleftrightarrow> items \<noteq> [] \<and> ?nf = 0 \<and> 0 < ?rj \<and> rf"
    using st unfolding d(1) decision_action_of_def by auto
  moreover have "decision_action_of p n r k rf \<notin> {ActTerminal, ActReturnFunds}" if "0 < k" for p n r k rf
    using that by (simp add: decision_action_of_def)
  then have "decide fp leases' decs' batch' h' items threshold rf' now' \<noteq> Inl NonFinalConflict"
    by (auto simp: decide_def Let_def split: sum.splits list.splits)
  moreover have "items \<noteq> [] \<and> (\<exists>i\<in>set items. ci_status i = ''rejected'')
      \<longleftrightarrow> (\<exists>i\<in>set items. ci_status i = ''rejected'')" by auto
  ultimately show ?thesis
    using d(2-5) counts_split [of ?c] nf rj by auto
qed

theorem terminal_decisions_final_witness:
  "\<exists>d policy ds. decide (\<lambda>_. ''f'') [(1, \<lparr>bl_owner = ''a'', bl_generation = 1, bl_expires = 9\<rparr>)] [] 1
      \<lparr>lh_batch = 1, lh_owner = ''a'', lh_generation = 1\<rparr> [paid_child] (1/4) True 0 = Inr (d, True, policy, ds)
    \<and> gd_action d \<in> {ActTerminal, ActReturnFunds}"
proof -
  obtain d policy ds where d: "decide (\<lambda>_. ''f'') [(1, \<lparr>bl_owner = ''a'', bl_generation = 1, bl_expires = 9\<rparr>)] [] 1
      \<lparr>lh_batch = 1, lh_owner = ''a'', lh_generation = 1\<rparr> [paid_child] (1/4) True 0 = Inr (d, True, policy, ds)"
    by (simp add: decision_eval)
  have "gd_action d \<in> {ActTerminal, ActReturnFunds}"
    using terminal_decisions_final [OF _ d, of "[]" "[]" 1 "\<lparr>lh_batch = 1, lh_owner = ''a'', lh_generation = 1\<rparr>" True 0]
    by (auto simp: paid_child_def)
  with d show ?thesis by blast
qed

text \<open>
  The policy alone completes a batch with an unknown outcome. A child whose status is
  none of the six the evaluator knows only counts towards the failure ratio: as long as the
  ratio stays within the threshold and no child is in a known non-final status,
  \<open>evaluate\<close> reports the batch as completed or partial, without kick-back and without
  offering the child for retry, although the child is not final.
\<close>

theorem evaluate_completes_unknown:
  assumes "i \<in> set items" and "ci_status i \<notin> {''settled'', ''rejected''}"
    and "\<And>j. j \<in> set items \<Longrightarrow> ci_status j \<notin> set non_final_statuses"
    and "real (length (filter (\<lambda>j. ci_status j \<notin> {''settled'', ''rejected''}) items))
      \<le> threshold * real (length items)"
  shows "bd_state (evaluate items threshold)
      = (if \<exists>j\<in>set items. ci_status j = ''rejected'' then ''partial'' else ''completed'')
    \<and> \<not> bd_kick_back (evaluate items threshold) \<and> bd_retry_ids (evaluate items threshold) = []"
proof -
  have none: "filter (\<lambda>s. s \<in> set non_final_statuses) (map ci_status items) = []"
    using assms(3) by (auto simp: filter_empty_conv)
  have retry: "filter (\<lambda>i. ci_status i \<in> {''retryable'', ''uncertain'', ''unresolved''}) items = []"
    using assms(3) by (fastforce simp: filter_empty_conv non_final_statuses_def)
  have pos: "0 < real (length items)" using assms(1) by (cases items) auto
  have "length (filter (\<lambda>s. s \<notin> set final_statuses) (map ci_status items))
      = length (filter (\<lambda>j. ci_status j \<notin> {''settled'', ''rejected''}) items)"
    by (simp add: filter_map comp_def final_statuses_def)
  then have ratio: "\<not> threshold < real (length (filter (\<lambda>s. s \<notin> set final_statuses) (map ci_status items)))
      / real (length items)"
    using assms(4) pos by (simp add: not_less divide_le_eq)
  have rej: "0 < length (filter (\<lambda>s. s = ''rejected'') (map ci_status items))
      \<longleftrightarrow> (\<exists>j\<in>set items. ci_status j = ''rejected'')"
    by (auto simp: filter_empty_conv)
  show ?thesis
    unfolding evaluate_def Let_def none retry using ratio rej by auto
qed

theorem evaluate_completes_unknown_witness:
  "bd_state (evaluate [paid_child, paid_child\<lparr>ci_id := ''2'', ci_status := ''pending''\<rparr>] (1/2)) = ''completed''"
proof -
  let ?items = "[paid_child, paid_child\<lparr>ci_id := ''2'', ci_status := ''pending''\<rparr>]"
  have "ci_status j \<notin> set non_final_statuses" if "j \<in> set ?items" for j
    using that by (auto simp: paid_child_def non_final_statuses_def)
  from evaluate_completes_unknown [where items = ?items and threshold = "1/2"
      and i = "paid_child\<lparr>ci_id := ''2'', ci_status := ''pending''\<rparr>", OF _ _ this]
  show ?thesis by (simp add: paid_child_def)
qed

end
