(* ===== verification/ShiftScheduling.thy ===== *)
theory ShiftScheduling
  imports Prelude "HOL-Library.Product_Lexorder"
begin

text \<open>
  Volunteer shifts (\<open>apps/volunteers/services/scheduling.py\<close>): booking with a waitlist,
  cancelling with promotion, no-shows, completion with an hours log, and cancelling a whole
  shift. Checks before the transaction read the instance the caller passes, checks after
  the lock the stored row. Times are integers in seconds.
\<close>

section \<open>Rows\<close>

record shift =
  sh_opportunity :: nat
  sh_start :: int
  sh_end :: int
  sh_capacity :: "nat option"
  sh_waitlist_enabled :: bool
  sh_waitlist_cap :: "nat option"
  sh_is_cancelled :: bool
  sh_cancelled_at :: "int option"
  sh_cancelled_by :: "nat option"
  sh_reason :: string

datatype seat_status = Confirmed | Waitlisted | SeatCancelled | NoShow | SeatCompleted

record seat =
  sb_shift :: nat
  sb_volunteer :: nat
  sb_status :: seat_status
  sb_position :: "nat option"
  sb_cancelled_at :: "int option"
  sb_reason :: string

text \<open>Hours are in hundredths; \<open>hl_date\<close> is the local date of the shift's start.\<close>

record hours_log =
  hl_volunteer :: nat
  hl_shift :: nat
  hl_opportunity :: nat
  hl_hours :: nat
  hl_date :: int

record volunteer_profile =
  vp_pk :: nat
  vp_user :: nat

text \<open>An actor: the user's key and the two permissions the services ask for.\<close>

record vol_actor =
  va_pk :: nat
  va_change_booking :: bool
  va_change_shift :: bool

datatype shift_signal =
    ShiftBooked nat
  | ShiftBookingCancelled nat string
  | ShiftCancelledSignal nat nat string

record shift_state =
  vs_shifts :: "shift table"
  vs_seats :: "seat table"
  vs_hours :: "hours_log list"
  vs_signals :: "shift_signal list"

text \<open>
  What the services read of other tables: the user of a volunteer, the capacity of an
  opportunity, the approved applications, the local date of an instant; and the direction
  in which a binary float on a rounding tie falls.
\<close>

record shift_env =
  ve_user :: "nat \<Rightarrow> nat"
  ve_capacity :: "nat \<Rightarrow> nat option"
  ve_approved :: "nat \<Rightarrow> nat \<Rightarrow> bool"
  ve_local_date :: "int \<Rightarrow> int"
  ve_tie_up :: "nat \<Rightarrow> bool"

datatype shift_error =
    PermissionDenied | ShiftIsCancelled | ShiftStarted | NotApproved | WaitlistFull | FullyBooked
  | AlreadyBooked | NotCancellable | OnlyConfirmed | ShiftNotStarted | ShiftNotEnded | ReasonRequired
  | NoSuchShift | NoSuchSeat | KeyTaken

definition effective_capacity :: "shift_env \<Rightarrow> shift \<Rightarrow> nat option" where
  "effective_capacity env sh = (case sh_capacity sh of Some c \<Rightarrow> Some c | None \<Rightarrow> ve_capacity env (sh_opportunity sh))"

text \<open>\<open>round(seconds / 3600, 2)\<close> in hundredths; one hundredth of an hour is 36 seconds.\<close>

definition duration_hundredths :: "shift_env \<Rightarrow> shift \<Rightarrow> int" where
  "duration_hundredths env sh = (let secs = sh_end sh - sh_start sh; q = secs div 36; r = secs mod 36
     in if 18 < r \<or> (r = 18 \<and> ve_tie_up env (nat secs)) then q + 1 else q)"

section \<open>Operations\<close>

definition emit :: "shift_signal \<Rightarrow> shift_state \<Rightarrow> shift_state" where
  "emit x s = s\<lparr>vs_signals := vs_signals s @ [x]\<rparr>"

definition put_seat :: "nat \<Rightarrow> seat \<Rightarrow> shift_state \<Rightarrow> shift_state" where
  "put_seat k b s = s\<lparr>vs_seats := tput k b (vs_seats s)\<rparr>"

definition with_status :: "nat \<Rightarrow> seat_status \<Rightarrow> seat table \<Rightarrow> nat" where
  "with_status k st t = tcount (\<lambda>b. sb_shift b = k \<and> sb_status b = st) t"

text \<open>The largest waitlist position, or 0.\<close>

definition max_position :: "nat \<Rightarrow> seat table \<Rightarrow> nat" where
  "max_position k t = foldr (\<lambda>kb m. case sb_position (snd kb) of None \<Rightarrow> m | Some p \<Rightarrow> max p m)
     (filter (\<lambda>kb. sb_shift (snd kb) = k \<and> sb_status (snd kb) = Waitlisted) t) 0"

definition seat_exists :: "nat \<Rightarrow> nat \<Rightarrow> seat table \<Rightarrow> bool" where
  "seat_exists k v t \<longleftrightarrow> list_ex (\<lambda>kb. sb_shift (snd kb) = k \<and> sb_volunteer (snd kb) = v) t"

definition new_seat :: "nat \<Rightarrow> nat \<Rightarrow> seat_status \<Rightarrow> nat option \<Rightarrow> seat" where
  "new_seat k v st pos = \<lparr>sb_shift = k, sb_volunteer = v, sb_status = st, sb_position = pos,
     sb_cancelled_at = None, sb_reason = ''''\<rparr>"

lemma new_seat_simps [simp]:
  "sb_shift (new_seat k v st pos) = k" "sb_volunteer (new_seat k v st pos) = v"
  "sb_status (new_seat k v st pos) = st" "sb_position (new_seat k v st pos) = pos"
  by (simp_all add: new_seat_def)

text \<open>
  The seat a booking gets on the locked shift. \<open>full_clean\<close> then checks that the volunteer
  has no row for the shift yet; its refusal and the one for a lost insertion race are both
  \<open>AlreadyBooked\<close>.
\<close>

definition seat_decision :: "shift_env \<Rightarrow> seat table \<Rightarrow> nat \<Rightarrow> shift \<Rightarrow> nat \<Rightarrow> shift_error + seat" where
  "seat_decision env t k sh v =
     (let confirmed = with_status k Confirmed t; waiting = with_status k Waitlisted t
      in if (case effective_capacity env sh of None \<Rightarrow> True | Some c \<Rightarrow> confirmed < c)
         then Inr (new_seat k v Confirmed None)
         else if sh_waitlist_enabled sh then
           (if (case sh_waitlist_cap sh of None \<Rightarrow> False | Some c \<Rightarrow> c \<le> waiting) then Inl WaitlistFull
            else Inr (new_seat k v Waitlisted (Some (max_position k t + 1))))
         else Inl FullyBooked)"

definition book_shift ::
  "shift_env \<Rightarrow> shift_state \<Rightarrow> int \<Rightarrow> nat \<Rightarrow> nat \<Rightarrow> shift \<Rightarrow> volunteer_profile \<Rightarrow> vol_actor
     \<Rightarrow> shift_error + shift_state" where
  "book_shift env s now j k inst prof actor =
     (if va_pk actor \<noteq> vp_user prof then Inl PermissionDenied
      else if sh_is_cancelled inst then Inl ShiftIsCancelled
      else if sh_start inst \<le> now then Inl ShiftStarted
      else if \<not> ve_approved env (vp_pk prof) (sh_opportunity inst) then Inl NotApproved
      else case tget (vs_shifts s) k of
        None \<Rightarrow> Inl NoSuchShift
      | Some sh \<Rightarrow>
          if sh_is_cancelled sh then Inl ShiftIsCancelled
          else case seat_decision env (vs_seats s) k sh (vp_pk prof) of
            Inl e \<Rightarrow> Inl e
          | Inr b \<Rightarrow>
              if seat_exists k (vp_pk prof) (vs_seats s) then Inl AlreadyBooked
              else if tget (vs_seats s) j \<noteq> None then Inl KeyTaken
              else Inr (emit (ShiftBooked j) (put_seat j b s)))"

text \<open>The waitlisted seat with the lowest position; a row without one sorts last.\<close>

definition position_key :: "seat \<Rightarrow> nat \<times> nat" where
  "position_key b = (case sb_position b of Some p \<Rightarrow> (0, p) | None \<Rightarrow> (1, 0))"

definition next_up :: "nat \<Rightarrow> seat table \<Rightarrow> (nat \<times> seat) option" where
  "next_up k t = (case sort_key (\<lambda>kb. position_key (snd kb))
       (filter (\<lambda>kb. sb_shift (snd kb) = k \<and> sb_status (snd kb) = Waitlisted) t) of
     [] \<Rightarrow> None | kb # _ \<Rightarrow> Some kb)"

definition cancellable :: "seat_status \<Rightarrow> bool" where
  "cancellable st \<longleftrightarrow> st \<in> {Confirmed, Waitlisted}"

definition cancel_seat ::
  "shift_env \<Rightarrow> shift_state \<Rightarrow> int \<Rightarrow> nat \<Rightarrow> seat \<Rightarrow> vol_actor \<Rightarrow> string \<Rightarrow> shift_error + shift_state" where
  "cancel_seat env s now j inst actor reason =
     (if \<not> (va_pk actor = ve_user env (sb_volunteer inst) \<or> va_change_booking actor) then Inl PermissionDenied
      else if \<not> cancellable (sb_status inst) then Inl NotCancellable
      else case tget (vs_shifts s) (sb_shift inst) of
        None \<Rightarrow> Inl NoSuchShift
      | Some sh \<Rightarrow>
          if sh_is_cancelled sh then Inl ShiftIsCancelled
          else case tget (vs_seats s) j of
            None \<Rightarrow> Inl NoSuchSeat
          | Some b \<Rightarrow>
              if \<not> cancellable (sb_status b) then Inl NotCancellable
              else let s1 = put_seat j (b\<lparr>sb_status := SeatCancelled, sb_cancelled_at := Some now,
                         sb_reason := take 300 reason\<rparr>) s;
                       s2 = (if sb_status b = Confirmed \<and> sh_waitlist_enabled sh
                         then (case next_up (sb_shift b) (vs_seats s1) of
                             None \<Rightarrow> s1
                           | Some (i, w) \<Rightarrow> emit (ShiftBooked i)
                               (put_seat i (w\<lparr>sb_status := Confirmed, sb_position := None\<rparr>) s1))
                         else s1)
                   in Inr (emit (ShiftBookingCancelled j reason) s2))"

definition mark_seat_no_show ::
  "shift_state \<Rightarrow> int \<Rightarrow> nat \<Rightarrow> seat \<Rightarrow> shift \<Rightarrow> vol_actor \<Rightarrow> shift_error + shift_state" where
  "mark_seat_no_show s now j inst inst_shift actor =
     (if \<not> va_change_booking actor then Inl PermissionDenied
      else if sb_status inst \<noteq> Confirmed then Inl OnlyConfirmed
      else if now < sh_start inst_shift then Inl ShiftNotStarted
      else case tget (vs_seats s) j of
        None \<Rightarrow> Inl NoSuchSeat
      | Some b \<Rightarrow>
          if sb_status b \<noteq> Confirmed then Inl OnlyConfirmed
          else Inr (put_seat j (b\<lparr>sb_status := NoShow\<rparr>) s))"

definition complete_seat ::
  "shift_env \<Rightarrow> shift_state \<Rightarrow> int \<Rightarrow> nat \<Rightarrow> seat \<Rightarrow> shift \<Rightarrow> vol_actor \<Rightarrow> shift_error + shift_state" where
  "complete_seat env s now j inst inst_shift actor =
     (if \<not> va_change_booking actor then Inl PermissionDenied
      else if sb_status inst \<noteq> Confirmed then Inl OnlyConfirmed
      else if now < sh_end inst_shift then Inl ShiftNotEnded
      else case tget (vs_seats s) j of
        None \<Rightarrow> Inl NoSuchSeat
      | Some b \<Rightarrow>
          if sb_status b \<noteq> Confirmed then Inl OnlyConfirmed
          else case tget (vs_shifts s) (sb_shift b) of
            None \<Rightarrow> Inl NoSuchShift
          | Some sh \<Rightarrow>
              let s1 = put_seat j (b\<lparr>sb_status := SeatCompleted\<rparr>) s; raw = duration_hundredths env sh
              in Inr (if raw \<le> 0 then s1
                 else if list_ex (\<lambda>h. hl_volunteer h = sb_volunteer b \<and> hl_shift h = sb_shift b) (vs_hours s1)
                 then s1
                 else s1\<lparr>vs_hours := vs_hours s1 @ [\<lparr>hl_volunteer = sb_volunteer b, hl_shift = sb_shift b,
                     hl_opportunity = sh_opportunity sh, hl_hours = nat (min raw 2400),
                     hl_date = ve_local_date env (sh_start sh)\<rparr>]\<rparr>))"

definition seat_active :: "seat \<Rightarrow> bool" where
  "seat_active b \<longleftrightarrow> sb_status b \<in> {Confirmed, Waitlisted}"

definition cancel_shift ::
  "shift_state \<Rightarrow> int \<Rightarrow> nat \<Rightarrow> shift \<Rightarrow> vol_actor \<Rightarrow> string \<Rightarrow> shift_error + shift_state" where
  "cancel_shift s now k inst actor reason =
     (if \<not> va_change_shift actor then Inl PermissionDenied
      else if sh_is_cancelled inst then Inl ShiftIsCancelled
      else if py_strip reason = '''' then Inl ReasonRequired
      else case tget (vs_shifts s) k of
        None \<Rightarrow> Inl NoSuchShift
      | Some sh \<Rightarrow>
          if sh_is_cancelled sh then Inl ShiftIsCancelled
          else let sh' = sh\<lparr>sh_is_cancelled := True, sh_cancelled_at := Some now,
                      sh_cancelled_by := Some (va_pk actor), sh_reason := py_strip reason\<rparr>
               in Inr (emit (ShiftCancelledSignal k (va_pk actor) (py_strip reason))
                 (s\<lparr>vs_shifts := tput k sh' (vs_shifts s),
                    vs_seats := tupdate_where (\<lambda>b. sb_shift b = k \<and> seat_active b)
                      (\<lambda>b. b\<lparr>sb_status := SeatCancelled, sb_cancelled_at := Some now,
                             sb_reason := take 299 (''Shift cancelled: '' @ py_strip reason)\<rparr>) (vs_seats s)\<rparr>)))"

section \<open>The component as a transition system\<close>

datatype shift_op =
    SBook int nat nat shift volunteer_profile vol_actor
  | SCancel int nat seat vol_actor string
  | SNoShow int nat seat shift vol_actor
  | SComplete int nat seat shift vol_actor
  | SCancelShift int nat shift vol_actor string
  | SNewShift nat shift

text \<open>A coordinator creates shifts in the admin; a taken key is refused by the database.\<close>

fun shift_step :: "shift_env \<Rightarrow> shift_state \<Rightarrow> shift_op \<Rightarrow> shift_error + shift_state" where
  "shift_step env s (SBook now j k inst prof actor) = book_shift env s now j k inst prof actor"
| "shift_step env s (SCancel now j inst actor reason) = cancel_seat env s now j inst actor reason"
| "shift_step env s (SNoShow now j inst sh actor) = mark_seat_no_show s now j inst sh actor"
| "shift_step env s (SComplete now j inst sh actor) = complete_seat env s now j inst sh actor"
| "shift_step env s (SCancelShift now k inst actor reason) = cancel_shift s now k inst actor reason"
| "shift_step env s (SNewShift k sh) =
     (if tget (vs_shifts s) k \<noteq> None then Inl KeyTaken else Inr (s\<lparr>vs_shifts := tput k sh (vs_shifts s)\<rparr>))"

text \<open>
  The instance passed to \<open>cancel_booking\<close> names its own row's shift (the foreign key never
  changes), and a new shift is not cancelled.
\<close>

fun shift_owed :: "shift_state \<Rightarrow> shift_op \<Rightarrow> bool" where
  "shift_owed s (SCancel now j inst actor reason) =
     (case tget (vs_seats s) j of None \<Rightarrow> True | Some b \<Rightarrow> sb_shift inst = sb_shift b)"
| "shift_owed s (SNewShift k sh) = (\<not> sh_is_cancelled sh)"
| "shift_owed s x = True"

end
