(* ===== verification/ShiftProps.thy ===== *)
theory ShiftProps
  imports ShiftScheduling "HOL-Library.Multiset"
begin

text \<open>
  Correctness of the shift bookings: capacity and waitlist invariants, promotion in waitlist
  order, and one row per volunteer and shift for ever.
\<close>

section \<open>Invariant\<close>

definition waiting :: "nat \<Rightarrow> seat \<Rightarrow> bool" where
  "waiting k b \<longleftrightarrow> sb_shift b = k \<and> sb_status b = Waitlisted"

definition positions_ok :: "seat table \<Rightarrow> bool" where
  "positions_ok t \<longleftrightarrow> (\<forall>j b. tget t j = Some b \<longrightarrow> sb_status b = Waitlisted \<longrightarrow> (\<exists>p>0. sb_position b = Some p))
     \<and> (\<forall>i a j b. tget t i = Some a \<longrightarrow> tget t j = Some b \<longrightarrow> sb_status a = Waitlisted
          \<longrightarrow> sb_status b = Waitlisted \<longrightarrow> sb_shift a = sb_shift b \<longrightarrow> sb_position a = sb_position b \<longrightarrow> i = j)"

definition rows_unique :: "seat table \<Rightarrow> bool" where
  "rows_unique t \<longleftrightarrow> (\<forall>i a j b. tget t i = Some a \<longrightarrow> tget t j = Some b
     \<longrightarrow> sb_shift a = sb_shift b \<longrightarrow> sb_volunteer a = sb_volunteer b \<longrightarrow> i = j)"

definition shift_ok :: "shift_env \<Rightarrow> seat table \<Rightarrow> nat \<Rightarrow> shift \<Rightarrow> bool" where
  "shift_ok env t k sh \<longleftrightarrow>
     (case effective_capacity env sh of None \<Rightarrow> True | Some c \<Rightarrow> with_status k Confirmed t \<le> c)
     \<and> (case sh_waitlist_cap sh of None \<Rightarrow> True | Some c \<Rightarrow> with_status k Waitlisted t \<le> c)
     \<and> (sh_is_cancelled sh \<longrightarrow> with_status k Confirmed t = 0 \<and> with_status k Waitlisted t = 0)"

definition seats_ok :: "shift_env \<Rightarrow> shift table \<Rightarrow> seat table \<Rightarrow> bool" where
  "seats_ok env shifts t \<longleftrightarrow> tok t \<and> positions_ok t \<and> rows_unique t
     \<and> (\<forall>k sh. tget shifts k = Some sh \<longrightarrow> shift_ok env t k sh)
     \<and> (\<forall>j b. tget t j = Some b \<longrightarrow> tget shifts (sb_shift b) \<noteq> None)"

lemma rows_unique_same:
  assumes "rows_unique t" and "tget t j = Some b" and "sb_shift b' = sb_shift b" "sb_volunteer b' = sb_volunteer b"
  shows "rows_unique (tput j b' t)"
proof -
  have "\<exists>q. tget t i = Some q \<and> sb_shift q = sb_shift a \<and> sb_volunteer q = sb_volunteer a"
    if "tget (tput j b' t) i = Some a" for i a
    using that assms(2-4) by (cases "i = j") (auto simp: tget_tput)
  with assms(1) show ?thesis unfolding rows_unique_def by metis
qed

text \<open>A shift's conditions survive when its counts do not grow.\<close>

lemma shift_ok_le:
  assumes "shift_ok env t k sh" and "with_status k Confirmed t' \<le> with_status k Confirmed t"
    and "with_status k Waitlisted t' \<le> with_status k Waitlisted t"
  shows "shift_ok env t' k sh"
  using assms by (auto simp: shift_ok_def split: option.splits)

text \<open>One seat leaves the active states.\<close>

lemma count_deactivate:
  assumes "tok t" and "tget t j = Some b" and "st \<noteq> sb_status b'"
  shows "with_status k st (tput j b' t) \<le> with_status k st t"
  using tbl.put_balance [OF assms(1), of "\<lambda>b. sb_shift b = k \<and> sb_status b = st" j b'] assms(2,3)
  by (simp add: with_status_def)

lemma seats_deactivate:
  assumes ok: "seats_ok env shifts t" and j: "tget t j = Some b"
    and b': "sb_shift b' = sb_shift b" "sb_volunteer b' = sb_volunteer b" "\<not> seat_active b'"
  shows "seats_ok env shifts (tput j b' t)"
proof -
  from ok have tok: "tok t" by (simp add: seats_ok_def)
  have "with_status k st (tput j b' t) \<le> with_status k st t" if "st \<in> {Confirmed, Waitlisted}" for k st
    using that b'(3) by (intro count_deactivate [OF tok j]) (auto simp: seat_active_def)
  then have shifts: "shift_ok env (tput j b' t) k sh" if "shift_ok env t k sh" for k sh
    using that by (auto intro: shift_ok_le)
  have "rows_unique (tput j b' t)"
    using ok j b' by (intro rows_unique_same) (auto simp: seats_ok_def)
  moreover have "positions_ok (tput j b' t)"
    using ok b' unfolding seats_ok_def positions_ok_def tget_tput seat_active_def
    by (auto split: if_splits)
  ultimately show ?thesis
    using ok tok j b' shifts unfolding seats_ok_def by (auto simp: tok_tput tget_tput)
qed

text \<open>A waiting seat becomes confirmed where a seat is free.\<close>

lemma seats_promote:
  assumes ok: "seats_ok env shifts t" and j: "tget t j = Some b" "sb_status b = Waitlisted"
    and b': "sb_shift b' = sb_shift b" "sb_volunteer b' = sb_volunteer b" "sb_status b' = Confirmed"
    and sh: "tget shifts (sb_shift b) = Some sh" "\<not> sh_is_cancelled sh"
    and free: "case effective_capacity env sh of None \<Rightarrow> True | Some c \<Rightarrow> with_status (sb_shift b) Confirmed t < c"
  shows "seats_ok env shifts (tput j b' t)"
proof -
  from ok have tok: "tok t" by (simp add: seats_ok_def)
  have wait: "with_status k Waitlisted (tput j b' t) \<le> with_status k Waitlisted t" for k
    using b' by (intro count_deactivate [OF tok j(1)]) simp
  have conf: "with_status k Confirmed (tput j b' t)
      = with_status k Confirmed t + of_bool (k = sb_shift b)" for k
    using tbl.put_balance [OF tok, of "\<lambda>b. sb_shift b = k \<and> sb_status b = Confirmed" j b'] j b'
    by (auto simp: with_status_def)
  have "shift_ok env (tput j b' t) k x" if "tget shifts k = Some x" for k x
  proof -
    from ok that have old: "shift_ok env t k x" by (simp add: seats_ok_def)
    show ?thesis
    proof (cases "k = sb_shift b")
      case True
      with that sh have "x = sh" by simp
      with old free True sh(2) wait [of k] show ?thesis
        by (auto simp: shift_ok_def conf split: option.splits intro: le_trans)
    next
      case False
      with old wait [of k] show ?thesis by (intro shift_ok_le [OF old]) (simp_all add: conf)
    qed
  qed
  moreover have "rows_unique (tput j b' t)"
    using ok j b' by (intro rows_unique_same) (auto simp: seats_ok_def)
  moreover have "positions_ok (tput j b' t)"
    using ok b' unfolding seats_ok_def positions_ok_def tget_tput by (auto split: if_splits)
  moreover have "tget shifts (sb_shift a) \<noteq> None" if "tget (tput j b' t) i = Some a" for i a
    using that ok j b' by (cases "i = j") (auto simp: seats_ok_def tget_tput)
  ultimately show ?thesis
    using tok unfolding seats_ok_def by (auto simp: tok_tput)
qed

text \<open>A new seat, confirmed or waiting.\<close>

lemma max_position_bound:
  "tget t j = Some b \<Longrightarrow> sb_shift b = k \<Longrightarrow> sb_status b = Waitlisted \<Longrightarrow> sb_position b = Some p
     \<Longrightarrow> p \<le> max_position k t"
proof (induction t)
  case (Cons x t)
  have mono: "max_position k t \<le> max_position k (x # t)"
    by (cases x) (auto simp: max_position_def split: option.splits)
  show ?case
  proof (cases "x = (j, b)")
    case True
    with Cons.prems show ?thesis by (simp add: max_position_def)
  next
    case False
    with Cons.prems(1) have "tget t j = Some b" by (cases x) (auto simp: tget_Cons split: if_splits)
    with Cons.IH Cons.prems mono show ?thesis by (meson le_trans)
  qed
qed simp

lemma seats_add:
  assumes ok: "seats_ok env shifts t" and j: "tget t j = None"
    and sh: "tget shifts k = Some sh" "\<not> sh_is_cancelled sh"
    and dec: "seat_decision env t k sh v = Inr b" and fresh: "\<not> seat_exists k v t"
  shows "seats_ok env shifts (tput j b t)"
proof -
  from ok have tok: "tok t" by (simp add: seats_ok_def)
  from dec have b: "sb_shift b = k" "sb_volunteer b = v"
    and st: "sb_status b = Confirmed \<and> (case effective_capacity env sh of None \<Rightarrow> True | Some c \<Rightarrow> with_status k Confirmed t < c)
      \<or> sb_status b = Waitlisted \<and> (case sh_waitlist_cap sh of None \<Rightarrow> True | Some c \<Rightarrow> with_status k Waitlisted t < c)
        \<and> sb_position b = Some (max_position k t + 1)"
    by (auto simp: seat_decision_def new_seat_def Let_def split: if_splits option.splits)
  have count: "with_status i x (tput j b t) = with_status i x t + of_bool (i = k \<and> x = sb_status b)" for i x
    using tok j b by (auto simp: with_status_def tbl.count_insert)
  have "shift_ok env (tput j b t) i x" if "tget shifts i = Some x" for i x
  proof -
    from ok that have old: "shift_ok env t i x" by (simp add: seats_ok_def)
    show ?thesis
    proof (cases "i = k")
      case True
      with that sh have "x = sh" by simp
      with old st sh(2) True show ?thesis
        by (auto simp: shift_ok_def count split: option.splits)
    next
      case False
      then show ?thesis by (intro shift_ok_le [OF old]) (simp_all add: count)
    qed
  qed
  moreover have "rows_unique (tput j b t)"
  proof -
    have new: "\<not> (sb_shift a = k \<and> sb_volunteer a = v)" if "tget t i = Some a" for i a
      using tget_in_set [OF that] fresh by (auto simp: seat_exists_def list_ex_iff)
    have old: "rows_unique t" using ok by (simp add: seats_ok_def)
    show ?thesis
      unfolding rows_unique_def
    proof (intro allI impI)
      fix i a l c
      assume rows: "tget (tput j b t) i = Some a" "tget (tput j b t) l = Some c"
        and eq: "sb_shift a = sb_shift c" "sb_volunteer a = sb_volunteer c"
      show "i = l"
      proof (cases "i = j")
        case True
        with rows(1) have "a = b" by (simp add: tget_tput)
        show ?thesis
        proof (rule ccontr)
          assume "i \<noteq> l"
          with True rows(2) have "tget t l = Some c" by (simp add: tget_tput)
          with new [of l c] b eq \<open>a = b\<close> show False by simp
        qed
      next
        case False
        with rows(1) have a: "tget t i = Some a" by (simp add: tget_tput)
        show ?thesis
        proof (cases "l = j")
          case True
          with rows(2) have "c = b" by (simp add: tget_tput)
          with new [of i a] b eq a show ?thesis by simp
        next
          case False
          with rows(2) have "tget t l = Some c" by (simp add: tget_tput)
          with a old eq show ?thesis unfolding rows_unique_def by blast
        qed
      qed
    qed
  qed
  moreover have "positions_ok (tput j b t)"
  proof -
    have old: "positions_ok t" using ok by (simp add: seats_ok_def)
    have new: "sb_position a \<noteq> sb_position b"
      if "tget t i = Some a" "sb_status a = Waitlisted" "sb_status b = Waitlisted" "sb_shift a = k" for i a
    proof -
      from that st have pos: "sb_position b = Some (max_position k t + 1)" by auto
      from old that(1,2) obtain p where "sb_position a = Some p" unfolding positions_ok_def by blast
      with max_position_bound [OF that(1,4,2)] pos show ?thesis by auto
    qed
    show ?thesis
      unfolding positions_ok_def
    proof (intro conjI allI impI)
      fix i a assume "tget (tput j b t) i = Some a" "sb_status a = Waitlisted"
      then show "\<exists>p>0. sb_position a = Some p"
        using old st by (cases "i = j") (auto simp: tget_tput positions_ok_def)
    next
      fix i a l c
      assume rows: "tget (tput j b t) i = Some a" "tget (tput j b t) l = Some c"
        and w: "sb_status a = Waitlisted" "sb_status c = Waitlisted"
        and eq: "sb_shift a = sb_shift c" "sb_position a = sb_position c"
      show "i = l"
      proof (cases "i = j")
        case True
        with rows(1) have "a = b" by (simp add: tget_tput)
        show ?thesis
        proof (rule ccontr)
          assume "i \<noteq> l"
          with True rows(2) have "tget t l = Some c" by (simp add: tget_tput)
          with new [of l c] w b eq \<open>a = b\<close> show False by simp
        qed
      next
        case False
        with rows(1) have a: "tget t i = Some a" by (simp add: tget_tput)
        show ?thesis
        proof (cases "l = j")
          case True
          with rows(2) have "c = b" by (simp add: tget_tput)
          with new [of i a] w b eq a show ?thesis by simp
        next
          case False
          with rows(2) have "tget t l = Some c" by (simp add: tget_tput)
          with a old w eq show ?thesis unfolding positions_ok_def by blast
        qed
      qed
    qed
  qed
  moreover have "tget shifts (sb_shift a) \<noteq> None" if "tget (tput j b t) i = Some a" for i a
    using that ok j b sh by (cases "i = j") (auto simp: seats_ok_def tget_tput)
  ultimately show ?thesis
    using tok unfolding seats_ok_def by (auto simp: tok_tput)
qed

text \<open>Cancelling a whole shift.\<close>

lemma seats_cancel_shift:
  assumes ok: "seats_ok env shifts t" and k: "tget shifts k = Some sh"
    and sh': "effective_capacity env sh' = effective_capacity env sh" "sh_waitlist_cap sh' = sh_waitlist_cap sh"
    and f: "\<And>b. sb_shift (f b) = sb_shift b" "\<And>b. sb_volunteer (f b) = sb_volunteer b" "\<And>b. \<not> seat_active (f b)"
  shows "seats_ok env (tput k sh' shifts) (tupdate_where (\<lambda>b. sb_shift b = k \<and> seat_active b) f t)"
proof -
  let ?t = "tupdate_where (\<lambda>b. sb_shift b = k \<and> seat_active b) f t"
  from ok have tok: "tok t" by (simp add: seats_ok_def)
  have old: "\<exists>a. tget t i = Some a \<and> sb_shift a = sb_shift b \<and> sb_volunteer a = sb_volunteer b
      \<and> (seat_active b \<longrightarrow> b = a \<and> sb_shift b \<noteq> k)" if "tget ?t i = Some b" for i b
  proof -
    from that obtain a where a: "tget t i = Some a" "b = (if sb_shift a = k \<and> seat_active a then f a else a)"
      by (auto simp: tget_tupdate_where)
    then show ?thesis using f(3) [of a] by (auto simp: f(1,2) split: if_splits)
  qed
  have zero: "with_status k st ?t = 0" if "st \<in> {Confirmed, Waitlisted}" for st
  proof -
    have "\<not> (sb_shift r = k \<and> sb_status r = st)" if "tget ?t i = Some r" for i r
      using old [OF that] \<open>st \<in> {Confirmed, Waitlisted}\<close> by (auto simp: seat_active_def)
    then show ?thesis unfolding with_status_def using tok by (subst tcount_none) (auto simp: tok_tupdate_where)
  qed
  have same: "with_status i st ?t = with_status i st t" if "i \<noteq> k" for i st
    unfolding with_status_def using that f(1) by (intro tcount_tupdate_where) auto
  have "shift_ok env ?t i x" if "tget (tput k sh' shifts) i = Some x" for i x
  proof (cases "i = k")
    case True
    with that have "x = sh'" by (simp add: tget_tput)
    with True zero show ?thesis by (auto simp: shift_ok_def split: option.splits)
  next
    case False
    with that ok have "shift_ok env t i x" by (simp add: tget_tput seats_ok_def)
    then show ?thesis by (rule shift_ok_le) (simp_all add: same [OF False])
  qed
  moreover have "rows_unique ?t"
  proof -
    have "rows_unique t" using ok by (simp add: seats_ok_def)
    show ?thesis
      unfolding rows_unique_def
    proof (intro allI impI)
      fix i a j b assume "tget ?t i = Some a" "tget ?t j = Some b"
        and eq: "sb_shift a = sb_shift b" "sb_volunteer a = sb_volunteer b"
      then obtain a' b' where "tget t i = Some a'" "sb_shift a' = sb_shift a" "sb_volunteer a' = sb_volunteer a"
        "tget t j = Some b'" "sb_shift b' = sb_shift b" "sb_volunteer b' = sb_volunteer b"
        using old by meson
      with \<open>rows_unique t\<close> eq show "i = j" unfolding rows_unique_def by simp
    qed
  qed
  moreover have "positions_ok ?t"
  proof -
    have "positions_ok t" using ok by (simp add: seats_ok_def)
    moreover have "tget t i = Some b" if "tget ?t i = Some b" "sb_status b = Waitlisted" for i b
      using old [OF that(1)] that(2) by (auto simp: seat_active_def)
    ultimately show ?thesis unfolding positions_ok_def by meson
  qed
  moreover have "tget (tput k sh' shifts) (sb_shift b) \<noteq> None" if "tget ?t i = Some b" for i b
  proof -
    from old [OF that] obtain a where "tget t i = Some a" "sb_shift a = sb_shift b" by blast
    moreover from ok this(1) have "tget shifts (sb_shift a) \<noteq> None" by (simp add: seats_ok_def)
    ultimately show ?thesis by (simp add: tget_tput)
  qed
  ultimately show ?thesis
    using tok unfolding seats_ok_def by (simp add: tok_tupdate_where)
qed

lemma seats_new_shift:
  assumes "seats_ok env shifts t" and "tget shifts k = None" and "\<not> sh_is_cancelled sh"
  shows "seats_ok env (tput k sh shifts) t"
proof -
  have none: "sb_shift b \<noteq> k" if "tget t j = Some b" for j b
  proof -
    from assms(1) that have "tget shifts (sb_shift b) \<noteq> None" unfolding seats_ok_def by blast
    with assms(2) show ?thesis by auto
  qed
  then have "with_status k st t = 0" for st
    using assms(1) unfolding with_status_def seats_ok_def by (subst tcount_none) auto
  then have "shift_ok env t k sh" using assms(3) by (auto simp: shift_ok_def split: option.splits)
  with assms(1) show ?thesis unfolding seats_ok_def by (auto simp: tget_tput)
qed

section \<open>The promoted seat\<close>

lemma next_up_Some:
  assumes "next_up k t = Some (i, w)" and "tok t"
  shows "tget t i = Some w \<and> sb_shift w = k \<and> sb_status w = Waitlisted
    \<and> (\<forall>l b. tget t l = Some b \<longrightarrow> sb_shift b = k \<longrightarrow> sb_status b = Waitlisted \<longrightarrow> position_key w \<le> position_key b)"
proof -
  let ?q = "filter (\<lambda>kb. sb_shift (snd kb) = k \<and> sb_status (snd kb) = Waitlisted) t"
  let ?s = "sort_key (\<lambda>kb. position_key (snd kb)) ?q"
  from assms(1) obtain rest where s: "?s = (i, w) # rest"
    by (auto simp: next_up_def split: list.splits)
  have "(i, w) \<in> set ?s" unfolding s by simp
  then have w: "(i, w) \<in> set t" "sb_shift w = k" "sb_status w = Waitlisted" by auto
  have "sorted (map (\<lambda>kb. position_key (snd kb)) ?s)" by simp
  then have "position_key w \<le> position_key (snd kb)" if "kb \<in> set ?s" for kb
    using that unfolding s by auto
  then have "position_key w \<le> position_key b" if "(l, b) \<in> set ?q" for l b
    using that by fastforce
  then have "position_key w \<le> position_key b"
    if "tget t l = Some b" "sb_shift b = k" "sb_status b = Waitlisted" for l b
    using that tget_in_set [OF that(1)] by simp
  with w assms(2) show ?thesis by (simp add: tget_iff)
qed

lemma next_up_None:
  assumes "next_up k t = None" and "tget t i = Some w"
  shows "\<not> (sb_shift w = k \<and> sb_status w = Waitlisted)"
proof -
  let ?q = "filter (\<lambda>kb. sb_shift (snd kb) = k \<and> sb_status (snd kb) = Waitlisted) t"
  from assms(1) have "sort_key (\<lambda>kb. position_key (snd kb)) ?q = []"
    by (auto simp: next_up_def split: list.splits)
  then have "set (sort_key (\<lambda>kb. position_key (snd kb)) ?q) = {}" by simp
  then have "set ?q = {}" by (simp only: set_sort)
  with tget_in_set [OF assms(2)] show ?thesis by auto
qed

lemma cancel_frees:
  assumes ok: "seats_ok env shifts t" and j: "tget t j = Some b" "sb_status b = Confirmed"
    and sh: "tget shifts (sb_shift b) = Some sh" and b': "sb_status b' \<noteq> Confirmed"
  shows "case effective_capacity env sh of None \<Rightarrow> True
    | Some c \<Rightarrow> with_status (sb_shift b) Confirmed (tput j b' t) < c"
proof -
  from ok have tok: "tok t" by (simp add: seats_ok_def)
  have "Suc (with_status (sb_shift b) Confirmed (tput j b' t)) = with_status (sb_shift b) Confirmed t"
    unfolding with_status_def using j b' by (intro tbl.count_leave_Suc [OF tok j(1)]) auto
  moreover from ok sh have "shift_ok env t (sb_shift b) sh" by (simp add: seats_ok_def)
  ultimately show ?thesis by (auto simp: shift_ok_def split: option.splits)
qed

section \<open>The transition system\<close>

definition shift_inv :: "shift_env \<Rightarrow> shift_state \<Rightarrow> bool" where
  "shift_inv env s \<longleftrightarrow> seats_ok env (vs_shifts s) (vs_seats s)"

lemmas shift_updates = emit_def put_seat_def Let_def

lemma book_inv:
  "shift_inv env s \<Longrightarrow> book_shift env s now j k inst prof actor = Inr s' \<Longrightarrow> shift_inv env s'"
  by (auto simp: shift_inv_def book_shift_def shift_updates split: if_splits option.splits sum.splits
      intro: seats_add)

text \<open>What a successful cancellation does to the rows, with and without a promotion.\<close>

lemma cancel_seat_cases:
  assumes c: "cancel_seat env s now j inst actor reason = Inr s'" and ok: "seats_ok env (vs_shifts s) (vs_seats s)"
    and own: "\<And>b. tget (vs_seats s) j = Some b \<Longrightarrow> sb_shift inst = sb_shift b"
  obtains b b' sh where "tget (vs_seats s) j = Some b" "cancellable (sb_status b)"
    "tget (vs_shifts s) (sb_shift b) = Some sh" "\<not> sh_is_cancelled sh" "vs_shifts s' = vs_shifts s"
    "b' = b\<lparr>sb_status := SeatCancelled, sb_cancelled_at := Some now, sb_reason := take 300 reason\<rparr>"
    "if sb_status b = Confirmed \<and> sh_waitlist_enabled sh
     then (case next_up (sb_shift b) (tput j b' (vs_seats s)) of None \<Rightarrow> vs_seats s' = tput j b' (vs_seats s)
       | Some (i, w) \<Rightarrow> vs_seats s' = tput i (w\<lparr>sb_status := Confirmed, sb_position := None\<rparr>) (tput j b' (vs_seats s)))
     else vs_seats s' = tput j b' (vs_seats s)"
proof -
  from c obtain b sh where b: "tget (vs_seats s) j = Some b" "cancellable (sb_status b)"
    and sh: "tget (vs_shifts s) (sb_shift inst) = Some sh" "\<not> sh_is_cancelled sh"
    by (auto simp: cancel_seat_def split: if_splits option.splits)
  have inst: "sb_shift inst = sb_shift b" by (rule own [OF b(1)])
  let ?b' = "b\<lparr>sb_status := SeatCancelled, sb_cancelled_at := Some now, sb_reason := take 300 reason\<rparr>"
  show ?thesis
    by (rule that [OF b sh(1) [unfolded inst] sh(2) _ refl])
      (use c b sh in \<open>auto simp: cancel_seat_def shift_updates split: if_splits option.splits prod.splits\<close>)
qed

lemma cancel_seat_inv:
  assumes "shift_inv env s" and c: "cancel_seat env s now j inst actor reason = Inr s'"
    and own: "\<And>b. tget (vs_seats s) j = Some b \<Longrightarrow> sb_shift inst = sb_shift b"
  shows "shift_inv env s'"
proof -
  from assms(1) have ok: "seats_ok env (vs_shifts s) (vs_seats s)" by (simp add: shift_inv_def)
  from c ok own obtain b b' sh where b: "tget (vs_seats s) j = Some b" "cancellable (sb_status b)"
    and sh: "tget (vs_shifts s) (sb_shift b) = Some sh" "\<not> sh_is_cancelled sh" and same: "vs_shifts s' = vs_shifts s"
    and b': "b' = b\<lparr>sb_status := SeatCancelled, sb_cancelled_at := Some now, sb_reason := take 300 reason\<rparr>"
    and s': "if sb_status b = Confirmed \<and> sh_waitlist_enabled sh
     then (case next_up (sb_shift b) (tput j b' (vs_seats s)) of None \<Rightarrow> vs_seats s' = tput j b' (vs_seats s)
       | Some (i, w) \<Rightarrow> vs_seats s' = tput i (w\<lparr>sb_status := Confirmed, sb_position := None\<rparr>) (tput j b' (vs_seats s)))
     else vs_seats s' = tput j b' (vs_seats s)"
    by (rule cancel_seat_cases)
  let ?t = "tput j b' (vs_seats s)"
  have ok1: "seats_ok env (vs_shifts s) ?t"
    using b b' by (intro seats_deactivate [OF ok b(1)]) (simp_all add: seat_active_def)
  show ?thesis
  proof (cases "sb_status b = Confirmed \<and> sh_waitlist_enabled sh \<and> next_up (sb_shift b) ?t \<noteq> None")
    case False
    then have "vs_seats s' = ?t" using s' by (auto split: if_splits option.splits)
    with ok1 same show ?thesis by (simp add: shift_inv_def)
  next
    case True
    then obtain i w where up: "next_up (sb_shift b) ?t = Some (i, w)" by auto
    have tok: "tok ?t" using ok1 by (simp add: seats_ok_def)
    from next_up_Some [OF up tok] have w: "tget ?t i = Some w" "sb_shift w = sb_shift b" "sb_status w = Waitlisted" by auto
    have free: "case effective_capacity env sh of None \<Rightarrow> True | Some c \<Rightarrow> with_status (sb_shift w) Confirmed ?t < c"
    proof -
      have "sb_status b' \<noteq> Confirmed" by (simp add: b')
      from cancel_frees [OF ok b(1) _ sh(1) this] True show ?thesis unfolding w(2) by blast
    qed
    have "seats_ok env (vs_shifts s) (tput i (w\<lparr>sb_status := Confirmed, sb_position := None\<rparr>) ?t)"
      using sh w by (intro seats_promote [OF ok1 w(1,3) _ _ _ _ sh(2) free]) simp_all
    moreover have "vs_seats s' = tput i (w\<lparr>sb_status := Confirmed, sb_position := None\<rparr>) ?t"
      using s' True up by simp
    ultimately show ?thesis using same by (simp add: shift_inv_def)
  qed
qed

lemma cancel_shift_inv:
  assumes "shift_inv env s" and "cancel_shift s now k inst actor reason = Inr s'"
  shows "shift_inv env s'"
proof -
  from assms(1) have ok: "seats_ok env (vs_shifts s) (vs_seats s)" by (simp add: shift_inv_def)
  from assms(2) obtain sh where sh: "tget (vs_shifts s) k = Some sh" "\<not> sh_is_cancelled sh"
    by (auto simp: cancel_shift_def split: if_splits option.splits)
  let ?sh = "sh\<lparr>sh_is_cancelled := True, sh_cancelled_at := Some now, sh_cancelled_by := Some (va_pk actor),
      sh_reason := py_strip reason\<rparr>"
  let ?f = "\<lambda>b. b\<lparr>sb_status := SeatCancelled, sb_cancelled_at := Some now,
      sb_reason := take 299 (''Shift cancelled: '' @ py_strip reason)\<rparr>"
  from assms(2) sh have s': "vs_shifts s' = tput k ?sh (vs_shifts s)"
    "vs_seats s' = tupdate_where (\<lambda>b. sb_shift b = k \<and> seat_active b) ?f (vs_seats s)"
    by (auto simp: cancel_shift_def shift_updates split: if_splits)
  have "seats_ok env (tput k ?sh (vs_shifts s)) (tupdate_where (\<lambda>b. sb_shift b = k \<and> seat_active b) ?f (vs_seats s))"
    by (rule seats_cancel_shift [OF ok sh(1)]) (simp_all add: effective_capacity_def seat_active_def split: option.splits)
  then show ?thesis unfolding shift_inv_def s' .
qed

lemma finish_inv:
  assumes "shift_inv env s" and "tget (vs_seats s) j = Some b" and "st \<in> {NoShow, SeatCompleted}"
    and "vs_seats s' = tput j (b\<lparr>sb_status := st\<rparr>) (vs_seats s)" and "vs_shifts s' = vs_shifts s"
  shows "shift_inv env s'"
  using assms by (auto simp: shift_inv_def seat_active_def intro!: seats_deactivate)

lemma no_show_inv:
  "shift_inv env s \<Longrightarrow> mark_seat_no_show s now j inst sh actor = Inr s' \<Longrightarrow> shift_inv env s'"
  by (auto simp: mark_seat_no_show_def shift_updates split: if_splits option.splits
      elim!: finish_inv [where st = NoShow])

lemma complete_inv:
  "shift_inv env s \<Longrightarrow> complete_seat env s now j inst sh actor = Inr s' \<Longrightarrow> shift_inv env s'"
  by (auto simp: complete_seat_def shift_updates split: if_splits option.splits
      elim!: finish_inv [where st = SeatCompleted])

text \<open>A volunteer's row for a shift never goes away.\<close>

definition has_row :: "shift_state \<Rightarrow> nat \<Rightarrow> nat \<Rightarrow> bool" where
  "has_row s k v \<longleftrightarrow> (\<exists>j b. tget (vs_seats s) j = Some b \<and> sb_shift b = k \<and> sb_volunteer b = v)"

definition rows_kept :: "shift_state \<Rightarrow> shift_state \<Rightarrow> bool" where
  "rows_kept s s' \<longleftrightarrow> (\<forall>k v. has_row s k v \<longrightarrow> has_row s' k v)"

lemma has_row_exists: "has_row s k v \<Longrightarrow> seat_exists k v (vs_seats s)"
  by (force simp: has_row_def seat_exists_def list_ex_iff dest: tget_in_set)

text \<open>Each step maps every stored seat to one of the same shift and volunteer.\<close>

lemma rows_kept_map:
  assumes "\<And>i a. tget (vs_seats s) i = Some a
    \<Longrightarrow> \<exists>b. tget (vs_seats s') i = Some b \<and> sb_shift b = sb_shift a \<and> sb_volunteer b = sb_volunteer a"
  shows "rows_kept s s'"
  unfolding rows_kept_def has_row_def using assms by metis

lemma rows_kept_cancel:
  assumes "shift_inv env s" and c: "cancel_seat env s now j inst actor reason = Inr s'"
    and own: "\<And>b. tget (vs_seats s) j = Some b \<Longrightarrow> sb_shift inst = sb_shift b"
  shows "rows_kept s s'"
proof -
  from assms(1) have ok: "seats_ok env (vs_shifts s) (vs_seats s)" by (simp add: shift_inv_def)
  from c ok own obtain b b' sh where b: "tget (vs_seats s) j = Some b" "cancellable (sb_status b)"
    and sh: "tget (vs_shifts s) (sb_shift b) = Some sh" "\<not> sh_is_cancelled sh" and same: "vs_shifts s' = vs_shifts s"
    and b': "b' = b\<lparr>sb_status := SeatCancelled, sb_cancelled_at := Some now, sb_reason := take 300 reason\<rparr>"
    and s': "if sb_status b = Confirmed \<and> sh_waitlist_enabled sh
     then (case next_up (sb_shift b) (tput j b' (vs_seats s)) of None \<Rightarrow> vs_seats s' = tput j b' (vs_seats s)
       | Some (i, w) \<Rightarrow> vs_seats s' = tput i (w\<lparr>sb_status := Confirmed, sb_position := None\<rparr>) (tput j b' (vs_seats s)))
     else vs_seats s' = tput j b' (vs_seats s)"
    by (rule cancel_seat_cases)
  have tok: "tok (tput j b' (vs_seats s))" using ok by (simp add: seats_ok_def tok_tput)
  consider "vs_seats s' = tput j b' (vs_seats s)"
    | i w where "next_up (sb_shift b) (tput j b' (vs_seats s)) = Some (i, w)"
      "vs_seats s' = tput i (w\<lparr>sb_status := Confirmed, sb_position := None\<rparr>) (tput j b' (vs_seats s))"
    using s' by (auto split: if_splits option.splits)
  then show ?thesis
  proof cases
    case 1
    with b b' show ?thesis by (intro rows_kept_map) (auto simp: tget_tput)
  next
    case 2
    from next_up_Some [OF 2(1) tok] have "tget (tput j b' (vs_seats s)) i = Some w" by simp
    with 2(2) b b' show ?thesis by (intro rows_kept_map) (auto simp: tget_tput split: if_splits)
  qed
qed

lemma rows_kept_step:
  assumes "shift_inv env s" and "shift_owed s x" and "shift_step env s x = Inr s'"
  shows "rows_kept s s'"
proof (cases x)
  case (SCancel now j inst actor reason)
  with assms show ?thesis by (auto intro: rows_kept_cancel)
next
  case (SCancelShift now k inst actor reason)
  with assms show ?thesis
    by (auto simp: cancel_shift_def shift_updates tget_tupdate_where split: if_splits option.splits
        intro!: rows_kept_map)
qed (use assms in \<open>auto simp: book_shift_def mark_seat_no_show_def complete_seat_def shift_updates tget_tput
      split: if_splits option.splits sum.splits intro!: rows_kept_map\<close>)

interpretation shifts: monotone_system "shift_step env" shift_owed "shift_inv env" rows_kept for env
proof unfold_locales
  fix s x s'
  assume a: "shift_inv env s" "shift_owed s x" "shift_step env s x = Inr s'"
  then show "rows_kept s s'" by (rule rows_kept_step)
  show "shift_inv env s'"
  proof (cases x)
    case (SNewShift k sh)
    with a show ?thesis by (auto simp: shift_inv_def split: if_splits intro: seats_new_shift)
  qed (use a in \<open>auto intro: book_inv cancel_seat_inv no_show_inv complete_inv cancel_shift_inv\<close>)
qed (auto simp: rows_kept_def)

definition no_shifts :: shift_state where
  "no_shifts = \<lparr>vs_shifts = [], vs_seats = [], vs_hours = [], vs_signals = []\<rparr>"

lemma no_shifts_inv [simp]: "shift_inv env no_shifts"
  by (simp add: shift_inv_def no_shifts_def seats_ok_def positions_ok_def rows_unique_def)

lemma log_hours_bounds:
  assumes "complete_seat env s now j inst sh actor = Inr s'"
  shows "\<exists>new. vs_hours s' = vs_hours s @ new \<and> (\<forall>h\<in>set new. 0 < hl_hours h \<and> hl_hours h \<le> 2400)"
  using assms by (auto simp: complete_seat_def shift_updates split: if_splits option.splits)

section \<open>Properties\<close>

text \<open>A shift with one seat, three volunteers, and a coordinator.\<close>

definition small_shift :: shift where
  "small_shift = \<lparr>sh_opportunity = 1, sh_start = 1000, sh_end = 8200, sh_capacity = Some 1,
     sh_waitlist_enabled = True, sh_waitlist_cap = None, sh_is_cancelled = False, sh_cancelled_at = None,
     sh_cancelled_by = None, sh_reason = ''''\<rparr>"

definition small_env :: shift_env where
  "small_env = \<lparr>ve_user = id, ve_capacity = (\<lambda>_. None), ve_approved = (\<lambda>_ _. True),
     ve_local_date = (\<lambda>t. t div 86400), ve_tie_up = (\<lambda>_. True)\<rparr>"

definition volunteer_actor :: "nat \<Rightarrow> vol_actor" where
  "volunteer_actor n = \<lparr>va_pk = n, va_change_booking = False, va_change_shift = False\<rparr>"

definition small_ops :: "shift_op list" where
  "small_ops = [SNewShift 1 small_shift,
     SBook 0 10 1 small_shift \<lparr>vp_pk = 7, vp_user = 7\<rparr> (volunteer_actor 7),
     SBook 0 11 1 small_shift \<lparr>vp_pk = 8, vp_user = 8\<rparr> (volunteer_actor 8),
     SBook 0 12 1 small_shift \<lparr>vp_pk = 9, vp_user = 9\<rparr> (volunteer_actor 9)]"

definition small_state :: shift_state where
  "small_state = run_ops (shift_step small_env) no_shifts small_ops"

lemmas small_eval = small_shift_def small_env_def volunteer_actor_def small_ops_def no_shifts_def
  book_shift_def seat_decision_def new_seat_def with_status_def tcount_def max_position_def seat_exists_def
  effective_capacity_def shift_updates tget_def tput_def

lemma small_state_eq:
  "small_state = no_shifts\<lparr>vs_shifts := [(1, small_shift)],
     vs_seats := [(10, new_seat 1 7 Confirmed None), (11, new_seat 1 8 Waitlisted (Some 1)),
       (12, new_seat 1 9 Waitlisted (Some 2))],
     vs_signals := [ShiftBooked 10, ShiftBooked 11, ShiftBooked 12]\<rparr>"
  unfolding small_state_def by (simp add: small_eval)

lemma small_owed: "ops_ok shift_owed (shift_step small_env) no_shifts small_ops"
  by (simp add: small_ops_def small_shift_def)

lemma small_inv: "shift_inv small_env small_state"
  unfolding small_state_def by (intro shifts.inv_run no_shifts_inv small_owed)

text \<open>
  C8. Shifts are not overbooked. After any sequence of bookings, cancellations, no-shows,
  completions and shift cancellations, every shift has at most its effective capacity of
  confirmed seats and at most its waitlist cap of waiting ones, a cancelled shift has
  neither, waiting seats of a shift have pairwise different positions, and a volunteer has
  at most one seat row per shift.
\<close>

theorem shifts_not_overbooked:
  assumes "ops_ok shift_owed (shift_step env) no_shifts xs"
    and "s = run_ops (shift_step env) no_shifts xs" and "tget (vs_shifts s) k = Some sh"
  shows "(\<forall>c. effective_capacity env sh = Some c \<longrightarrow> with_status k Confirmed (vs_seats s) \<le> c)
    \<and> (\<forall>c. sh_waitlist_cap sh = Some c \<longrightarrow> with_status k Waitlisted (vs_seats s) \<le> c)
    \<and> (sh_is_cancelled sh \<longrightarrow> with_status k Confirmed (vs_seats s) = 0 \<and> with_status k Waitlisted (vs_seats s) = 0)
    \<and> (\<forall>i a j b. tget (vs_seats s) i = Some a \<longrightarrow> tget (vs_seats s) j = Some b \<longrightarrow> i \<noteq> j
         \<longrightarrow> sb_shift a = k \<longrightarrow> sb_shift b = k
         \<longrightarrow> sb_volunteer a \<noteq> sb_volunteer b
           \<and> (sb_status a = Waitlisted \<longrightarrow> sb_status b = Waitlisted \<longrightarrow> sb_position a \<noteq> sb_position b))"
proof -
  have "shift_inv env s" unfolding assms(2) using assms(1) by (intro shifts.inv_run) simp_all
  then have ok: "seats_ok env (vs_shifts s) (vs_seats s)" by (simp add: shift_inv_def)
  then have k: "shift_ok env (vs_seats s) k sh" using assms(3) unfolding seats_ok_def by blast
  have u: "rows_unique (vs_seats s)" "positions_ok (vs_seats s)" using ok unfolding seats_ok_def by blast+
  show ?thesis
  proof (intro conjI allI impI)
    fix i a j b
    assume r: "tget (vs_seats s) i = Some a" "tget (vs_seats s) j = Some b" "i \<noteq> j" "sb_shift a = k" "sb_shift b = k"
    show "sb_volunteer a \<noteq> sb_volunteer b"
      using u(1) r unfolding rows_unique_def by metis
    show "sb_position a \<noteq> sb_position b" if "sb_status a = Waitlisted" "sb_status b = Waitlisted"
      using u(2) r that unfolding positions_ok_def by metis
  qed (use k in \<open>auto simp: shift_ok_def\<close>)
qed

theorem shifts_not_overbooked_witness:
  "with_status 1 Confirmed (vs_seats small_state) \<le> 1
    \<and> tget (vs_seats small_state) 11 = Some (new_seat 1 8 Waitlisted (Some 1))"
proof -
  have sh: "tget (vs_shifts small_state) 1 = Some small_shift"
    by (simp add: small_state_eq no_shifts_def tget_def)
  from shifts_not_overbooked [OF small_owed small_state_def sh] show ?thesis
    by (auto simp: effective_capacity_def small_shift_def) (simp add: small_state_eq no_shifts_def tget_def)
qed

text \<open>
  C29. A freed seat goes to the head of the waitlist. When a confirmed seat of a shift with a
  waitlist is cancelled while someone waits, the call confirms the waiting seat with the
  lowest position, clears its position, leaves every other row as it was, and the number of
  confirmed seats is unchanged.
\<close>

theorem cancel_promotes_head_of_waitlist:
  assumes "shift_inv env s" and "cancel_seat env s now j inst actor reason = Inr s'"
    and "tget (vs_seats s) j = Some b" and "sb_status b = Confirmed" and "sb_shift inst = sb_shift b"
    and "tget (vs_shifts s) (sb_shift b) = Some sh" and "sh_waitlist_enabled sh"
    and "tget (vs_seats s) l = Some q" and "sb_shift q = sb_shift b" and "sb_status q = Waitlisted"
  shows "\<exists>i w p. tget (vs_seats s) i = Some w \<and> sb_shift w = sb_shift b \<and> sb_status w = Waitlisted
    \<and> sb_position w = Some p
    \<and> (\<forall>r c. tget (vs_seats s) r = Some c \<longrightarrow> sb_shift c = sb_shift b \<longrightarrow> sb_status c = Waitlisted
         \<longrightarrow> (\<exists>p'. sb_position c = Some p' \<and> p \<le> p'))
    \<and> tget (vs_seats s') i = Some (w\<lparr>sb_status := Confirmed, sb_position := None\<rparr>)
    \<and> (\<forall>r. r \<noteq> i \<longrightarrow> r \<noteq> j \<longrightarrow> tget (vs_seats s') r = tget (vs_seats s) r)
    \<and> with_status (sb_shift b) Confirmed (vs_seats s') = with_status (sb_shift b) Confirmed (vs_seats s)"
proof -
  from assms(1) have ok: "seats_ok env (vs_shifts s) (vs_seats s)" by (simp add: shift_inv_def)
  then have tok: "tok (vs_seats s)" and pos: "positions_ok (vs_seats s)" unfolding seats_ok_def by blast+
  have own: "sb_shift inst = sb_shift c" if "tget (vs_seats s) j = Some c" for c
    using that assms(3,5) by simp
  from assms(2) ok own obtain c b' x where c: "tget (vs_seats s) j = Some c" "cancellable (sb_status c)"
    and x: "tget (vs_shifts s) (sb_shift c) = Some x" "\<not> sh_is_cancelled x" and "vs_shifts s' = vs_shifts s"
    and b': "b' = c\<lparr>sb_status := SeatCancelled, sb_cancelled_at := Some now, sb_reason := take 300 reason\<rparr>"
    and s': "if sb_status c = Confirmed \<and> sh_waitlist_enabled x
     then (case next_up (sb_shift c) (tput j b' (vs_seats s)) of None \<Rightarrow> vs_seats s' = tput j b' (vs_seats s)
       | Some (i, w) \<Rightarrow> vs_seats s' = tput i (w\<lparr>sb_status := Confirmed, sb_position := None\<rparr>) (tput j b' (vs_seats s)))
     else vs_seats s' = tput j b' (vs_seats s)"
    by (rule cancel_seat_cases)
  let ?t = "tput j b' (vs_seats s)"
  from c(1) x(1) assms(3,6) have eq: "c = b" "x = sh" by auto
  have l: "l \<noteq> j" using assms(3,4,8,10) by auto
  then have "tget ?t l = Some q" using assms(8) by (simp add: tget_tput)
  then have "next_up (sb_shift b) ?t \<noteq> None" using next_up_None assms(9,10) by blast
  then obtain i w where up: "next_up (sb_shift b) ?t = Some (i, w)" by auto
  note head = next_up_Some [OF up tok_tput [OF tok]]
  have i: "i \<noteq> j" using head b' by (auto simp: tget_tput)
  then have w: "tget (vs_seats s) i = Some w" using head by (simp add: tget_tput)
  then obtain p where p: "sb_position w = Some p" using pos head unfolding positions_ok_def by blast
  have s1: "vs_seats s' = tput i (w\<lparr>sb_status := Confirmed, sb_position := None\<rparr>) ?t"
    using s' eq assms(4,7) up by simp
  have least: "\<exists>p'. sb_position d = Some p' \<and> p \<le> p'"
    if d: "tget (vs_seats s) r = Some d" "sb_shift d = sb_shift b" "sb_status d = Waitlisted" for r d
  proof -
    from d(1,3) assms(3,4) have "r \<noteq> j" by auto
    with d(1) have "tget ?t r = Some d" by (simp add: tget_tput)
    with head d(2,3) have "position_key w \<le> position_key d" by blast
    moreover from pos d(1,3) obtain p' where "sb_position d = Some p'" unfolding positions_ok_def by blast
    ultimately show ?thesis using p by (simp add: position_key_def)
  qed
  let ?P = "\<lambda>b'. sb_shift b' = sb_shift b \<and> sb_status b' = Confirmed"
  have "tcount ?P (vs_seats s') = Suc (tcount ?P ?t)"
    unfolding s1 using head by (intro tbl.count_enter [OF tok_tput [OF tok]]) auto
  moreover have "Suc (tcount ?P ?t) = tcount ?P (vs_seats s)"
    using assms(3,4) b' by (intro tbl.count_leave_Suc [OF tok]) auto
  ultimately have "with_status (sb_shift b) Confirmed (vs_seats s') = with_status (sb_shift b) Confirmed (vs_seats s)"
    by (simp add: with_status_def)
  then show ?thesis
    using w p head least i s1 by (intro exI [of _ i] exI [of _ w] exI [of _ p]) (auto simp: tget_tput)
qed

theorem cancel_promotes_head_of_waitlist_witness:
  "\<exists>s'. cancel_seat small_env small_state 5 10 (new_seat 1 7 Confirmed None) (volunteer_actor 7) '''' = Inr s'
    \<and> with_status 1 Confirmed (vs_seats s') = 1"
proof -
  have rows: "tget (vs_seats small_state) 10 = Some (new_seat 1 7 Confirmed None)"
    "tget (vs_shifts small_state) 1 = Some small_shift"
    "tget (vs_seats small_state) 11 = Some (new_seat 1 8 Waitlisted (Some 1))"
    "with_status 1 Confirmed (vs_seats small_state) = 1"
    by (simp_all add: small_state_eq no_shifts_def tget_def with_status_def tcount_def new_seat_def)
  have "va_pk (volunteer_actor 7) = ve_user small_env 7" "\<not> sh_is_cancelled small_shift"
    by (simp_all add: small_env_def volunteer_actor_def small_shift_def)
  with rows have "\<exists>s'. cancel_seat small_env small_state 5 10 (new_seat 1 7 Confirmed None) (volunteer_actor 7) '''' = Inr s'"
    by (simp add: cancel_seat_def cancellable_def Let_def)
  then obtain s' where s': "cancel_seat small_env small_state 5 10 (new_seat 1 7 Confirmed None) (volunteer_actor 7) '''' = Inr s'" ..
  from cancel_promotes_head_of_waitlist [OF small_inv s' rows(1), of small_shift 11 "new_seat 1 8 Waitlisted (Some 1)"]
    rows s' show ?thesis by (auto simp: new_seat_def small_shift_def)
qed

text \<open>
  Once booked, never booked again. A seat row is never deleted and a volunteer may have
  one row per shift, so after a volunteer's seat is cancelled (or in any other state),
  whatever happens later, every attempt of the volunteer to book the shift is refused; with
  all other conditions met and a seat free the refusal is the uniqueness check of \<open>full_clean\<close>.
\<close>

theorem cancelled_seat_blocks_rebooking:
  assumes "shift_inv env s" and "tget (vs_seats s) j = Some b" and "ops_ok shift_owed (shift_step env) s xs"
    and "s' = run_ops (shift_step env) s xs" and "vp_pk prof = sb_volunteer b"
  shows "(\<exists>e. book_shift env s' now i (sb_shift b) inst prof actor = Inl e)
    \<and> (va_pk actor = vp_user prof \<and> \<not> sh_is_cancelled inst \<and> now < sh_start inst
         \<and> ve_approved env (vp_pk prof) (sh_opportunity inst)
         \<and> (\<exists>sh. tget (vs_shifts s') (sb_shift b) = Some sh \<and> \<not> sh_is_cancelled sh
              \<and> (case effective_capacity env sh of None \<Rightarrow> True
                 | Some c \<Rightarrow> with_status (sb_shift b) Confirmed (vs_seats s') < c))
       \<longrightarrow> book_shift env s' now i (sb_shift b) inst prof actor = Inl AlreadyBooked)"
proof -
  have "rows_kept s s'" unfolding assms(4) using assms(1,3) by (rule shifts.rel_run)
  moreover have "has_row s (sb_shift b) (sb_volunteer b)" using assms(2) by (auto simp: has_row_def)
  ultimately have ex: "seat_exists (sb_shift b) (vp_pk prof) (vs_seats s')"
    using assms(5) by (auto simp: rows_kept_def intro: has_row_exists)
  then have "\<exists>e. book_shift env s' now i (sb_shift b) inst prof actor = Inl e"
    by (auto simp: book_shift_def split: option.splits sum.splits)
  moreover have "book_shift env s' now i (sb_shift b) inst prof actor = Inl AlreadyBooked"
    if "va_pk actor = vp_user prof" "\<not> sh_is_cancelled inst" "now < sh_start inst"
      "ve_approved env (vp_pk prof) (sh_opportunity inst)" "tget (vs_shifts s') (sb_shift b) = Some sh"
      "\<not> sh_is_cancelled sh" "case effective_capacity env sh of None \<Rightarrow> True
                 | Some c \<Rightarrow> with_status (sb_shift b) Confirmed (vs_seats s') < c" for sh
    using that ex by (simp add: book_shift_def seat_decision_def Let_def)
  ultimately show ?thesis by blast
qed

definition rebook_state :: shift_state where
  "rebook_state = run_ops (shift_step small_env) small_state
     [SCancel 5 11 (new_seat 1 8 Waitlisted (Some 1)) (volunteer_actor 8) '''']"

theorem cancelled_seat_blocks_rebooking_witness:
  "\<exists>e. book_shift small_env rebook_state 6 13 1 small_shift \<lparr>vp_pk = 8, vp_user = 8\<rparr> (volunteer_actor 8) = Inl e"
proof -
  have row: "tget (vs_seats small_state) 11 = Some (new_seat 1 8 Waitlisted (Some 1))"
    by (simp add: small_state_eq no_shifts_def tget_def)
  then have "ops_ok shift_owed (shift_step small_env) small_state
      [SCancel 5 11 (new_seat 1 8 Waitlisted (Some 1)) (volunteer_actor 8) '''']"
    by simp
  from cancelled_seat_blocks_rebooking [OF small_inv row this rebook_state_def, of "\<lparr>vp_pk = 8, vp_user = 8\<rparr>" 6 13
      small_shift "volunteer_actor 8"]
  show ?thesis by (simp add: new_seat_def)
qed

end
