(* ===== verification/PaymentAttempts.thy ===== *)
theory PaymentAttempts
  imports Prelude
begin

text \<open>
  Durable payment attempts: the rows of \<open>apps/payments/govstack_models.py\<close> and
  \<open>models.py\<close> that provider execution uses, the provider contract of
  \<open>govstack_provider.py\<close>, and \<open>PaymentLifecycleService\<close> of
  \<open>govstack_failure_services.py\<close>. Amounts are hundredths (\<open>None\<close> is NULL), times
  are seconds. SHA-256 is a parameter \<open>digest\<close>, applied to what is hashed.
\<close>

section \<open>Attempts and their transitions\<close>

datatype attempt_status =
  APending | ARetryable | AUncertain | ASettled | ARejected | AReview | ADeadLetter

definition allowed_transitions :: "attempt_status \<Rightarrow> attempt_status list" where
  "allowed_transitions st = (case st of
     APending \<Rightarrow> [ARetryable, AUncertain, ASettled, ARejected, AReview]
   | ARetryable \<Rightarrow> [APending, AUncertain, ASettled, ARejected, AReview, ADeadLetter]
   | AUncertain \<Rightarrow> [AUncertain, ASettled, ARejected, AReview, ADeadLetter]
   | AReview \<Rightarrow> [APending, ADeadLetter]
   | ASettled \<Rightarrow> [] | ARejected \<Rightarrow> [] | ADeadLetter \<Rightarrow> [])"

datatype call_kind = Submit | Poll

text \<open>\<open>recovery_evidence\<close>: \<open>{}\<close>, an ambiguous outcome (code and ids), or the ids of an accepted one.\<close>

datatype evidence = NoEvidence | Ambiguous string string string | Accepted string string

text \<open>\<open>submission_intent\<close>: \<open>{}\<close>, a provider call, or the command that reserved the attempt.\<close>

datatype submission_intent = NoIntent | CallIntent call_kind string nat | CommandIntent string

record attempt =
  pa_tenant :: string
  pa_claim_token :: string
  pa_claim_expires_at :: "int option"
  pa_claim_generation :: nat
  pa_claim_heartbeat_at :: "int option"
  pa_submission_intent :: submission_intent
  pa_recovery_evidence :: evidence
  pa_request_id :: string
  pa_operation :: string
  pa_source_bb_id :: string
  pa_provider_attempt_id :: string
  pa_external_transaction_id :: string
  pa_amount :: "int option"
  pa_currency :: string
  pa_status :: attempt_status
  pa_failure_code :: string
  pa_failure_category :: string
  pa_retryable :: bool
  pa_attempt_count :: nat
  pa_next_retry_at :: "int option"
  pa_last_error :: string
  pa_payload_fingerprint :: string
  pa_version :: nat

definition attempt_terminal :: "attempt \<Rightarrow> bool" where
  "attempt_terminal a \<longleftrightarrow> pa_status a \<in> {ASettled, ARejected, ADeadLetter}"

text \<open>\<open>PaymentOutcome\<close>, the adapter-neutral vocabulary.\<close>

record pay_outcome =
  po_status :: string
  po_code :: string
  po_category :: string
  po_retryable :: bool
  po_provider_attempt_id :: string
  po_external_transaction_id :: string
  po_message :: string

definition plain_outcome :: "string \<Rightarrow> pay_outcome" where
  "plain_outcome st = \<lparr>po_status = st, po_code = '''', po_category = '''', po_retryable = False,
     po_provider_attempt_id = '''', po_external_transaction_id = '''', po_message = ''''\<rparr>"

datatype pay_error =
    InvalidTransition attempt_status attempt_status
  | UniqueViolation | NullViolation | PayRowMissing
  | IdempotencyConflict | InstructionMismatch | ProviderUnavailable

text \<open>\<open>transition_to\<close>, with the fields \<open>apply_outcome\<close> passes.\<close>

definition transition_to :: "attempt_status \<Rightarrow> pay_outcome \<Rightarrow> attempt \<Rightarrow> pay_error + attempt" where
  "transition_to target out a =
     (if target \<notin> set (allowed_transitions (pa_status a)) then Inl (InvalidTransition (pa_status a) target)
      else Inr (a\<lparr>pa_status := target, pa_failure_code := take 50 (po_code out),
        pa_failure_category := take 30 (po_category out), pa_retryable := po_retryable out,
        pa_provider_attempt_id := take 100 (po_provider_attempt_id out),
        pa_external_transaction_id := take 100 (po_external_transaction_id out),
        pa_last_error := take 255 (po_message out), pa_version := pa_version a + 1\<rparr>))"

section \<open>The provider contract\<close>

datatype provider_outcome =
    PSettled | PRejected | PInvalidAccount | PInsufficientFunds | PTimeout | PNetwork
  | PDuplicate | PUncertain | PCompensated

definition outcome_value :: "provider_outcome \<Rightarrow> string" where
  "outcome_value x = (case x of
     PSettled \<Rightarrow> ''settled'' | PRejected \<Rightarrow> ''rejected'' | PInvalidAccount \<Rightarrow> ''invalid_account''
   | PInsufficientFunds \<Rightarrow> ''insufficient_funds'' | PTimeout \<Rightarrow> ''timeout'' | PNetwork \<Rightarrow> ''network''
   | PDuplicate \<Rightarrow> ''duplicate'' | PUncertain \<Rightarrow> ''uncertain'' | PCompensated \<Rightarrow> ''compensated'')"

definition all_outcomes :: "provider_outcome list" where
  "all_outcomes = [PSettled, PRejected, PInvalidAccount, PInsufficientFunds, PTimeout, PNetwork,
     PDuplicate, PUncertain, PCompensated]"

text \<open>\<open>ProviderOutcome(value)\<close>; another string is a \<open>ValueError\<close>.\<close>

definition parse_outcome :: "string \<Rightarrow> provider_outcome option" where
  "parse_outcome v = List.find (\<lambda>x. outcome_value x = v) all_outcomes"

record provider_result =
  pr_outcome :: provider_outcome
  pr_provider_attempt_id :: string
  pr_external_transaction_id :: string
  pr_code :: string
  pr_message :: string
  pr_retryable :: bool
  pr_raw :: "(string \<times> string) list option"
  pr_observation_id :: string
  pr_event_id :: string
  pr_verified :: bool
  pr_verification_method :: string

definition blank_result :: "provider_outcome \<Rightarrow> provider_result" where
  "blank_result x = \<lparr>pr_outcome = x, pr_provider_attempt_id = '''', pr_external_transaction_id = '''',
     pr_code = '''', pr_message = '''', pr_retryable = False, pr_raw = None, pr_observation_id = '''',
     pr_event_id = '''', pr_verified = False, pr_verification_method = ''''\<rparr>"

definition result_is_final :: "provider_result \<Rightarrow> bool" where
  "result_is_final r \<longleftrightarrow> pr_outcome r \<in> {PSettled, PRejected, PInvalidAccount, PInsufficientFunds, PCompensated}"

definition result_is_settled :: "provider_result \<Rightarrow> bool" where
  "result_is_settled r \<longleftrightarrow> pr_outcome r = PSettled"

definition normalize_result :: "provider_result \<Rightarrow> provider_result" where
  "normalize_result r = r\<lparr>pr_provider_attempt_id := take 100 (pr_provider_attempt_id r),
     pr_external_transaction_id := take 100 (pr_external_transaction_id r),
     pr_code := take 50 (pr_code r), pr_message := take 255 (pr_message r), pr_raw := None,
     pr_observation_id := take 160 (pr_observation_id r), pr_event_id := take 160 (pr_event_id r),
     pr_verification_method := take 80 (pr_verification_method r)\<rparr>"

section \<open>The tables\<close>

record exec_intent =
  ei_attempt :: nat
  ei_scope :: string
  ei_operation :: string
  ei_request_identity :: string
  ei_payload_fingerprint :: string
  ei_provider_correlation :: string
  ei_submit_started_at :: "int option"
  ei_submit_generation :: "nat option"
  ei_correlated :: bool

text \<open>\<open>ProviderObservation\<close>; the metadata of a row is never read back and left out.\<close>

record observation =
  ob_attempt :: nat
  ob_tenant :: string
  ob_kind :: string
  ob_id :: string
  ob_provider_transaction_id :: string
  ob_event_id :: string
  ob_amount :: int
  ob_currency :: string
  ob_outcome :: string
  ob_verified :: bool
  ob_verification_method :: string
  ob_binding_hash :: string
  ob_accepted :: bool

datatype recon_status = ReconMatched | ReconMismatch | ReconUnknown

record reconciliation =
  rc_attempt :: nat
  rc_provider_status :: string
  rc_source_status :: string
  rc_internal_status :: attempt_status
  rc_status :: recon_status
  rc_external_transaction_id :: string

datatype callback_status = CbPending | CbDelivered | CbRetry | CbDead

record callback =
  cb_attempt :: nat
  cb_url :: string
  cb_payload :: string
  cb_payload_hash :: string
  cb_status :: callback_status
  cb_count :: nat
  cb_next_attempt_at :: "int option"
  cb_http_status :: "nat option"
  cb_last_error :: string

datatype pay_action =
    AttemptCreated | RetryScheduled | OutcomeUncertain | ReviewRequired | OutcomeRecorded
  | CallbackQueued | CallbackDelivered | CallbackDeadLettered | ReconciliationRecorded

datatype pay_detail =
    DetOperation string
  | DetRetry nat string
  | DetCode string
  | DetStatus attempt_status string
  | DetOutcome attempt_status string bool nat
  | DetObservation nat bool
  | DetRecon recon_status string
  | DetDelivery nat
  | DetDelivered nat "nat option" nat string

record pay_audit =
  py_action :: pay_action
  py_actor :: string
  py_attempt :: nat
  py_request_id :: string
  py_detail :: pay_detail

text \<open>The state of the payments component; an observation's key is its position.\<close>

record pay_state =
  ps_attempts :: "attempt table"
  ps_intents :: "exec_intent table"
  ps_observations :: "observation list"
  ps_reconciliations :: "reconciliation list"
  ps_callbacks :: "callback table"
  ps_audit :: "pay_audit list"

definition put_attempt :: "nat \<Rightarrow> attempt \<Rightarrow> pay_state \<Rightarrow> pay_state" where
  "put_attempt k a s = s\<lparr>ps_attempts := tput k a (ps_attempts s)\<rparr>"

text \<open>\<open>PaymentLifecycleService.audit\<close>.\<close>

definition pay_log :: "nat \<Rightarrow> attempt \<Rightarrow> pay_action \<Rightarrow> pay_detail \<Rightarrow> pay_state \<Rightarrow> pay_state" where
  "pay_log k a act det s = s\<lparr>ps_audit := ps_audit s @ [\<lparr>py_action = act,
     py_actor = take 50 (pa_source_bb_id a), py_attempt = k, py_request_id = take 20 (pa_request_id a),
     py_detail = det\<rparr>]\<rparr>"

section \<open>PaymentLifecycleService\<close>

definition outcome_to_status :: "(string \<times> attempt_status) list" where
  "outcome_to_status = [(''settled'', ASettled), (''rejected'', ARejected), (''invalid_account'', ARejected),
     (''insufficient_funds'', ARejected), (''retryable'', ARetryable), (''uncertain'', AUncertain),
     (''review'', AReview), (''dead_letter'', ADeadLetter)]"

definition target_status :: "pay_outcome \<Rightarrow> attempt_status" where
  "target_status out = (case map_of outcome_to_status (po_status out) of Some st \<Rightarrow> st | None \<Rightarrow> AReview)"

definition uncertain_poll_delay :: int where
  "uncertain_poll_delay = 300"

definition backoff_seconds :: "nat \<Rightarrow> int" where
  "backoff_seconds n = 60 * int (min 60 (2 ^ min n 6))"

text \<open>\<open>get_or_create_attempt\<close>: \<open>fp\<close> is the payload's fingerprint and \<open>rest\<close> the defaults.\<close>

definition scope_match :: "string \<Rightarrow> string \<Rightarrow> string \<Rightarrow> attempt \<Rightarrow> bool" where
  "scope_match tenant operation request a \<longleftrightarrow> pa_tenant a = take 100 tenant
     \<and> pa_operation a = take 30 operation \<and> pa_request_id a = take 100 request"

definition get_or_create_attempt ::
  "pay_state \<Rightarrow> nat \<Rightarrow> string \<Rightarrow> string \<Rightarrow> string \<Rightarrow> string \<Rightarrow> attempt \<Rightarrow> bool \<Rightarrow> pay_error + (pay_state \<times> nat \<times> bool)" where
  "get_or_create_attempt s k tenant operation request fp rest audit_created =
     (case List.find (\<lambda>ka. scope_match tenant operation request (snd ka)) (ps_attempts s) of
        Some (j, a) \<Rightarrow> if pa_payload_fingerprint a \<noteq> fp then Inl IdempotencyConflict else Inr (s, j, False)
      | None \<Rightarrow>
          if tget (ps_attempts s) k \<noteq> None then Inl UniqueViolation
          else let a = rest\<lparr>pa_tenant := take 100 tenant, pa_operation := take 30 operation,
                 pa_request_id := take 100 request, pa_payload_fingerprint := fp\<rparr>;
                 s1 = put_attempt k a s
               in Inr (if audit_created then pay_log k a AttemptCreated (DetOperation (pa_operation a)) s1 else s1,
                   k, True))"

definition apply_outcome :: "pay_state \<Rightarrow> int \<Rightarrow> nat \<Rightarrow> pay_outcome \<Rightarrow> pay_error + pay_state" where
  "apply_outcome s now k out = (case tget (ps_attempts s) k of
     None \<Rightarrow> Inl PayRowMissing
   | Some a \<Rightarrow>
       if attempt_terminal a then Inr s
       else let target = target_status out in
       case transition_to target out a of
         Inl e \<Rightarrow> Inl e
       | Inr a1 \<Rightarrow>
           let a2 = a1\<lparr>pa_attempt_count := pa_attempt_count a1 + 1, pa_next_retry_at := None\<rparr>;
               a3 = (if target = ARetryable then a2\<lparr>pa_next_retry_at := Some (now + backoff_seconds (pa_attempt_count a2))\<rparr>
                     else if target = AUncertain then a2\<lparr>pa_next_retry_at := Some (now + uncertain_poll_delay)\<rparr>
                     else a2);
               s1 = (if target = ARetryable
                       then pay_log k a3 RetryScheduled (DetRetry (pa_attempt_count a3) (pa_failure_code a3)) s
                     else if target = AUncertain
                       then pay_log k a3 OutcomeUncertain (DetCode (pa_failure_code a3)) s
                     else if target \<in> {AReview, ADeadLetter}
                       then pay_log k a3 ReviewRequired (DetStatus target (pa_failure_code a3)) s
                     else s)
           in Inr (pay_log k a3 OutcomeRecorded
                (DetOutcome target (pa_failure_code a3) (pa_retryable a3) (pa_attempt_count a3)) (put_attempt k a3 s1)))"

text \<open>Callbacks: a deduplicated outbox with bounded retries.\<close>

definition queue_callback ::
  "(string \<Rightarrow> string) \<Rightarrow> pay_state \<Rightarrow> int \<Rightarrow> nat \<Rightarrow> nat \<Rightarrow> string \<Rightarrow> string \<Rightarrow> pay_error + (pay_state \<times> nat \<times> bool)" where
  "queue_callback digest s now j k url payload =
     (case List.find (\<lambda>jc. cb_attempt (snd jc) = k \<and> cb_payload_hash (snd jc) = digest payload) (ps_callbacks s) of
        Some (i, c) \<Rightarrow> Inr (s, i, False)
      | None \<Rightarrow> (case tget (ps_attempts s) k of
          None \<Rightarrow> Inl PayRowMissing
        | Some a \<Rightarrow> if tget (ps_callbacks s) j \<noteq> None then Inl UniqueViolation
            else Inr (pay_log k a CallbackQueued (DetDelivery j)
              (s\<lparr>ps_callbacks := tput j \<lparr>cb_attempt = k, cb_url = take 500 url, cb_payload = payload,
                 cb_payload_hash = digest payload, cb_status = CbPending, cb_count = 0,
                 cb_next_attempt_at = Some now, cb_http_status = None, cb_last_error = ''''\<rparr> (ps_callbacks s)\<rparr>), j, True)))"

definition max_callback_attempts :: nat where
  "max_callback_attempts = 5"

definition record_callback_result ::
  "pay_state \<Rightarrow> int \<Rightarrow> nat \<Rightarrow> nat option \<Rightarrow> string \<Rightarrow> pay_error + pay_state" where
  "record_callback_result s now j http err = (case tget (ps_callbacks s) j of
     None \<Rightarrow> Inl PayRowMissing
   | Some c \<Rightarrow>
       if cb_status c \<in> {CbDelivered, CbDead} then Inr s
       else let n = cb_count c + 1;
                success = (case http of None \<Rightarrow> False | Some h \<Rightarrow> 200 \<le> h \<and> h < 300);
                c1 = c\<lparr>cb_count := n, cb_http_status := http, cb_last_error := take 255 err\<rparr>;
                c2 = (if success then c1\<lparr>cb_status := CbDelivered, cb_next_attempt_at := None\<rparr>
                      else if max_callback_attempts \<le> n then c1\<lparr>cb_status := CbDead, cb_next_attempt_at := None\<rparr>
                      else c1\<lparr>cb_status := CbRetry, cb_next_attempt_at := Some (now + backoff_seconds n)\<rparr>);
                act = (if success then CallbackDelivered
                       else if max_callback_attempts \<le> n then CallbackDeadLettered else RetryScheduled)
       in case tget (ps_attempts s) (cb_attempt c) of
         None \<Rightarrow> Inl PayRowMissing
       | Some a \<Rightarrow> Inr (pay_log (cb_attempt c) a act (DetDelivered j http n (take 50 err))
           (s\<lparr>ps_callbacks := tput j c2 (ps_callbacks s)\<rparr>)))"

definition recon_status_of :: "attempt_status \<Rightarrow> string \<Rightarrow> recon_status" where
  "recon_status_of internal provider =
     (if provider = ''settled'' \<and> internal = ASettled \<or> provider = ''rejected'' \<and> internal = ARejected
      then ReconMatched
      else if provider \<in> {'''', ''unknown''} then ReconUnknown else ReconMismatch)"

definition reconcile_attempt :: "pay_state \<Rightarrow> nat \<Rightarrow> attempt \<Rightarrow> string \<Rightarrow> string \<Rightarrow> pay_state" where
  "reconcile_attempt s k a provider source =
     (let p = take 30 provider; st = recon_status_of (pa_status a) p
      in pay_log k a ReconciliationRecorded (DetRecon st p)
        (s\<lparr>ps_reconciliations := ps_reconciliations s @ [\<lparr>rc_attempt = k, rc_provider_status = p,
           rc_source_status = take 30 source, rc_internal_status = pa_status a, rc_status = st,
           rc_external_transaction_id = take 100 (pa_external_transaction_id a)\<rparr>]\<rparr>))"

text \<open>
  \<open>str.upper\<close> on ASCII letters, and the binding digest of tenant, attempt, amount and
  currency.
\<close>

definition py_upper :: "string \<Rightarrow> string" where
  "py_upper = map (\<lambda>c. let n = (of_char c :: nat) in if 97 \<le> n \<and> n \<le> 122 then char_of (n - 32) else c)"

type_synonym binding_digest = "string \<times> nat \<times> int option \<times> string \<Rightarrow> string"

definition binding_hash :: "binding_digest \<Rightarrow> string \<Rightarrow> nat \<Rightarrow> int option \<Rightarrow> string \<Rightarrow> string" where
  "binding_hash bd tenant k amount currency = bd (tenant, k, amount, py_upper currency)"

text \<open>
  \<open>record_observation\<close>: \<open>inst\<close> is the instance passed, \<open>o\<close> the row to create but
  for its amount (the column is not nullable) and its finality mark. The checks before the
  row is written are the table's constraints.
\<close>

definition observation_exact ::
  "binding_digest \<Rightarrow> nat \<Rightarrow> attempt \<Rightarrow> int option \<Rightarrow> observation \<Rightarrow> bool" where
  "observation_exact bd k inst amount ob \<longleftrightarrow> ob_tenant ob = pa_tenant inst \<and> amount = pa_amount inst
     \<and> py_upper (ob_currency ob) = py_upper (pa_currency inst)
     \<and> ob_binding_hash ob = binding_hash bd (ob_tenant ob) k amount (ob_currency ob)
     \<and> ob_verified ob \<and> ob_outcome ob \<in> {''settled'', ''rejected''}"

definition stored_observation :: "observation \<Rightarrow> int \<Rightarrow> bool \<Rightarrow> observation" where
  "stored_observation ob amount exact = ob\<lparr>ob_tenant := take 100 (ob_tenant ob), ob_kind := take 20 (ob_kind ob),
     ob_id := take 160 (ob_id ob), ob_provider_transaction_id := take 100 (ob_provider_transaction_id ob),
     ob_event_id := take 160 (ob_event_id ob), ob_amount := amount, ob_currency := take 3 (ob_currency ob),
     ob_outcome := take 20 (ob_outcome ob), ob_verification_method := take 80 (ob_verification_method ob),
     ob_binding_hash := take 64 (ob_binding_hash ob), ob_accepted := exact\<rparr>"

definition observation_clash :: "observation list \<Rightarrow> observation \<Rightarrow> bool" where
  "observation_clash obs ob \<longleftrightarrow> list_ex (\<lambda>x. ob_kind x = ob_kind ob \<and> ob_id x = ob_id ob
     \<or> ob_accepted ob \<and> ob_accepted x \<and> ob_attempt x = ob_attempt ob) obs"

definition record_observation ::
  "binding_digest \<Rightarrow> pay_state \<Rightarrow> int \<Rightarrow> nat \<Rightarrow> attempt \<Rightarrow> int option \<Rightarrow> observation
     \<Rightarrow> pay_error + (pay_state \<times> observation)" where
  "record_observation bd s now k inst amount ob =
     (let exact = observation_exact bd k inst amount ob in
      case tget (ps_attempts s) k of
        None \<Rightarrow> Inl PayRowMissing
      | Some a \<Rightarrow> (case amount of
          None \<Rightarrow> Inl NullViolation
        | Some m \<Rightarrow>
            let row = stored_observation (ob\<lparr>ob_attempt := k\<rparr>) m exact;
                s1 = s\<lparr>ps_observations := ps_observations s @ [row]\<rparr>
            in if observation_clash (ps_observations s) row then Inl UniqueViolation
               else if exact \<and> \<not> attempt_terminal a
               then (case apply_outcome s1 now k ((plain_outcome (ob_outcome ob))
                       \<lparr>po_provider_attempt_id := ob_provider_transaction_id ob,
                        po_external_transaction_id := ob_provider_transaction_id ob\<rparr>) of
                     Inl e \<Rightarrow> Inl e | Inr s2 \<Rightarrow> Inr (s2, row))
               else Inr (pay_log k a ReviewRequired (DetObservation (length (ps_observations s)) exact) s1, row)))"

definition final_outcome :: "provider_outcome \<Rightarrow> string" where
  "final_outcome x = (case x of PSettled \<Rightarrow> ''settled'' | PRejected \<Rightarrow> ''rejected''
     | PInvalidAccount \<Rightarrow> ''rejected'' | PInsufficientFunds \<Rightarrow> ''rejected'' | _ \<Rightarrow> ''uncertain'')"

text \<open>Python's \<open>a or b\<close> on strings.\<close>

definition py_or :: "string \<Rightarrow> string \<Rightarrow> string" where
  "py_or a b = (if a = '''' then b else a)"

definition non_final_outcome :: "provider_result \<Rightarrow> pay_outcome" where
  "non_final_outcome r =
     (if pr_outcome r \<in> {PTimeout, PNetwork, PUncertain}
      then (plain_outcome ''uncertain'')\<lparr>po_code := py_or (pr_code r) ''PROVIDER_OUTCOME_UNCERTAIN'',
        po_category := ''provider'', po_message := py_or (pr_message r) ''Provider outcome requires a status check.''\<rparr>
      else if pr_retryable r
      then (plain_outcome ''retryable'')\<lparr>po_code := py_or (pr_code r) ''PROVIDER_RETRYABLE_FAILURE'',
        po_category := ''provider'', po_retryable := True,
        po_message := py_or (pr_message r) ''Provider retry is eligible after reconciliation.''\<rparr>
      else (plain_outcome ''review'')\<lparr>po_code := py_or (pr_code r) ''UNVERIFIED_PROVIDER_OBSERVATION'',
        po_category := ''reconciliation'',
        po_message := py_or (pr_message r) ''Provider observation is not verified for finality.''\<rparr>)"

text \<open>\<open>record_provider_result\<close>, called with the locked row as instance; \<open>show_key\<close> prints a key.\<close>

definition result_observation ::
  "binding_digest \<Rightarrow> (nat \<Rightarrow> string) \<Rightarrow> nat \<Rightarrow> attempt \<Rightarrow> provider_result \<Rightarrow> string \<Rightarrow> observation" where
  "result_observation bd show_key k inst n source =
     (let oid = py_or (pr_observation_id n) (py_or (pr_event_id n)
            (py_or (pr_external_transaction_id n) (pr_provider_attempt_id n)));
          verified = (pr_verified n \<and> oid \<noteq> '''')
      in \<lparr>ob_attempt = k, ob_tenant = pa_tenant inst, ob_kind = source,
           ob_id = py_or oid (''unidentified:'' @ show_key k),
           ob_provider_transaction_id = py_or (pr_external_transaction_id n) (pr_provider_attempt_id n),
           ob_event_id = pr_event_id n, ob_amount = 0, ob_currency = pa_currency inst,
           ob_outcome = final_outcome (pr_outcome n), ob_verified = verified,
           ob_verification_method = pr_verification_method n,
           ob_binding_hash = (if verified
             then binding_hash bd (pa_tenant inst) k (pa_amount inst) (pa_currency inst) else ''''),
           ob_accepted = False\<rparr>)"

definition record_provider_result ::
  "binding_digest \<Rightarrow> (nat \<Rightarrow> string) \<Rightarrow> pay_state \<Rightarrow> int \<Rightarrow> nat \<Rightarrow> attempt \<Rightarrow> provider_result \<Rightarrow> string
     \<Rightarrow> pay_error + pay_state" where
  "record_provider_result bd show_key s now k inst r source =
     (let n = normalize_result r; ob = result_observation bd show_key k inst n source in
      case record_observation bd s now k inst (pa_amount inst) ob of
        Inl e \<Rightarrow> Inl e
      | Inr (s1, row) \<Rightarrow> (case tget (ps_attempts s1) k of
          None \<Rightarrow> Inl PayRowMissing
        | Some a1 \<Rightarrow>
            (case (if \<not> ob_accepted row \<and> \<not> attempt_terminal a1 then apply_outcome s1 now k (non_final_outcome n)
                   else Inr s1) of
               Inl e \<Rightarrow> Inl e
             | Inr s2 \<Rightarrow> (case tget (ps_attempts s2) k of
                 None \<Rightarrow> Inl PayRowMissing
               | Some a2 \<Rightarrow> Inr (reconcile_attempt s2 k a2
                   (if ob_verified ob then ob_outcome ob else ''unknown'') '''')))))"

section \<open>Periodic triage\<close>

text \<open>A due time is NULL or at most now; the rows come in order of that time.\<close>

definition due_time :: "int \<Rightarrow> int option \<Rightarrow> bool" where
  "due_time now t \<longleftrightarrow> (case t of None \<Rightarrow> False | Some x \<Rightarrow> x \<le> now)"

definition due_key :: "int option \<Rightarrow> int" where
  "due_key t = (case t of None \<Rightarrow> 0 | Some x \<Rightarrow> x)"

definition due_attempts :: "attempt_status \<Rightarrow> pay_state \<Rightarrow> int \<Rightarrow> (nat \<times> attempt) list" where
  "due_attempts st s now = sort_key (\<lambda>ka. due_key (pa_next_retry_at (snd ka)))
     (filter (\<lambda>ka. pa_status (snd ka) = st \<and> due_time now (pa_next_retry_at (snd ka))) (ps_attempts s))"

definition due_retries :: "pay_state \<Rightarrow> int \<Rightarrow> (nat \<times> attempt) list" where
  "due_retries = due_attempts ARetryable"

definition due_uncertain :: "pay_state \<Rightarrow> int \<Rightarrow> (nat \<times> attempt) list" where
  "due_uncertain = due_attempts AUncertain"

definition due_callbacks :: "pay_state \<Rightarrow> int \<Rightarrow> (nat \<times> callback) list" where
  "due_callbacks s now = sort_key (\<lambda>jc. due_key (cb_next_attempt_at (snd jc)))
     (filter (\<lambda>jc. cb_status (snd jc) \<in> {CbPending, CbRetry} \<and> due_time now (cb_next_attempt_at (snd jc)))
       (ps_callbacks s))"

definition uncertain_review :: pay_outcome where
  "uncertain_review = (plain_outcome ''review'')\<lparr>po_code := ''UNCERTAIN_OUTCOME_REQUIRES_REVIEW'',
     po_category := ''reconciliation'',
     po_message := ''Provider outcome is unresolved; manual reconciliation is required.''\<rparr>"

definition retry_review :: pay_outcome where
  "retry_review = (plain_outcome ''review'')\<lparr>po_code := ''RETRY_ADAPTER_UNCONFIGURED'',
     po_category := ''configuration'', po_message := ''Retry requires a configured provider adapter.''\<rparr>"

text \<open>
  The loops of the three Celery tasks over the rows fetched at their start. An exception
  ends the task; what was committed before stays. \<open>post\<close> is the outcome of the HTTP
  request of a delivery: success, status and error code.
\<close>

fun triage_uncertain_loop :: "int \<Rightarrow> pay_state \<Rightarrow> (nat \<times> attempt) list \<Rightarrow> pay_state \<times> pay_error option \<times> nat" where
  "triage_uncertain_loop now s [] = (s, None, 0)"
| "triage_uncertain_loop now s ((k, a) # rest) =
     (let s1 = reconcile_attempt s k a ''unknown'' '''' in
      case apply_outcome s1 now k uncertain_review of
        Inl e \<Rightarrow> (s1, Some e, 0)
      | Inr s2 \<Rightarrow> (case triage_uncertain_loop now s2 rest of (s3, e, n) \<Rightarrow> (s3, e, n + 1)))"

definition triage_uncertain :: "int \<Rightarrow> pay_state \<Rightarrow> pay_state \<times> pay_error option \<times> nat" where
  "triage_uncertain now s = triage_uncertain_loop now s (due_uncertain s now)"

fun triage_retryable_loop :: "int \<Rightarrow> pay_state \<Rightarrow> (nat \<times> attempt) list \<Rightarrow> pay_state \<times> pay_error option \<times> nat" where
  "triage_retryable_loop now s [] = (s, None, 0)"
| "triage_retryable_loop now s ((k, a) # rest) =
     (case apply_outcome s now k retry_review of
        Inl e \<Rightarrow> (s, Some e, 0)
      | Inr s2 \<Rightarrow> (case triage_retryable_loop now s2 rest of (s3, e, n) \<Rightarrow> (s3, e, n + 1)))"

definition triage_retryable :: "int \<Rightarrow> pay_state \<Rightarrow> pay_state \<times> pay_error option \<times> nat" where
  "triage_retryable now s = triage_retryable_loop now s (due_retries s now)"

fun replay_callbacks_loop ::
  "(nat \<Rightarrow> bool \<times> nat option \<times> string) \<Rightarrow> int \<Rightarrow> pay_state \<Rightarrow> (nat \<times> callback) list
     \<Rightarrow> pay_state \<times> pay_error option \<times> nat" where
  "replay_callbacks_loop post now s [] = (s, None, 0)"
| "replay_callbacks_loop post now s ((j, c) # rest) =
     (case post j of (success, http, err) \<Rightarrow>
        (case record_callback_result s now j (if success then http else None) err of
           Inl e \<Rightarrow> (s, Some e, 0)
         | Inr s2 \<Rightarrow> (case replay_callbacks_loop post now s2 rest of (s3, e, n) \<Rightarrow> (s3, e, n + 1))))"

definition replay_callbacks ::
  "(nat \<Rightarrow> bool \<times> nat option \<times> string) \<Rightarrow> int \<Rightarrow> pay_state \<Rightarrow> pay_state \<times> pay_error option \<times> nat" where
  "replay_callbacks post now s = replay_callbacks_loop post now s (due_callbacks s now)"

end
