(* ===== verification/ProviderRuntime.thy ===== *)
theory ProviderRuntime
  imports PaymentAttempts
begin

text \<open>
  The worker side of provider execution: \<open>provider_runtime.py\<close> (claim, call, fenced
  finalisation, recovery), \<open>provider_registry.py\<close> (which adapter a worker may use),
  \<open>payment_recovery.py\<close> and \<open>execution_intent.py\<close>. A provider call lies between two
  transactions: the first claims the attempt and decides between submitting and polling, the
  second records the answer. A worker may die in between, so the two are separate steps.
\<close>

section \<open>Serialised results\<close>

datatype json_val = JStr string | JBool bool | JInt int | JNull

type_synonym json_object = "(string \<times> json_val) list"

definition show_int :: "int \<Rightarrow> string" where
  "show_int n = (if n < 0 then ''-'' @ show_nat (nat (- n)) else show_nat (nat n))"

text \<open>Python's \<open>str\<close> and \<open>bool\<close> on the JSON values.\<close>

definition py_str :: "json_val \<Rightarrow> string" where
  "py_str v = (case v of JStr s \<Rightarrow> s | JBool b \<Rightarrow> (if b then ''True'' else ''False'')
     | JInt n \<Rightarrow> show_int n | JNull \<Rightarrow> ''None'')"

definition py_truth :: "json_val \<Rightarrow> bool" where
  "py_truth v = (case v of JStr s \<Rightarrow> s \<noteq> '''' | JBool b \<Rightarrow> b | JInt n \<Rightarrow> n \<noteq> 0 | JNull \<Rightarrow> False)"

definition jget :: "json_object \<Rightarrow> string \<Rightarrow> json_val \<Rightarrow> json_val" where
  "jget ob k d = (case map_of ob k of None \<Rightarrow> d | Some v \<Rightarrow> v)"

definition serialize_result :: "provider_result \<Rightarrow> json_object" where
  "serialize_result r =
     [(''outcome'', JStr (outcome_value (pr_outcome r))),
      (''provider_attempt_id'', JStr (take 100 (pr_provider_attempt_id r))),
      (''external_transaction_id'', JStr (take 100 (pr_external_transaction_id r))),
      (''code'', JStr (take 50 (pr_code r))),
      (''message'', JStr (take 255 (pr_message r))),
      (''retryable'', JBool (pr_retryable r)),
      (''observation_id'', JStr (take 160 (pr_observation_id r))),
      (''event_id'', JStr (take 160 (pr_event_id r))),
      (''verified'', JBool (pr_verified r)),
      (''verification_method'', JStr (take 80 (pr_verification_method r)))]"

definition deserialize_result :: "json_object \<Rightarrow> provider_result option" where
  "deserialize_result v = map_option (\<lambda>x. \<lparr>pr_outcome = x,
       pr_provider_attempt_id = py_str (jget v ''provider_attempt_id'' (JStr '''')),
       pr_external_transaction_id = py_str (jget v ''external_transaction_id'' (JStr '''')),
       pr_code = py_str (jget v ''code'' (JStr '''')),
       pr_message = py_str (jget v ''message'' (JStr '''')),
       pr_retryable = py_truth (jget v ''retryable'' (JBool False)),
       pr_raw = None,
       pr_observation_id = py_str (jget v ''observation_id'' (JStr '''')),
       pr_event_id = py_str (jget v ''event_id'' (JStr '''')),
       pr_verified = py_truth (jget v ''verified'' (JBool False)),
       pr_verification_method = py_str (jget v ''verification_method'' (JStr ''''))\<rparr>)
     (parse_outcome (py_str (jget v ''outcome'' (JStr (outcome_value PUncertain)))))"

section \<open>Which provider a worker may use\<close>

text \<open>
  A registration row; \<open>rg_configuration\<close> is its JSON once it passed the shape checks of
  the factory (\<open>None\<close> when it does not).
\<close>

record registration =
  rg_tenant :: string
  rg_operation :: string
  rg_active :: bool
  rg_active_from :: "int option"
  rg_active_until :: "int option"
  rg_factory_key :: string
  rg_schema_version :: nat
  rg_configuration :: "(json_object list \<times> (string \<times> json_object) list) option"

datatype registry_error = BlankScope | RegistrationMissing | UnknownFactory | MalformedConfiguration | FactoryFailed

definition in_window :: "int \<Rightarrow> registration \<Rightarrow> bool" where
  "in_window now g \<longleftrightarrow> (case rg_active_from g of None \<Rightarrow> True | Some t \<Rightarrow> t \<le> now)
     \<and> (case rg_active_until g of None \<Rightarrow> True | Some t \<Rightarrow> now < t)"

fun deserialize_all :: "json_object list \<Rightarrow> provider_result list option" where
  "deserialize_all [] = Some []"
| "deserialize_all (v # vs) = (case deserialize_result v of None \<Rightarrow> None
     | Some r \<Rightarrow> map_option ((#) r) (deserialize_all vs))"

text \<open>The only allowlisted factory builds the deterministic provider from its configured results.\<close>

definition resolve_provider ::
  "registration list \<Rightarrow> int \<Rightarrow> string \<Rightarrow> string \<Rightarrow> registry_error + (provider_result list \<times> (string \<times> provider_result) list)" where
  "resolve_provider regs now tenant operation =
     (if tenant = '''' \<or> operation = '''' then Inl BlankScope
      else case filter (in_window now) (filter (\<lambda>g. rg_tenant g = tenant \<and> rg_operation g = operation \<and> rg_active g) regs) of
        [g] \<Rightarrow>
          (if rg_factory_key g \<noteq> ''deterministic.v1'' \<or> rg_schema_version g \<noteq> 1 then Inl UnknownFactory
           else case rg_configuration g of
             None \<Rightarrow> Inl MalformedConfiguration
           | Some (outs, stats) \<Rightarrow>
               (case (deserialize_all outs, deserialize_all (map snd stats)) of
                  (Some rs, Some ss) \<Rightarrow> Inr (rs, zip (map fst stats) ss)
                | _ \<Rightarrow> Inl FactoryFailed))
      | _ \<Rightarrow> Inl RegistrationMissing)"

definition resolvable :: "registration list \<Rightarrow> int \<Rightarrow> string \<Rightarrow> string \<Rightarrow> bool" where
  "resolvable regs now tenant operation = (case resolve_provider regs now tenant operation of Inl _ \<Rightarrow> False | Inr _ \<Rightarrow> True)"

section \<open>Execution intents\<close>

definition find_intent :: "pay_state \<Rightarrow> nat \<Rightarrow> (nat \<times> exec_intent) option" where
  "find_intent s k = List.find (\<lambda>ji. ei_attempt (snd ji) = k) (ps_intents s)"

text \<open>Inserting an intent: its key, its attempt and its canonical identity are unique.\<close>

definition create_intent :: "pay_state \<Rightarrow> nat \<Rightarrow> exec_intent \<Rightarrow> pay_error + pay_state" where
  "create_intent s j ei =
     (if tget (ps_intents s) j \<noteq> None \<or> list_ex (\<lambda>ji. ei_attempt (snd ji) = ei_attempt ei
           \<or> ei_scope (snd ji) = ei_scope ei \<and> ei_operation (snd ji) = ei_operation ei
             \<and> ei_request_identity (snd ji) = ei_request_identity ei) (ps_intents s)
      then Inl UniqueViolation
      else Inr (s\<lparr>ps_intents := tput j ei (ps_intents s)\<rparr>))"

definition new_intent :: "nat \<Rightarrow> string \<Rightarrow> string \<Rightarrow> string \<Rightarrow> string \<Rightarrow> exec_intent" where
  "new_intent k scope operation request fp = \<lparr>ei_attempt = k, ei_scope = scope, ei_operation = operation,
     ei_request_identity = request, ei_payload_fingerprint = fp, ei_provider_correlation = '''',
     ei_submit_started_at = None, ei_submit_generation = None, ei_correlated = False\<rparr>"

text \<open>
  \<open>reserve_execution_intent\<close>: a collision falls back to the row with the same canonical
  identity (\<open>DoesNotExist\<close> when the collision was on the attempt) and compares.
\<close>

definition reserve_execution_intent ::
  "pay_state \<Rightarrow> nat \<Rightarrow> nat \<Rightarrow> string \<Rightarrow> string \<Rightarrow> string \<Rightarrow> string \<Rightarrow> pay_error + (pay_state \<times> nat)" where
  "reserve_execution_intent s j k scope operation request fp =
     (case create_intent s j (new_intent k scope operation request fp) of
        Inr s1 \<Rightarrow> Inr (s1, j)
      | Inl e \<Rightarrow>
          (case List.find (\<lambda>ji. ei_scope (snd ji) = scope \<and> ei_operation (snd ji) = operation
               \<and> ei_request_identity (snd ji) = request) (ps_intents s) of
             None \<Rightarrow> Inl PayRowMissing
           | Some (i, ei) \<Rightarrow> if ei_payload_fingerprint ei \<noteq> fp \<or> ei_attempt ei \<noteq> k then Inl IdempotencyConflict
               else Inr (s, i)))"

definition record_provider_correlation :: "pay_state \<Rightarrow> nat \<Rightarrow> string \<Rightarrow> pay_error + pay_state" where
  "record_provider_correlation s j correlation =
     (let c = py_strip correlation in
      if c = '''' then Inr s
      else case tget (ps_intents s) j of
        None \<Rightarrow> Inl PayRowMissing
      | Some ei \<Rightarrow>
          if ei_provider_correlation ei \<noteq> '''' \<and> ei_provider_correlation ei \<noteq> c then Inl IdempotencyConflict
          else if ei_provider_correlation ei = ''''
          then Inr (s\<lparr>ps_intents := tput j (ei\<lparr>ei_provider_correlation := c, ei_correlated := True\<rparr>) (ps_intents s)\<rparr>)
          else Inr s)"

section \<open>Claim and call\<close>

record provider_call =
  pc_attempt :: nat
  pc_kind :: call_kind
  pc_token :: string
  pc_generation :: nat
  pc_request_id :: string
  pc_provider_attempt_id :: string
  pc_external_transaction_id :: string

datatype begin_result = Noop string | Started provider_call

definition claim_live :: "int \<Rightarrow> attempt \<Rightarrow> bool" where
  "claim_live now a \<longleftrightarrow> pa_claim_token a \<noteq> ''''
     \<and> (case pa_claim_expires_at a of None \<Rightarrow> False | Some t \<Rightarrow> now < t)"

text \<open>Whether a durable trace says that external work may exist.\<close>

definition poll_evidence :: "attempt \<Rightarrow> exec_intent option \<Rightarrow> bool" where
  "poll_evidence a found \<longleftrightarrow> (case found of None \<Rightarrow> False | Some ei \<Rightarrow> ei_provider_correlation ei \<noteq> '''')
     \<or> pa_provider_attempt_id a \<noteq> '''' \<or> pa_external_transaction_id a \<noteq> ''''
     \<or> (case pa_recovery_evidence a of Ambiguous _ _ _ \<Rightarrow> True | _ \<Rightarrow> False)"

definition claimed :: "int \<Rightarrow> string \<Rightarrow> call_kind \<Rightarrow> attempt \<Rightarrow> attempt" where
  "claimed now token kind a = a\<lparr>pa_claim_token := token, pa_claim_generation := pa_claim_generation a + 1,
     pa_claim_expires_at := Some (now + 300), pa_claim_heartbeat_at := Some now,
     pa_submission_intent := CallIntent kind (pa_request_id a) (pa_claim_generation a + 1),
     pa_attempt_count := pa_attempt_count a + 1\<rparr>"

text \<open>The intent row of an attempt: the existing one, or a new one with its identity.\<close>

definition select_intent :: "pay_state \<Rightarrow> nat \<Rightarrow> nat \<Rightarrow> attempt \<Rightarrow> pay_error + (pay_state \<times> nat \<times> exec_intent)" where
  "select_intent s j k a = (case find_intent s k of
     Some ji \<Rightarrow> Inr (s, ji)
   | None \<Rightarrow> (case create_intent s j (new_intent k (pa_tenant a) (pa_operation a) (pa_request_id a) (pa_payload_fingerprint a)) of
       Inl e \<Rightarrow> Inl e
     | Inr s1 \<Rightarrow> Inr (s1, j, new_intent k (pa_tenant a) (pa_operation a) (pa_request_id a) (pa_payload_fingerprint a))))"

definition mark_submit :: "int \<Rightarrow> nat \<Rightarrow> exec_intent \<Rightarrow> exec_intent" where
  "mark_submit now generation ei = ei\<lparr>ei_submit_started_at := Some now, ei_submit_generation := Some generation\<rparr>"

definition started_call :: "nat \<Rightarrow> attempt \<Rightarrow> call_kind \<Rightarrow> string \<Rightarrow> string \<Rightarrow> provider_call" where
  "started_call k a kind token correlation = \<lparr>pc_attempt = k, pc_kind = kind, pc_token = token,
     pc_generation = pa_claim_generation a + 1, pc_request_id = pa_request_id a,
     pc_provider_attempt_id = pa_provider_attempt_id a,
     pc_external_transaction_id = py_or correlation (pa_external_transaction_id a)\<rparr>"

text \<open>The first transaction of \<open>submit_or_poll\<close>.\<close>

definition begin_call ::
  "registration list \<Rightarrow> pay_state \<Rightarrow> int \<Rightarrow> string \<Rightarrow> nat \<Rightarrow> nat \<Rightarrow> pay_error + (pay_state \<times> begin_result)" where
  "begin_call regs s now token j k = (case tget (ps_attempts s) k of
     None \<Rightarrow> Inl PayRowMissing
   | Some a \<Rightarrow>
       if pa_tenant a = '''' \<or> attempt_terminal a \<or> pa_status a = AReview then Inr (s, Noop ''NOOP_TERMINAL'')
       else if claim_live now a then Inr (s, Noop ''CLAIMED'')
       else if \<not> resolvable regs now (pa_tenant a) (pa_operation a) then Inl ProviderUnavailable
       else (case select_intent s j k a of
           Inl e \<Rightarrow> Inl e
         | Inr (s1, i, ei) \<Rightarrow>
             let found = map_option snd (find_intent s k);
                 poll = (poll_evidence a found \<or> ei_submit_started_at ei \<noteq> None);
                 kind = (if poll then Poll else Submit);
                 s2 = (if poll then s1
                       else s1\<lparr>ps_intents := tput i (mark_submit now (pa_claim_generation a + 1) ei) (ps_intents s1)\<rparr>)
             in Inr (put_attempt k (claimed now token kind a) s2,
                  Started (started_call k a kind token
                    (case found of None \<Rightarrow> '''' | Some x \<Rightarrow> ei_provider_correlation x)))))"

text \<open>An exception of the adapter becomes an ambiguous network result.\<close>

definition runtime_error_result :: "(nat \<Rightarrow> string) \<Rightarrow> provider_call \<Rightarrow> provider_result" where
  "runtime_error_result show_key c =
     (let oid = ''runtime-error:'' @ show_key (pc_attempt c) @ '':'' @ show_nat (pc_generation c)
      in (blank_result PNetwork)\<lparr>pr_provider_attempt_id := pc_provider_attempt_id c,
        pr_external_transaction_id := pc_external_transaction_id c, pr_code := ''PROVIDER_RUNTIME_ERROR'',
        pr_message := ''Provider invocation failed; authoritative status is required.'',
        pr_observation_id := oid, pr_event_id := oid\<rparr>)"

definition provider_kind :: string where
  "provider_kind = ''provider''"

definition noop_result :: "string \<Rightarrow> provider_result" where
  "noop_result code = (blank_result PUncertain)\<lparr>pr_code := code\<rparr>"

definition evidence_of :: "provider_result \<Rightarrow> evidence \<Rightarrow> evidence" where
  "evidence_of r old =
     (if pr_outcome r \<in> {PNetwork, PTimeout, PUncertain}
      then Ambiguous (take 50 (pr_code r)) (take 100 (pr_provider_attempt_id r)) (take 100 (pr_external_transaction_id r))
      else if pr_provider_attempt_id r \<noteq> '''' \<or> pr_external_transaction_id r \<noteq> ''''
      then Accepted (take 100 (pr_provider_attempt_id r)) (take 100 (pr_external_transaction_id r))
      else old)"

text \<open>\<open>finalize_claimed_result\<close>: the second transaction, fenced by token and generation.\<close>

definition finalize_claimed_result ::
  "binding_digest \<Rightarrow> (nat \<Rightarrow> string) \<Rightarrow> pay_state \<Rightarrow> int \<Rightarrow> nat \<Rightarrow> string \<Rightarrow> nat \<Rightarrow> provider_result
     \<Rightarrow> pay_error + (pay_state \<times> provider_result)" where
  "finalize_claimed_result bd show_key s now k token generation r = (case tget (ps_attempts s) k of
     None \<Rightarrow> Inl PayRowMissing
   | Some a \<Rightarrow>
       if pa_claim_token a \<noteq> token \<or> pa_claim_generation a \<noteq> generation then Inr (s, noop_result ''STALE_CLAIM'')
       else case record_provider_result bd show_key s now k a r provider_kind of
         Inl e \<Rightarrow> Inl e
       | Inr s1 \<Rightarrow> (case tget (ps_attempts s1) k of
           None \<Rightarrow> Inl PayRowMissing
         | Some a1 \<Rightarrow> Inr (put_attempt k (a1\<lparr>pa_recovery_evidence := evidence_of r (pa_recovery_evidence a1),
             pa_claim_token := '''', pa_claim_expires_at := None, pa_claim_heartbeat_at := None,
             pa_submission_intent := NoIntent\<rparr>) s1, r)))"

section \<open>Recovery and orchestration\<close>

text \<open>The first transaction of \<open>status_first_recovery\<close>; \<open>None\<close> when there is nothing to recover.\<close>

definition mark_uncertain :: "pay_state \<Rightarrow> nat \<Rightarrow> pay_error + pay_state option" where
  "mark_uncertain s k = (case tget (ps_attempts s) k of
     None \<Rightarrow> Inl PayRowMissing
   | Some a \<Rightarrow>
       if attempt_terminal a \<or> pa_status a = AReview then Inr None
       else Inr (Some (put_attempt k (a\<lparr>pa_status := AUncertain\<rparr>) s)))"

text \<open>
  \<open>status_first_recovery\<close> commits the status first and then polls; the pair is the
  state the first transaction left and the outcome of the rest. This is the run in which no
  other worker comes between the two; the workers below also have each of them as a step.
\<close>

definition status_first_recovery ::
  "registration list \<Rightarrow> pay_state \<Rightarrow> int \<Rightarrow> string \<Rightarrow> nat \<Rightarrow> nat \<Rightarrow> pay_state \<times> (pay_error + (pay_state \<times> begin_result))" where
  "status_first_recovery regs s now token j k = (case mark_uncertain s k of
     Inl e \<Rightarrow> (s, Inl e)
   | Inr None \<Rightarrow> (s, Inr (s, Noop ''NOOP_TERMINAL''))
   | Inr (Some s1) \<Rightarrow> (s1, begin_call regs s1 now token j k))"

text \<open>\<open>RecoverPaymentAttemptCommand.execute\<close>.\<close>

definition recover_attempt ::
  "registration list \<Rightarrow> pay_state \<Rightarrow> int \<Rightarrow> string \<Rightarrow> nat \<Rightarrow> nat \<Rightarrow> pay_state \<times> (pay_error + (pay_state \<times> begin_result))" where
  "recover_attempt regs s now token j k = (case tget (ps_attempts s) k of
     None \<Rightarrow> (s, Inl PayRowMissing)
   | Some a \<Rightarrow>
       if attempt_terminal a \<or> pa_status a = AReview then (s, Inr (s, Noop ''NOOP_TERMINAL''))
       else if pa_status a = AUncertain then status_first_recovery regs s now token j k
       else (s, begin_call regs s now token j k))"

definition unavailable_result :: "(nat \<Rightarrow> string) \<Rightarrow> nat \<Rightarrow> provider_result" where
  "unavailable_result show_key k =
     (let oid = ''configuration-unavailable:'' @ show_key k
      in (blank_result PUncertain)\<lparr>pr_code := ''PROVIDER_UNAVAILABLE'',
        pr_message := ''Provider configuration is unavailable'', pr_observation_id := oid, pr_event_id := oid,
        pr_verification_method := ''configuration''\<rparr>)"

definition unavailable :: "binding_digest \<Rightarrow> (nat \<Rightarrow> string) \<Rightarrow> pay_state \<Rightarrow> int \<Rightarrow> nat \<Rightarrow> pay_error + pay_state" where
  "unavailable bd show_key s now k = (case tget (ps_attempts s) k of
     None \<Rightarrow> Inl PayRowMissing
   | Some a \<Rightarrow>
       if \<not> attempt_terminal a \<and> \<not> list_ex (\<lambda>x. ob_kind x = provider_kind
            \<and> ob_id x = ''configuration-unavailable:'' @ show_key k) (ps_observations s)
       then record_provider_result bd show_key s now k a (unavailable_result show_key k) provider_kind
       else Inr s)"

text \<open>
  \<open>orchestrate_attempt\<close> up to the provider call: a missing provider is recorded instead. The
  pair is the committed state and the outcome, an error included.
\<close>

definition orchestrate_attempt ::
  "binding_digest \<Rightarrow> (nat \<Rightarrow> string) \<Rightarrow> registration list \<Rightarrow> pay_state \<Rightarrow> int \<Rightarrow> string \<Rightarrow> nat \<Rightarrow> nat
     \<Rightarrow> pay_state \<times> (pay_error + (pay_state \<times> begin_result))" where
  "orchestrate_attempt bd show_key regs s now token j k = (case recover_attempt regs s now token j k of
     (s1, Inl ProviderUnavailable) \<Rightarrow>
       (case unavailable bd show_key s1 now k of Inl e \<Rightarrow> (s1, Inl e)
        | Inr s2 \<Rightarrow> (s2, Inr (s2, Noop ''PROVIDER_UNAVAILABLE'')))
   | (s1, Inl e) \<Rightarrow> (s1, Inl e)
   | (s1, Inr r) \<Rightarrow> (s1, Inr r))"

section \<open>Workers as a transition system\<close>

text \<open>
  The state: the tables and every provider call begun so far, oldest first (a call is sent
  after its claim committed; its worker may die before or after). \<open>WFinish\<close> is the return
  of one of those calls with any result at all, at any later time. Recovery is several
  transactions: \<open>WMark\<close>, \<open>WSubmit\<close> and \<open>WUnavailable\<close> are its single ones, which other workers may
  come between in any way; \<open>WOrchestrate\<close>, \<open>WRecover\<close> and \<open>WStatusFirst\<close> run them in a row.
\<close>

record workers =
  wk_pay :: pay_state
  wk_calls :: "provider_call list"

datatype worker_op =
    WOrchestrate int string nat nat
  | WRecover int string nat nat
  | WStatusFirst int string nat nat
  | WMark nat
  | WSubmit int string nat nat
  | WUnavailable int nat
  | WFinish int provider_call provider_result
  | WOutcome int nat pay_outcome
  | WTriage int
  | WTriageRetry int
  | WCorrelate nat string
  | WReserve nat nat string string string string
  | WCreate nat string string string string attempt

definition note_call :: "workers \<Rightarrow> pay_state \<times> begin_result \<Rightarrow> workers" where
  "note_call w sb = (case sb of (s, Noop _) \<Rightarrow> w\<lparr>wk_pay := s\<rparr>
     | (s, Started c) \<Rightarrow> \<lparr>wk_pay = s, wk_calls = wk_calls w @ [c]\<rparr>)"

fun worker_step ::
  "binding_digest \<Rightarrow> (nat \<Rightarrow> string) \<Rightarrow> registration list \<Rightarrow> workers \<Rightarrow> worker_op \<Rightarrow> pay_error + workers" where
  "worker_step bd sh regs w (WOrchestrate now token j k) =
     (case orchestrate_attempt bd sh regs (wk_pay w) now token j k of
        (s1, Inl e) \<Rightarrow> Inr (w\<lparr>wk_pay := s1\<rparr>)
      | (s1, Inr r) \<Rightarrow> Inr (note_call w r))"
| "worker_step bd sh regs w (WRecover now token j k) =
     (case recover_attempt regs (wk_pay w) now token j k of
        (s1, Inl e) \<Rightarrow> Inr (w\<lparr>wk_pay := s1\<rparr>)
      | (s1, Inr r) \<Rightarrow> Inr (note_call w r))"
| "worker_step bd sh regs w (WStatusFirst now token j k) =
     (case status_first_recovery regs (wk_pay w) now token j k of
        (s1, Inl e) \<Rightarrow> Inr (w\<lparr>wk_pay := s1\<rparr>)
      | (s1, Inr r) \<Rightarrow> Inr (note_call w r))"
| "worker_step bd sh regs w (WMark k) =
     map_sum id (\<lambda>m. case m of None \<Rightarrow> w | Some s \<Rightarrow> w\<lparr>wk_pay := s\<rparr>) (mark_uncertain (wk_pay w) k)"
| "worker_step bd sh regs w (WSubmit now token j k) = map_sum id (note_call w) (begin_call regs (wk_pay w) now token j k)"
| "worker_step bd sh regs w (WUnavailable now k) = map_sum id (\<lambda>s. w\<lparr>wk_pay := s\<rparr>) (unavailable bd sh (wk_pay w) now k)"
| "worker_step bd sh regs w (WFinish now c r) =
     map_sum id (\<lambda>sr. w\<lparr>wk_pay := fst sr\<rparr>)
       (finalize_claimed_result bd sh (wk_pay w) now (pc_attempt c) (pc_token c) (pc_generation c) r)"
| "worker_step bd sh regs w (WOutcome now k out) =
     map_sum id (\<lambda>s. w\<lparr>wk_pay := s\<rparr>) (apply_outcome (wk_pay w) now k out)"
| "worker_step bd sh regs w (WTriage now) = Inr (w\<lparr>wk_pay := fst (triage_uncertain now (wk_pay w))\<rparr>)"
| "worker_step bd sh regs w (WTriageRetry now) = Inr (w\<lparr>wk_pay := fst (triage_retryable now (wk_pay w))\<rparr>)"
| "worker_step bd sh regs w (WCorrelate j c) =
     map_sum id (\<lambda>s. w\<lparr>wk_pay := s\<rparr>) (record_provider_correlation (wk_pay w) j c)"
| "worker_step bd sh regs w (WReserve j k scope operation request fp) =
     map_sum id (\<lambda>sj. w\<lparr>wk_pay := fst sj\<rparr>) (reserve_execution_intent (wk_pay w) j k scope operation request fp)"
| "worker_step bd sh regs w (WCreate k tenant operation request fp rest) =
     map_sum id (\<lambda>sj. w\<lparr>wk_pay := fst sj\<rparr>)
       (get_or_create_attempt (wk_pay w) k tenant operation request fp rest True)"

text \<open>
  What the environment owes: tokens are not empty, only begun calls return, the direct
  outcomes are those the batch and bill services report (never a settlement), a missing
  provider is recorded only for an attempt that has a tenant to resolve one for, and a new
  attempt starts pending, unclaimed and without evidence.
\<close>

fun worker_owed :: "workers \<Rightarrow> worker_op \<Rightarrow> bool" where
  "worker_owed w (WOrchestrate now token j k) = (token \<noteq> '''')"
| "worker_owed w (WRecover now token j k) = (token \<noteq> '''')"
| "worker_owed w (WStatusFirst now token j k) = (token \<noteq> '''')"
| "worker_owed w (WSubmit now token j k) = (token \<noteq> '''')"
| "worker_owed w (WUnavailable now k) = (case tget (ps_attempts (wk_pay w)) k of None \<Rightarrow> True | Some a \<Rightarrow> pa_tenant a \<noteq> '''')"
| "worker_owed w (WFinish now c r) = (c \<in> set (wk_calls w))"
| "worker_owed w (WOutcome now k out) = (po_status out \<in> {''review'', ''invalid_account''})"
| "worker_owed w (WCreate k tenant operation request fp rest) =
     (pa_status rest = APending \<and> pa_claim_token rest = '''' \<and> pa_claim_generation rest = 0)"
| "worker_owed w x = True"

end
