(* ===== verification/RuntimeClaims.thy ===== *)
theory RuntimeClaims
  imports ProviderRuntime
begin

text \<open>
  Claims of payment attempts: whatever the workers do, an attempt is submitted to its
  provider at most once, and only the holder of the latest claim may record a result, once.
\<close>

section \<open>Operations that leave claims alone\<close>

text \<open>What never changes of an attempt, and how a claim may change without a new one.\<close>

definition same_identity :: "attempt \<Rightarrow> attempt \<Rightarrow> bool" where
  "same_identity a b \<longleftrightarrow> pa_tenant b = pa_tenant a \<and> pa_operation b = pa_operation a
     \<and> pa_request_id b = pa_request_id a \<and> pa_amount b = pa_amount a \<and> pa_currency b = pa_currency a
     \<and> pa_payload_fingerprint b = pa_payload_fingerprint a
     \<and> (attempt_terminal a \<longrightarrow> pa_status b = pa_status a)"

definition quiet_row :: "attempt \<Rightarrow> attempt \<Rightarrow> bool" where
  "quiet_row a b \<longleftrightarrow> same_identity a b \<and> pa_claim_generation b = pa_claim_generation a
     \<and> pa_claim_token b \<in> {pa_claim_token a, ''''}"

definition quiet :: "pay_state \<Rightarrow> pay_state \<Rightarrow> bool" where
  "quiet s s' \<longleftrightarrow> ps_intents s' = ps_intents s \<and> (tok (ps_attempts s) \<longrightarrow> tok (ps_attempts s'))
     \<and> (\<forall>k. case tget (ps_attempts s) k of None \<Rightarrow> tget (ps_attempts s') k = None
          | Some a \<Rightarrow> \<exists>b. tget (ps_attempts s') k = Some b \<and> quiet_row a b)"

lemma same_identity_refl [simp]: "same_identity a a"
  by (simp add: same_identity_def)

lemma same_identity_trans: "same_identity a b \<Longrightarrow> same_identity b c \<Longrightarrow> same_identity a c"
  by (auto simp: same_identity_def attempt_terminal_def)

lemma quiet_row_refl [simp]: "quiet_row a a"
  by (simp add: quiet_row_def)

lemma quiet_row_trans: "quiet_row a b \<Longrightarrow> quiet_row b c \<Longrightarrow> quiet_row a c"
  by (auto simp: quiet_row_def intro: same_identity_trans)

lemma quiet_refl [simp]: "quiet s s"
  by (simp add: quiet_def split: option.splits)

lemma quietD:
  assumes "quiet s s'"
  shows "ps_intents s' = ps_intents s"
    and "tget (ps_attempts s) k = Some a \<Longrightarrow> \<exists>b. tget (ps_attempts s') k = Some b \<and> quiet_row a b"
    and "tget (ps_attempts s) k = None \<Longrightarrow> tget (ps_attempts s') k = None"
    and "tok (ps_attempts s) \<Longrightarrow> tok (ps_attempts s')"
  using assms by (auto simp: quiet_def split: option.splits dest: spec [of _ k])

lemma quietI:
  assumes "ps_intents s' = ps_intents s"
    and "\<And>k a. tget (ps_attempts s) k = Some a \<Longrightarrow> \<exists>b. tget (ps_attempts s') k = Some b \<and> quiet_row a b"
    and "\<And>k. tget (ps_attempts s) k = None \<Longrightarrow> tget (ps_attempts s') k = None"
    and "tok (ps_attempts s) \<Longrightarrow> tok (ps_attempts s')"
  shows "quiet s s'"
  using assms by (simp add: quiet_def split: option.splits)

lemma quiet_trans: "quiet s t \<Longrightarrow> quiet t u \<Longrightarrow> quiet s u"
  by (rule quietI) (auto simp: quietD(1,3,4) dest!: quietD(2) intro: quiet_row_trans)

lemma quiet_same: "ps_attempts s' = ps_attempts s \<Longrightarrow> ps_intents s' = ps_intents s \<Longrightarrow> quiet s s'"
  by (rule quietI) auto

lemma quiet_put:
  "tget (ps_attempts s) k = Some a \<Longrightarrow> quiet_row a b \<Longrightarrow> ps_attempts s' = tput k b (ps_attempts s)
     \<Longrightarrow> ps_intents s' = ps_intents s \<Longrightarrow> quiet s s'"
  by (rule quietI) (auto simp: tget_tput tok_tput)

lemma pay_log_fields [simp]:
  "ps_attempts (pay_log k a act det s) = ps_attempts s" "ps_intents (pay_log k a act det s) = ps_intents s"
  "ps_observations (pay_log k a act det s) = ps_observations s"
  "ps_callbacks (pay_log k a act det s) = ps_callbacks s"
  "ps_reconciliations (pay_log k a act det s) = ps_reconciliations s"
  by (simp_all add: pay_log_def)

lemma put_attempt_fields [simp]:
  "ps_attempts (put_attempt k a s) = tput k a (ps_attempts s)" "ps_intents (put_attempt k a s) = ps_intents s"
  "ps_observations (put_attempt k a s) = ps_observations s"
  "ps_callbacks (put_attempt k a s) = ps_callbacks s"
  by (simp_all add: put_attempt_def)

lemma reconcile_fields [simp]:
  "ps_attempts (reconcile_attempt s k a p q) = ps_attempts s" "ps_intents (reconcile_attempt s k a p q) = ps_intents s"
  "ps_observations (reconcile_attempt s k a p q) = ps_observations s"
  "ps_callbacks (reconcile_attempt s k a p q) = ps_callbacks s"
  by (simp_all add: reconcile_attempt_def Let_def)

text \<open>What a committed \<open>apply_outcome\<close> did.\<close>

lemma apply_outcome_cases:
  assumes "apply_outcome s now k out = Inr s'"
  obtains (stays) a where "tget (ps_attempts s) k = Some a" "attempt_terminal a" "s' = s"
    | (moves) a b where "tget (ps_attempts s) k = Some a" "\<not> attempt_terminal a"
      "target_status out \<in> set (allowed_transitions (pa_status a))"
      "ps_attempts s' = tput k b (ps_attempts s)" "pa_status b = target_status out" "quiet_row a b"
      "ps_intents s' = ps_intents s" "ps_observations s' = ps_observations s"
proof -
  from assms obtain a where a: "tget (ps_attempts s) k = Some a"
    by (auto simp: apply_outcome_def split: option.splits)
  show ?thesis
  proof (cases "attempt_terminal a")
    case True
    with assms a show ?thesis by (auto simp: apply_outcome_def intro: stays)
  next
    case False
    let ?b = "(a\<lparr>pa_status := target_status out, pa_failure_code := take 50 (po_code out),
        pa_failure_category := take 30 (po_category out), pa_retryable := po_retryable out,
        pa_provider_attempt_id := take 100 (po_provider_attempt_id out),
        pa_external_transaction_id := take 100 (po_external_transaction_id out),
        pa_last_error := take 255 (po_message out), pa_version := pa_version a + 1,
        pa_attempt_count := pa_attempt_count a + 1,
        pa_next_retry_at := (if target_status out = ARetryable then Some (now + backoff_seconds (pa_attempt_count a + 1))
          else if target_status out = AUncertain then Some (now + uncertain_poll_delay) else None)\<rparr>)"
    from assms a False have t: "target_status out \<in> set (allowed_transitions (pa_status a))"
      by (auto simp: apply_outcome_def transition_to_def Let_def split: if_splits)
    have q: "quiet_row a ?b"
      using False by (simp add: quiet_row_def same_identity_def)
    show ?thesis
      by (rule moves [OF a False t, of ?b])
        (use assms a False t q in \<open>auto simp: apply_outcome_def transition_to_def Let_def split: if_splits\<close>)
  qed
qed

lemma apply_outcome_quiet:
  assumes "apply_outcome s now k out = Inr s'"
  shows "quiet s s' \<and> ps_observations s' = ps_observations s"
  using assms by (cases rule: apply_outcome_cases) (auto intro: quiet_put)

lemma record_observation_cases:
  assumes "record_observation bd s now k inst amount ob = Inr (s', row)"
  obtains a m s1 where "tget (ps_attempts s) k = Some a" "amount = Some m"
    "row = stored_observation (ob\<lparr>ob_attempt := k\<rparr>) m (observation_exact bd k inst amount ob)"
    "\<not> observation_clash (ps_observations s) row"
    "s1 = s\<lparr>ps_observations := ps_observations s @ [row]\<rparr>"
    "if ob_accepted row \<and> \<not> attempt_terminal a
       then apply_outcome s1 now k ((plain_outcome (ob_outcome ob))
         \<lparr>po_provider_attempt_id := ob_provider_transaction_id ob,
          po_external_transaction_id := ob_provider_transaction_id ob\<rparr>) = Inr s'
       else ps_attempts s' = ps_attempts s \<and> ps_intents s' = ps_intents s
         \<and> ps_observations s' = ps_observations s @ [row]"
proof -
  have acc: "ob_accepted (stored_observation x m e) = e" for x m e by (simp add: stored_observation_def)
  from assms obtain a where a: "tget (ps_attempts s) k = Some a"
    by (auto simp: record_observation_def Let_def split: option.splits)
  from assms a obtain m where m: "amount = Some m"
    by (auto simp: record_observation_def Let_def split: option.splits)
  let ?row = "stored_observation (ob\<lparr>ob_attempt := k\<rparr>) m (observation_exact bd k inst amount ob)"
  from assms a m have c: "\<not> observation_clash (ps_observations s) ?row"
    by (auto simp: record_observation_def Let_def split: if_splits)
  from assms a m have r: "row = ?row"
    by (auto simp: record_observation_def Let_def split: if_splits sum.splits)
  show ?thesis
    by (rule that [OF a m r _ refl])
      (use assms a m c r in \<open>auto simp: record_observation_def Let_def acc split: if_splits sum.splits\<close>)
qed

lemma record_observation_quiet:
  assumes "record_observation bd s now k inst amount ob = Inr (s', row)"
  shows "quiet s s' \<and> ps_observations s' = ps_observations s @ [row]"
  using assms
proof (cases rule: record_observation_cases)
  case (1 a m s1)
  have s1: "quiet s s1" using 1(5) by (intro quiet_same) simp_all
  show ?thesis
  proof (cases "ob_accepted row \<and> \<not> attempt_terminal a")
    case True
    with 1(6) have "quiet s1 s' \<and> ps_observations s' = ps_observations s1"
      by (auto dest: apply_outcome_quiet)
    with s1 1(5) show ?thesis by (auto intro: quiet_trans)
  next
    case False
    with 1(6) show ?thesis by (auto intro: quiet_same)
  qed
qed

text \<open>The three steps of a committed \<open>record_provider_result\<close>.\<close>

lemma record_result_cases:
  assumes "record_provider_result bd sh s now k inst r source = Inr s'"
  obtains s1 s2 a1 a2 row where
    "record_observation bd s now k inst (pa_amount inst) (result_observation bd sh k inst (normalize_result r) source)
       = Inr (s1, row)"
    "tget (ps_attempts s1) k = Some a1"
    "if \<not> ob_accepted row \<and> \<not> attempt_terminal a1
       then apply_outcome s1 now k (non_final_outcome (normalize_result r)) = Inr s2 else s2 = s1"
    "tget (ps_attempts s2) k = Some a2"
    "s' = reconcile_attempt s2 k a2 (if ob_verified (result_observation bd sh k inst (normalize_result r) source)
       then ob_outcome (result_observation bd sh k inst (normalize_result r) source) else ''unknown'') ''''"
  using assms unfolding record_provider_result_def Let_def
  by (auto split: sum.splits option.splits prod.splits if_splits)

lemma record_result_quiet:
  assumes "record_provider_result bd sh s now k inst r source = Inr s'"
  shows "quiet s s'"
  using assms
proof (cases rule: record_result_cases)
  case (1 s1 s2 a1 a2 row)
  then have "quiet s s1" by (auto dest: record_observation_quiet)
  moreover have "quiet s1 s2"
    using 1(3) by (auto dest: apply_outcome_quiet split: if_splits)
  moreover have "quiet s2 s'" using 1(5) by (intro quiet_same) simp_all
  ultimately show ?thesis by (blast intro: quiet_trans)
qed

lemma finalize_cases:
  assumes "finalize_claimed_result bd sh s now k token g r = Inr (s', res)"
  obtains (stale) a where "tget (ps_attempts s) k = Some a" "pa_claim_token a \<noteq> token \<or> pa_claim_generation a \<noteq> g"
      "s' = s" "res = noop_result ''STALE_CLAIM''"
    | (recorded) a s1 a1 b where "tget (ps_attempts s) k = Some a" "pa_claim_token a = token"
      "pa_claim_generation a = g" "record_provider_result bd sh s now k a r provider_kind = Inr s1"
      "tget (ps_attempts s1) k = Some a1" "s' = put_attempt k b s1"
      "b = a1\<lparr>pa_recovery_evidence := evidence_of r (pa_recovery_evidence a1), pa_claim_token := '''',
         pa_claim_expires_at := None, pa_claim_heartbeat_at := None, pa_submission_intent := NoIntent\<rparr>" "res = r"
proof -
  from assms obtain a where a: "tget (ps_attempts s) k = Some a"
    by (auto simp: finalize_claimed_result_def split: option.splits)
  show ?thesis
  proof (cases "pa_claim_token a \<noteq> token \<or> pa_claim_generation a \<noteq> g")
    case True
    with assms a show ?thesis by (auto simp: finalize_claimed_result_def intro: stale)
  next
    case False
    with assms a show ?thesis
      by (auto simp: finalize_claimed_result_def split: sum.splits option.splits intro: recorded)
  qed
qed

lemma finalize_quiet:
  assumes "finalize_claimed_result bd sh s now k token g r = Inr (s', res)"
  shows "quiet s s'"
  using assms
proof (cases rule: finalize_cases)
  case (recorded a s1 a1 b)
  have "quiet s s1" by (rule record_result_quiet [OF recorded(4)])
  moreover have "quiet s1 s'"
    by (rule quiet_put [OF recorded(5), of b]) (simp_all add: recorded(6,7) quiet_row_def same_identity_def)
  ultimately show ?thesis by (rule quiet_trans)
qed simp

lemma unavailable_quiet: "unavailable bd sh s now k = Inr s' \<Longrightarrow> quiet s s'"
  by (auto simp: unavailable_def split: option.splits if_splits dest: record_result_quiet)

lemma triage_uncertain_loop_quiet: "quiet s (fst (triage_uncertain_loop now s ks))"
proof (induction now s ks rule: triage_uncertain_loop.induct)
  case (2 now s k a rest)
  let ?s1 = "reconcile_attempt s k a ''unknown'' ''''"
  have s1: "quiet s ?s1" by (rule quiet_same) simp_all
  show ?case
  proof (cases "apply_outcome ?s1 now k uncertain_review")
    case (Inl e)
    with s1 show ?thesis by (simp add: Let_def)
  next
    case (Inr s2)
    from apply_outcome_quiet [OF Inr] s1 have "quiet s s2" by (blast intro: quiet_trans)
    moreover have "quiet s2 (fst (triage_uncertain_loop now s2 rest))" by (rule 2 [OF refl Inr])
    ultimately show ?thesis using Inr by (auto simp: Let_def split: prod.splits intro: quiet_trans)
  qed
qed simp

lemma triage_retryable_loop_quiet: "quiet s (fst (triage_retryable_loop now s ks))"
proof (induction now s ks rule: triage_retryable_loop.induct)
  case (2 now s k a rest)
  show ?case
  proof (cases "apply_outcome s now k retry_review")
    case (Inr s2)
    from apply_outcome_quiet [OF Inr] have "quiet s s2" by blast
    moreover have "quiet s2 (fst (triage_retryable_loop now s2 rest))" by (rule 2 [OF Inr])
    ultimately show ?thesis using Inr by (auto split: prod.splits intro: quiet_trans)
  qed simp
qed simp

lemma status_mark_quiet:
  "tget (ps_attempts s) k = Some a \<Longrightarrow> \<not> attempt_terminal a \<Longrightarrow> quiet s (put_attempt k (a\<lparr>pa_status := AUncertain\<rparr>) s)"
  by (rule quiet_put [of s k a "a\<lparr>pa_status := AUncertain\<rparr>"]) (auto simp: quiet_row_def same_identity_def)

end
