(* ===== verification/RuntimeOnce.thy ===== *)
theory RuntimeOnce
  imports RuntimeClaims
begin

text \<open>
  Submission at most once, and the fence around finalisation: the invariant the execution
  intents and the claim generations keep, and the two properties that rest on it.
\<close>

section \<open>Intents\<close>

definition intents_ok :: "exec_intent table \<Rightarrow> bool" where
  "intents_ok I \<longleftrightarrow> tok I \<and> (\<forall>i j x y. tget I i = Some x \<longrightarrow> tget I j = Some y
     \<longrightarrow> ei_attempt x = ei_attempt y \<longrightarrow> i = j)"

definition intent_le :: "exec_intent \<Rightarrow> exec_intent \<Rightarrow> bool" where
  "intent_le x y \<longleftrightarrow> ei_attempt y = ei_attempt x
     \<and> (ei_submit_started_at x \<noteq> None \<longrightarrow> ei_submit_started_at y = ei_submit_started_at x)"

definition intents_le :: "exec_intent table \<Rightarrow> exec_intent table \<Rightarrow> bool" where
  "intents_le I I' \<longleftrightarrow> (\<forall>i x. tget I i = Some x \<longrightarrow> (\<exists>y. tget I' i = Some y \<and> intent_le x y))"

lemma intents_le_refl [simp]: "intents_le I I"
  by (auto simp: intents_le_def intent_le_def)

lemma intents_le_trans: "intents_le I J \<Longrightarrow> intents_le J K \<Longrightarrow> intents_le I K"
  unfolding intents_le_def intent_le_def by (metis option.distinct(1))

lemma intents_Nil [simp]: "intents_ok []"
  by (simp add: intents_ok_def)

lemma intents_new:
  assumes "intents_ok I" "tget I j = None" "\<And>i x. tget I i = Some x \<Longrightarrow> ei_attempt x \<noteq> ei_attempt y"
  shows "intents_ok (tput j y I) \<and> intents_le I (tput j y I)"
proof -
  have "intents_le I (tput j y I)"
    using assms(2) by (auto simp: intents_le_def intent_le_def table_simps)
  moreover have "\<forall>i x. tget I i = Some x \<longrightarrow> ei_attempt x \<noteq> ei_attempt y \<and> ei_attempt y \<noteq> ei_attempt x"
    using assms(3) by metis
  with assms(1) have "intents_ok (tput j y I)"
    by (auto simp: intents_ok_def table_simps)
  ultimately show ?thesis by blast
qed

lemma intents_change:
  assumes "intents_ok I" "tget I j = Some x" "intent_le x y"
  shows "intents_ok (tput j y I) \<and> intents_le I (tput j y I)"
  using assms by (auto simp: intents_ok_def intents_le_def intent_le_def table_simps)

lemma create_intent_cases:
  assumes "create_intent s j ei = Inr s'" and ok: "intents_ok (ps_intents s)"
  shows "s' = s\<lparr>ps_intents := tput j ei (ps_intents s)\<rparr>" "tget (ps_intents s) j = None"
    and "tget (ps_intents s) i = Some x \<Longrightarrow> ei_attempt x \<noteq> ei_attempt ei"
    and "intents_ok (ps_intents s') \<and> intents_le (ps_intents s) (ps_intents s')"
proof -
  from assms(1) show s': "s' = s\<lparr>ps_intents := tput j ei (ps_intents s)\<rparr>"
    and new: "tget (ps_intents s) j = None"
    by (auto simp: create_intent_def split: if_splits)
  from assms(1) have free: "\<forall>ji\<in>set (ps_intents s). ei_attempt (snd ji) \<noteq> ei_attempt ei"
    by (auto simp: create_intent_def list_ex_iff split: if_splits)
  show "tget (ps_intents s) i = Some x \<Longrightarrow> ei_attempt x \<noteq> ei_attempt ei" for i x
    using free tget_in_set [of "ps_intents s" i x] by fastforce
  with intents_new [OF ok new] show "intents_ok (ps_intents s') \<and> intents_le (ps_intents s) (ps_intents s')"
    by (simp add: s')
qed

lemma find_intent_get:
  assumes "find_intent s k = Some (i, ei)" and "intents_ok (ps_intents s)"
  shows "tget (ps_intents s) i = Some ei \<and> ei_attempt ei = k"
proof -
  from assms(1) have "(i, ei) \<in> set (ps_intents s)" "ei_attempt ei = k"
    by (auto simp: find_intent_def find_Some_iff intro: nth_mem) (metis snd_conv)
  with assms(2) show ?thesis by (simp add: intents_ok_def tget_iff)
qed

lemma reserve_intents:
  assumes "reserve_execution_intent s j k scope operation request fp = Inr (s', i)"
    and "intents_ok (ps_intents s)"
  shows "ps_attempts s' = ps_attempts s \<and> ps_observations s' = ps_observations s
     \<and> intents_ok (ps_intents s') \<and> intents_le (ps_intents s) (ps_intents s')"
proof (cases "create_intent s j (new_intent k scope operation request fp)")
  case (Inl e)
  with assms show ?thesis
    by (auto simp: reserve_execution_intent_def split: option.splits if_splits)
next
  case (Inr s1)
  with assms(1) have "s' = s1" by (simp add: reserve_execution_intent_def)
  with create_intent_cases(1,4) [OF Inr assms(2)] show ?thesis by simp
qed

lemma correlation_intents:
  assumes "record_provider_correlation s j c = Inr s'" and "intents_ok (ps_intents s)"
  shows "ps_attempts s' = ps_attempts s \<and> ps_observations s' = ps_observations s
     \<and> intents_ok (ps_intents s') \<and> intents_le (ps_intents s) (ps_intents s')"
proof (cases "s' = s")
  case False
  with assms(1) obtain x where x: "tget (ps_intents s) j = Some x"
    and s': "s' = s\<lparr>ps_intents := tput j (x\<lparr>ei_provider_correlation := py_strip c, ei_correlated := True\<rparr>) (ps_intents s)\<rparr>"
    by (auto simp: record_provider_correlation_def Let_def split: if_splits option.splits)
  have "intent_le x (x\<lparr>ei_provider_correlation := py_strip c, ei_correlated := True\<rparr>)"
    by (simp add: intent_le_def)
  from intents_change [OF assms(2) x this] show ?thesis by (simp add: s')
qed (use assms in simp)

section \<open>Claims\<close>

text \<open>What the first transaction of a provider call did.\<close>

definition call_begun :: "pay_state \<Rightarrow> string \<Rightarrow> nat \<Rightarrow> pay_state \<Rightarrow> provider_call \<Rightarrow> bool" where
  "call_begun s token k s' c \<longleftrightarrow> pc_attempt c = k \<and> pc_token c = token
     \<and> (\<exists>a b. tget (ps_attempts s) k = Some a \<and> \<not> attempt_terminal a \<and> pa_tenant a \<noteq> ''''
          \<and> ps_attempts s' = tput k b (ps_attempts s) \<and> same_identity a b \<and> pa_status b = pa_status a
          \<and> pc_generation c = pa_claim_generation a + 1 \<and> pa_claim_generation b = pc_generation c
          \<and> pa_claim_token b = token)
     \<and> intents_ok (ps_intents s') \<and> intents_le (ps_intents s) (ps_intents s')
     \<and> ps_observations s' = ps_observations s
     \<and> (pc_kind c = Submit \<longrightarrow>
          (\<forall>i x. tget (ps_intents s) i = Some x \<longrightarrow> ei_attempt x = k \<longrightarrow> ei_submit_started_at x = None)
        \<and> (\<exists>i x. tget (ps_intents s') i = Some x \<and> ei_attempt x = k \<and> ei_submit_started_at x \<noteq> None))"

lemma claimed_fields [simp]:
  "pa_claim_token (claimed now token kind a) = token"
  "pa_claim_generation (claimed now token kind a) = pa_claim_generation a + 1"
  "pa_status (claimed now token kind a) = pa_status a"
  "same_identity a (claimed now token kind a)"
  by (simp_all add: claimed_def same_identity_def)

lemma select_intent_cases:
  assumes got: "select_intent s j k a = Inr (s1, i, ei)" and ok: "intents_ok (ps_intents s)"
  shows "ps_attempts s1 = ps_attempts s \<and> ps_observations s1 = ps_observations s
    \<and> tget (ps_intents s1) i = Some ei \<and> ei_attempt ei = k
    \<and> intents_ok (ps_intents s1) \<and> intents_le (ps_intents s) (ps_intents s1)
    \<and> (\<forall>n x. tget (ps_intents s) n = Some x \<longrightarrow> ei_attempt x = k \<longrightarrow> x = ei)"
proof (cases "find_intent s k")
  case (Some ji)
  with got have s1: "s1 = s" "find_intent s k = Some (i, ei)" by (auto simp: select_intent_def)
  from find_intent_get [OF s1(2) ok] have "tget (ps_intents s) i = Some ei \<and> ei_attempt ei = k" .
  moreover from this ok have "\<forall>n x. tget (ps_intents s) n = Some x \<longrightarrow> ei_attempt x = k \<longrightarrow> x = ei"
    unfolding intents_ok_def by (metis option.inject)
  ultimately show ?thesis using s1(1) ok by simp
next
  case None
  let ?new = "new_intent k (pa_tenant a) (pa_operation a) (pa_request_id a) (pa_payload_fingerprint a)"
  from None got have c: "create_intent s j ?new = Inr s1" and ij: "i = j" "ei = ?new"
    by (auto simp: select_intent_def split: sum.splits)
  have "ei_attempt ?new = k" by (simp add: new_intent_def)
  with create_intent_cases [OF c ok] show ?thesis by (auto simp: ij table_simps)
qed

lemma begin_call_cases:
  assumes run: "begin_call regs s now token j k = Inr (s', res)" and ok: "intents_ok (ps_intents s)"
  obtains (noop) m where "s' = s" "res = Noop m"
    | (call) c where "res = Started c" "call_begun s token k s' c"
proof -
  from run obtain a where a: "tget (ps_attempts s) k = Some a"
    by (auto simp: begin_call_def split: option.splits)
  show ?thesis
  proof (cases "pa_tenant a = '''' \<or> attempt_terminal a \<or> pa_status a = AReview \<or> claim_live now a")
    case True
    with run a have "s' = s \<and> (\<exists>m. res = Noop m)"
      by (auto simp: begin_call_def split: if_splits)
    with noop show ?thesis by blast
  next
    case idle: False
    with run a obtain s1 i ei where got: "select_intent s j k a = Inr (s1, i, ei)"
      by (cases "select_intent s j k a") (auto simp: begin_call_def split: if_splits)
    note step1 = select_intent_cases [OF got ok]
    let ?found = "map_option snd (find_intent s k)"
    let ?poll = "poll_evidence a ?found \<or> ei_submit_started_at ei \<noteq> None"
    let ?kind = "if ?poll then Poll else Submit"
    let ?ei = "mark_submit now (pa_claim_generation a + 1) ei"
    let ?s2 = "if ?poll then s1 else s1\<lparr>ps_intents := tput i ?ei (ps_intents s1)\<rparr>"
    let ?c = "started_call k a ?kind token (case ?found of None \<Rightarrow> '''' | Some x \<Rightarrow> ei_provider_correlation x)"
    from run a idle got have res: "res = Started ?c" and s': "s' = put_attempt k (claimed now token ?kind a) ?s2"
      by (auto simp: begin_call_def Let_def split: if_splits)
    define c where "c = ?c"
    have c: "pc_attempt c = k" "pc_token c = token" "pc_generation c = pa_claim_generation a + 1" "pc_kind c = ?kind"
      by (simp_all add: started_call_def c_def)
    have mark: "intents_ok (ps_intents ?s2) \<and> intents_le (ps_intents s1) (ps_intents ?s2)"
      if "\<not> ?poll"
      using step1 that intents_change [of "ps_intents s1" i ei ?ei] by (simp add: intent_le_def mark_submit_def)
    have "call_begun s token k s' c"
      unfolding call_begun_def
    proof (intro conjI)
      show "\<exists>x b. tget (ps_attempts s) k = Some x \<and> \<not> attempt_terminal x \<and> pa_tenant x \<noteq> ''''
          \<and> ps_attempts s' = tput k b (ps_attempts s) \<and> same_identity x b \<and> pa_status b = pa_status x
          \<and> pc_generation c = pa_claim_generation x + 1 \<and> pa_claim_generation b = pc_generation c
          \<and> pa_claim_token b = token"
        using step1 idle c s' a by (intro exI [of _ a] exI [of _ "claimed now token (pc_kind c) a"]) simp
      show "intents_ok (ps_intents s')" "intents_le (ps_intents s) (ps_intents s')"
        using mark step1 s' by (auto intro: intents_le_trans)
      show "pc_kind c = Submit \<longrightarrow>
          (\<forall>i x. tget (ps_intents s) i = Some x \<longrightarrow> ei_attempt x = k \<longrightarrow> ei_submit_started_at x = None)
        \<and> (\<exists>i x. tget (ps_intents s') i = Some x \<and> ei_attempt x = k \<and> ei_submit_started_at x \<noteq> None)"
        using c step1 s' by (auto simp: table_simps mark_submit_def split: if_splits)
      show "ps_observations s' = ps_observations s" using step1 s' by simp
    qed (use c in simp_all)
    with res call show ?thesis by (simp add: c_def)
  qed
qed

section \<open>What one step of a worker does to the claims\<close>

definition row_le :: "attempt \<Rightarrow> attempt \<Rightarrow> bool" where
  "row_le a b \<longleftrightarrow> same_identity a b \<and> pa_claim_generation a \<le> pa_claim_generation b
     \<and> (pa_claim_generation b = pa_claim_generation a \<longrightarrow> pa_claim_token b \<in> {pa_claim_token a, ''''})"

definition rows_le :: "attempt table \<Rightarrow> attempt table \<Rightarrow> bool" where
  "rows_le T T' \<longleftrightarrow> (\<forall>k a. tget T k = Some a \<longrightarrow> (\<exists>b. tget T' k = Some b \<and> row_le a b))"

definition claims_le :: "pay_state \<Rightarrow> pay_state \<Rightarrow> bool" where
  "claims_le s s' \<longleftrightarrow> rows_le (ps_attempts s) (ps_attempts s') \<and> intents_ok (ps_intents s')
     \<and> intents_le (ps_intents s) (ps_intents s') \<and> (tok (ps_attempts s) \<longrightarrow> tok (ps_attempts s'))"

definition new_call :: "pay_state \<Rightarrow> pay_state \<Rightarrow> provider_call \<Rightarrow> bool" where
  "new_call s s' c \<longleftrightarrow> pc_token c \<noteq> ''''
     \<and> (\<exists>s0. quiet s s0 \<and> call_begun s0 (pc_token c) (pc_attempt c) s' c)"

lemma row_le_refl [simp]: "row_le a a"
  by (simp add: row_le_def)

lemma row_le_trans: "row_le a b \<Longrightarrow> row_le b c \<Longrightarrow> row_le a c"
  by (auto simp: row_le_def intro: same_identity_trans)

lemma rows_le_refl [simp]: "rows_le T T"
  by (simp add: rows_le_def)

lemma rows_le_trans: "rows_le T U \<Longrightarrow> rows_le U V \<Longrightarrow> rows_le T V"
  unfolding rows_le_def by (meson row_le_trans)

lemma rows_le_put: "tget T k = Some a \<Longrightarrow> row_le a b \<Longrightarrow> rows_le T (tput k b T)"
  by (auto simp: rows_le_def table_simps)

lemma quiet_claims: "quiet s s' \<Longrightarrow> intents_ok (ps_intents s) \<Longrightarrow> claims_le s s'"
  unfolding claims_le_def rows_le_def
  by (auto simp: quietD(1,4) quiet_row_def row_le_def dest!: quietD(2))

lemma claims_le_trans: "claims_le s t \<Longrightarrow> claims_le t u \<Longrightarrow> claims_le s u"
  by (auto simp: claims_le_def intro: rows_le_trans intents_le_trans)

lemma begun_claims: "call_begun s token k s' c \<Longrightarrow> claims_le s s'"
proof -
  assume c: "call_begun s token k s' c"
  then obtain a b where "tget (ps_attempts s) k = Some a" "ps_attempts s' = tput k b (ps_attempts s)"
    "pa_claim_generation b = Suc (pa_claim_generation a)" "same_identity a b"
    by (auto simp: call_begun_def)
  then have "rows_le (ps_attempts s) (ps_attempts s')"
    by (auto intro!: rows_le_put [of _ k a] simp: row_le_def)
  moreover from c have "tok (ps_attempts s) \<longrightarrow> tok (ps_attempts s')"
    by (auto simp: call_begun_def tok_tput)
  ultimately show ?thesis using c by (simp add: claims_le_def call_begun_def)
qed

lemma new_call_claims:
  assumes "new_call s s' c" and "intents_ok (ps_intents s)"
  shows "claims_le s s'"
  using assms unfolding new_call_def by (blast intro: claims_le_trans quiet_claims begun_claims)

definition begun_result :: "pay_state \<Rightarrow> string \<Rightarrow> nat \<Rightarrow> pay_state \<times> begin_result \<Rightarrow> bool" where
  "begun_result s token k sr \<longleftrightarrow> (case snd sr of Noop m \<Rightarrow> quiet s (fst sr)
     | Started c \<Rightarrow> pc_token c = token \<and> (\<exists>s0. quiet s s0 \<and> call_begun s0 token (pc_attempt c) (fst sr) c))"

lemma begun_result_Noop [simp]: "begun_result s token k (s', Noop m) = quiet s s'"
  by (simp add: begun_result_def)

lemma begin_call_result:
  assumes "begin_call regs s0 now token j k = Inr sr" "quiet s s0" "intents_ok (ps_intents s)"
  shows "begun_result s token k sr"
proof -
  obtain s' res where sr: "sr = (s', res)" by (cases sr)
  from assms(2,3) have ok: "intents_ok (ps_intents s0)" by (simp add: quietD(1))
  from assms(1) [unfolded sr] ok show ?thesis
  proof (cases rule: begin_call_cases)
    case (call c)
    with assms(2) sr show ?thesis by (auto simp: begun_result_def call_begun_def)
  qed (use assms(2) sr in \<open>auto simp: begun_result_def\<close>)
qed

lemma mark_quiet: "mark_uncertain s k = Inr (Some s') \<Longrightarrow> quiet s s'"
  by (auto simp: mark_uncertain_def intro: status_mark_quiet split: option.splits if_splits)

lemma status_first_result:
  assumes "status_first_recovery regs s now token j k = (s1, r)" "intents_ok (ps_intents s)"
  shows "quiet s s1 \<and> (\<forall>sr. r = Inr sr \<longrightarrow> begun_result s token k sr)"
proof (cases "tget (ps_attempts s) k")
  case None
  with assms show ?thesis by (auto simp: status_first_recovery_def mark_uncertain_def)
next
  case (Some a)
  let ?s1 = "put_attempt k (a\<lparr>pa_status := AUncertain\<rparr>) s"
  show ?thesis
  proof (cases "attempt_terminal a \<or> pa_status a = AReview")
    case True
    with Some assms show ?thesis by (auto simp: status_first_recovery_def mark_uncertain_def begun_result_def)
  next
    case False
    with Some have "quiet s ?s1" by (intro status_mark_quiet) simp_all
    with False Some assms show ?thesis
      by (auto simp: status_first_recovery_def mark_uncertain_def Let_def intro: begin_call_result)
  qed
qed

lemma recover_result:
  assumes "recover_attempt regs s now token j k = (s1, r)" "intents_ok (ps_intents s)"
  shows "quiet s s1 \<and> (\<forall>sr. r = Inr sr \<longrightarrow> begun_result s token k sr)"
proof (cases "tget (ps_attempts s) k")
  case None
  with assms show ?thesis by (auto simp: recover_attempt_def)
next
  case (Some a)
  show ?thesis
  proof (cases "\<not> attempt_terminal a \<and> pa_status a = AUncertain")
    case True
    with Some assms status_first_result [of regs s now token j k s1 r] show ?thesis
      by (auto simp: recover_attempt_def)
  next
    case False
    with Some assms show ?thesis
      by (auto simp: recover_attempt_def split: if_splits intro: begin_call_result [OF _ quiet_refl])
  qed
qed

lemma orchestrate_result:
  assumes "orchestrate_attempt bd sh regs s now token j k = (t, res)" "intents_ok (ps_intents s)"
  shows "(\<forall>e. res = Inl e \<longrightarrow> quiet s t) \<and> (\<forall>sr. res = Inr sr \<longrightarrow> begun_result s token k sr)"
proof -
  obtain s1 r where rec: "recover_attempt regs s now token j k = (s1, r)" by fastforce
  note out = recover_result [OF rec assms(2)]
  show ?thesis
  proof (cases r)
    case (Inl e)
    with assms(1) rec consider "t = s1" "\<exists>e. res = Inl e"
      | s2 where "unavailable bd sh s1 now k = Inr s2" "res = Inr (s2, Noop ''PROVIDER_UNAVAILABLE'')"
      by (auto simp: orchestrate_attempt_def split: pay_error.splits sum.splits)
    then show ?thesis
      by cases (use out in \<open>auto simp: begun_result_def dest: unavailable_quiet intro: quiet_trans\<close>)
  next
    case (Inr x)
    with assms(1) rec out show ?thesis by (auto simp: orchestrate_attempt_def)
  qed
qed

lemma note_call_effect:
  assumes "begun_result (wk_pay w) token k sr" "token \<noteq> ''''" "w' = note_call w sr"
  shows "quiet (wk_pay w) (wk_pay w') \<and> wk_calls w' = wk_calls w
    \<or> (\<exists>c. new_call (wk_pay w) (wk_pay w') c \<and> wk_calls w' = wk_calls w @ [c])"
  using assms by (cases sr; cases "snd sr") (auto simp: begun_result_def note_call_def new_call_def)

section \<open>The invariant\<close>

definition submits :: "provider_call list \<Rightarrow> nat list" where
  "submits cs = map pc_attempt (filter (\<lambda>c. pc_kind c = Submit) cs)"

definition call_recorded :: "pay_state \<Rightarrow> provider_call \<Rightarrow> bool" where
  "call_recorded s c \<longleftrightarrow> pc_token c \<noteq> ''''
     \<and> (\<exists>a. tget (ps_attempts s) (pc_attempt c) = Some a \<and> pc_generation c \<le> pa_claim_generation a)
     \<and> (pc_kind c = Submit \<longrightarrow> (\<exists>i x. tget (ps_intents s) i = Some x \<and> ei_attempt x = pc_attempt c
          \<and> ei_submit_started_at x \<noteq> None))"

definition workers_inv :: "workers \<Rightarrow> bool" where
  "workers_inv w \<longleftrightarrow> intents_ok (ps_intents (wk_pay w))
     \<and> (\<forall>c\<in>set (wk_calls w). call_recorded (wk_pay w) c) \<and> distinct (submits (wk_calls w))"

lemma call_recorded_le:
  assumes "call_recorded s c" "claims_le s s'"
  shows "call_recorded s' c"
proof -
  from assms obtain a where a: "tget (ps_attempts s) (pc_attempt c) = Some a" "pc_generation c \<le> pa_claim_generation a"
    by (auto simp: call_recorded_def)
  with assms(2) obtain b where "tget (ps_attempts s') (pc_attempt c) = Some b" "row_le a b"
    by (auto simp: claims_le_def rows_le_def)
  with a(2) have 1: "\<exists>b. tget (ps_attempts s') (pc_attempt c) = Some b \<and> pc_generation c \<le> pa_claim_generation b"
    by (auto simp: row_le_def)
  have 2: "\<exists>i x. tget (ps_intents s') i = Some x \<and> ei_attempt x = pc_attempt c \<and> ei_submit_started_at x \<noteq> None"
    if sub: "pc_kind c = Submit"
  proof -
    from sub assms(1) obtain i x where x: "tget (ps_intents s) i = Some x" "ei_attempt x = pc_attempt c"
      "ei_submit_started_at x \<noteq> None" by (auto simp: call_recorded_def)
    with assms(2) obtain y where "tget (ps_intents s') i = Some y" "intent_le x y"
      by (auto simp: claims_le_def intents_le_def)
    with x show ?thesis by (intro exI [of _ i] exI [of _ y]) (simp add: intent_le_def)
  qed
  from assms(1) 1 2 show ?thesis by (simp add: call_recorded_def)
qed

lemma new_call_recorded: "new_call s s' c \<Longrightarrow> call_recorded s' c"
  by (auto simp: new_call_def call_begun_def call_recorded_def table_simps)

lemma new_submit_fresh:
  assumes new: "new_call s s' c" and sub: "pc_kind c = Submit"
    and old: "\<forall>d\<in>set cs. call_recorded s d"
  shows "pc_attempt c \<notin> set (submits cs)"
proof
  assume "pc_attempt c \<in> set (submits cs)"
  then obtain d where "d \<in> set cs" "pc_kind d = Submit" "pc_attempt d = pc_attempt c"
    by (auto simp: submits_def)
  with old obtain i x where "tget (ps_intents s) i = Some x" "ei_attempt x = pc_attempt c" "ei_submit_started_at x \<noteq> None"
    by (fastforce simp: call_recorded_def)
  with new sub show False
    unfolding new_call_def call_begun_def by (metis quietD(1))
qed

text \<open>The two ways a step changes claims and calls.\<close>

definition step_effect :: "workers \<Rightarrow> workers \<Rightarrow> bool" where
  "step_effect w w' \<longleftrightarrow> claims_le (wk_pay w) (wk_pay w')
     \<and> (wk_calls w' = wk_calls w \<or> (\<exists>c. new_call (wk_pay w) (wk_pay w') c \<and> wk_calls w' = wk_calls w @ [c]))"

lemma quiet_effect:
  "quiet (wk_pay w) s \<Longrightarrow> intents_ok (ps_intents (wk_pay w)) \<Longrightarrow> step_effect w (w\<lparr>wk_pay := s\<rparr>)"
  by (simp add: step_effect_def quiet_claims)

lemma same_intents_effect:
  "rows_le (ps_attempts (wk_pay w)) (ps_attempts s) \<Longrightarrow> intents_ok (ps_intents s)
     \<Longrightarrow> intents_le (ps_intents (wk_pay w)) (ps_intents s)
     \<Longrightarrow> (tok (ps_attempts (wk_pay w)) \<Longrightarrow> tok (ps_attempts s)) \<Longrightarrow> step_effect w (w\<lparr>wk_pay := s\<rparr>)"
  by (simp add: step_effect_def claims_le_def)

lemma begun_effect:
  assumes "begun_result (wk_pay w) token k sr" "token \<noteq> ''''" "intents_ok (ps_intents (wk_pay w))"
  shows "step_effect w (note_call w sr)"
  using note_call_effect [OF assms(1,2) refl] assms(3)
  by (auto simp: step_effect_def intro: quiet_claims new_call_claims)

lemma create_attempt_effect:
  assumes "get_or_create_attempt s k tenant operation request fp rest audited = Inr (s', r)"
  shows "rows_le (ps_attempts s) (ps_attempts s') \<and> ps_intents s' = ps_intents s
    \<and> (tok (ps_attempts s) \<longrightarrow> tok (ps_attempts s'))"
  using assms
  by (auto simp: get_or_create_attempt_def Let_def rows_le_def table_simps split: option.splits if_splits)

lemma worker_step_effect:
  assumes "intents_ok (ps_intents (wk_pay w))" "worker_owed w x" "worker_step bd sh regs w x = Inr w'"
  shows "step_effect w w'"
proof (cases x)
  case (WOrchestrate now token j k)
  obtain t res where r: "orchestrate_attempt bd sh regs (wk_pay w) now token j k = (t, res)" by fastforce
  with WOrchestrate assms orchestrate_result [OF r assms(1)] show ?thesis
    by (cases res) (auto intro: begun_effect quiet_effect)
next
  case (WRecover now token j k)
  obtain s1 r where r: "recover_attempt regs (wk_pay w) now token j k = (s1, r)" by fastforce
  with WRecover assms recover_result [OF r assms(1)] show ?thesis
    by (cases r) (auto intro: begun_effect quiet_effect)
next
  case (WStatusFirst now token j k)
  obtain s1 r where r: "status_first_recovery regs (wk_pay w) now token j k = (s1, r)" by fastforce
  with WStatusFirst assms status_first_result [OF r assms(1)] show ?thesis
    by (cases r) (auto intro: begun_effect quiet_effect)
next
  case (WMark k)
  with assms consider "w' = w" | s where "mark_uncertain (wk_pay w) k = Inr (Some s)" "w' = w\<lparr>wk_pay := s\<rparr>"
    by (auto simp: map_sum_Inr_iff split: option.splits)
  then show ?thesis
  proof cases
    case 1
    with quiet_effect [OF quiet_refl assms(1)] show ?thesis by simp
  next
    case (2 s)
    from mark_quiet [OF 2(1)] 2(2) assms(1) show ?thesis by (auto intro: quiet_effect)
  qed
next
  case (WSubmit now token j k)
  with assms show ?thesis by (auto simp: map_sum_Inr_iff intro: begun_effect begin_call_result [OF _ quiet_refl])
next
  case (WUnavailable now k)
  with assms show ?thesis by (auto simp: map_sum_Inr_iff intro: quiet_effect unavailable_quiet)
next
  case (WFinish now c r)
  with assms show ?thesis by (auto simp: map_sum_Inr_iff intro: quiet_effect finalize_quiet)
next
  case (WOutcome now k out)
  with assms show ?thesis by (auto simp: map_sum_Inr_iff intro!: quiet_effect dest: apply_outcome_quiet)
next
  case (WTriage now)
  with assms show ?thesis by (auto simp: triage_uncertain_def intro!: quiet_effect triage_uncertain_loop_quiet)
next
  case (WTriageRetry now)
  with assms show ?thesis by (auto simp: triage_retryable_def intro!: quiet_effect triage_retryable_loop_quiet)
next
  case (WCorrelate j c)
  with assms show ?thesis by (auto simp: map_sum_Inr_iff intro!: same_intents_effect dest: correlation_intents)
next
  case (WReserve j k scope operation request fp)
  with assms show ?thesis by (auto simp: map_sum_Inr_iff intro!: same_intents_effect dest: reserve_intents)
next
  case (WCreate k tenant operation request fp rest)
  with assms show ?thesis by (auto simp: map_sum_Inr_iff intro!: same_intents_effect dest: create_attempt_effect)
qed

lemma workers_inv_step:
  assumes "workers_inv w" "worker_owed w x" "worker_step bd sh regs w x = Inr w'"
  shows "workers_inv w'"
proof -
  from assms(1) have ok: "intents_ok (ps_intents (wk_pay w))" and rec: "\<forall>c\<in>set (wk_calls w). call_recorded (wk_pay w) c"
    and dist: "distinct (submits (wk_calls w))" by (simp_all add: workers_inv_def)
  from worker_step_effect [OF ok assms(2,3)] have eff: "step_effect w w'" .
  then have le: "claims_le (wk_pay w) (wk_pay w')" by (simp add: step_effect_def)
  with rec have rec': "\<forall>c\<in>set (wk_calls w). call_recorded (wk_pay w') c" by (blast intro: call_recorded_le)
  from eff consider "wk_calls w' = wk_calls w"
    | c where "new_call (wk_pay w) (wk_pay w') c" "wk_calls w' = wk_calls w @ [c]"
    by (auto simp: step_effect_def)
  then show ?thesis
  proof cases
    case 1
    with le rec' dist show ?thesis by (simp add: workers_inv_def claims_le_def)
  next
    case (2 c)
    have "pc_kind c = Submit \<longrightarrow> pc_attempt c \<notin> set (submits (wk_calls w))"
      using new_submit_fresh [OF 2(1) _ rec] by blast
    with 2 le rec' dist show ?thesis
      by (auto simp: workers_inv_def claims_le_def submits_def new_call_recorded)
  qed
qed

definition wk_rows_le :: "workers \<Rightarrow> workers \<Rightarrow> bool" where
  "wk_rows_le w w' \<longleftrightarrow> rows_le (ps_attempts (wk_pay w)) (ps_attempts (wk_pay w'))"

lemma rows_step:
  assumes "workers_inv w" "worker_owed w x" "worker_step bd sh regs w x = Inr w'"
  shows "wk_rows_le w w'"
  using worker_step_effect [OF _ assms(2,3)] assms(1)
  by (simp add: workers_inv_def step_effect_def claims_le_def wk_rows_le_def)

interpretation wk: monotone_system "worker_step bd sh regs" worker_owed workers_inv wk_rows_le
  for bd :: binding_digest and sh regs
  by unfold_locales (auto intro: workers_inv_step rows_step, auto simp: wk_rows_le_def intro: rows_le_trans)

section \<open>Submission at most once\<close>

definition no_calls :: "workers \<Rightarrow> bool" where
  "no_calls w \<longleftrightarrow> ps_intents (wk_pay w) = [] \<and> wk_calls w = []"

lemma no_calls_inv: "no_calls w \<Longrightarrow> workers_inv w"
  by (simp add: no_calls_def workers_inv_def submits_def)

lemma submits_count:
  "length (filter (\<lambda>c. pc_attempt c = k \<and> pc_kind c = Submit) cs) = count_list (submits cs) k"
  by (induction cs) (auto simp: submits_def)

lemma distinct_count: "distinct xs \<Longrightarrow> count_list xs x \<le> 1"
  by (induction xs) auto

text \<open>
  C2. At most once: in every run of the workers - concurrent claims, takeovers after a lease
  expired, workers that die after submitting, answers that come late or never, recovery,
  triage and reservation in any order - an attempt is submitted to its provider at most once;
  every further call for it polls.
\<close>

theorem attempt_submitted_at_most_once:
  assumes "no_calls w" and "ops_ok worker_owed (worker_step bd sh regs) w xs"
  shows "length (filter (\<lambda>c. pc_attempt c = k \<and> pc_kind c = Submit)
    (wk_calls (run_ops (worker_step bd sh regs) w xs))) \<le> 1"
proof -
  from wk.inv_run [OF no_calls_inv assms(2)] assms(1)
  have "distinct (submits (wk_calls (run_ops (worker_step bd sh regs) w xs)))"
    by (simp add: workers_inv_def)
  then show ?thesis unfolding submits_count by (rule distinct_count)
qed

text \<open>A concrete scene: one attempt, one registered provider.\<close>

definition scene_attempt :: attempt where
  "scene_attempt = \<lparr>pa_tenant = ''t'', pa_claim_token = '''', pa_claim_expires_at = None, pa_claim_generation = 0,
     pa_claim_heartbeat_at = None, pa_submission_intent = NoIntent, pa_recovery_evidence = NoEvidence,
     pa_request_id = ''r'', pa_operation = ''g2p'', pa_source_bb_id = ''bb'', pa_provider_attempt_id = '''',
     pa_external_transaction_id = '''', pa_amount = Some 500, pa_currency = ''USD'', pa_status = APending,
     pa_failure_code = '''', pa_failure_category = '''', pa_retryable = False, pa_attempt_count = 0,
     pa_next_retry_at = None, pa_last_error = '''', pa_payload_fingerprint = ''f'', pa_version = 1\<rparr>"

definition scene_pay :: pay_state where
  "scene_pay = \<lparr>ps_attempts = [(1, scene_attempt)], ps_intents = [], ps_observations = [],
     ps_reconciliations = [], ps_callbacks = [], ps_audit = []\<rparr>"

definition scene_regs :: "registration list" where
  "scene_regs = [\<lparr>rg_tenant = ''t'', rg_operation = ''g2p'', rg_active = True, rg_active_from = None,
     rg_active_until = None, rg_factory_key = ''deterministic.v1'', rg_schema_version = 1,
     rg_configuration = Some ([], [])\<rparr>]"

definition scene_bd :: binding_digest where
  "scene_bd x = fst x"

definition scene_key :: "nat \<Rightarrow> string" where
  "scene_key n = replicate n (CHR ''k'')"

definition scene_workers :: workers where
  "scene_workers = \<lparr>wk_pay = scene_pay, wk_calls = []\<rparr>"

text \<open>The first worker submits and dies; after its lease a second one takes over.\<close>

definition scene_takeover :: "worker_op list" where
  "scene_takeover = [WOrchestrate 10 ''a'' 1 1, WOrchestrate 20 ''b'' 2 1, WOrchestrate 400 ''b'' 2 1]"

lemma attempt_submitted_at_most_once_witness:
  "map (\<lambda>c. (pc_kind c, pc_token c)) (wk_calls (run_ops (worker_step scene_bd scene_key scene_regs) scene_workers scene_takeover))
     = [(Submit, ''a''), (Poll, ''b'')]
   \<and> length (filter (\<lambda>c. pc_attempt c = 1 \<and> pc_kind c = Submit)
       (wk_calls (run_ops (worker_step scene_bd scene_key scene_regs) scene_workers scene_takeover))) \<le> 1"
proof
  show "map (\<lambda>c. (pc_kind c, pc_token c)) (wk_calls (run_ops (worker_step scene_bd scene_key scene_regs) scene_workers scene_takeover))
     = [(Submit, ''a''), (Poll, ''b'')]" by code_simp
  have "no_calls scene_workers" by code_simp
  moreover have "ops_ok worker_owed (worker_step scene_bd scene_key scene_regs) scene_workers scene_takeover"
    by (simp add: scene_takeover_def)
  ultimately show "length (filter (\<lambda>c. pc_attempt c = 1 \<and> pc_kind c = Submit)
       (wk_calls (run_ops (worker_step scene_bd scene_key scene_regs) scene_workers scene_takeover))) \<le> 1"
    by (rule attempt_submitted_at_most_once)
qed

section \<open>Results are recorded at most once\<close>

definition closed_call :: "provider_call \<Rightarrow> attempt \<Rightarrow> bool" where
  "closed_call c a \<longleftrightarrow> pc_generation c < pa_claim_generation a
     \<or> pc_generation c = pa_claim_generation a \<and> pa_claim_token a \<noteq> pc_token c"

lemma closed_call_le: "closed_call c a \<Longrightarrow> row_le a b \<Longrightarrow> pc_token c \<noteq> '''' \<Longrightarrow> closed_call c b"
  by (auto simp: closed_call_def row_le_def)

lemma closed_call_stale:
  "tget (ps_attempts s) (pc_attempt c) = Some a \<Longrightarrow> closed_call c a
     \<Longrightarrow> finalize_claimed_result bd sh s now (pc_attempt c) (pc_token c) (pc_generation c) r
       = Inr (s, noop_result ''STALE_CLAIM'')"
  by (auto simp: finalize_claimed_result_def closed_call_def)

lemma finish_closes:
  assumes "workers_inv w" "c \<in> set (wk_calls w)" "worker_step bd sh regs w (WFinish now c r) = Inr w'"
  obtains a where "tget (ps_attempts (wk_pay w')) (pc_attempt c) = Some a" "closed_call c a"
proof -
  from assms(1,2) have rec: "call_recorded (wk_pay w) c" by (simp add: workers_inv_def)
  from assms(3) obtain s' res where fin: "finalize_claimed_result bd sh (wk_pay w) now (pc_attempt c) (pc_token c)
      (pc_generation c) r = Inr (s', res)" and w': "w' = w\<lparr>wk_pay := s'\<rparr>"
    by (auto simp: map_sum_Inr_iff)
  from fin show ?thesis
  proof (cases rule: finalize_cases)
    case (stale a)
    with rec show ?thesis by (intro that [of a]) (auto simp: w' call_recorded_def closed_call_def)
  next
    case (recorded a s1 a1 b)
    from record_result_quiet [OF recorded(4)] have "quiet (wk_pay w) s1" .
    with recorded(1) have "pa_claim_generation a1 = pa_claim_generation a"
      using recorded(5) by (auto simp: quiet_row_def dest!: quietD(2))
    with recorded rec show ?thesis
      by (intro that [of b]) (auto simp: w' call_recorded_def closed_call_def table_simps)
  qed
qed

text \<open>
  The fence: once a call's worker has returned and its second transaction committed, no
  later return of that call (a duplicated delivery, a retried task) or of an older call for
  the same attempt changes anything, whatever happened in between: it is answered
  STALE_CLAIM. So every call records at most one result, and only the newest one may.
\<close>

theorem result_recorded_at_most_once:
  assumes "no_calls w" and "ops_ok worker_owed (worker_step bd sh regs) w (xs @ WFinish now c r # ys)"
    and "worker_step bd sh regs (run_ops (worker_step bd sh regs) w xs) (WFinish now c r) = Inr w1"
    and "w2 = run_ops (worker_step bd sh regs) w1 ys"
    and "d = c \<or> d \<in> set (wk_calls w2) \<and> pc_attempt d = pc_attempt c \<and> pc_generation d < pc_generation c"
  shows "finalize_claimed_result bd sh (wk_pay w2) now2 (pc_attempt d) (pc_token d) (pc_generation d) r2
    = Inr (wk_pay w2, noop_result ''STALE_CLAIM'')"
proof -
  let ?w = "run_ops (worker_step bd sh regs) w xs"
  from assms(2,3) have ok: "ops_ok worker_owed (worker_step bd sh regs) w xs" "c \<in> set (wk_calls ?w)"
    "ops_ok worker_owed (worker_step bd sh regs) w1 ys" by (auto simp: ops_ok_append)
  have inv: "workers_inv ?w" by (rule wk.inv_run [OF no_calls_inv [OF assms(1)] ok(1)])
  have inv1: "workers_inv w1" by (rule workers_inv_step [OF inv _ assms(3)]) (simp add: ok(2))
  from inv ok(2) assms(3) obtain a where a: "tget (ps_attempts (wk_pay w1)) (pc_attempt c) = Some a" "closed_call c a"
    by (rule finish_closes)
  from wk.rel_run [OF inv1 ok(3)] a(1) assms(4) obtain b where
    b: "tget (ps_attempts (wk_pay w2)) (pc_attempt c) = Some b" "row_le a b"
    by (auto simp: wk_rows_le_def rows_le_def)
  from inv ok(2) have "pc_token c \<noteq> ''''" by (simp add: workers_inv_def call_recorded_def)
  with a(2) b(2) have "closed_call c b" by (rule closed_call_le)
  with assms(5) have "closed_call d b \<and> pc_attempt d = pc_attempt c" by (auto simp: closed_call_def)
  with b(1) show ?thesis by (intro closed_call_stale [of _ d b]) simp_all
qed

text \<open>
  The taken-over worker of the scene polls and its answer is recorded; then the answer of
  the first worker arrives.
\<close>

definition scene_answer :: provider_result where
  "scene_answer = (blank_result PSettled)\<lparr>pr_external_transaction_id := ''x9'', pr_verified := True,
     pr_observation_id := ''o1'', pr_verification_method := ''poll''\<rparr>"

definition scene_call :: "string \<Rightarrow> call_kind \<Rightarrow> nat \<Rightarrow> provider_call" where
  "scene_call token kind generation = \<lparr>pc_attempt = 1, pc_kind = kind, pc_token = token, pc_generation = generation,
     pc_request_id = ''r'', pc_provider_attempt_id = '''', pc_external_transaction_id = ''''\<rparr>"

lemma result_recorded_at_most_once_witness:
  "\<exists>w2. w2 = run_ops (worker_step scene_bd scene_key scene_regs) scene_workers
        (scene_takeover @ [WFinish 410 (scene_call ''b'' Poll 2) scene_answer])
    \<and> map (\<lambda>a. (pa_status (snd a), pa_external_transaction_id (snd a))) (ps_attempts (wk_pay w2)) = [(ASettled, ''x9'')]
    \<and> finalize_claimed_result scene_bd scene_key (wk_pay w2) 420 1 ''a'' 1 (blank_result PRejected)
        = Inr (wk_pay w2, noop_result ''STALE_CLAIM'')"
proof -
  let ?run = "run_ops (worker_step scene_bd scene_key scene_regs) scene_workers"
  let ?c = "scene_call ''b'' Poll 2" and ?d = "scene_call ''a'' Submit 1"
  let ?w1 = "?run (scene_takeover @ [WFinish 410 ?c scene_answer])"
  have 1: "no_calls scene_workers" by code_simp
  have calls: "wk_calls (?run scene_takeover) = [?d, ?c]" by code_simp
  then have 2: "ops_ok worker_owed (worker_step scene_bd scene_key scene_regs) scene_workers
      (scene_takeover @ WFinish 410 ?c scene_answer # [])"
    by (simp add: ops_ok_append) (simp add: scene_takeover_def)
  have 3: "worker_step scene_bd scene_key scene_regs (?run scene_takeover) (WFinish 410 ?c scene_answer) = Inr ?w1"
    by code_simp
  have 4: "?w1 = run_ops (worker_step scene_bd scene_key scene_regs) ?w1 []" by simp
  have "wk_calls ?w1 = [?d, ?c]" by code_simp
  then have 5: "?d = ?c \<or> ?d \<in> set (wk_calls ?w1) \<and> pc_attempt ?d = pc_attempt ?c \<and> pc_generation ?d < pc_generation ?c"
    by (simp add: scene_call_def)
  have settled: "map (\<lambda>a. (pa_status (snd a), pa_external_transaction_id (snd a))) (ps_attempts (wk_pay ?w1)) = [(ASettled, ''x9'')]"
    by code_simp
  from result_recorded_at_most_once [OF 1 2 3 4 5] settled show ?thesis by (auto simp: scene_call_def)
qed

end
