(* ===== verification/RuntimeSettlement.thy ===== *)
theory RuntimeSettlement
  imports RuntimeOnce
begin

text \<open>
  Settlement: an attempt is settled only on the strength of one verified observation bound
  to exactly its tenant, key, amount and currency. The invariant is proved over the same
  runs of the workers as the submission property.
\<close>

section \<open>The invariant\<close>

text \<open>The observation that justifies a settled attempt.\<close>

definition backs :: "binding_digest \<Rightarrow> nat \<Rightarrow> attempt \<Rightarrow> observation \<Rightarrow> bool" where
  "backs bd k a x \<longleftrightarrow> ob_attempt x = k \<and> ob_accepted x \<and> ob_verified x \<and> ob_outcome x = ''settled''
     \<and> Some (ob_amount x) = pa_amount a
     \<and> ob_binding_hash x = take 64 (binding_hash bd (pa_tenant a) k (pa_amount a) (pa_currency a))"

definition settled_backed :: "binding_digest \<Rightarrow> pay_state \<Rightarrow> bool" where
  "settled_backed bd s \<longleftrightarrow> (\<forall>k a. tget (ps_attempts s) k = Some a \<longrightarrow> pa_status a = ASettled
     \<longrightarrow> (\<exists>x\<in>set (ps_observations s). backs bd k a x))"

definition accepted_final :: "pay_state \<Rightarrow> bool" where
  "accepted_final s \<longleftrightarrow> (\<forall>x\<in>set (ps_observations s). ob_accepted x \<longrightarrow>
     (\<exists>a. tget (ps_attempts s) (ob_attempt x) = Some a \<and> attempt_terminal a))"

definition one_accepted :: "pay_state \<Rightarrow> bool" where
  "one_accepted s \<longleftrightarrow> distinct (map ob_attempt (filter ob_accepted (ps_observations s)))"

definition settle_inv :: "binding_digest \<Rightarrow> pay_state \<Rightarrow> bool" where
  "settle_inv bd s \<longleftrightarrow> settled_backed bd s \<and> accepted_final s \<and> one_accepted s"

section \<open>Operations that settle nothing\<close>

definition keeps :: "pay_state \<Rightarrow> pay_state \<Rightarrow> bool" where
  "keeps s s' \<longleftrightarrow> ps_observations s' = ps_observations s
     \<and> (\<forall>k a. tget (ps_attempts s) k = Some a \<longrightarrow> (\<exists>b. tget (ps_attempts s') k = Some b \<and> same_identity a b))
     \<and> (\<forall>k b. tget (ps_attempts s') k = Some b \<longrightarrow> pa_status b = ASettled
          \<longrightarrow> (\<exists>a. tget (ps_attempts s) k = Some a \<and> pa_status a = ASettled \<and> same_identity a b))"

lemma keeps_refl [simp]: "keeps s s"
  by (auto simp: keeps_def)

lemma keeps_same: "ps_attempts s' = ps_attempts s \<Longrightarrow> ps_observations s' = ps_observations s \<Longrightarrow> keeps s s'"
  by (auto simp: keeps_def)

lemma keepsD:
  assumes "keeps s s'"
  shows "ps_observations s' = ps_observations s"
    and "tget (ps_attempts s) k = Some a \<Longrightarrow> \<exists>b. tget (ps_attempts s') k = Some b \<and> same_identity a b"
    and "tget (ps_attempts s') k = Some b \<Longrightarrow> pa_status b = ASettled
      \<Longrightarrow> \<exists>a. tget (ps_attempts s) k = Some a \<and> pa_status a = ASettled \<and> same_identity a b"
  using assms by (simp_all add: keeps_def)

lemma keeps_trans:
  assumes "keeps s t" "keeps t u"
  shows "keeps s u"
  unfolding keeps_def
proof (intro conjI allI impI)
  show "ps_observations u = ps_observations s" using assms by (simp add: keepsD(1))
  show "\<exists>c. tget (ps_attempts u) k = Some c \<and> same_identity a c" if "tget (ps_attempts s) k = Some a" for k a
    using keepsD(2) [OF assms(1) that] keepsD(2) [OF assms(2)] by (blast intro: same_identity_trans)
  show "\<exists>a. tget (ps_attempts s) k = Some a \<and> pa_status a = ASettled \<and> same_identity a c"
    if "tget (ps_attempts u) k = Some c" "pa_status c = ASettled" for k c
    using keepsD(3) [OF assms(2) that] keepsD(3) [OF assms(1)] by (blast intro: same_identity_trans)
qed

lemma keeps_put:
  "tget (ps_attempts s) k = Some a \<Longrightarrow> same_identity a b \<Longrightarrow> pa_status b \<noteq> ASettled \<or> pa_status a = ASettled
     \<Longrightarrow> ps_attempts s' = tput k b (ps_attempts s) \<Longrightarrow> ps_observations s' = ps_observations s \<Longrightarrow> keeps s s'"
  by (auto simp: keeps_def table_simps)

lemma keeps_put_attempt:
  "tget (ps_attempts s) k = Some a \<Longrightarrow> same_identity a b \<Longrightarrow> pa_status b \<noteq> ASettled \<or> pa_status a = ASettled
     \<Longrightarrow> keeps s (put_attempt k b s)"
  by (erule (2) keeps_put) simp_all

lemma backs_identity: "backs bd k a x \<Longrightarrow> same_identity a b \<Longrightarrow> backs bd k b x"
  by (simp add: backs_def same_identity_def)

lemma keeps_settle_inv:
  assumes "settle_inv bd s" "keeps s s'"
  shows "settle_inv bd s'"
proof -
  from assms have "settled_backed bd s'"
    by (auto simp: settle_inv_def settled_backed_def keepsD(1) dest!: keepsD(3) intro: backs_identity)
      (meson backs_identity)
  moreover have "accepted_final s'"
    unfolding accepted_final_def
  proof (intro ballI impI)
    fix x assume "x \<in> set (ps_observations s')" "ob_accepted x"
    with assms obtain a where a: "tget (ps_attempts s) (ob_attempt x) = Some a" "attempt_terminal a"
      by (auto simp: settle_inv_def accepted_final_def keepsD(1))
    from keepsD(2) [OF assms(2) a(1)] a(2)
    show "\<exists>b. tget (ps_attempts s') (ob_attempt x) = Some b \<and> attempt_terminal b"
      by (auto simp: same_identity_def attempt_terminal_def)
  qed
  moreover from assms have "one_accepted s'"
    by (simp add: settle_inv_def one_accepted_def keeps_def)
  ultimately show ?thesis by (simp add: settle_inv_def)
qed

lemma apply_outcome_keeps:
  assumes "apply_outcome s now k out = Inr s'" and "target_status out \<noteq> ASettled"
  shows "keeps s s'"
  using assms(1)
proof (cases rule: apply_outcome_cases)
  case (moves a b)
  with assms(2) show ?thesis by (auto intro: keeps_put simp: quiet_row_def)
qed simp

lemma non_final_target: "target_status (non_final_outcome r) \<in> {AUncertain, ARetryable, AReview}"
  by (auto simp: target_status_def non_final_outcome_def outcome_to_status_def plain_outcome_def)

lemma begun_keeps: "call_begun s token k s' c \<Longrightarrow> keeps s s'"
  by (auto simp: call_begun_def intro: keeps_put)

section \<open>Recording an observation\<close>

lemma final_outcome_short: "take 20 (final_outcome x) = final_outcome x"
  by (cases x) (simp_all add: final_outcome_def)

lemma exact_row_backs:
  assumes "observation_exact bd k a (Some m) ob" "pa_amount a = Some m" "ob_outcome ob = ''settled''"
  shows "backs bd k a (stored_observation (ob\<lparr>ob_attempt := k\<rparr>) m True)"
  using assms by (simp add: observation_exact_def backs_def stored_observation_def binding_hash_def)

lemma record_observation_settle:
  assumes run: "record_observation bd s now k a (pa_amount a) ob = Inr (s', row)"
    and a: "tget (ps_attempts s) k = Some a" and inv: "settle_inv bd s"
  shows "settle_inv bd s'"
  using run
proof (cases rule: record_observation_cases)
  case (1 a' m s1)
  with a have [simp]: "a' = a" by simp
  note row = 1(3)
  have att: "ob_attempt row = k" by (simp add: row stored_observation_def)
  have acc: "ob_accepted row = observation_exact bd k a (Some m) ob"
    by (simp add: row stored_observation_def 1(2))
  from 1(4) have fresh: "ob_accepted row \<Longrightarrow> \<forall>x\<in>set (ps_observations s). ob_accepted x \<longrightarrow> ob_attempt x \<noteq> k"
    by (auto simp: observation_clash_def list_ex_iff att)
  from record_observation_quiet [OF run] have q: "quiet s s'" and obs: "ps_observations s' = ps_observations s @ [row]"
    by simp_all
  have one: "one_accepted s'"
    using inv fresh by (auto simp: settle_inv_def one_accepted_def obs att)
  have ident: "\<exists>b. tget (ps_attempts s') j = Some b \<and> same_identity x b" if "tget (ps_attempts s) j = Some x" for j x
    using quietD(2) [OF q that] by (auto simp: quiet_row_def)
  have old_final: "\<exists>b. tget (ps_attempts s') j = Some b \<and> attempt_terminal b"
    if "tget (ps_attempts s) j = Some x" "attempt_terminal x" for j x
    using ident [OF that(1)] that(2) by (auto simp: same_identity_def attempt_terminal_def)
  show ?thesis
  proof (cases "ob_accepted row \<and> \<not> attempt_terminal a")
    case True
    let ?out = "(plain_outcome (ob_outcome ob))\<lparr>po_provider_attempt_id := ob_provider_transaction_id ob,
        po_external_transaction_id := ob_provider_transaction_id ob\<rparr>"
    from True 1(6) have app: "apply_outcome s1 now k ?out = Inr s'" by simp
    from True acc have ex: "observation_exact bd k a (Some m) ob" by simp
    then have out: "ob_outcome ob \<in> {''settled'', ''rejected''}" by (simp add: observation_exact_def)
    then have target: "target_status ?out = (if ob_outcome ob = ''settled'' then ASettled else ARejected)"
      by (auto simp: target_status_def plain_outcome_def outcome_to_status_def)
    from app obtain b where b: "ps_attempts s' = tput k b (ps_attempts s)" "pa_status b = target_status ?out" "quiet_row a b"
    proof (cases rule: apply_outcome_cases)
      case (moves x b)
      with a 1(5) that [of b] show ?thesis by simp
    qed (use True a 1(5) in simp)
    have "accepted_final s'"
      using inv old_final b(1,2) target
      by (auto simp: settle_inv_def accepted_final_def obs att table_simps attempt_terminal_def)
    moreover have "settled_backed bd s'"
      unfolding settled_backed_def
    proof (intro allI impI)
      fix j y assume y: "tget (ps_attempts s') j = Some y" "pa_status y = ASettled"
      show "\<exists>x\<in>set (ps_observations s'). backs bd j y x"
      proof (cases "j = k")
        case True
        with y b have "y = b" by (simp add: table_simps)
        with y b(2) target have "ob_outcome ob = ''settled''" by (auto split: if_splits)
        with ex 1(2) row have "backs bd k a row" using exact_row_backs [of bd k a m ob] by simp
        with b(3) have "backs bd k b row" by (auto simp: quiet_row_def intro: backs_identity)
        with \<open>y = b\<close> True obs show ?thesis by simp
      next
        case False
        with y b(1) inv obs show ?thesis by (auto simp: table_simps settle_inv_def settled_backed_def)
      qed
    qed
    ultimately show ?thesis using one by (simp add: settle_inv_def)
  next
    case False
    with 1(6) have same: "ps_attempts s' = ps_attempts s" by auto
    with inv obs have "settled_backed bd s'" by (auto simp: settle_inv_def settled_backed_def)
    moreover have "accepted_final s'"
      using inv obs same False a by (auto simp: settle_inv_def accepted_final_def att)
    ultimately show ?thesis using one by (simp add: settle_inv_def)
  qed
qed

lemma record_result_settle:
  assumes run: "record_provider_result bd sh s now k a r source = Inr s'"
    and a: "tget (ps_attempts s) k = Some a" and inv: "settle_inv bd s"
  shows "settle_inv bd s'"
  using run
proof (cases rule: record_result_cases)
  case (1 s1 s2 a1 a2 row)
  have "settle_inv bd s1" by (rule record_observation_settle [OF 1(1) a inv])
  moreover have "keeps s1 s2"
  proof (cases "\<not> ob_accepted row \<and> \<not> attempt_terminal a1")
    case True
    with 1(3) have "apply_outcome s1 now k (non_final_outcome (normalize_result r)) = Inr s2" by simp
    then show ?thesis
      using non_final_target [of "normalize_result r"] by (intro apply_outcome_keeps) auto
  qed (use 1(3) in simp)
  ultimately have "settle_inv bd s2" by (rule keeps_settle_inv)
  moreover have "keeps s2 s'" using 1(5) by (auto intro: keeps_same)
  ultimately show ?thesis by (rule keeps_settle_inv)
qed

lemma finalize_settle:
  assumes run: "finalize_claimed_result bd sh s now k token g r = Inr (s', res)" and inv: "settle_inv bd s"
  shows "settle_inv bd s'"
  using run
proof (cases rule: finalize_cases)
  case (recorded a s1 a1 b)
  have "settle_inv bd s1" by (rule record_result_settle [OF recorded(4,1) inv])
  moreover have "keeps s1 s'"
    unfolding recorded(6,7) by (rule keeps_put_attempt [OF recorded(5)]) (simp_all add: same_identity_def)
  ultimately show ?thesis by (rule keeps_settle_inv)
qed (use inv in simp)

section \<open>Every step of the workers\<close>

lemma unavailable_settle: "unavailable bd sh s now k = Inr s' \<Longrightarrow> settle_inv bd s \<Longrightarrow> settle_inv bd s'"
  by (auto simp: unavailable_def split: option.splits if_splits intro: record_result_settle)

lemma status_mark_keeps:
  "tget (ps_attempts s) k = Some a \<Longrightarrow> \<not> attempt_terminal a \<Longrightarrow> keeps s (put_attempt k (a\<lparr>pa_status := AUncertain\<rparr>) s)"
  by (erule keeps_put_attempt) (simp_all add: same_identity_def)

lemma mark_keeps: "mark_uncertain s k = Inr (Some s') \<Longrightarrow> keeps s s'"
  by (auto simp: mark_uncertain_def intro: status_mark_keeps split: option.splits if_splits)

definition begun_keeps_result :: "pay_state \<Rightarrow> pay_error + (pay_state \<times> begin_result) \<Rightarrow> bool" where
  "begun_keeps_result s r \<longleftrightarrow> (case r of Inl e \<Rightarrow> True | Inr sr \<Rightarrow> keeps s (fst sr))"

lemma begun_keeps_Inr [simp]: "begun_keeps_result s (Inr (s', res)) = keeps s s'"
  by (simp add: begun_keeps_result_def)

lemma begin_call_keeps:
  assumes "intents_ok (ps_intents s)"
  shows "begun_keeps_result s (begin_call regs s now token j k)"
proof (cases "begin_call regs s now token j k")
  case (Inr sr)
  obtain s' res where sr: "sr = (s', res)" by (cases sr)
  from Inr [unfolded sr] assms have "keeps s s'"
    by (cases rule: begin_call_cases) (auto intro: begun_keeps)
  with Inr sr show ?thesis by (simp add: begun_keeps_result_def)
qed (simp add: begun_keeps_result_def)

lemma begun_keeps_after: "keeps s t \<Longrightarrow> begun_keeps_result t r \<Longrightarrow> begun_keeps_result s r"
  by (auto simp: begun_keeps_result_def intro: keeps_trans split: sum.splits)

lemma status_first_keeps:
  assumes "intents_ok (ps_intents s)" "status_first_recovery regs s now token j k = (s1, r)"
  shows "keeps s s1 \<and> begun_keeps_result s r"
proof (cases "tget (ps_attempts s) k")
  case None
  with assms show ?thesis by (auto simp: status_first_recovery_def mark_uncertain_def begun_keeps_result_def)
next
  case (Some a)
  let ?s1 = "put_attempt k (a\<lparr>pa_status := AUncertain\<rparr>) s"
  show ?thesis
  proof (cases "attempt_terminal a \<or> pa_status a = AReview")
    case True
    with Some assms show ?thesis by (auto simp: status_first_recovery_def mark_uncertain_def begun_keeps_result_def)
  next
    case False
    with Some have "keeps s ?s1" by (intro status_mark_keeps) simp_all
    with False Some assms begin_call_keeps [of ?s1 regs now token j k] show ?thesis
      by (auto simp: status_first_recovery_def mark_uncertain_def Let_def intro: begun_keeps_after)
  qed
qed

lemma recover_keeps:
  assumes "intents_ok (ps_intents s)" "recover_attempt regs s now token j k = (s1, r)"
  shows "keeps s s1 \<and> begun_keeps_result s r"
proof (cases "tget (ps_attempts s) k")
  case None
  with assms show ?thesis by (auto simp: recover_attempt_def begun_keeps_result_def)
next
  case (Some a)
  with assms status_first_keeps [OF assms(1), of regs now token j k s1 r] begin_call_keeps [OF assms(1), of regs now token j k]
  show ?thesis
    by (auto simp: recover_attempt_def split: if_splits)
qed

lemma orchestrate_settle:
  assumes "intents_ok (ps_intents s)" "settle_inv bd s" "orchestrate_attempt bd sh regs s now token j k = (t, res)"
  shows "settle_inv bd t \<and> (\<forall>sr. res = Inr sr \<longrightarrow> settle_inv bd (fst sr))"
proof -
  obtain s1 r where rec: "recover_attempt regs s now token j k = (s1, r)" by fastforce
  from recover_keeps [OF assms(1) rec] have k: "keeps s s1" "begun_keeps_result s r" by simp_all
  from k(1) assms(2) have s1: "settle_inv bd s1" by (blast intro: keeps_settle_inv)
  show ?thesis
  proof (cases r)
    case (Inl e)
    with assms(3) rec consider "t = s1" "\<exists>e. res = Inl e"
      | s2 where "unavailable bd sh s1 now k = Inr s2" "t = s2" "res = Inr (s2, Noop ''PROVIDER_UNAVAILABLE'')"
      by (auto simp: orchestrate_attempt_def split: pay_error.splits sum.splits)
    then show ?thesis by cases (use s1 in \<open>auto intro: unavailable_settle\<close>)
  next
    case (Inr x)
    with assms(2,3) rec k(2) s1 show ?thesis
      by (auto simp: orchestrate_attempt_def begun_keeps_result_def intro: keeps_settle_inv)
  qed
qed

lemma triage_uncertain_keeps: "keeps s (fst (triage_uncertain_loop now s ks))"
proof (induction now s ks rule: triage_uncertain_loop.induct)
  case (2 now s k a rest)
  let ?s1 = "reconcile_attempt s k a ''unknown'' ''''"
  have s1: "keeps s ?s1" by (rule keeps_same) simp_all
  show ?case
  proof (cases "apply_outcome ?s1 now k uncertain_review")
    case (Inl e)
    with s1 show ?thesis by (simp add: Let_def)
  next
    case (Inr s2)
    have "target_status uncertain_review \<noteq> ASettled" by code_simp
    from apply_outcome_keeps [OF Inr this] s1 have "keeps s s2" by (blast intro: keeps_trans)
    moreover have "keeps s2 (fst (triage_uncertain_loop now s2 rest))" by (rule 2 [OF refl Inr])
    ultimately show ?thesis using Inr by (auto simp: Let_def split: prod.splits intro: keeps_trans)
  qed
qed simp

lemma triage_retryable_keeps: "keeps s (fst (triage_retryable_loop now s ks))"
proof (induction now s ks rule: triage_retryable_loop.induct)
  case (2 now s k a rest)
  show ?case
  proof (cases "apply_outcome s now k retry_review")
    case (Inr s2)
    have "target_status retry_review \<noteq> ASettled" by code_simp
    from apply_outcome_keeps [OF Inr this] have "keeps s s2" .
    moreover have "keeps s2 (fst (triage_retryable_loop now s2 rest))" by (rule 2 [OF Inr])
    ultimately show ?thesis using Inr by (auto split: prod.splits intro: keeps_trans)
  qed simp
qed simp

lemma create_keeps:
  assumes "get_or_create_attempt s k tenant operation request fp rest audited = Inr (s', r)" "pa_status rest = APending"
  shows "keeps s s'"
  using assms
  by (auto simp: get_or_create_attempt_def Let_def keeps_def table_simps split: option.splits if_splits)

lemma direct_target: "po_status out \<in> {''review'', ''invalid_account''} \<Longrightarrow> target_status out \<noteq> ASettled"
  by (auto simp: target_status_def outcome_to_status_def)

definition settle_workers :: "binding_digest \<Rightarrow> workers \<Rightarrow> bool" where
  "settle_workers bd w \<longleftrightarrow> workers_inv w \<and> settle_inv bd (wk_pay w)"

lemma note_call_pay [simp]: "wk_pay (note_call w sr) = fst sr"
  by (simp add: note_call_def split: prod.splits begin_result.splits)

lemma settle_step:
  assumes inv: "settle_workers bd w" and owed: "worker_owed w x" and run: "worker_step bd sh regs w x = Inr w'"
  shows "settle_inv bd (wk_pay w')"
proof -
  from inv have ok: "intents_ok (ps_intents (wk_pay w))" and set: "settle_inv bd (wk_pay w)"
    by (simp_all add: settle_workers_def workers_inv_def)
  have kp: "settle_inv bd s" if "keeps (wk_pay w) s" for s
    by (rule keeps_settle_inv [OF set that])
  show ?thesis
  proof (cases x)
    case (WOrchestrate now token j k)
    obtain t res where r: "orchestrate_attempt bd sh regs (wk_pay w) now token j k = (t, res)" by fastforce
    with WOrchestrate run orchestrate_settle [OF ok set r] show ?thesis by (cases res) auto
  next
    case (WRecover now token j k)
    obtain s1 r where r: "recover_attempt regs (wk_pay w) now token j k = (s1, r)" by fastforce
    with WRecover run recover_keeps [OF ok r] show ?thesis
      by (cases r) (auto simp: begun_keeps_result_def intro: kp)
  next
    case (WStatusFirst now token j k)
    obtain s1 r where r: "status_first_recovery regs (wk_pay w) now token j k = (s1, r)" by fastforce
    with WStatusFirst run status_first_keeps [OF ok r] show ?thesis
      by (cases r) (auto simp: begun_keeps_result_def intro: kp)
  next
    case (WMark k)
    with run set kp [OF mark_keeps] show ?thesis by (auto simp: map_sum_Inr_iff split: option.splits)
  next
    case (WSubmit now token j k)
    with run begin_call_keeps [OF ok, of regs now token j k] show ?thesis
      by (auto simp: map_sum_Inr_iff begun_keeps_result_def intro: kp)
  next
    case (WUnavailable now k)
    with run show ?thesis by (auto simp: map_sum_Inr_iff intro: unavailable_settle [OF _ set])
  next
    case (WFinish now c r)
    with run show ?thesis by (auto simp: map_sum_Inr_iff intro: finalize_settle [OF _ set])
  next
    case (WOutcome now k out)
    with run owed show ?thesis
      using direct_target [of out] by (auto simp: map_sum_Inr_iff intro!: kp intro: apply_outcome_keeps)
  next
    case (WTriage now)
    with run kp [OF triage_uncertain_keeps] show ?thesis by (auto simp: triage_uncertain_def)
  next
    case (WTriageRetry now)
    with run kp [OF triage_retryable_keeps] show ?thesis by (auto simp: triage_retryable_def)
  next
    case (WCorrelate j c)
    with run correlation_intents [OF _ ok] show ?thesis
      by (auto simp: map_sum_Inr_iff intro!: kp keeps_same)
  next
    case (WReserve j k scope operation request fp)
    with run reserve_intents [OF _ ok] show ?thesis
      by (fastforce simp: map_sum_Inr_iff intro!: kp keeps_same)
  next
    case (WCreate k tenant operation request fp rest)
    with run owed show ?thesis by (auto simp: map_sum_Inr_iff intro!: kp intro: create_keeps)
  qed
qed

interpretation settle: step_system "worker_step bd sh regs" worker_owed "settle_workers bd"
  for bd sh regs
  by unfold_locales (auto simp: settle_workers_def intro: workers_inv_step settle_step [unfolded settle_workers_def])

section \<open>Settled only on verified evidence\<close>

definition unsettled :: "workers \<Rightarrow> bool" where
  "unsettled w \<longleftrightarrow> ps_observations (wk_pay w) = []
     \<and> list_all (\<lambda>ka. pa_status (snd ka) \<noteq> ASettled) (ps_attempts (wk_pay w))"

lemma unsettled_inv: "unsettled w \<Longrightarrow> settle_inv bd (wk_pay w)"
  by (auto simp: unsettled_def settle_inv_def settled_backed_def accepted_final_def one_accepted_def
      list_all_iff dest!: tget_in_set)

text \<open>
  C5. Settlement: in every run of the workers an attempt is settled only if an observation
  is stored that its adapter verified, that says settled, that carries the attempt's own
  amount and whose digest binds tenant, attempt, amount and currency; no attempt has two
  accepted observations; and an accepted observation's attempt is in a terminal state.
\<close>

theorem settled_only_on_verified_observation:
  assumes "no_calls w" "unsettled w" and "ops_ok worker_owed (worker_step bd sh regs) w xs"
    and "s = wk_pay (run_ops (worker_step bd sh regs) w xs)"
  shows "(\<forall>k a. tget (ps_attempts s) k = Some a \<longrightarrow> pa_status a = ASettled \<longrightarrow> (\<exists>x\<in>set (ps_observations s). backs bd k a x))
    \<and> distinct (map ob_attempt (filter ob_accepted (ps_observations s)))
    \<and> (\<forall>x\<in>set (ps_observations s). ob_accepted x \<longrightarrow>
        (\<exists>a. tget (ps_attempts s) (ob_attempt x) = Some a \<and> attempt_terminal a))"
proof -
  from assms(1,2) have "settle_workers bd w"
    by (simp add: settle_workers_def no_calls_inv unsettled_inv)
  from settle.inv_run [OF this assms(3)] show ?thesis
    by (simp add: assms(4) settle_workers_def settle_inv_def settled_backed_def one_accepted_def accepted_final_def)
qed

lemma settled_only_on_verified_observation_witness:
  "\<exists>s a. tget (ps_attempts s) 1 = Some a \<and> pa_status a = ASettled
     \<and> s = wk_pay (run_ops (worker_step scene_bd scene_key scene_regs) scene_workers
         [WOrchestrate 10 ''a'' 1 1, WFinish 20 (scene_call ''a'' Submit 1) scene_answer])
     \<and> (\<exists>x\<in>set (ps_observations s). backs scene_bd 1 a x \<and> ob_id x = ''o1'')"
proof -
  let ?step = "worker_step scene_bd scene_key scene_regs"
  let ?xs = "[WOrchestrate 10 ''a'' 1 1, WFinish 20 (scene_call ''a'' Submit 1) scene_answer]"
  let ?s = "wk_pay (run_ops ?step scene_workers ?xs)"
  have 1: "no_calls scene_workers" "unsettled scene_workers" by code_simp+
  have calls: "wk_calls (run_ops ?step scene_workers [WOrchestrate 10 ''a'' 1 1]) = [scene_call ''a'' Submit 1]" by code_simp
  then have 2: "ops_ok worker_owed ?step scene_workers ?xs" by simp
  have st: "map_option pa_status (tget (ps_attempts ?s) 1) = Some ASettled" by code_simp
  then obtain a where a: "tget (ps_attempts ?s) 1 = Some a" "pa_status a = ASettled" by auto
  from settled_only_on_verified_observation [OF 1 2 refl] a
  obtain x where x: "x \<in> set (ps_observations ?s)" "backs scene_bd 1 a x" by blast
  have "map ob_id (ps_observations ?s) = [''o1'']" by code_simp
  with x(1) have "ob_id x = ''o1''" by auto
  with a x show ?thesis by blast
qed

end
