(* ===== verification/RuntimeProps.thy ===== *)
theory RuntimeProps
  imports RuntimeSettlement
begin

text \<open>
  Single calls of the provider runtime: the stored form of a result, what a verified final
  answer achieves, and the answers that are lost.
\<close>

section \<open>Stored results\<close>

lemma parse_outcome_value [simp]: "parse_outcome (outcome_value x) = Some x"
  by (cases x) (simp_all add: parse_outcome_def all_outcomes_def outcome_value_def)

text \<open>
  C30. Round trip: a provider result that is serialised into a registration's configuration
  and read back by a worker is the normalised result - every identifier cut to its column,
  the raw data dropped, nothing else changed.
\<close>

theorem result_roundtrip:
  "deserialize_result (serialize_result r) = Some (normalize_result r)"
  by (simp add: deserialize_result_def serialize_result_def normalize_result_def jget_def py_str_def py_truth_def)

section \<open>A verified final answer settles the attempt\<close>

lemma resolvable_begin:
  assumes a: "tget (ps_attempts s) k = Some a" "pa_tenant a \<noteq> ''''" "pa_status a \<in> {APending, ARetryable, AUncertain}"
    and idle: "\<not> claim_live now a" "resolvable regs now (pa_tenant a) (pa_operation a)"
    and sel: "select_intent s j k a = Inr (s1, i, ei)"
  obtains s2 c where "begin_call regs s now token j k = Inr (s2, Started c)"
    "pc_attempt c = k" "pc_token c = token" "pc_generation c = pa_claim_generation a + 1"
    "ps_attempts s2 = tput k (claimed now token (pc_kind c) a) (ps_attempts s1)" "ps_observations s2 = ps_observations s1"
proof -
  let ?found = "map_option snd (find_intent s k)"
  let ?poll = "poll_evidence a ?found \<or> ei_submit_started_at ei \<noteq> None"
  let ?kind = "if ?poll then Poll else Submit"
  let ?s2 = "if ?poll then s1 else s1\<lparr>ps_intents := tput i (mark_submit now (pa_claim_generation a + 1) ei) (ps_intents s1)\<rparr>"
  let ?c = "started_call k a ?kind token (case ?found of None \<Rightarrow> '''' | Some x \<Rightarrow> ei_provider_correlation x)"
  have "\<not> attempt_terminal a" "pa_status a \<noteq> AReview" using a(3) by (auto simp: attempt_terminal_def)
  with a idle sel have "begin_call regs s now token j k = Inr (put_attempt k (claimed now token ?kind a) ?s2, Started ?c)"
    by (simp add: begin_call_def Let_def)
  then show ?thesis by (rule that) (simp_all add: started_call_def)
qed

text \<open>The answer of a provider that a worker may act on.\<close>

definition observation_key :: "provider_result \<Rightarrow> string" where
  "observation_key n = py_or (pr_observation_id n) (py_or (pr_event_id n)
     (py_or (pr_external_transaction_id n) (pr_provider_attempt_id n)))"

definition final_answer :: "provider_result \<Rightarrow> bool" where
  "final_answer r \<longleftrightarrow> pr_verified r \<and> observation_key (normalize_result r) \<noteq> ''''
     \<and> pr_outcome r \<in> {PSettled, PRejected, PInvalidAccount, PInsufficientFunds}"

definition answered_status :: "provider_result \<Rightarrow> attempt_status" where
  "answered_status r = (if pr_outcome r = PSettled then ASettled else ARejected)"

definition unseen :: "pay_state \<Rightarrow> nat \<Rightarrow> provider_result \<Rightarrow> bool" where
  "unseen s k r \<longleftrightarrow> list_all (\<lambda>x. (ob_kind x \<noteq> provider_kind \<or> ob_id x \<noteq> take 160 (observation_key (normalize_result r)))
     \<and> (ob_accepted x \<longrightarrow> ob_attempt x \<noteq> k)) (ps_observations s)"

lemma py_or_nonempty: "a \<noteq> '''' \<Longrightarrow> py_or a b = a"
  by (simp add: py_or_def)

lemma result_observation_final:
  assumes "final_answer r"
  shows "ob_verified (result_observation bd sh k inst (normalize_result r) source)"
    and "ob_outcome (result_observation bd sh k inst (normalize_result r) source)
      = (if pr_outcome r = PSettled then ''settled'' else ''rejected'')"
    and "ob_id (result_observation bd sh k inst (normalize_result r) source) = observation_key (normalize_result r)"
proof -
  have v: "pr_verified (normalize_result r)" "observation_key (normalize_result r) \<noteq> ''''"
    using assms by (simp_all add: final_answer_def normalize_result_def)
  then show "ob_verified (result_observation bd sh k inst (normalize_result r) source)"
    and "ob_id (result_observation bd sh k inst (normalize_result r) source) = observation_key (normalize_result r)"
    by (simp_all add: result_observation_def observation_key_def Let_def py_or_nonempty)
  show "ob_outcome (result_observation bd sh k inst (normalize_result r) source)
      = (if pr_outcome r = PSettled then ''settled'' else ''rejected'')"
    using assms by (auto simp: final_answer_def result_observation_def Let_def normalize_result_def final_outcome_def)
qed

lemma result_observation_bound:
  assumes "final_answer r" "pa_amount inst = Some m"
  shows "observation_exact bd k inst (Some m) (result_observation bd sh k inst (normalize_result r) source)"
proof -
  let ?o = "result_observation bd sh k inst (normalize_result r) source"
  have "pr_verified (normalize_result r) \<and> observation_key (normalize_result r) \<noteq> ''''"
    using assms(1) by (simp add: final_answer_def normalize_result_def)
  then have "ob_tenant ?o = pa_tenant inst" "ob_currency ?o = pa_currency inst"
    "ob_binding_hash ?o = binding_hash bd (pa_tenant inst) k (pa_amount inst) (pa_currency inst)"
    by (simp_all add: result_observation_def observation_key_def Let_def)
  with result_observation_final [OF assms(1), of bd sh k inst source] show ?thesis
    by (simp add: observation_exact_def assms(2))
qed

text \<open>The status of the attempt decides whether the answer can be stored.\<close>

lemma record_final_observation:
  fixes bd :: binding_digest and sh :: "nat \<Rightarrow> string"
  assumes r: "final_answer r" and a: "tget (ps_attempts s) k = Some a" "pa_amount a = Some m"
    and open_a: "\<not> attempt_terminal a" and new: "unseen s k r"
  defines "ob \<equiv> result_observation bd sh k a (normalize_result r) provider_kind"
  defines "row \<equiv> stored_observation (ob\<lparr>ob_attempt := k\<rparr>) m True"
  defines "s1 \<equiv> s\<lparr>ps_observations := ps_observations s @ [row]\<rparr>"
  defines "out \<equiv> (plain_outcome (ob_outcome ob))\<lparr>po_provider_attempt_id := ob_provider_transaction_id ob,
     po_external_transaction_id := ob_provider_transaction_id ob\<rparr>"
  shows "record_observation bd s now k a (pa_amount a) ob
     = (case apply_outcome s1 now k out of Inl e \<Rightarrow> Inl e | Inr s2 \<Rightarrow> Inr (s2, row))
     \<and> target_status out = answered_status r \<and> ob_accepted row"
proof (intro conjI)
  have ex: "observation_exact bd k a (Some m) ob"
    unfolding ob_def by (rule result_observation_bound [OF r a(2)])
  have id: "ob_id row = take 160 (observation_key (normalize_result r))" "ob_kind row = provider_kind"
    using result_observation_final(3) [OF r, of bd sh k a provider_kind]
    by (simp_all add: row_def stored_observation_def ob_def) (simp add: result_observation_def Let_def provider_kind_def)
  have att: "ob_attempt row = k" by (simp add: row_def stored_observation_def)
  have "\<not> observation_clash (ps_observations s) row"
    using new by (auto simp: observation_clash_def unseen_def list_ex_iff list_all_iff id att)
  with ex a open_a show "record_observation bd s now k a (pa_amount a) ob
     = (case apply_outcome s1 now k out of Inl e \<Rightarrow> Inl e | Inr s2 \<Rightarrow> Inr (s2, row))"
    unfolding row_def s1_def out_def by (simp add: record_observation_def Let_def)
  show "target_status out = answered_status r"
    using result_observation_final(2) [OF r, of bd sh k a provider_kind]
    by (simp add: target_status_def out_def ob_def plain_outcome_def answered_status_def outcome_to_status_def)
  show "ob_accepted row" by (simp add: row_def stored_observation_def)
qed

lemma apply_outcome_allowed:
  assumes "tget (ps_attempts s) k = Some a" "\<not> attempt_terminal a"
    "target_status out \<in> set (allowed_transitions (pa_status a))"
  obtains s' b where "apply_outcome s now k out = Inr s'" "tget (ps_attempts s') k = Some b" "pa_status b = target_status out"
proof -
  obtain s' where s': "apply_outcome s now k out = Inr s'"
    using assms by (auto simp: apply_outcome_def transition_to_def Let_def)
  from s' show ?thesis
  proof (cases rule: apply_outcome_cases)
    case (moves a' b)
    with that [OF s', of b] show ?thesis by (simp add: table_simps)
  qed (use assms in simp)
qed

lemma apply_outcome_refused:
  assumes "tget (ps_attempts s) k = Some a" "\<not> attempt_terminal a"
    "target_status out \<notin> set (allowed_transitions (pa_status a))"
  shows "apply_outcome s now k out = Inl (InvalidTransition (pa_status a) (target_status out))"
  using assms by (simp add: apply_outcome_def transition_to_def Let_def)

lemma finalize_final_answer:
  assumes a: "tget (ps_attempts s) k = Some a" "pa_status a \<in> {APending, ARetryable, AUncertain}" "pa_amount a = Some m"
    and claim: "pa_claim_token a = token" "pa_claim_generation a = g"
    and r: "final_answer r" "unseen s k r"
  obtains s' b where "finalize_claimed_result bd sh s now k token g r = Inr (s', r)"
    "tget (ps_attempts s') k = Some b" "pa_status b = answered_status r" "pa_claim_token b = ''''"
proof -
  have open_a: "\<not> attempt_terminal a" using a(2) by (auto simp: attempt_terminal_def)
  define ob where "ob = result_observation bd sh k a (normalize_result r) provider_kind"
  define row where "row = stored_observation (ob\<lparr>ob_attempt := k\<rparr>) m True"
  define s1 where "s1 = s\<lparr>ps_observations := ps_observations s @ [row]\<rparr>"
  define out where "out = (plain_outcome (ob_outcome ob))\<lparr>po_provider_attempt_id := ob_provider_transaction_id ob,
     po_external_transaction_id := ob_provider_transaction_id ob\<rparr>"
  have step: "record_observation bd s now k a (pa_amount a) ob
      = (case apply_outcome s1 now k out of Inl e \<Rightarrow> Inl e | Inr s2 \<Rightarrow> Inr (s2, row))
      \<and> target_status out = answered_status r \<and> ob_accepted row"
    unfolding out_def s1_def row_def ob_def by (rule record_final_observation [OF r(1) a(1,3) open_a r(2)])
  note rec = conjunct1 [OF step] conjunct1 [OF conjunct2 [OF step]] conjunct2 [OF conjunct2 [OF step]]
  have allowed: "target_status out \<in> set (allowed_transitions (pa_status a))"
    using a(2) by (auto simp: rec(2) answered_status_def allowed_transitions_def)
  have s1a: "tget (ps_attempts s1) k = Some a" by (simp add: s1_def a(1))
  obtain s2 b where s2: "apply_outcome s1 now k out = Inr s2" "tget (ps_attempts s2) k = Some b"
    "pa_status b = target_status out" by (rule apply_outcome_allowed [OF s1a open_a allowed])
  have recorded: "record_provider_result bd sh s now k a r provider_kind
      = Inr (reconcile_attempt s2 k b (if ob_verified ob then ob_outcome ob else ''unknown'') '''')"
    using rec(1,3) s2(1,2) by (simp add: record_provider_result_def Let_def ob_def [symmetric])
  define c where "c = b\<lparr>pa_recovery_evidence := evidence_of r (pa_recovery_evidence b), pa_claim_token := '''',
     pa_claim_expires_at := None, pa_claim_heartbeat_at := None, pa_submission_intent := NoIntent\<rparr>"
  with recorded have "finalize_claimed_result bd sh s now k token g r = Inr (put_attempt k c
      (reconcile_attempt s2 k b (if ob_verified ob then ob_outcome ob else ''unknown'') ''''), r)"
    using a(1) claim s2(2) by (simp add: finalize_claimed_result_def)
  then show ?thesis by (rule that [where b = c]) (simp_all add: table_simps c_def s2(3) rec(2))
qed

text \<open>No other intent has the identity of the attempt.\<close>

definition intent_free :: "pay_state \<Rightarrow> nat \<Rightarrow> nat \<Rightarrow> attempt \<Rightarrow> bool" where
  "intent_free s j k a \<longleftrightarrow> find_intent s k \<noteq> None \<or> tget (ps_intents s) j = None
     \<and> \<not> list_ex (\<lambda>ji. ei_attempt (snd ji) = k \<or> ei_scope (snd ji) = pa_tenant a
         \<and> ei_operation (snd ji) = pa_operation a \<and> ei_request_identity (snd ji) = pa_request_id a) (ps_intents s)"

lemma intent_free_select:
  assumes "intent_free s j k a"
  obtains s1 i ei where "select_intent s j k a = Inr (s1, i, ei)" "ps_attempts s1 = ps_attempts s"
    "ps_observations s1 = ps_observations s"
proof (cases "find_intent s k")
  case (Some ji)
  with that [of s "fst ji" "snd ji"] show ?thesis by (simp add: select_intent_def)
next
  case None
  with assms have "create_intent s j (new_intent k (pa_tenant a) (pa_operation a) (pa_request_id a) (pa_payload_fingerprint a))
      = Inr (s\<lparr>ps_intents := tput j (new_intent k (pa_tenant a) (pa_operation a) (pa_request_id a) (pa_payload_fingerprint a)) (ps_intents s)\<rparr>)"
    by (simp add: intent_free_def create_intent_def new_intent_def)
  with None that show ?thesis by (simp add: select_intent_def)
qed

text \<open>
  C31. Progress: an attempt with a tenant and an amount that is pending, retryable or uncertain,
  not claimed, whose execution intent is free and whose provider resolves is taken by the
  orchestration task - the worker gets a call with a fresh claim - and if the provider answers
  that call with a verified, identified final result not seen before, recording it succeeds: the
  attempt is settled or rejected as the provider said and its claim is released. Nothing else
  has to happen. An attempt without an amount does not get there.
\<close>

theorem answered_attempt_reaches_finality:
  assumes "tget (ps_attempts s) k = Some a" "pa_tenant a \<noteq> ''''" "pa_status a \<in> {APending, ARetryable, AUncertain}"
    and "pa_amount a = Some m" "\<not> claim_live now a" "resolvable regs now (pa_tenant a) (pa_operation a)"
    and "intent_free s j k a" "final_answer r" "unseen s k r"
  shows "\<exists>s0 s1 c s2 b. orchestrate_attempt bd sh regs s now token j k = (s0, Inr (s1, Started c))
    \<and> pc_attempt c = k \<and> pc_token c = token
    \<and> finalize_claimed_result bd sh s1 later k token (pc_generation c) r = Inr (s2, r)
    \<and> tget (ps_attempts s2) k = Some b \<and> pa_status b = answered_status r \<and> pa_claim_token b = ''''"
proof -
  define s0 where "s0 = (if pa_status a = AUncertain then put_attempt k (a\<lparr>pa_status := AUncertain\<rparr>) s else s)"
  have s0: "tget (ps_attempts s0) k = Some a" "ps_intents s0 = ps_intents s" "ps_observations s0 = ps_observations s"
    using assms(1) by (auto simp: s0_def table_simps)
  from assms(7) s0(2) have "intent_free s0 j k a" by (simp add: intent_free_def find_intent_def)
  then obtain s1 i ei where sel: "select_intent s0 j k a = Inr (s1, i, ei)" "ps_attempts s1 = ps_attempts s0"
    "ps_observations s1 = ps_observations s0" by (rule intent_free_select)
  from s0(1) assms(2,3,5,6) sel(1) obtain s2 c where c: "begin_call regs s0 now token j k = Inr (s2, Started c)"
    "pc_attempt c = k" "pc_token c = token" "pc_generation c = pa_claim_generation a + 1"
    "ps_attempts s2 = tput k (claimed now token (pc_kind c) a) (ps_attempts s1)" "ps_observations s2 = ps_observations s1"
    by (rule resolvable_begin)
  have "\<not> attempt_terminal a" "pa_status a \<noteq> AReview" using assms(3) by (auto simp: attempt_terminal_def)
  with assms(1) c(1) have "recover_attempt regs s now token j k = (s0, Inr (s2, Started c))"
    by (cases "pa_status a = AUncertain") (simp_all add: recover_attempt_def status_first_recovery_def mark_uncertain_def s0_def Let_def)
  then have orch: "orchestrate_attempt bd sh regs s now token j k = (s0, Inr (s2, Started c))"
    by (simp add: orchestrate_attempt_def)
  let ?a = "claimed now token (pc_kind c) a"
  have row: "tget (ps_attempts s2) k = Some ?a" by (simp add: c(5) table_simps)
  have st: "pa_status ?a \<in> {APending, ARetryable, AUncertain}" using assms(3) by simp
  have m: "pa_amount ?a = Some m" "pa_claim_token ?a = token" "pa_claim_generation ?a = pc_generation c"
    using assms(4) c(4) by (simp_all add: claimed_def)
  have new: "unseen s2 k r" using assms(9) by (simp add: unseen_def c(6) sel(3) s0(3))
  obtain s3 b where "finalize_claimed_result bd sh s2 later k token (pc_generation c) r = Inr (s3, r)"
    "tget (ps_attempts s3) k = Some b" "pa_status b = answered_status r" "pa_claim_token b = ''''"
    by (rule finalize_final_answer [OF row st m assms(8) new])
  with orch c(2,3) show ?thesis by blast
qed

lemma answered_attempt_reaches_finality_witness:
  "\<exists>s0 s1 c s2 b. orchestrate_attempt scene_bd scene_key scene_regs scene_pay 10 ''a'' 1 1 = (s0, Inr (s1, Started c))
    \<and> pc_attempt c = 1 \<and> pc_token c = ''a''
    \<and> finalize_claimed_result scene_bd scene_key s1 20 1 ''a'' (pc_generation c) scene_answer = Inr (s2, scene_answer)
    \<and> tget (ps_attempts s2) 1 = Some b \<and> pa_status b = answered_status scene_answer \<and> pa_claim_token b = ''''"
proof -
  have 1: "tget (ps_attempts scene_pay) 1 = Some scene_attempt" by (simp add: scene_pay_def tget_Cons)
  have 2: "pa_tenant scene_attempt \<noteq> ''''" "pa_status scene_attempt \<in> {APending, ARetryable, AUncertain}"
    "pa_amount scene_attempt = Some 500" "\<not> claim_live 10 scene_attempt"
    by (simp_all add: scene_attempt_def claim_live_def)
  have 3: "resolvable scene_regs 10 (pa_tenant scene_attempt) (pa_operation scene_attempt)" by code_simp
  have 4: "intent_free scene_pay 1 1 scene_attempt" by (simp add: intent_free_def scene_pay_def)
  have 5: "final_answer scene_answer" by code_simp
  have 6: "unseen scene_pay 1 scene_answer" by (simp add: unseen_def scene_pay_def)
  show ?thesis by (rule answered_attempt_reaches_finality [OF 1 2 3 4 5 6])
qed

section \<open>An answer that is lost\<close>

text \<open>
  A settlement that arrives in review is lost: when the periodic triage has moved an
  uncertain attempt to review while a worker's status poll is in flight, recording the
  worker's verified final answer raises - review may not become settled or rejected - and
  the transaction, observation included, is rolled back; and no later call for the attempt
  is ever begun, whatever the registrations.
\<close>

theorem settlement_lost_in_review:
  assumes "tget (ps_attempts s) k = Some a" "pa_status a = AReview" "pa_amount a = Some m"
    and "pa_claim_token a = token" "pa_claim_generation a = g" "final_answer r" "unseen s k r"
  shows "finalize_claimed_result bd sh s now k token g r = Inl (InvalidTransition AReview (answered_status r))
    \<and> begin_call regs s later token' j k = Inr (s, Noop ''NOOP_TERMINAL'')"
proof
  have open_a: "\<not> attempt_terminal a" using assms(2) by (simp add: attempt_terminal_def)
  define ob where "ob = result_observation bd sh k a (normalize_result r) provider_kind"
  define row where "row = stored_observation (ob\<lparr>ob_attempt := k\<rparr>) m True"
  define s1 where "s1 = s\<lparr>ps_observations := ps_observations s @ [row]\<rparr>"
  define out where "out = (plain_outcome (ob_outcome ob))\<lparr>po_provider_attempt_id := ob_provider_transaction_id ob,
     po_external_transaction_id := ob_provider_transaction_id ob\<rparr>"
  have step: "record_observation bd s now k a (pa_amount a) ob
      = (case apply_outcome s1 now k out of Inl e \<Rightarrow> Inl e | Inr s2 \<Rightarrow> Inr (s2, row))
      \<and> target_status out = answered_status r \<and> ob_accepted row"
    unfolding out_def s1_def row_def ob_def by (rule record_final_observation [OF assms(6,1,3) open_a assms(7)])
  note rec = conjunct1 [OF step] conjunct1 [OF conjunct2 [OF step]] conjunct2 [OF conjunct2 [OF step]]
  have "tget (ps_attempts s1) k = Some a" by (simp add: s1_def assms(1))
  moreover have "target_status out \<notin> set (allowed_transitions (pa_status a))"
    by (simp add: rec(2) assms(2) answered_status_def allowed_transitions_def)
  ultimately have "apply_outcome s1 now k out = Inl (InvalidTransition AReview (answered_status r))"
    using apply_outcome_refused [of s1 k a out now] open_a by (simp add: assms(2) rec(2))
  with rec(1) have "record_provider_result bd sh s now k a r provider_kind = Inl (InvalidTransition AReview (answered_status r))"
    by (simp add: record_provider_result_def Let_def ob_def [symmetric])
  with assms(1,4,5) show "finalize_claimed_result bd sh s now k token g r = Inl (InvalidTransition AReview (answered_status r))"
    by (simp add: finalize_claimed_result_def)
  show "begin_call regs s later token' j k = Inr (s, Noop ''NOOP_TERMINAL'')"
    using assms(1,2) by (simp add: begin_call_def)
qed

text \<open>The race: submitted, uncertain, polled, triaged, then the poll's answer.\<close>

definition scene_doubt :: provider_result where
  "scene_doubt = (blank_result PTimeout)\<lparr>pr_observation_id := ''o0''\<rparr>"

definition scene_race :: "worker_op list" where
  "scene_race = [WOrchestrate 10 ''a'' 1 1, WFinish 20 (scene_call ''a'' Submit 1) scene_doubt,
     WOrchestrate 400 ''b'' 1 1, WTriage 410]"

lemma settlement_lost_in_review_witness:
  "\<exists>s. s = wk_pay (run_ops (worker_step scene_bd scene_key scene_regs) scene_workers scene_race)
     \<and> map (\<lambda>a. (pa_status (snd a), pa_claim_token (snd a))) (ps_attempts s) = [(AReview, ''b'')]
     \<and> finalize_claimed_result scene_bd scene_key s 420 1 ''b'' 2 scene_answer = Inl (InvalidTransition AReview ASettled)
     \<and> begin_call scene_regs s 900 ''c'' 1 1 = Inr (s, Noop ''NOOP_TERMINAL'')"
proof -
  let ?s = "wk_pay (run_ops (worker_step scene_bd scene_key scene_regs) scene_workers scene_race)"
  have row: "map_option (\<lambda>a. (pa_status a, pa_amount a, pa_claim_token a, pa_claim_generation a)) (tget (ps_attempts ?s) 1)
      = Some (AReview, Some 500, ''b'', 2)" by code_simp
  have all: "map (\<lambda>a. (pa_status (snd a), pa_claim_token (snd a))) (ps_attempts ?s) = [(AReview, ''b'')]" by code_simp
  from row obtain a where a: "tget (ps_attempts ?s) 1 = Some a" "pa_status a = AReview" "pa_amount a = Some 500"
    "pa_claim_token a = ''b''" "pa_claim_generation a = 2" by auto
  have r: "final_answer scene_answer" by code_simp
  have u: "unseen ?s 1 scene_answer" by code_simp
  have "answered_status scene_answer = ASettled" by code_simp
  with settlement_lost_in_review [OF a r u] all show ?thesis by metis
qed

end
