(* ===== verification/CallbackProps.thy ===== *)
theory CallbackProps
  imports RuntimeClaims
begin

text \<open>
  The callback outbox: what the answers of its receiver make of a callback, and that every replay
  of the due callbacks makes progress, so that the number of deliveries is bounded.
\<close>

section \<open>What one recorded result does\<close>

definition callback_live :: "callback \<Rightarrow> bool" where
  "callback_live c \<longleftrightarrow> cb_status c \<in> {CbPending, CbRetry}"

definition remaining :: "callback \<Rightarrow> nat" where
  "remaining c = (if callback_live c then max_callback_attempts - cb_count c else 0)"

definition callback_ok :: "callback \<Rightarrow> bool" where
  "callback_ok c \<longleftrightarrow> (callback_live c \<longrightarrow> cb_count c < max_callback_attempts)"

definition callbacks_ok :: "pay_state \<Rightarrow> bool" where
  "callbacks_ok s \<longleftrightarrow> tok (ps_callbacks s) \<and> list_all (\<lambda>jc. callback_ok (snd jc)) (ps_callbacks s)"

definition deliveries_left :: "pay_state \<Rightarrow> nat" where
  "deliveries_left s = sum_list (map (\<lambda>jc. remaining (snd jc)) (ps_callbacks s))"

text \<open>
  What the deliveries answered \<open>hs\<close>, in this order, make of a callback: only the last answer can
  be a success; the row then says delivered, and otherwise dead at the fifth attempt and retry
  before it.
\<close>

definition accepted :: "nat option \<Rightarrow> bool" where
  "accepted h \<longleftrightarrow> (case h of None \<Rightarrow> False | Some c \<Rightarrow> 200 \<le> c \<and> c < 300)"

definition delivered_as :: "callback \<Rightarrow> nat option list \<Rightarrow> callback \<Rightarrow> bool" where
  "delivered_as c hs d \<longleftrightarrow> (hs = [] \<longrightarrow> d = c) \<and> (hs \<noteq> [] \<longrightarrow> callback_live c
     \<and> cb_attempt d = cb_attempt c \<and> cb_url d = cb_url c \<and> cb_payload d = cb_payload c \<and> cb_payload_hash d = cb_payload_hash c
     \<and> cb_count d = cb_count c + length hs \<and> cb_count d \<le> 5 \<and> cb_http_status d = last hs
     \<and> (\<forall>h\<in>set (butlast hs). \<not> accepted h)
     \<and> cb_status d = (if accepted (last hs) then CbDelivered else if cb_count d = 5 then CbDead else CbRetry))"

lemma delivered_as_Nil [simp]: "delivered_as c [] d \<longleftrightarrow> d = c"
  by (simp add: delivered_as_def)

lemma delivered_as_trans:
  assumes "delivered_as c hs d" "delivered_as d gs e"
  shows "delivered_as c (hs @ gs) e"
proof (cases "hs = [] \<or> gs = []")
  case True
  with assms show ?thesis by auto
next
  case False
  from False assms(2) have "callback_live d" by (simp add: delivered_as_def)
  with False assms(1) have "\<not> accepted (last hs)" by (auto simp: delivered_as_def callback_live_def split: if_splits)
  moreover have "set hs = set (butlast hs) \<union> {last hs}" using False by (cases hs rule: rev_cases) auto
  ultimately have "\<forall>h\<in>set hs. \<not> accepted h" using assms(1) False by (auto simp: delivered_as_def)
  with assms False show ?thesis by (auto simp: delivered_as_def butlast_append)
qed

lemma delivered_as_le: "callback_ok c \<Longrightarrow> delivered_as c hs d \<Longrightarrow> length hs \<le> remaining c"
  by (cases "hs = []") (auto simp: delivered_as_def remaining_def max_callback_attempts_def)

lemma delivered_as_final:
  assumes "callback_live c" "callback_ok c" "delivered_as c hs d" "length hs = remaining c"
  shows "cb_status d \<in> {CbDelivered, CbDead}"
proof -
  from assms(1,2,4) have "hs \<noteq> []" "cb_count c + length hs = 5"
    by (auto simp: remaining_def callback_ok_def max_callback_attempts_def)
  with assms(3) show ?thesis by (auto simp: delivered_as_def)
qed

lemma sum_tput:
  "tok t \<Longrightarrow> tget t j = Some c \<Longrightarrow> f c' \<le> f c
     \<Longrightarrow> sum_list (map (\<lambda>jc. f (snd jc)) (tput j c' t)) + (f c - f c') = (sum_list (map (\<lambda>jc. f (snd jc)) t) :: nat)"
proof (induction t)
  case (Cons x t)
  obtain i d where x: "x = (i, d)" by (cases x)
  from Cons show ?case by (cases "i = j") (auto simp: x tput_Cons tget_Cons tok_def)
qed simp

lemma list_all_tput:
  "list_all (\<lambda>kr. P (snd kr)) t \<Longrightarrow> P r \<Longrightarrow> list_all (\<lambda>kr. P (snd kr)) (tput k r t)"
proof (induction t)
  case Nil
  then show ?case by (simp add: tput_def)
next
  case (Cons x t)
  then show ?case by (cases x) (simp add: tput_Cons)
qed

lemma record_callback_live:
  assumes "record_callback_result s now j http err = Inr s'" "tget (ps_callbacks s) j = Some c" "callback_live c"
    and "callback_ok c"
  obtains d where "ps_callbacks s' = tput j d (ps_callbacks s)" "remaining d < remaining c" "callback_ok d"
    "ps_attempts s' = ps_attempts s" "delivered_as c [http] d"
proof -
  from assms(3,4) have lt: "cb_count c < max_callback_attempts" and live: "cb_status c \<notin> {CbDelivered, CbDead}"
    by (auto simp: callback_live_def callback_ok_def)
  let ?n = "cb_count c + 1"
  let ?success = "case http of None \<Rightarrow> False | Some h \<Rightarrow> 200 \<le> h \<and> h < 300"
  let ?c1 = "c\<lparr>cb_count := ?n, cb_http_status := http, cb_last_error := take 255 err\<rparr>"
  let ?d = "if ?success then ?c1\<lparr>cb_status := CbDelivered, cb_next_attempt_at := None\<rparr>
    else if max_callback_attempts \<le> ?n then ?c1\<lparr>cb_status := CbDead, cb_next_attempt_at := None\<rparr>
    else ?c1\<lparr>cb_status := CbRetry, cb_next_attempt_at := Some (now + backoff_seconds ?n)\<rparr>"
  show ?thesis
  proof (rule that [of ?d])
    show "ps_callbacks s' = tput j ?d (ps_callbacks s)" "ps_attempts s' = ps_attempts s"
      using assms(1,2) live by (auto simp: record_callback_result_def Let_def split: option.splits)
    show "remaining ?d < remaining c" "callback_ok ?d"
      using lt assms(3) by (auto simp: remaining_def callback_live_def callback_ok_def)
    show "delivered_as c [http] ?d"
      using lt assms(3) by (auto simp: delivered_as_def accepted_def max_callback_attempts_def)
  qed
qed

lemma record_callback_returns:
  "tget (ps_callbacks s) j = Some c \<Longrightarrow> tget (ps_attempts s) (cb_attempt c) \<noteq> None
     \<Longrightarrow> \<exists>s'. record_callback_result s now j http err = Inr s'"
  by (auto simp: record_callback_result_def Let_def)

section \<open>One replay\<close>

definition live_row :: "callback table \<Rightarrow> nat \<Rightarrow> bool" where
  "live_row t j \<longleftrightarrow> (\<exists>c. tget t j = Some c \<and> callback_live c)"

text \<open>\<open>hs j\<close> are the answers to the deliveries of callback \<open>j\<close> between two states.\<close>

definition replayed :: "pay_state \<Rightarrow> (nat \<Rightarrow> nat option list) \<Rightarrow> pay_state \<Rightarrow> bool" where
  "replayed s hs s' \<longleftrightarrow> map fst (ps_callbacks s') = map fst (ps_callbacks s) \<and> ps_attempts s' = ps_attempts s
     \<and> (\<forall>j c. tget (ps_callbacks s) j = Some c \<longrightarrow> (\<exists>d. tget (ps_callbacks s') j = Some d \<and> delivered_as c (hs j) d))"

definition deliveries :: "pay_state \<Rightarrow> (nat \<Rightarrow> nat option list) \<Rightarrow> nat" where
  "deliveries s hs = sum_list (map (\<lambda>j. length (hs j)) (map fst (ps_callbacks s)))"

lemma replayed_refl: "replayed s (\<lambda>j. []) s" "deliveries s (\<lambda>j. []) = 0"
  by (auto simp: replayed_def deliveries_def)

lemma replayed_trans:
  assumes "replayed s hs t" "replayed t gs u"
  shows "replayed s (\<lambda>j. hs j @ gs j) u" "deliveries s (\<lambda>j. hs j @ gs j) = deliveries s hs + deliveries t gs"
proof -
  from assms show "replayed s (\<lambda>j. hs j @ gs j) u" unfolding replayed_def by (metis delivered_as_trans)
  from assms(1) show "deliveries s (\<lambda>j. hs j @ gs j) = deliveries s hs + deliveries t gs"
    unfolding deliveries_def replayed_def by (simp only: length_append sum_list_addf)
qed

lemma sum_one: "distinct ks \<Longrightarrow> j \<in> set ks \<Longrightarrow> sum_list (map (\<lambda>i. length (if i = j then [h] else [])) ks) = 1"
proof (induction ks)
  case (Cons k ks)
  have "sum_list (map (\<lambda>i. length (if i = j then [h] else [])) ks) = 0" if "j \<notin> set ks"
    using that by (induction ks) auto
  with Cons show ?case by auto
qed simp

lemma replayed_one:
  assumes "tok (ps_callbacks s)" "tget (ps_callbacks s) j = Some c" "delivered_as c [h] d"
    and "ps_callbacks s' = tput j d (ps_callbacks s)" "ps_attempts s' = ps_attempts s"
  shows "replayed s (\<lambda>i. if i = j then [h] else []) s'" "deliveries s (\<lambda>i. if i = j then [h] else []) = 1"
proof -
  have keys: "tget t j = Some c \<Longrightarrow> map fst (tput j d t) = map fst t" for t
    by (induction t) (auto simp: tput_Cons tget_Cons split: if_splits)
  with assms(2-5) show "replayed s (\<lambda>i. if i = j then [h] else []) s'"
    by (auto simp: replayed_def table_simps)
  have "j \<in> set (map fst (ps_callbacks s))" using tget_in_set [OF assms(2)] by force
  with assms(1) show "deliveries s (\<lambda>i. if i = j then [h] else []) = 1"
    unfolding deliveries_def by (intro sum_one) (simp_all add: tok_def)
qed

text \<open>The foreign key of a callback.\<close>

definition attempts_there :: "pay_state \<Rightarrow> bool" where
  "attempts_there s \<longleftrightarrow> (\<forall>j c. tget (ps_callbacks s) j = Some c \<longrightarrow> tget (ps_attempts s) (cb_attempt c) \<noteq> None)"

lemma replayed_attempts: "replayed s hs s' \<Longrightarrow> attempts_there s \<Longrightarrow> attempts_there s'"
  unfolding attempts_there_def
proof (intro allI impI)
  fix j d
  assume r: "replayed s hs s'" and there: "\<forall>j c. tget (ps_callbacks s) j = Some c \<longrightarrow> tget (ps_attempts s) (cb_attempt c) \<noteq> None"
    and d: "tget (ps_callbacks s') j = Some d"
  have "j \<in> set (map fst (ps_callbacks s'))" using tget_in_set [OF d] by force
  with r have "j \<in> fst ` set (ps_callbacks s)" by (simp only: replayed_def set_map)
  then obtain c where c: "tget (ps_callbacks s) j = Some c" by (cases "tget (ps_callbacks s) j") (auto simp: tget_None_iff)
  with r obtain d' where "tget (ps_callbacks s') j = Some d'" "delivered_as c (hs j) d'" and "ps_attempts s' = ps_attempts s"
    unfolding replayed_def by blast
  with d have "delivered_as c (hs j) d" "ps_attempts s' = ps_attempts s" by simp_all
  then have "cb_attempt d = cb_attempt c" by (cases "hs j = []") (simp_all add: delivered_as_def)
  with there c \<open>ps_attempts s' = ps_attempts s\<close> show "tget (ps_attempts s') (cb_attempt d) \<noteq> None" by simp
qed

lemma replay_loop_progress:
  assumes "callbacks_ok s" "distinct (map fst ks)" "\<forall>jc\<in>set ks. live_row (ps_callbacks s) (fst jc)"
    and "replay_callbacks_loop post now s ks = (s', e, n)"
  shows "callbacks_ok s' \<and> deliveries_left s' + n \<le> deliveries_left s
    \<and> (\<exists>hs. replayed s hs s' \<and> deliveries s hs = n) \<and> (attempts_there s \<longrightarrow> e = None \<and> n = length ks)"
  using assms
proof (induction post now s ks arbitrary: s' e n rule: replay_callbacks_loop.induct)
  case (2 post now s j c rest)
  obtain success http err where post: "post j = (success, http, err)" by (cases "post j")
  let ?http = "if success then http else None"
  show ?case
  proof (cases "record_callback_result s now j ?http err")
    case (Inl x)
    from 2(4) obtain c0 where c0: "tget (ps_callbacks s) j = Some c0" by (auto simp: live_row_def)
    have "\<not> attempts_there s"
    proof
      assume "attempts_there s"
      with c0 have "tget (ps_attempts s) (cb_attempt c0) \<noteq> None" by (simp add: attempts_there_def)
      with Inl record_callback_returns [OF c0, of now ?http err] show False by auto
    qed
    moreover from Inl 2(5) post have "s' = s" "n = 0" by (auto split: if_splits)
    ultimately show ?thesis using 2(2) replayed_refl [of s] by auto
  next
    case (Inr s2)
    obtain s3 e3 n3 where loop: "replay_callbacks_loop post now s2 rest = (s3, e3, n3)"
      by (cases "replay_callbacks_loop post now s2 rest")
    with 2(5) post Inr have res: "s' = s3" "e = e3" "n = n3 + 1" by (auto split: if_splits)
    from 2(4) obtain c0 where c0: "tget (ps_callbacks s) j = Some c0" "callback_live c0" by (auto simp: live_row_def)
    have ok: "callback_ok c0"
      using 2(2) tget_in_set [OF c0(1)] by (fastforce simp: callbacks_ok_def list_all_iff)
    from Inr c0 ok obtain d where d: "ps_callbacks s2 = tput j d (ps_callbacks s)" "remaining d < remaining c0" "callback_ok d"
      "ps_attempts s2 = ps_attempts s" "delivered_as c0 [?http] d"
      by (rule record_callback_live)
    have tok: "tok (ps_callbacks s)" using 2(2) by (simp add: callbacks_ok_def)
    have "list_all (\<lambda>jc. callback_ok (snd jc)) (tput j d (ps_callbacks s))"
      using 2(2) d(3) by (auto simp: callbacks_ok_def intro: list_all_tput)
    with tok have ok2: "callbacks_ok s2" by (simp add: callbacks_ok_def d(1) table_simps)
    have live2: "\<forall>jc\<in>set rest. live_row (ps_callbacks s2) (fst jc)"
      using 2(3,4) by (force simp: d(1) live_row_def table_simps)
    have "deliveries_left s2 + (remaining c0 - remaining d) = deliveries_left s"
      unfolding deliveries_left_def d(1) by (rule sum_tput [OF tok c0(1)]) (use d(2) in simp)
    with d(2) have "deliveries_left s2 + 1 \<le> deliveries_left s" by simp
    moreover have "callbacks_ok s3 \<and> deliveries_left s3 + n3 \<le> deliveries_left s2
        \<and> (\<exists>hs. replayed s2 hs s3 \<and> deliveries s2 hs = n3) \<and> (attempts_there s2 \<longrightarrow> e3 = None \<and> n3 = length rest)"
      by (rule 2(1) [OF post [symmetric] refl Inr ok2 _ live2 loop]) (use 2(3) in simp)
    moreover note one = replayed_one [OF tok c0(1) d(5,1,4)]
    ultimately show ?thesis
      using replayed_trans [OF one(1)] one(2) replayed_attempts [OF one(1)] unfolding res by fastforce
  qed
qed (use replayed_refl in auto)

lemma due_rows:
  assumes "callbacks_ok s"
  shows "distinct (map fst (due_callbacks s now))"
    and "\<forall>jc\<in>set (due_callbacks s now). live_row (ps_callbacks s) (fst jc)"
proof -
  from assms have tok: "distinct (map fst (ps_callbacks s))" by (simp add: callbacks_ok_def tok_def)
  then show "distinct (map fst (due_callbacks s now))"
    by (auto simp: due_callbacks_def distinct_map intro: inj_on_subset)
  show "\<forall>jc\<in>set (due_callbacks s now). live_row (ps_callbacks s) (fst jc)"
    using tok by (auto simp: due_callbacks_def live_row_def callback_live_def tget_iff tok_def)
qed

lemma replay_progress:
  assumes "callbacks_ok s" "replay_callbacks post now s = (s', e, n)"
  shows "callbacks_ok s'" "deliveries_left s' + n \<le> deliveries_left s" "\<exists>hs. replayed s hs s' \<and> deliveries s hs = n"
    "attempts_there s \<Longrightarrow> e = None \<and> n = length (due_callbacks s now)"
  using replay_loop_progress [OF assms(1) due_rows [OF assms(1)] assms(2) [unfolded replay_callbacks_def]] by simp_all

section \<open>Any number of replays\<close>

fun replay_runs :: "((nat \<Rightarrow> bool \<times> nat option \<times> string) \<times> int) list \<Rightarrow> pay_state \<Rightarrow> pay_state \<times> nat" where
  "replay_runs [] s = (s, 0)"
| "replay_runs ((post, now) # runs) s = (case replay_callbacks post now s of
     (s1, e, n) \<Rightarrow> (case replay_runs runs s1 of (s2, m) \<Rightarrow> (s2, n + m)))"

lemma replay_runs_progress:
  "callbacks_ok s \<Longrightarrow> replay_runs runs s = (s', n) \<Longrightarrow> callbacks_ok s' \<and> deliveries_left s' + n \<le> deliveries_left s
     \<and> (\<exists>hs. replayed s hs s' \<and> deliveries s hs = n)"
proof (induction runs arbitrary: s s' n)
  case (Cons x runs)
  obtain post now where x: "x = (post, now)" by (cases x)
  obtain s1 e m where one: "replay_callbacks post now s = (s1, e, m)" by (cases "replay_callbacks post now s")
  obtain s2 l where rest: "replay_runs runs s1 = (s2, l)" by (cases "replay_runs runs s1")
  from replay_progress [OF Cons.prems(1) one] have s1: "callbacks_ok s1" "deliveries_left s1 + m \<le> deliveries_left s"
    and hs: "\<exists>hs. replayed s hs s1 \<and> deliveries s hs = m"
    by simp_all
  from Cons.prems(2) one rest have eq: "s' = s2" "n = m + l" by (simp_all add: x)
  have more: "callbacks_ok s2 \<and> deliveries_left s2 + l \<le> deliveries_left s1 \<and> (\<exists>hs. replayed s1 hs s2 \<and> deliveries s1 hs = l)"
    by (rule Cons.IH [OF s1(1) rest])
  with hs replayed_trans [of s _ s1 _ s2] have "\<exists>hs. replayed s hs s2 \<and> deliveries s hs = m + l" by metis
  moreover have "deliveries_left s2 + (m + l) \<le> deliveries_left s" using conjunct1 [OF conjunct2 [OF more]] s1(2) by linarith
  ultimately show ?case using more unfolding eq by blast
qed (use replayed_refl in auto)

lemma none_left:
  assumes "callbacks_ok s" "deliveries_left s = 0"
  shows "due_callbacks s now = []"
proof -
  have "\<not> callback_live c" if "(j, c) \<in> set (ps_callbacks s)" for j c
  proof
    assume live: "callback_live c"
    from assms(2) that have "remaining c = 0" by (force simp: deliveries_left_def)
    moreover from assms(1) that have "callback_ok c" by (force simp: callbacks_ok_def list_all_iff)
    ultimately show False using live by (simp add: remaining_def callback_ok_def)
  qed
  then have "filter (\<lambda>jc. cb_status (snd jc) \<in> {CbPending, CbRetry} \<and> due_time now (cb_next_attempt_at (snd jc)))
      (ps_callbacks s) = []"
    by (fastforce simp: filter_empty_conv callback_live_def)
  then show ?thesis unfolding due_callbacks_def by simp
qed

lemma deliveries_left_le: "deliveries_left s \<le> max_callback_attempts * length (ps_callbacks s)"
proof -
  have "sum_list (map (\<lambda>jc. remaining (snd jc)) t) \<le> max_callback_attempts * length t" for t :: "callback table"
    by (induction t) (auto simp: remaining_def)
  then show ?thesis by (simp add: deliveries_left_def)
qed


text \<open>A receiver that never answers, and six replays.\<close>

definition outbox_state :: pay_state where
  "outbox_state = \<lparr>ps_attempts = [(1, \<lparr>pa_tenant = ''t'', pa_claim_token = '''', pa_claim_expires_at = None,
       pa_claim_generation = 0, pa_claim_heartbeat_at = None, pa_submission_intent = NoIntent,
       pa_recovery_evidence = NoEvidence, pa_request_id = ''r'', pa_operation = ''cb'', pa_source_bb_id = ''bb'',
       pa_provider_attempt_id = '''', pa_external_transaction_id = '''', pa_amount = None, pa_currency = '''',
       pa_status = APending, pa_failure_code = '''', pa_failure_category = '''', pa_retryable = False,
       pa_attempt_count = 0, pa_next_retry_at = None, pa_last_error = '''', pa_payload_fingerprint = ''f'',
       pa_version = 1\<rparr>)],
     ps_intents = [], ps_observations = [], ps_reconciliations = [],
     ps_callbacks = [(2, \<lparr>cb_attempt = 1, cb_url = ''u'', cb_payload = ''p'', cb_payload_hash = ''h'',
       cb_status = CbPending, cb_count = 0, cb_next_attempt_at = Some 0, cb_http_status = None, cb_last_error = ''''\<rparr>)],
     ps_audit = []\<rparr>"

definition dead_receiver :: "nat \<Rightarrow> bool \<times> nat option \<times> string" where
  "dead_receiver j = (False, None, ''timeout'')"

definition six_replays :: "((nat \<Rightarrow> bool \<times> nat option \<times> string) \<times> int) list" where
  "six_replays = map (\<lambda>t. (dead_receiver, t)) [0, 4000, 8000, 12000, 16000, 20000]"


end
