(* ===== verification/RowsFit.thy ===== *)
theory RowsFit
  imports RuntimeProps CallbackProps
begin

text \<open>
  Typing of the stored rows: whatever a provider answers, the rows the workers write fit the
  columns of their tables (the maximal lengths of \<open>govstack_models.py\<close>), so no write is
  refused for the length of provider data.
\<close>

section \<open>Columns\<close>

definition attempt_fits :: "attempt \<Rightarrow> bool" where
  "attempt_fits a \<longleftrightarrow> length (pa_tenant a) \<le> 100 \<and> length (pa_operation a) \<le> 30 \<and> length (pa_request_id a) \<le> 100
     \<and> length (pa_provider_attempt_id a) \<le> 100 \<and> length (pa_external_transaction_id a) \<le> 100
     \<and> length (pa_failure_code a) \<le> 50 \<and> length (pa_failure_category a) \<le> 30 \<and> length (pa_last_error a) \<le> 255"

definition observation_fits :: "observation \<Rightarrow> bool" where
  "observation_fits x \<longleftrightarrow> length (ob_tenant x) \<le> 100 \<and> length (ob_kind x) \<le> 20 \<and> length (ob_id x) \<le> 160
     \<and> length (ob_provider_transaction_id x) \<le> 100 \<and> length (ob_event_id x) \<le> 160 \<and> length (ob_currency x) \<le> 3
     \<and> length (ob_outcome x) \<le> 20 \<and> length (ob_verification_method x) \<le> 80 \<and> length (ob_binding_hash x) \<le> 64"

definition reconciliation_fits :: "reconciliation \<Rightarrow> bool" where
  "reconciliation_fits r \<longleftrightarrow> length (rc_provider_status r) \<le> 30 \<and> length (rc_source_status r) \<le> 30
     \<and> length (rc_external_transaction_id r) \<le> 100"

definition evidence_fits :: "evidence \<Rightarrow> bool" where
  "evidence_fits e \<longleftrightarrow> (case e of NoEvidence \<Rightarrow> True
     | Ambiguous code pid xid \<Rightarrow> length code \<le> 50 \<and> length pid \<le> 100 \<and> length xid \<le> 100
     | Accepted pid xid \<Rightarrow> length pid \<le> 100 \<and> length xid \<le> 100)"

definition rows_fit :: "pay_state \<Rightarrow> bool" where
  "rows_fit s \<longleftrightarrow> list_all (\<lambda>ka. attempt_fits (snd ka) \<and> evidence_fits (pa_recovery_evidence (snd ka))) (ps_attempts s)
     \<and> list_all observation_fits (ps_observations s) \<and> list_all reconciliation_fits (ps_reconciliations s)"

named_theorems fits "unfolding of the column bounds"

declare attempt_fits_def [fits] observation_fits_def [fits] reconciliation_fits_def [fits] rows_fit_def [fits]

lemma rows_fit_get:
  "rows_fit s \<Longrightarrow> tget (ps_attempts s) k = Some a \<Longrightarrow> attempt_fits a \<and> evidence_fits (pa_recovery_evidence a)"
  by (fastforce simp: rows_fit_def list_all_iff dest: tget_in_set)

lemma rows_fit_put:
  assumes "rows_fit s" "attempt_fits b" "evidence_fits (pa_recovery_evidence b)"
    and "ps_attempts s' = tput k b (ps_attempts s)" "ps_observations s' = ps_observations s"
    "ps_reconciliations s' = ps_reconciliations s"
  shows "rows_fit s'"
  using assms(1-3) list_all_tput [of "\<lambda>a. attempt_fits a \<and> evidence_fits (pa_recovery_evidence a)" "ps_attempts s" b k]
  by (simp add: rows_fit_def assms(4-6))

lemma rows_fit_same:
  "rows_fit s \<Longrightarrow> ps_attempts s' = ps_attempts s \<Longrightarrow> ps_observations s' = ps_observations s
     \<Longrightarrow> ps_reconciliations s' = ps_reconciliations s \<Longrightarrow> rows_fit s'"
  by (simp add: rows_fit_def)

lemma put_attempt_reconciliations [simp]: "ps_reconciliations (put_attempt k a s) = ps_reconciliations s"
  by (simp add: put_attempt_def)

section \<open>The operations\<close>

lemma apply_outcome_fits:
  assumes run: "apply_outcome s now k out = Inr s'" and fit: "rows_fit s"
  shows "rows_fit s'"
proof -
  from run obtain a where a: "tget (ps_attempts s) k = Some a"
    by (auto simp: apply_outcome_def split: option.splits)
  note af = rows_fit_get [OF fit a]
  show ?thesis
  proof (cases "attempt_terminal a")
    case True
    with run a fit show ?thesis by (simp add: apply_outcome_def)
  next
    case False
    let ?b = "(a\<lparr>pa_status := target_status out, pa_failure_code := take 50 (po_code out),
        pa_failure_category := take 30 (po_category out), pa_retryable := po_retryable out,
        pa_provider_attempt_id := take 100 (po_provider_attempt_id out),
        pa_external_transaction_id := take 100 (po_external_transaction_id out),
        pa_last_error := take 255 (po_message out), pa_version := pa_version a + 1,
        pa_attempt_count := pa_attempt_count a + 1,
        pa_next_retry_at := (if target_status out = ARetryable then Some (now + backoff_seconds (pa_attempt_count a + 1))
          else if target_status out = AUncertain then Some (now + uncertain_poll_delay) else None)\<rparr>)"
    have "attempt_fits ?b" "evidence_fits (pa_recovery_evidence ?b)" using af by (simp_all add: attempt_fits_def)
    moreover have "ps_attempts s' = tput k ?b (ps_attempts s)" "ps_observations s' = ps_observations s"
      "ps_reconciliations s' = ps_reconciliations s"
      using run a False by (auto simp: apply_outcome_def transition_to_def Let_def split: if_splits)
    ultimately show ?thesis by (rule rows_fit_put [OF fit])
  qed
qed

lemma stored_fits: "observation_fits (stored_observation ob m e)"
  by (simp add: stored_observation_def fits)

lemma reconcile_fits: "rows_fit s \<Longrightarrow> rows_fit (reconcile_attempt s k a p q)"
  by (simp add: reconcile_attempt_def Let_def fits)

lemma record_observation_fits:
  assumes run: "record_observation bd s now k inst amount ob = Inr (s', row)" and fit: "rows_fit s"
  shows "rows_fit s'"
  using run
proof (cases rule: record_observation_cases)
  case (1 a m s1)
  have s1: "rows_fit s1" using fit stored_fits by (simp add: 1(3,5) rows_fit_def)
  show ?thesis
  proof (cases "ob_accepted row \<and> \<not> attempt_terminal a")
    case True
    with 1(6) s1 show ?thesis by (auto intro: apply_outcome_fits)
  next
    case False
    have acc: "ob_accepted row = observation_exact bd k inst amount ob"
      by (simp add: 1(2,3) stored_observation_def)
    from run 1(1,2,4) False acc have "ps_reconciliations s' = ps_reconciliations s"
      by (auto simp: record_observation_def Let_def split: if_splits)
    with 1(6) False fit stored_fits show ?thesis by (auto simp: 1(3) rows_fit_def)
  qed
qed

lemma record_result_fits:
  assumes "record_provider_result bd sh s now k inst r source = Inr s'" "rows_fit s"
  shows "rows_fit s'"
  using assms(1)
proof (cases rule: record_result_cases)
  case (1 s1 s2 a1 a2 row)
  from 1(1) assms(2) have "rows_fit s1" by (rule record_observation_fits)
  with 1(3) have "rows_fit s2" by (auto intro: apply_outcome_fits split: if_splits)
  then show ?thesis by (simp add: 1(5) reconcile_fits)
qed

lemma evidence_of_fits: "evidence_fits e \<Longrightarrow> evidence_fits (evidence_of r e)"
  by (simp add: evidence_of_def evidence_fits_def)

lemma finalize_fits:
  assumes "finalize_claimed_result bd sh s now k token g r = Inr (s', res)" "rows_fit s"
  shows "rows_fit s'"
  using assms(1)
proof (cases rule: finalize_cases)
  case (recorded a s1 a1 b)
  have s1: "rows_fit s1" by (rule record_result_fits [OF recorded(4) assms(2)])
  from rows_fit_get [OF s1 recorded(5)] have "attempt_fits b" "evidence_fits (pa_recovery_evidence b)"
    by (simp_all add: recorded(7) attempt_fits_def evidence_of_fits)
  from rows_fit_put [OF s1 this, of s' k] show ?thesis by (simp add: recorded(6))
qed (use assms(2) in simp)

lemma unavailable_fits: "unavailable bd sh s now k = Inr s' \<Longrightarrow> rows_fit s \<Longrightarrow> rows_fit s'"
  by (auto simp: unavailable_def split: option.splits if_splits intro: record_result_fits)

lemma status_fits:
  assumes "rows_fit s" "tget (ps_attempts s) k = Some a"
  shows "rows_fit (put_attempt k (a\<lparr>pa_status := AUncertain\<rparr>) s)"
  using rows_fit_get [OF assms] by (intro rows_fit_put [OF assms(1)]) (simp_all add: attempt_fits_def)

definition begun_fits :: "pay_error + (pay_state \<times> begin_result) \<Rightarrow> bool" where
  "begun_fits r \<longleftrightarrow> (case r of Inl e \<Rightarrow> True | Inr sr \<Rightarrow> rows_fit (fst sr))"

lemma select_intent_rows:
  assumes "select_intent s j k a = Inr (s1, i, ei)"
  shows "ps_attempts s1 = ps_attempts s" "ps_observations s1 = ps_observations s"
    "ps_reconciliations s1 = ps_reconciliations s"
  using assms by (auto simp: select_intent_def create_intent_def split: option.splits if_splits sum.splits)

lemma begin_call_fits:
  assumes fit: "rows_fit s"
  shows "begun_fits (begin_call regs s now token j k)"
proof (cases "begin_call regs s now token j k")
  case (Inr sr)
  then obtain a where a: "tget (ps_attempts s) k = Some a" by (auto simp: begin_call_def split: option.splits)
  from rows_fit_get [OF fit a] have af: "attempt_fits (claimed now token kind a)"
    "evidence_fits (pa_recovery_evidence (claimed now token kind a))" for kind
    by (simp_all add: claimed_def attempt_fits_def)
  show ?thesis
  proof (cases "select_intent s j k a")
    case (Inl e)
    with Inr a fit show ?thesis by (auto simp: begin_call_def begun_fits_def split: if_splits)
  next
    case sel: (Inr x)
    obtain s1 i ei where x: "x = (s1, i, ei)" by (cases x)
    note rows = select_intent_rows [OF sel [unfolded x]]
    have "rows_fit (put_attempt k (claimed now token kind a) s1)"
      "rows_fit (put_attempt k (claimed now token kind a) (s1\<lparr>ps_intents := I\<rparr>))" for kind I
      by (rule rows_fit_put [OF fit af], simp_all add: rows)+
    with Inr a sel x fit show ?thesis by (auto simp: begin_call_def begun_fits_def Let_def split: if_splits)
  qed
qed (simp add: begun_fits_def)

lemma status_first_fits:
  assumes "rows_fit s" "status_first_recovery regs s now token j k = (s1, r)"
  shows "rows_fit s1 \<and> begun_fits r"
  using assms status_fits [OF assms(1)] begin_call_fits
  by (auto simp: status_first_recovery_def mark_uncertain_def begun_fits_def Let_def split: option.splits if_splits)

lemma recover_fits:
  assumes "rows_fit s" "recover_attempt regs s now token j k = (s1, r)"
  shows "rows_fit s1 \<and> begun_fits r"
  using assms status_first_fits [OF assms(1)] begin_call_fits [OF assms(1)]
  by (auto simp: recover_attempt_def begun_fits_def split: option.splits if_splits)

lemma orchestrate_fits:
  assumes "orchestrate_attempt bd sh regs s now token j k = (t, res)" "rows_fit s"
  shows "rows_fit t \<and> begun_fits res"
proof -
  obtain s1 r where rec: "recover_attempt regs s now token j k = (s1, r)" by fastforce
  from recover_fits [OF assms(2) rec] assms(1) rec show ?thesis
    by (cases r) (auto simp: orchestrate_attempt_def begun_fits_def split: pay_error.splits sum.splits
        intro: unavailable_fits)
qed

lemma triage_uncertain_fits: "rows_fit s \<Longrightarrow> rows_fit (fst (triage_uncertain_loop now s ks))"
proof (induction now s ks rule: triage_uncertain_loop.induct)
  case (2 now s k a rest)
  have s1: "rows_fit (reconcile_attempt s k a ''unknown'' '''')" by (rule reconcile_fits [OF 2(2)])
  show ?case
  proof (cases "apply_outcome (reconcile_attempt s k a ''unknown'' '''') now k uncertain_review")
    case (Inl e)
    with s1 show ?thesis by (simp add: Let_def)
  next
    case (Inr s2)
    have "rows_fit (fst (triage_uncertain_loop now s2 rest))"
      by (rule 2(1) [OF refl Inr apply_outcome_fits [OF Inr s1]])
    with Inr show ?thesis by (auto simp: Let_def split: prod.splits)
  qed
qed simp

lemma triage_retryable_fits: "rows_fit s \<Longrightarrow> rows_fit (fst (triage_retryable_loop now s ks))"
proof (induction now s ks rule: triage_retryable_loop.induct)
  case (2 now s k a rest)
  show ?case
  proof (cases "apply_outcome s now k retry_review")
    case (Inl e)
    with 2(2) show ?thesis by simp
  next
    case (Inr s2)
    have "rows_fit (fst (triage_retryable_loop now s2 rest))"
      by (rule 2(1) [OF Inr apply_outcome_fits [OF Inr 2(2)]])
    with Inr show ?thesis by (auto split: prod.splits)
  qed
qed simp

lemma correlation_rows:
  assumes "record_provider_correlation s j c = Inr s'"
  shows "ps_attempts s' = ps_attempts s" "ps_observations s' = ps_observations s"
    "ps_reconciliations s' = ps_reconciliations s"
  using assms by (auto simp: record_provider_correlation_def Let_def split: if_splits option.splits)

lemma reserve_rows:
  assumes "reserve_execution_intent s j k scope operation request fp = Inr (s', i)"
  shows "ps_attempts s' = ps_attempts s" "ps_observations s' = ps_observations s"
    "ps_reconciliations s' = ps_reconciliations s"
  using assms
  by (auto simp: reserve_execution_intent_def create_intent_def split: if_splits option.splits sum.splits)

lemma create_fits:
  assumes run: "get_or_create_attempt s k tenant operation request fp rest audited = Inr (s', r)"
    and fit: "rows_fit s" and rest: "attempt_fits rest" "evidence_fits (pa_recovery_evidence rest)"
  shows "rows_fit s'"
proof (cases "List.find (\<lambda>ka. scope_match tenant operation request (snd ka)) (ps_attempts s)")
  case (Some ja)
  with run fit show ?thesis by (cases ja) (auto simp: get_or_create_attempt_def split: if_splits)
next
  case None
  let ?a = "rest\<lparr>pa_tenant := take 100 tenant, pa_operation := take 30 operation,
     pa_request_id := take 100 request, pa_payload_fingerprint := fp\<rparr>"
  have "attempt_fits ?a" "evidence_fits (pa_recovery_evidence ?a)" using rest by (simp_all add: attempt_fits_def)
  moreover from None run have "ps_attempts s' = tput k ?a (ps_attempts s)" "ps_observations s' = ps_observations s"
    "ps_reconciliations s' = ps_reconciliations s"
    by (auto simp: get_or_create_attempt_def Let_def split: if_splits)
  ultimately show ?thesis by (rule rows_fit_put [OF fit])
qed

section \<open>Every run\<close>

text \<open>The defaults a caller creates an attempt with fit.\<close>

fun creates_fitting :: "worker_op \<Rightarrow> bool" where
  "creates_fitting (WCreate k tenant operation request fp rest) =
     (attempt_fits rest \<and> evidence_fits (pa_recovery_evidence rest))"
| "creates_fitting x = True"

lemma worker_step_fits:
  assumes fit: "rows_fit (wk_pay w)" and owed: "creates_fitting x" and run: "worker_step bd sh regs w x = Inr w'"
  shows "rows_fit (wk_pay w')"
proof (cases x)
  case (WOrchestrate now token j k)
  obtain t res where r: "orchestrate_attempt bd sh regs (wk_pay w) now token j k = (t, res)" by fastforce
  with WOrchestrate run orchestrate_fits [OF r fit] show ?thesis by (cases res) (auto simp: begun_fits_def)
next
  case (WRecover now token j k)
  obtain s1 r where r: "recover_attempt regs (wk_pay w) now token j k = (s1, r)" by fastforce
  with WRecover run recover_fits [OF fit r] show ?thesis by (cases r) (auto simp: begun_fits_def)
next
  case (WStatusFirst now token j k)
  obtain s1 r where r: "status_first_recovery regs (wk_pay w) now token j k = (s1, r)" by fastforce
  with WStatusFirst run status_first_fits [OF fit r] show ?thesis by (cases r) (auto simp: begun_fits_def)
next
  case (WMark k)
  with run fit status_fits [OF fit] show ?thesis by (auto simp: map_sum_Inr_iff mark_uncertain_def split: option.splits if_splits)
next
  case (WSubmit now token j k)
  with run begin_call_fits [OF fit, of regs now token j k] show ?thesis by (auto simp: map_sum_Inr_iff begun_fits_def)
next
  case (WUnavailable now k)
  with run fit show ?thesis by (auto simp: map_sum_Inr_iff intro: unavailable_fits)
next
  case (WFinish now c r)
  with run show ?thesis by (auto simp: map_sum_Inr_iff intro: finalize_fits [OF _ fit])
next
  case (WOutcome now k out)
  with run show ?thesis by (auto simp: map_sum_Inr_iff intro: apply_outcome_fits [OF _ fit])
next
  case (WTriage now)
  with run triage_uncertain_fits [OF fit] show ?thesis by (auto simp: triage_uncertain_def)
next
  case (WTriageRetry now)
  with run triage_retryable_fits [OF fit] show ?thesis by (auto simp: triage_retryable_def)
next
  case (WCorrelate j c)
  with run obtain s where s: "record_provider_correlation (wk_pay w) j c = Inr s" "w' = w\<lparr>wk_pay := s\<rparr>"
    by (auto simp: map_sum_Inr_iff)
  show ?thesis using rows_fit_same [OF fit correlation_rows [OF s(1)]] by (simp add: s(2))
next
  case (WReserve j k scope operation request fp)
  with run obtain s i where s: "reserve_execution_intent (wk_pay w) j k scope operation request fp = Inr (s, i)"
    "w' = w\<lparr>wk_pay := s\<rparr>" by (auto simp: map_sum_Inr_iff)
  show ?thesis using rows_fit_same [OF fit reserve_rows [OF s(1)]] by (simp add: s(2))
next
  case (WCreate k tenant operation request fp rest)
  with run owed show ?thesis by (auto simp: map_sum_Inr_iff intro: create_fits [OF _ fit])
qed

interpretation fitting: step_system "worker_step bd sh regs" "\<lambda>w. creates_fitting" "\<lambda>w. rows_fit (wk_pay w)"
  for bd sh regs
  by unfold_locales (rule worker_step_fits)

text \<open>
  C33. Typing: in every run of the workers, with whatever results, codes, messages and
  identifiers the providers return, every attempt, observation and reconciliation row keeps
  fitting the columns of its table that a provider's answer or a failure can reach, and so does
  the recovery evidence. The rows fit at the start, and so do the fields a caller creates an
  attempt with; the claim token, the currency and the source of an attempt never come from a
  provider and are not among the columns.
\<close>

theorem stored_rows_fit_columns:
  assumes "rows_fit (wk_pay w)" and "ops_ok (\<lambda>w. creates_fitting) (worker_step bd sh regs) w xs"
  shows "rows_fit (wk_pay (run_ops (worker_step bd sh regs) w xs))"
  by (rule fitting.inv_run [OF assms])

text \<open>A provider that returns more than fits.\<close>

definition long_answer :: provider_result where
  "long_answer = (blank_result PSettled)\<lparr>pr_external_transaction_id := replicate 300 CHR ''x'',
     pr_code := replicate 60 CHR ''c'', pr_verified := True, pr_observation_id := replicate 200 CHR ''o''\<rparr>"

lemma stored_rows_fit_columns_witness:
  "\<exists>s. s = wk_pay (run_ops (worker_step scene_bd scene_key scene_regs) scene_workers
         [WOrchestrate 10 ''a'' 1 1, WFinish 20 (scene_call ''a'' Submit 1) long_answer])
     \<and> map (\<lambda>a. (pa_status (snd a), length (pa_external_transaction_id (snd a)))) (ps_attempts s) = [(ASettled, 100)]
     \<and> rows_fit s"
proof -
  let ?xs = "[WOrchestrate 10 ''a'' 1 1, WFinish 20 (scene_call ''a'' Submit 1) long_answer]"
  let ?s = "wk_pay (run_ops (worker_step scene_bd scene_key scene_regs) scene_workers ?xs)"
  have 1: "rows_fit (wk_pay scene_workers)" by code_simp
  have 2: "ops_ok (\<lambda>w. creates_fitting) (worker_step scene_bd scene_key scene_regs) scene_workers ?xs" by simp
  have 3: "map (\<lambda>a. (pa_status (snd a), length (pa_external_transaction_id (snd a)))) (ps_attempts ?s) = [(ASettled, 100)]"
    by code_simp
  show ?thesis by (intro exI conjI, rule refl, rule 3, rule stored_rows_fit_columns [OF 1 2])
qed

end
