(* ===== verification/BatchProcessing.thy ===== *)
theory BatchProcessing
  imports PaymentAttempts BatchDecision
begin

text \<open>
  Bulk payment batches end to end: \<open>receive_batch\<close>, the binding of a credit instruction to
  its attempt, the finality projection, and the Celery task
  \<open>process_bulk_payment_batch\<close>, which composes the lease, the attempts and the decisions.
  Amounts are hundredths. The digests and settings the task reads are the record
  \<open>bulk_env\<close>; \<open>clock n\<close> is the time read at its n-th step.
\<close>

section \<open>Rows\<close>

datatype instr_status = InPending | InValidated | InCompleted | InFailed

record instruction =
  in_batch :: nat
  in_id :: string
  in_payee :: string
  in_amount :: int
  in_currency :: string
  in_narration :: string
  in_status :: instr_status
  in_failure_reason :: string
  in_attempt :: "nat option"

datatype batch_status = BReceived | BValidating | BProcessing | BCompleted | BPartial | BFailed

record bulk_batch =
  bb_request_id :: string
  bb_source_bb_id :: string
  bb_batch_id :: string
  bb_status :: batch_status
  bb_callback_url :: string
  bb_correlation_id :: string
  bb_total_amount :: int
  bb_completed_amount :: int
  bb_failed_amount :: int
  bb_result_at :: "int option"

record bulk_state =
  bs_pay :: pay_state
  bs_batches :: "bulk_batch table"
  bs_instructions :: "instruction table"
  bs_leases :: "lease_row table"
  bs_decisions :: "gs_decision list"
  bs_audit :: "(nat \<times> gs_decision) list"
  bs_queue :: "nat list"
  bs_payees :: "string list"

record bulk_env =
  be_instruction_fp :: "nat \<times> nat \<times> int \<times> string \<Rightarrow> string"
  be_callback_fp :: "string \<times> string \<Rightarrow> string"
  be_callback_json :: "string \<times> string \<times> string \<Rightarrow> string"
  be_digest :: "string \<Rightarrow> string"
  be_decision_fp :: "fp_payload \<Rightarrow> string"
  be_binding :: binding_digest
  be_key :: "nat \<Rightarrow> string"
  be_money :: "int \<Rightarrow> string"
  be_runtime :: bool
  be_threshold :: real
  be_return_funds :: bool

datatype bulk_error =
    BulkPay pay_error | BulkLease lease_error | BulkDecision decision_error
  | TerminalWithNonFinal | BulkRowMissing | DuplicateBatch

text \<open>A key for a new row.\<close>

definition next_key :: "'r table \<Rightarrow> nat" where
  "next_key t = Suc (foldr max (map fst t) 0)"

section \<open>Receiving a batch\<close>

definition new_instruction :: "nat \<Rightarrow> string \<times> string \<times> int \<times> string \<times> string \<Rightarrow> instruction" where
  "new_instruction bk item = (case item of (iid, payee, amount, currency, narration) \<Rightarrow>
     \<lparr>in_batch = bk, in_id = iid, in_payee = payee, in_amount = amount, in_currency = currency,
      in_narration = narration, in_status = InPending, in_failure_reason = '''', in_attempt = None\<rparr>)"

fun add_instructions ::
  "nat \<Rightarrow> instruction table \<Rightarrow> (string \<times> string \<times> int \<times> string \<times> string) list \<Rightarrow> instruction table option" where
  "add_instructions bk t [] = Some t"
| "add_instructions bk t (item # items) =
     (if list_ex (\<lambda>kr. in_batch (snd kr) = bk \<and> in_id (snd kr) = fst item) t then None
      else add_instructions bk (tput (next_key t) (new_instruction bk item) t) items)"

text \<open>The batch id and the instruction ids within a batch are unique.\<close>

definition receive_batch ::
  "bulk_state \<Rightarrow> string \<Rightarrow> string \<Rightarrow> string \<Rightarrow> (string \<times> string \<times> int \<times> string \<times> string) list \<Rightarrow> string \<Rightarrow> string
     \<Rightarrow> bulk_error + (bulk_state \<times> nat)" where
  "receive_batch s request source batch_id items url correlation =
     (let bk = next_key (bs_batches s);
          b = \<lparr>bb_request_id = request, bb_source_bb_id = source, bb_batch_id = batch_id, bb_status = BReceived,
            bb_callback_url = url, bb_correlation_id = correlation,
            bb_total_amount = sum_list (map (\<lambda>(i, p, m, c, n). m) items),
            bb_completed_amount = 0, bb_failed_amount = 0, bb_result_at = None\<rparr>
      in if list_ex (\<lambda>kb. bb_batch_id (snd kb) = batch_id) (bs_batches s) then Inl DuplicateBatch
         else case add_instructions bk (bs_instructions s) items of
           None \<Rightarrow> Inl DuplicateBatch
         | Some t \<Rightarrow> Inr (s\<lparr>bs_batches := tput bk b (bs_batches s), bs_instructions := t\<rparr>, bk))"

section \<open>Binding an instruction to its attempt\<close>

definition bulk_operation :: string where
  "bulk_operation = ''g2p_bulk_instruction''"

definition expected_request :: "bulk_batch \<Rightarrow> instruction \<Rightarrow> string" where
  "expected_request b i = bb_request_id b @ '':'' @ in_id i"

definition attempt_matches :: "bulk_batch \<Rightarrow> instruction \<Rightarrow> attempt \<Rightarrow> bool" where
  "attempt_matches b i a \<longleftrightarrow> pa_operation a = bulk_operation \<and> pa_request_id a = expected_request b i
     \<and> pa_amount a = Some (in_amount i) \<and> py_upper (pa_currency a) = py_upper (in_currency i)"

definition bind_credit_instruction_attempt :: "bulk_state \<Rightarrow> nat \<Rightarrow> nat \<Rightarrow> bulk_error + bulk_state" where
  "bind_credit_instruction_attempt s ik k = (case tget (bs_instructions s) ik of
     None \<Rightarrow> Inl BulkRowMissing
   | Some i \<Rightarrow> (case (tget (bs_batches s) (in_batch i), tget (ps_attempts (bs_pay s)) k) of
       (Some b, Some a) \<Rightarrow>
         if \<not> attempt_matches b i a then Inl (BulkPay InstructionMismatch)
         else (case in_attempt i of
           None \<Rightarrow> if list_ex (\<lambda>kr. in_attempt (snd kr) = Some k) (bs_instructions s)
             then Inl (BulkPay UniqueViolation)
             else Inr (s\<lparr>bs_instructions := tput ik (i\<lparr>in_attempt := Some k\<rparr>) (bs_instructions s)\<rparr>)
         | Some j \<Rightarrow> if j \<noteq> k then Inl (BulkPay IdempotencyConflict) else Inr s)
     | _ \<Rightarrow> Inl BulkRowMissing))"

section \<open>The finality projection\<close>

record finality =
  fy_status :: string
  fy_final :: bool
  fy_reason :: string
  fy_attempt :: "nat option"

definition status_value :: "attempt_status \<Rightarrow> string" where
  "status_value st = (case st of APending \<Rightarrow> ''pending'' | ARetryable \<Rightarrow> ''retryable'' | AUncertain \<Rightarrow> ''uncertain''
     | ASettled \<Rightarrow> ''settled'' | ARejected \<Rightarrow> ''rejected'' | AReview \<Rightarrow> ''review'' | ADeadLetter \<Rightarrow> ''dead_letter'')"

definition review_of :: "string \<Rightarrow> nat option \<Rightarrow> finality" where
  "review_of reason k = \<lparr>fy_status = ''review'', fy_final = False, fy_reason = reason, fy_attempt = k\<rparr>"

definition accepted_of :: "observation list \<Rightarrow> observation list" where
  "accepted_of obs = filter (\<lambda>x. ob_accepted x \<and> ob_verified x \<and> ob_outcome x \<in> {''settled'', ''rejected''}) obs"

definition observations_of :: "pay_state \<Rightarrow> nat \<Rightarrow> observation list" where
  "observations_of p k = filter (\<lambda>x. ob_attempt x = k) (ps_observations p)"

definition reconciliations_of :: "pay_state \<Rightarrow> nat \<Rightarrow> reconciliation list" where
  "reconciliations_of p k = filter (\<lambda>r. rc_attempt r = k) (ps_reconciliations p)"

definition observation_finality ::
  "binding_digest \<Rightarrow> pay_state \<Rightarrow> instruction \<Rightarrow> nat \<Rightarrow> attempt \<Rightarrow> observation \<Rightarrow> finality" where
  "observation_finality bd p i k a x =
     (if ob_tenant x \<noteq> pa_tenant a \<or> ob_amount x \<noteq> in_amount i
         \<or> py_upper (ob_currency x) \<noteq> py_upper (in_currency i)
         \<or> ob_binding_hash x \<noteq> binding_hash bd (pa_tenant a) k (Some (in_amount i)) (in_currency i)
         \<or> length (observations_of p k) \<noteq> 1
      then review_of ''observation_unverified_or_conflicting'' (Some k)
      else if status_value (pa_status a) \<noteq> ob_outcome x
      then review_of ''attempt_status_not_authoritative'' (Some k)
      else if reconciliations_of p k = []
         \<or> list_ex (\<lambda>r. rc_status r \<noteq> ReconMatched \<or> rc_provider_status r \<noteq> ob_outcome x
             \<or> status_value (rc_internal_status r) \<noteq> ob_outcome x) (reconciliations_of p k)
      then review_of ''reconciliation_unresolved_or_conflicting'' (Some k)
      else \<lparr>fy_status = ob_outcome x, fy_final = True, fy_reason = ''verified_reconciled_finality'',
             fy_attempt = Some k\<rparr>)"

definition attempt_finality ::
  "binding_digest \<Rightarrow> pay_state \<Rightarrow> bulk_batch \<Rightarrow> instruction \<Rightarrow> nat \<Rightarrow> attempt \<Rightarrow> finality" where
  "attempt_finality bd p b i k a =
     (if \<not> attempt_matches b i a then review_of ''bound_attempt_malformed'' (Some k)
      else case accepted_of (observations_of p k) of
        [x] \<Rightarrow> observation_finality bd p i k a x
      | _ \<Rightarrow> review_of ''missing_or_conflicting_observation'' (Some k))"

definition materialize_credit_instruction_finality ::
  "binding_digest \<Rightarrow> bulk_state \<Rightarrow> nat \<Rightarrow> bulk_error + finality" where
  "materialize_credit_instruction_finality bd s ik = (case tget (bs_instructions s) ik of
     None \<Rightarrow> Inl BulkRowMissing
   | Some i \<Rightarrow> (case in_attempt i of
       None \<Rightarrow> Inr (review_of ''instruction_unbound'' None)
     | Some k \<Rightarrow> (case (tget (bs_batches s) (in_batch i), tget (ps_attempts (bs_pay s)) k) of
         (Some b, Some a) \<Rightarrow> Inr (attempt_finality bd (bs_pay s) b i k a)
       | _ \<Rightarrow> Inl BulkRowMissing)))"

section \<open>The task\<close>

definition blank_attempt :: "string \<Rightarrow> int option \<Rightarrow> string \<Rightarrow> attempt" where
  "blank_attempt source amount currency = \<lparr>pa_tenant = '''', pa_claim_token = '''', pa_claim_expires_at = None,
     pa_claim_generation = 0, pa_claim_heartbeat_at = None, pa_submission_intent = NoIntent,
     pa_recovery_evidence = NoEvidence, pa_request_id = '''', pa_operation = '''', pa_source_bb_id = source,
     pa_provider_attempt_id = '''', pa_external_transaction_id = '''', pa_amount = amount, pa_currency = currency,
     pa_status = APending, pa_failure_code = '''', pa_failure_category = '''', pa_retryable = False,
     pa_attempt_count = 0, pa_next_retry_at = None, pa_last_error = '''', pa_payload_fingerprint = '''',
     pa_version = 1\<rparr>"

definition unconfigured_review :: pay_outcome where
  "unconfigured_review = (plain_outcome ''review'')\<lparr>po_code := ''SETTLEMENT_ADAPTER_UNCONFIGURED'',
     po_category := ''configuration'',
     po_message := ''Local account validation completed; settlement verification is required.''\<rparr>"

definition mapper_not_found :: pay_outcome where
  "mapper_not_found = (plain_outcome ''invalid_account'')\<lparr>po_code := ''ID_MAPPER_NOT_FOUND'',
     po_category := ''account'', po_message := ''Destination account could not be validated.''\<rparr>"

text \<open>
  \<open>_record_bulk_instruction_lifecycle\<close>; the lease assertions between its writes read the
  same row and time as the one before it.
\<close>

definition record_bulk_instruction_lifecycle ::
  "bulk_env \<Rightarrow> bulk_state \<Rightarrow> int \<Rightarrow> bulk_batch \<Rightarrow> nat \<Rightarrow> instruction \<Rightarrow> bool \<Rightarrow> bulk_error + (bulk_state \<times> nat)" where
  "record_bulk_instruction_lifecycle env s now b ik i found =
     (case get_or_create_attempt (bs_pay s) (next_key (ps_attempts (bs_pay s))) '''' bulk_operation (expected_request b i)
         (be_instruction_fp env (in_batch i, ik, in_amount i, in_currency i))
         (blank_attempt (bb_source_bb_id b) (Some (in_amount i)) (in_currency i)) True of
        Inl e \<Rightarrow> Inl (BulkPay e)
      | Inr (p, k, created) \<Rightarrow>
          if found \<and> be_runtime env then Inr (s\<lparr>bs_pay := p, bs_queue := bs_queue s @ [k]\<rparr>, k)
          else (case apply_outcome p now k (if found then unconfigured_review else mapper_not_found) of
            Inl e \<Rightarrow> Inl (BulkPay e)
          | Inr p' \<Rightarrow> Inr (s\<lparr>bs_pay := p'\<rparr>, k)))"

text \<open>One entry of \<open>child_items\<close>: instruction key, status and amount.\<close>

record child =
  ch_key :: nat
  ch_status :: string
  ch_amount :: int

definition to_item :: "bulk_env \<Rightarrow> child \<Rightarrow> child_item" where
  "to_item env c = \<lparr>ci_id = be_key env (ch_key c), ci_status = ch_status c, ci_amount = be_money env (ch_amount c)\<rparr>"

definition put_instruction :: "nat \<Rightarrow> instruction \<Rightarrow> bulk_state \<Rightarrow> bulk_state" where
  "put_instruction ik i s = s\<lparr>bs_instructions := tput ik i (bs_instructions s)\<rparr>"

definition non_final_status :: "bulk_state \<Rightarrow> instruction \<Rightarrow> string" where
  "non_final_status s i = (case in_attempt i of None \<Rightarrow> ''review''
     | Some k \<Rightarrow> (case tget (ps_attempts (bs_pay s)) k of None \<Rightarrow> ''review''
         | Some a \<Rightarrow> if status_value (pa_status a) \<in> {''retryable'', ''uncertain'', ''review''}
             then status_value (pa_status a) else ''review''))"

text \<open>What the task does with a child once its finality is known.\<close>

definition project_child :: "bulk_state \<Rightarrow> nat \<Rightarrow> instruction \<Rightarrow> finality \<Rightarrow> bulk_state \<times> child" where
  "project_child s ik i f =
     (if fy_final f \<and> fy_status f = ''settled'' then
        (if in_status i \<noteq> InCompleted then put_instruction ik (i\<lparr>in_status := InCompleted, in_failure_reason := ''''\<rparr>) s else s,
         \<lparr>ch_key = ik, ch_status = ''settled'', ch_amount = in_amount i\<rparr>)
      else if fy_final f \<and> fy_status f = ''rejected'' then
        (if in_status i \<noteq> InFailed then put_instruction ik (i\<lparr>in_status := InFailed,
           in_failure_reason := ''Provider evidence rejected the instruction.''\<rparr>) s else s,
         \<lparr>ch_key = ik, ch_status = ''rejected'', ch_amount = in_amount i\<rparr>)
      else
        (if in_status i = InPending then put_instruction ik (i\<lparr>in_status := InValidated, in_failure_reason := ''''\<rparr>) s else s,
         \<lparr>ch_key = ik, ch_status = non_final_status s i, ch_amount = in_amount i\<rparr>))"

definition bind_child :: "bulk_env \<Rightarrow> bulk_state \<Rightarrow> int \<Rightarrow> bulk_batch \<Rightarrow> nat \<Rightarrow> instruction \<Rightarrow> bulk_error + bulk_state" where
  "bind_child env s now b ik i = (case in_attempt i of
     Some k \<Rightarrow> Inr s
   | None \<Rightarrow> (case record_bulk_instruction_lifecycle env s now b ik i (in_payee i \<in> set (bs_payees s)) of
       Inl e \<Rightarrow> Inl e
     | Inr (s1, k) \<Rightarrow> bind_credit_instruction_attempt s1 ik k))"

definition process_child ::
  "bulk_env \<Rightarrow> bulk_state \<Rightarrow> int \<Rightarrow> lease_handle \<Rightarrow> bulk_batch \<Rightarrow> nat \<Rightarrow> bulk_error + (bulk_state \<times> child)" where
  "process_child env s now h b ik = (case heartbeat (bs_leases s) h now default_ttl of
     Inl e \<Rightarrow> Inl (BulkLease e)
   | Inr (h', leases) \<Rightarrow> (let s0 = s\<lparr>bs_leases := leases\<rparr> in case tget (bs_instructions s0) ik of
       None \<Rightarrow> Inl BulkRowMissing
     | Some i \<Rightarrow>
         if in_attempt i = None \<and> in_status i \<in> {InCompleted, InFailed}
         then Inr (s0, \<lparr>ch_key = ik, ch_status = ''review'', ch_amount = in_amount i\<rparr>)
         else (case bind_child env s0 now b ik i of
           Inl e \<Rightarrow> Inl e
         | Inr s1 \<Rightarrow> (case (materialize_credit_instruction_finality (be_binding env) s1 ik, tget (bs_instructions s1) ik) of
             (Inr f, Some i1) \<Rightarrow> Inr (project_child s1 ik i1 f)
           | (Inl e, _) \<Rightarrow> Inl e
           | _ \<Rightarrow> Inl BulkRowMissing))))"

fun process_children ::
  "bulk_env \<Rightarrow> (nat \<Rightarrow> int) \<Rightarrow> lease_handle \<Rightarrow> bulk_batch \<Rightarrow> nat \<Rightarrow> bulk_state \<Rightarrow> nat list
     \<Rightarrow> bulk_error + (bulk_state \<times> child list)" where
  "process_children env clock h b n s [] = Inr (s, [])"
| "process_children env clock h b n s (ik # iks) = (case process_child env s (clock n) h b ik of
     Inl e \<Rightarrow> Inl e
   | Inr (s1, c) \<Rightarrow> (case process_children env clock h b (Suc n) s1 iks of
       Inl e \<Rightarrow> Inl e
     | Inr (s2, cs) \<Rightarrow> Inr (s2, c # cs)))"

definition total_of :: "string \<Rightarrow> child list \<Rightarrow> int" where
  "total_of st cs = sum_list (map ch_amount (filter (\<lambda>c. ch_status c = st) cs))"

text \<open>The batch row after a decision.\<close>

definition project_batch :: "bulk_batch \<Rightarrow> int \<Rightarrow> gs_decision \<Rightarrow> child list \<Rightarrow> bulk_batch" where
  "project_batch b now d cs =
     (let b1 = (if gd_action d \<in> {ActTerminal, ActReturnFunds}
        then b\<lparr>bb_status := (if gd_rejected d = 0 then BCompleted else if gd_settled d = 0 then BFailed else BPartial),
               bb_result_at := Some now\<rparr>
        else b\<lparr>bb_status := BProcessing, bb_result_at := None\<rparr>)
      in b1\<lparr>bb_completed_amount := total_of ''settled'' cs, bb_failed_amount := total_of ''rejected'' cs\<rparr>)"

definition action_upper :: "decision_action \<Rightarrow> string" where
  "action_upper x = (case x of ActEmpty \<Rightarrow> ''EMPTY'' | ActPause \<Rightarrow> ''PAUSE'' | ActRetry \<Rightarrow> ''RETRY''
     | ActReview \<Rightarrow> ''REVIEW'' | ActTerminal \<Rightarrow> ''TERMINAL'' | ActReturnFunds \<Rightarrow> ''RETURN_FUNDS'')"

text \<open>The audit row and the callback of a new decision.\<close>

definition publish_decision :: "bulk_env \<Rightarrow> bulk_state \<Rightarrow> int \<Rightarrow> nat \<Rightarrow> bulk_batch \<Rightarrow> gs_decision \<Rightarrow> bulk_error + bulk_state" where
  "publish_decision env s now bk b d =
     (let s1 = s\<lparr>bs_audit := bs_audit s @ [(bk, d)]\<rparr> in
      if bb_callback_url b = '''' then Inr s1
      else case get_or_create_attempt (bs_pay s1) (next_key (ps_attempts (bs_pay s1))) '''' ''g2p_bulk_callback''
          (''callback:'' @ bb_request_id b @ '':'' @ bb_batch_id b) (be_callback_fp env (bb_request_id b, bb_batch_id b))
          (blank_attempt (bb_source_bb_id b) None '''') False of
        Inl e \<Rightarrow> Inl (BulkPay e)
      | Inr (p, k, created) \<Rightarrow>
          (case queue_callback (be_digest env) p now (next_key (ps_callbacks p)) k (bb_callback_url b)
             (be_callback_json env (bb_request_id b, bb_batch_id b, action_upper (gd_action d))) of
             Inl e \<Rightarrow> Inl (BulkPay e)
           | Inr (p', j, new) \<Rightarrow> Inr (s1\<lparr>bs_pay := p'\<rparr>)))"

text \<open>The part of the second transaction after the children.\<close>

definition decide_batch ::
  "bulk_env \<Rightarrow> bulk_state \<Rightarrow> int \<Rightarrow> lease_handle \<Rightarrow> nat \<Rightarrow> bulk_batch \<Rightarrow> child list \<Rightarrow> bulk_error + bulk_state" where
  "decide_batch env s now h bk b cs =
     (case decide (be_decision_fp env) (bs_leases s) (bs_decisions s) bk h (map (to_item env) cs) (be_threshold env)
         (be_return_funds env) now of
        Inl e \<Rightarrow> Inl (BulkDecision e)
      | Inr (d, created, policy, ds) \<Rightarrow>
          if gd_action d \<in> {ActTerminal, ActReturnFunds} \<and> 0 < gd_non_final d then Inl TerminalWithNonFinal
          else let b1 = project_batch b now d cs;
                   s1 = s\<lparr>bs_decisions := ds, bs_batches := tput bk b1 (bs_batches s)\<rparr>
               in if created then publish_decision env s1 now bk b1 d else Inr s1)"

definition open_status :: "batch_status \<Rightarrow> bool" where
  "open_status st \<longleftrightarrow> st \<in> {BReceived, BProcessing}"

definition instruction_keys :: "bulk_state \<Rightarrow> nat \<Rightarrow> nat list" where
  "instruction_keys s bk = map fst (filter (\<lambda>kr. in_batch (snd kr) = bk) (bs_instructions s))"

text \<open>The second transaction.\<close>

definition process_batch_locked ::
  "bulk_env \<Rightarrow> (nat \<Rightarrow> int) \<Rightarrow> bulk_state \<Rightarrow> lease_handle \<Rightarrow> nat \<Rightarrow> bulk_error + bulk_state" where
  "process_batch_locked env clock s h bk = (case tget (bs_batches s) bk of
     None \<Rightarrow> Inl BulkRowMissing
   | Some b \<Rightarrow> (case assert_current_owner (bs_leases s) h (clock 1) of
       Inl e \<Rightarrow> Inl (BulkLease e)
     | Inr l \<Rightarrow>
         if \<not> open_status (bb_status b) then Inr s
         else (case heartbeat (bs_leases s) h (clock 1) default_ttl of
           Inl e \<Rightarrow> Inl (BulkLease e)
         | Inr (h', leases) \<Rightarrow>
             (case process_children env clock h b 2 (s\<lparr>bs_leases := leases\<rparr>) (instruction_keys s bk) of
                Inl e \<Rightarrow> Inl e
              | Inr (s1, cs) \<Rightarrow> decide_batch env s1 (clock (2 + length cs)) h bk b cs))))"

text \<open>Which exceptions the task swallows.\<close>

definition swallowed :: "bulk_error \<Rightarrow> bool" where
  "swallowed e \<longleftrightarrow> (case e of BulkLease l \<Rightarrow> l = OwnershipLost | BulkDecision d \<Rightarrow> True | TerminalWithNonFinal \<Rightarrow> True | _ \<Rightarrow> False)"

definition release_after :: "bulk_state \<Rightarrow> lease_handle \<Rightarrow> int \<Rightarrow> bulk_state" where
  "release_after s h now = (case release (bs_leases s) h now of Inl e \<Rightarrow> s | Inr t \<Rightarrow> s\<lparr>bs_leases := t\<rparr>)"

text \<open>
  \<open>process_bulk_payment_batch\<close>: the state it leaves and the exception it raises, if any.
  \<open>stop\<close> is the time of the release in the \<open>finally\<close> clause.
\<close>

definition process_bulk_payment_batch ::
  "bulk_env \<Rightarrow> (nat \<Rightarrow> int) \<Rightarrow> int \<Rightarrow> bulk_state \<Rightarrow> nat \<Rightarrow> string \<Rightarrow> bulk_state \<times> bulk_error option" where
  "process_bulk_payment_batch env clock stop s bk owner = (case tget (bs_batches s) bk of
     None \<Rightarrow> (s, None)
   | Some b \<Rightarrow>
       if \<not> open_status (bb_status b) then (s, None)
       else (case acquire (fst ` set (bs_batches s)) (bs_leases s) bk owner (clock 0) default_ttl of
         Inl e \<Rightarrow> (s, Some (BulkLease e))
       | Inr (None, t) \<Rightarrow> (s, None)
       | Inr (Some h, t) \<Rightarrow> (case heartbeat t h (clock 0) default_ttl of
           Inl e \<Rightarrow> (release_after s h stop, None)
         | Inr (h', t1) \<Rightarrow> (let s1 = s\<lparr>bs_leases := t1\<rparr> in
             case process_batch_locked env clock s1 h bk of
               Inl e \<Rightarrow> (release_after s1 h stop, if swallowed e then None else Some e)
             | Inr s2 \<Rightarrow> (release_after s2 h stop, None)))))"

end
