(* ===== verification/BatchProcessingProps.thy ===== *)
theory BatchProcessingProps
  imports RuntimeSettlement BatchProcessing "HOL-Library.Multiset"
begin

text \<open>
  What processing a bulk batch guarantees: what one child's step may change, that a final
  child stays final, that a batch is closed only when every child is final, and how its
  amounts add up.
\<close>

section \<open>The frame of a child's step\<close>

definition same_instruction :: "instruction \<Rightarrow> instruction \<Rightarrow> bool" where
  "same_instruction i j \<longleftrightarrow> in_batch j = in_batch i \<and> in_id j = in_id i \<and> in_amount j = in_amount i
     \<and> in_currency j = in_currency i \<and> (in_attempt i \<noteq> None \<longrightarrow> in_attempt j = in_attempt i)"

definition frame_le :: "bulk_state \<Rightarrow> bulk_state \<Rightarrow> bool" where
  "frame_le s t \<longleftrightarrow> bs_batches t = bs_batches s \<and> bs_decisions t = bs_decisions s
     \<and> ps_observations (bs_pay t) = ps_observations (bs_pay s)
     \<and> ps_reconciliations (bs_pay t) = ps_reconciliations (bs_pay s)
     \<and> (\<forall>k a. tget (ps_attempts (bs_pay s)) k = Some a \<longrightarrow> attempt_terminal a
          \<longrightarrow> tget (ps_attempts (bs_pay t)) k = Some a)
     \<and> map fst (bs_instructions t) = map fst (bs_instructions s)
     \<and> (\<forall>k i. tget (bs_instructions s) k = Some i
          \<longrightarrow> (\<exists>j. tget (bs_instructions t) k = Some j \<and> same_instruction i j))"

lemma same_instruction_refl [simp]: "same_instruction i i"
  by (simp add: same_instruction_def)

lemma same_instruction_trans: "same_instruction i j \<Longrightarrow> same_instruction j k \<Longrightarrow> same_instruction i k"
  by (auto simp: same_instruction_def)

lemma frame_leD:
  assumes "frame_le s t"
  shows "bs_batches t = bs_batches s" "bs_decisions t = bs_decisions s"
    and "ps_observations (bs_pay t) = ps_observations (bs_pay s)"
    and "ps_reconciliations (bs_pay t) = ps_reconciliations (bs_pay s)"
    and "tget (ps_attempts (bs_pay s)) k = Some a \<Longrightarrow> attempt_terminal a \<Longrightarrow> tget (ps_attempts (bs_pay t)) k = Some a"
    and "map fst (bs_instructions t) = map fst (bs_instructions s)"
    and "tget (bs_instructions s) k' = Some i \<Longrightarrow> \<exists>j. tget (bs_instructions t) k' = Some j \<and> same_instruction i j"
  using assms by (simp_all add: frame_le_def)

lemma frame_refl [simp]: "frame_le s s"
  by (auto simp: frame_le_def)

lemma frame_trans:
  assumes "frame_le s t" "frame_le t u"
  shows "frame_le s u"
  unfolding frame_le_def
proof (intro conjI allI impI)
  show "\<exists>j. tget (bs_instructions u) k = Some j \<and> same_instruction i j" if "tget (bs_instructions s) k = Some i" for k i
    using frame_leD(7) [OF assms(1) that] frame_leD(7) [OF assms(2)] by (blast intro: same_instruction_trans)
  show "tget (ps_attempts (bs_pay u)) k = Some a"
    if "tget (ps_attempts (bs_pay s)) k = Some a" "attempt_terminal a" for k a
    using frame_leD(5) [OF assms(1) that] frame_leD(5) [OF assms(2)] that(2) by blast
qed (simp_all add: frame_leD [OF assms(1)] frame_leD [OF assms(2)])

lemma frame_leases [simp]: "frame_le s (s\<lparr>bs_leases := t\<rparr>)"
  by (auto simp: frame_le_def)

lemma map_fst_tput: "tget t k = Some r \<Longrightarrow> map fst (tput k q t) = map fst t"
  by (induction t) (auto simp: tput_Cons tget_Cons split: if_splits)

lemma frame_put:
  "tget (bs_instructions s) k = Some i \<Longrightarrow> same_instruction i j \<Longrightarrow> frame_le s (put_instruction k j s)"
  by (auto simp: frame_le_def put_instruction_def map_fst_tput table_simps)

text \<open>What the attempt services do to the rows finality is read from.\<close>

definition pay_frame :: "pay_state \<Rightarrow> pay_state \<Rightarrow> bool" where
  "pay_frame p q \<longleftrightarrow> ps_observations q = ps_observations p \<and> ps_reconciliations q = ps_reconciliations p
     \<and> (\<forall>k a. tget (ps_attempts p) k = Some a \<longrightarrow> attempt_terminal a \<longrightarrow> tget (ps_attempts q) k = Some a)"

lemma pay_frame_refl [simp]: "pay_frame p p"
  by (simp add: pay_frame_def)

lemma pay_frame_trans: "pay_frame p q \<Longrightarrow> pay_frame q r \<Longrightarrow> pay_frame p r"
  by (auto simp: pay_frame_def)

lemma put_attempt_recs [simp]: "ps_reconciliations (put_attempt k a s) = ps_reconciliations s"
  by (simp add: put_attempt_def)

lemma apply_outcome_frame:
  assumes "apply_outcome s now k out = Inr s'"
  shows "pay_frame s s'"
proof -
  from assms obtain a where a: "tget (ps_attempts s) k = Some a"
    by (auto simp: apply_outcome_def split: option.splits)
  show ?thesis
  proof (cases "attempt_terminal a")
    case True
    with assms a show ?thesis by (auto simp: apply_outcome_def)
  next
    case False
    have rec: "ps_reconciliations s' = ps_reconciliations s"
      using assms a False by (auto simp: apply_outcome_def transition_to_def Let_def split: if_splits)
    from assms show ?thesis
    proof (cases rule: apply_outcome_cases)
      case (moves a' b)
      with a rec False show ?thesis by (auto simp: pay_frame_def table_simps)
    qed simp
  qed
qed

lemma get_or_create_frame:
  assumes "get_or_create_attempt s k tenant operation request fp rest audited = Inr (s', r)"
  shows "pay_frame s s'"
  using assms
  by (auto simp: get_or_create_attempt_def Let_def pay_frame_def table_simps split: option.splits if_splits)

lemma frame_pay: "pay_frame (bs_pay s) p \<Longrightarrow> frame_le s (s\<lparr>bs_pay := p\<rparr>)"
  by (auto simp: frame_le_def pay_frame_def)

lemma lifecycle_frame:
  assumes "record_bulk_instruction_lifecycle env s now b ik i found = Inr (s', k)"
  shows "frame_le s s' \<and> bs_instructions s' = bs_instructions s"
proof -
  obtain p j c where got: "get_or_create_attempt (bs_pay s) (next_key (ps_attempts (bs_pay s))) '''' bulk_operation
      (expected_request b i) (be_instruction_fp env (in_batch i, ik, in_amount i, in_currency i))
      (blank_attempt (bb_source_bb_id b) (Some (in_amount i)) (in_currency i)) True = Inr (p, j, c)"
    using assms unfolding record_bulk_instruction_lifecycle_def by (auto split: sum.splits)
  from get_or_create_frame [OF got] have p: "pay_frame (bs_pay s) p" .
  show ?thesis
  proof (cases "found \<and> be_runtime env")
    case True
    with assms got have "s' = s\<lparr>bs_pay := p, bs_queue := bs_queue s @ [j]\<rparr>"
      by (auto simp: record_bulk_instruction_lifecycle_def)
    with frame_pay [OF p] show ?thesis by (simp add: frame_le_def)
  next
    case False
    with assms got obtain p' out where "apply_outcome p now j out = Inr p'" "s' = s\<lparr>bs_pay := p'\<rparr>"
      by (auto simp: record_bulk_instruction_lifecycle_def split: sum.splits)
    with frame_pay [OF pay_frame_trans [OF p apply_outcome_frame]] show ?thesis by simp
  qed
qed

lemma bind_frame:
  assumes "bind_credit_instruction_attempt s ik k = Inr s'"
  shows "frame_le s s'"
proof -
  from assms obtain i where i: "tget (bs_instructions s) ik = Some i"
    by (auto simp: bind_credit_instruction_attempt_def split: option.splits)
  with assms have "s' = s \<or> in_attempt i = None \<and> s' = put_instruction ik (i\<lparr>in_attempt := Some k\<rparr>) s"
    by (auto simp: bind_credit_instruction_attempt_def put_instruction_def split: option.splits if_splits)
  with frame_put [OF i, of "i\<lparr>in_attempt := Some k\<rparr>"] show ?thesis by (auto simp: same_instruction_def)
qed

lemma bind_child_frame: "bind_child env s now b ik i = Inr s' \<Longrightarrow> frame_le s s'"
  by (auto simp: bind_child_def split: option.splits sum.splits dest!: lifecycle_frame bind_frame intro: frame_trans)

lemma project_frame:
  assumes "tget (bs_instructions s) ik = Some i"
  shows "frame_le s (fst (project_child s ik i f))"
  by (auto simp: project_child_def same_instruction_def intro!: frame_put [OF assms])

section \<open>A final child stays final\<close>

lemma review_not_final [simp]: "\<not> fy_final (review_of reason k)"
  by (simp add: review_of_def)

lemma attempt_finality_final:
  assumes fin: "fy_final (attempt_finality bd p b i k a)"
  obtains x where "accepted_of (observations_of p k) = [x]" "attempt_finality bd p b i k a = observation_finality bd p i k a x"
    "attempt_matches b i a" "ob_outcome x \<in> {''settled'', ''rejected''}"
    "status_value (pa_status a) = ob_outcome x" "fy_status (attempt_finality bd p b i k a) = ob_outcome x"
    "attempt_terminal a"
proof -
  from fin have m: "attempt_matches b i a"
    by (auto simp: attempt_finality_def split: if_splits)
  from fin m obtain x where x: "accepted_of (observations_of p k) = [x]"
    by (auto simp: attempt_finality_def split: list.splits)
  with m have f: "attempt_finality bd p b i k a = observation_finality bd p i k a x"
    by (simp add: attempt_finality_def)
  from x have "x \<in> set (accepted_of (observations_of p k))" by simp
  then have out: "ob_outcome x \<in> {''settled'', ''rejected''}" by (simp add: accepted_of_def)
  from fin f have st: "status_value (pa_status a) = ob_outcome x" "fy_status (observation_finality bd p i k a x) = ob_outcome x"
    by (auto simp: observation_finality_def split: if_splits)
  with out have "attempt_terminal a"
    by (auto simp: status_value_def attempt_terminal_def split: attempt_status.splits)
  with that [OF x f m out] st f show ?thesis by simp
qed

abbreviation final_child :: "binding_digest \<Rightarrow> bulk_state \<Rightarrow> nat \<Rightarrow> finality \<Rightarrow> bool" where
  "final_child bd s ik f \<equiv> materialize_credit_instruction_finality bd s ik = Inr f \<and> fy_final f"

lemma final_childD:
  assumes "final_child bd s ik f"
  obtains i k b a where "tget (bs_instructions s) ik = Some i" "in_attempt i = Some k"
    "tget (bs_batches s) (in_batch i) = Some b" "tget (ps_attempts (bs_pay s)) k = Some a"
    "f = attempt_finality bd (bs_pay s) b i k a" "attempt_terminal a" "fy_status f \<in> {''settled'', ''rejected''}"
proof -
  from assms obtain i k b a where *: "tget (bs_instructions s) ik = Some i" "in_attempt i = Some k"
    "tget (bs_batches s) (in_batch i) = Some b" "tget (ps_attempts (bs_pay s)) k = Some a"
    "f = attempt_finality bd (bs_pay s) b i k a"
    by (auto simp: materialize_credit_instruction_finality_def split: option.splits)
  with assms have "fy_final (attempt_finality bd (bs_pay s) b i k a)" by simp
  then show ?thesis by (rule attempt_finality_final) (rule that [OF *], simp_all add: *)
qed

text \<open>Steps that may also close batches, but keep their request ids.\<close>

definition weak_le :: "bulk_state \<Rightarrow> bulk_state \<Rightarrow> bool" where
  "weak_le s t \<longleftrightarrow> frame_le (s\<lparr>bs_batches := bs_batches t, bs_decisions := bs_decisions t\<rparr>) t
     \<and> (\<forall>k b. tget (bs_batches s) k = Some b
          \<longrightarrow> (\<exists>c. tget (bs_batches t) k = Some c \<and> bb_request_id c = bb_request_id b))"

lemma frame_weak: "frame_le s t \<Longrightarrow> weak_le s t"
  by (simp add: weak_le_def frame_le_def)

lemma weak_leD:
  assumes "weak_le s t"
  shows "ps_observations (bs_pay t) = ps_observations (bs_pay s)"
    and "ps_reconciliations (bs_pay t) = ps_reconciliations (bs_pay s)"
    and "tget (ps_attempts (bs_pay s)) k = Some a \<Longrightarrow> attempt_terminal a \<Longrightarrow> tget (ps_attempts (bs_pay t)) k = Some a"
    and "tget (bs_instructions s) k' = Some i \<Longrightarrow> \<exists>j. tget (bs_instructions t) k' = Some j \<and> same_instruction i j"
    and "tget (bs_batches s) bk = Some b \<Longrightarrow> \<exists>c. tget (bs_batches t) bk = Some c \<and> bb_request_id c = bb_request_id b"
  using assms by (simp_all add: weak_le_def frame_le_def)

lemma final_child_stable:
  assumes "final_child bd s ik f" "weak_le s t"
  shows "final_child bd t ik f"
proof -
  from assms(1) obtain i k b a where *: "tget (bs_instructions s) ik = Some i" "in_attempt i = Some k"
    "tget (bs_batches s) (in_batch i) = Some b" "tget (ps_attempts (bs_pay s)) k = Some a"
    "f = attempt_finality bd (bs_pay s) b i k a" "attempt_terminal a"
    by (rule final_childD)
  from weak_leD(4) [OF assms(2) *(1)] obtain j where j: "tget (bs_instructions t) ik = Some j" "same_instruction i j"
    by blast
  from weak_leD(5) [OF assms(2) *(3)] obtain c where c: "tget (bs_batches t) (in_batch i) = Some c"
    "bb_request_id c = bb_request_id b" by blast
  have "attempt_finality bd (bs_pay t) c j k a = f"
  proof -
    have "observations_of (bs_pay t) k = observations_of (bs_pay s) k"
      "reconciliations_of (bs_pay t) k = reconciliations_of (bs_pay s) k"
      using weak_leD(1,2) [OF assms(2)] by (simp_all add: observations_of_def reconciliations_of_def)
    moreover have "attempt_matches c j a = attempt_matches b i a" "in_amount j = in_amount i" "in_currency j = in_currency i"
      using j(2) c(2) by (simp_all add: attempt_matches_def expected_request_def same_instruction_def)
    ultimately show ?thesis by (simp only: *(5) attempt_finality_def observation_finality_def)
  qed
  with * j c weak_leD(3) [OF assms(2) *(4,6)] assms(1) show ?thesis
    by (simp add: materialize_credit_instruction_finality_def same_instruction_def)
qed

section \<open>The children of a batch\<close>

definition justified :: "binding_digest \<Rightarrow> bulk_state \<Rightarrow> child \<Rightarrow> bool" where
  "justified bd s c \<longleftrightarrow> (\<exists>i. tget (bs_instructions s) (ch_key c) = Some i \<and> in_amount i = ch_amount c)
     \<and> (ch_status c \<in> {''settled'', ''rejected''} \<longrightarrow> (\<exists>f. final_child bd s (ch_key c) f \<and> fy_status f = ch_status c))"

lemma justified_stable:
  assumes "justified bd s c" "weak_le s t"
  shows "justified bd t c"
proof -
  from assms(1) obtain i where i: "tget (bs_instructions s) (ch_key c) = Some i" "in_amount i = ch_amount c"
    by (auto simp: justified_def)
  from weak_leD(4) [OF assms(2) i(1)] i(2)
  have "\<exists>j. tget (bs_instructions t) (ch_key c) = Some j \<and> in_amount j = ch_amount c"
    by (auto simp: same_instruction_def)
  moreover have "\<exists>f. final_child bd t (ch_key c) f \<and> fy_status f = ch_status c"
    if "ch_status c \<in> {''settled'', ''rejected''}"
    using assms(1) that final_child_stable [OF _ assms(2)] by (auto simp: justified_def)
  ultimately show ?thesis by (simp add: justified_def)
qed

lemma non_final_status_range: "non_final_status s i \<notin> {''settled'', ''rejected''}"
  by (auto simp: non_final_status_def split: option.splits)

lemma project_child_fields [simp]:
  "ch_key (snd (project_child s ik i f)) = ik" "ch_amount (snd (project_child s ik i f)) = in_amount i"
  by (simp_all add: project_child_def)

lemma project_child_status:
  "ch_status (snd (project_child s ik i f)) \<in> {''settled'', ''rejected''}
     \<Longrightarrow> fy_final f \<and> fy_status f = ch_status (snd (project_child s ik i f))"
  using non_final_status_range [of s i] by (auto simp: project_child_def split: if_splits)

lemma process_child_result:
  assumes "process_child env s now h b ik = Inr (s', c)"
  shows "frame_le s s' \<and> ch_key c = ik \<and> justified (be_binding env) s' c"
proof -
  from assms obtain h' leases i where hb: "heartbeat (bs_leases s) h now default_ttl = Inr (h', leases)"
    and i: "tget (bs_instructions s) ik = Some i"
    by (auto simp: process_child_def Let_def split: sum.splits option.splits)
  let ?s0 = "s\<lparr>bs_leases := leases\<rparr>"
  show ?thesis
  proof (cases "in_attempt i = None \<and> in_status i \<in> {InCompleted, InFailed}")
    case True
    with assms hb i have "s' = ?s0" "c = \<lparr>ch_key = ik, ch_status = ''review'', ch_amount = in_amount i\<rparr>"
      by (auto simp: process_child_def)
    with i show ?thesis by (simp add: justified_def)
  next
    case False
    with assms hb i obtain s1 f i1 where s1: "bind_child env ?s0 now b ik i = Inr s1"
      and f: "materialize_credit_instruction_finality (be_binding env) s1 ik = Inr f"
      and i1: "tget (bs_instructions s1) ik = Some i1" and res: "(s', c) = project_child s1 ik i1 f"
      by (auto simp: process_child_def split: sum.splits option.splits if_splits)
    from res have s': "s' = fst (project_child s1 ik i1 f)" and c: "c = snd (project_child s1 ik i1 f)"
      by (metis fst_conv, metis snd_conv)
    have fr: "frame_le s1 s'" using project_frame [OF i1] s' by simp
    have "justified (be_binding env) s1 c"
      using i1 f project_child_status [of s1 ik i1 f] by (auto simp: justified_def c)
    from justified_stable [OF this frame_weak [OF fr]] frame_trans [OF frame_trans [OF frame_leases bind_child_frame [OF s1]] fr]
    show ?thesis by (simp add: c)
  qed
qed

lemma process_children_result:
  assumes "process_children env clock h b n s iks = Inr (s', cs)"
  shows "frame_le s s' \<and> map ch_key cs = iks \<and> (\<forall>c\<in>set cs. justified (be_binding env) s' c)"
  using assms
proof (induction iks arbitrary: n s s' cs)
  case (Cons ik iks)
  then obtain s1 c cs' where one: "process_child env s (clock n) h b ik = Inr (s1, c)"
    and rest: "process_children env clock h b (Suc n) s1 iks = Inr (s', cs')" and cs: "cs = c # cs'"
    by (auto split: sum.splits)
  from process_child_result [OF one] Cons.IH [OF rest] show ?case
    by (auto simp: cs intro: frame_trans justified_stable frame_weak)
qed simp

section \<open>The decision\<close>

lemma filter_canonical: "length (filter P (canonical_items xs)) = length (filter P xs)"
  unfolding canonical_items_def by (metis mset_filter mset_sort size_mset)

text \<open>A decision just made that closes the batch counts every child as settled or rejected.\<close>

lemma closing_action:
  "decision_action_of policy n r m rf \<in> {ActTerminal, ActReturnFunds} \<Longrightarrow> m = 0"
  by (rule ccontr) (simp add: decision_action_of_def split: if_splits)

lemma decide_created:
  assumes "decide fp leases decs batch h items th rf now = Inr (d, True, policy, ds)"
  shows "gd_settled d = length (filter (\<lambda>i. ci_status i = ''settled'') items)
    \<and> gd_rejected d = length (filter (\<lambda>i. ci_status i = ''rejected'') items)
    \<and> (gd_action d \<in> {ActTerminal, ActReturnFunds} \<longrightarrow> length items \<le> gd_settled d + gd_rejected d)
    \<and> ds = decs @ [d] \<and> gd_batch d = batch"
proof -
  let ?s = "length (filter (\<lambda>i. ci_status i = ''settled'') items)"
  let ?r = "length (filter (\<lambda>i. ci_status i = ''rejected'') items)"
  let ?items = "canonical_items items"
  let ?cs = "length (filter (\<lambda>i. ci_status i = ''settled'') ?items)"
  let ?cr = "length (filter (\<lambda>i. ci_status i = ''rejected'') ?items)"
  from decide_create_counts [OF assms] have d: "gd_settled d = ?s \<and> gd_rejected d = ?r \<and> ds = decs @ [d] \<and> gd_batch d = batch
      \<and> gd_action d = decision_action_of (evaluate ?items th) (length items) ?r (length items - ?s - ?r) rf"
    using decide_create [OF assms] by (simp add: filter_canonical)
  have "length items \<le> ?s + ?r" if "gd_action d \<in> {ActTerminal, ActReturnFunds}"
  proof -
    from d have act: "gd_action d = decision_action_of (evaluate ?items th) (length items) ?r (length items - ?s - ?r) rf"
      by blast
    from that have "length items - ?s - ?r = 0" unfolding act by (rule closing_action)
    then show ?thesis by linarith
  qed
  moreover from d have "gd_settled d = ?s" "gd_rejected d = ?r" "ds = decs @ [d]" "gd_batch d = batch" by blast+
  ultimately show ?thesis by (simp only: simp_thms) blast
qed

lemma two_kinds:
  assumes "length xs \<le> length (filter P xs) + length (filter Q xs)" "\<And>x. P x \<Longrightarrow> \<not> Q x"
  shows "\<forall>x\<in>set xs. P x \<or> Q x"
proof -
  have "length (filter (\<lambda>x. P x \<or> Q x) xs) = length (filter P xs) + length (filter Q xs)"
    using assms(2) by (induction xs) auto
  with assms(1) have "length (filter (\<lambda>x. P x \<or> Q x) xs) = length xs"
    using length_filter_le [of "\<lambda>x. P x \<or> Q x" xs] by simp
  then show ?thesis
    by (metis (mono_tags, lifting) filter_id_conv length_filter_less linorder_neq_iff)
qed

lemma queue_callback_frame:
  assumes "queue_callback digest p now j k url payload = Inr (p', r)"
  shows "pay_frame p p'"
  using assms by (auto simp: queue_callback_def pay_frame_def split: option.splits if_splits)

lemma publish_frame:
  assumes "publish_decision env s now bk b d = Inr s'"
  shows "frame_le s s' \<and> bs_instructions s' = bs_instructions s"
proof (cases "bb_callback_url b = ''''")
  case True
  with assms show ?thesis by (auto simp: publish_decision_def Let_def frame_le_def)
next
  case False
  let ?s1 = "s\<lparr>bs_audit := bs_audit s @ [(bk, d)]\<rparr>"
  from False assms obtain p k c p' r where g: "get_or_create_attempt (bs_pay s) (next_key (ps_attempts (bs_pay s))) '''' ''g2p_bulk_callback''
      (''callback:'' @ bb_request_id b @ '':'' @ bb_batch_id b) (be_callback_fp env (bb_request_id b, bb_batch_id b))
      (blank_attempt (bb_source_bb_id b) None '''') False = Inr (p, k, c)"
    and q: "queue_callback (be_digest env) p now (next_key (ps_callbacks p)) k (bb_callback_url b)
             (be_callback_json env (bb_request_id b, bb_batch_id b, action_upper (gd_action d))) = Inr (p', r)"
    and s': "s' = ?s1\<lparr>bs_pay := p'\<rparr>"
    by (auto simp: publish_decision_def Let_def split: sum.splits)
  have "pay_frame (bs_pay ?s1) p'"
    using pay_frame_trans [OF get_or_create_frame [OF g] queue_callback_frame [OF q]] by simp
  then have "frame_le ?s1 s'" unfolding s' by (rule frame_pay)
  then show ?thesis by (simp add: s' frame_le_def)
qed

lemma instruction_keys_frame:
  assumes "frame_le s t" "tok (bs_instructions s)"
  shows "instruction_keys t bk = instruction_keys s bk"
proof -
  have keys: "instruction_keys u bk
      = filter (\<lambda>k. \<exists>i. tget (bs_instructions u) k = Some i \<and> in_batch i = bk) (map fst (bs_instructions u))"
    if "tok (bs_instructions u)" for u
  proof -
    have "in_batch (snd kr) = bk \<longleftrightarrow> (\<exists>i. tget (bs_instructions u) (fst kr) = Some i \<and> in_batch i = bk)"
      if "kr \<in> set (bs_instructions u)" for kr
    proof -
      from that \<open>tok (bs_instructions u)\<close> have "tget (bs_instructions u) (fst kr) = Some (snd kr)"
        by (simp add: tget_iff)
      then show ?thesis by simp
    qed
    then show ?thesis
      unfolding instruction_keys_def filter_map comp_def by (simp cong: filter_cong)
  qed
  have tok: "tok (bs_instructions t)" using assms frame_leD(6) [OF assms(1)] by (simp add: tok_def)
  have "(\<exists>j. tget (bs_instructions t) k = Some j \<and> in_batch j = bk) \<longleftrightarrow> (\<exists>i. tget (bs_instructions s) k = Some i \<and> in_batch i = bk)"
    if "k \<in> fst ` set (bs_instructions s)" for k
  proof -
    from that assms(2) obtain i where i: "tget (bs_instructions s) k = Some i" by (auto simp: tget_iff)
    from frame_leD(7) [OF assms(1) i] i show ?thesis by (auto simp: same_instruction_def)
  qed
  then show ?thesis
    unfolding keys [OF tok] keys [OF assms(2)] frame_leD(6) [OF assms(1)] by (intro filter_cong) simp_all
qed

section \<open>Closing a batch\<close>

definition closed_status :: "batch_status \<Rightarrow> bool" where
  "closed_status st \<longleftrightarrow> st \<in> {BCompleted, BPartial, BFailed}"

definition undecided :: "bulk_state \<Rightarrow> nat \<Rightarrow> bool" where
  "undecided s bk \<longleftrightarrow> list_all (\<lambda>d. gd_batch d \<noteq> bk \<or> gd_action d \<notin> {ActTerminal, ActReturnFunds}) (bs_decisions s)"

lemma release_after_fields [simp]:
  "bs_batches (release_after s h now) = bs_batches s" "bs_instructions (release_after s h now) = bs_instructions s"
  "bs_pay (release_after s h now) = bs_pay s" "bs_decisions (release_after s h now) = bs_decisions s"
  by (simp_all add: release_after_def split: sum.splits)

text \<open>A run of the task that changed the batch's row: what happened.\<close>

lemma process_cases:
  assumes "process_bulk_payment_batch env clock stop s bk owner = (s', err)"
    and "tget (bs_batches s) bk = Some b"
  obtains (unchanged) "bs_batches s' = bs_batches s" "bs_instructions s' = bs_instructions s"
      "bs_pay s' = bs_pay s" "bs_decisions s' = bs_decisions s"
    | (ran) h s0 s1 s2 cs now where "open_status (bb_status b)" "err = None"
      "bs_pay s0 = bs_pay s" "bs_batches s0 = bs_batches s" "bs_instructions s0 = bs_instructions s"
      "bs_decisions s0 = bs_decisions s" "frame_le s s0"
      "process_children env clock h b 2 s0 (instruction_keys s bk) = Inr (s1, cs)"
      "decide_batch env s1 now h bk b cs = Inr s2" "s' = release_after s2 h stop"
proof (cases "open_status (bb_status b)")
  case False
  with assms unchanged show ?thesis by (auto simp: process_bulk_payment_batch_def)
next
  case True
  show ?thesis
  proof (cases "acquire (fst ` set (bs_batches s)) (bs_leases s) bk owner (clock 0) default_ttl")
    case (Inl e)
    with True assms unchanged show ?thesis by (auto simp: process_bulk_payment_batch_def)
  next
    case (Inr ht)
    obtain ho t where ht: "ht = (ho, t)" by (cases ht)
    show ?thesis
    proof (cases ho)
      case None
      with True Inr ht assms unchanged show ?thesis by (auto simp: process_bulk_payment_batch_def)
    next
      case (Some h)
      show ?thesis
      proof (cases "heartbeat t h (clock 0) default_ttl")
        case (Inl e)
        with True Inr Some ht assms unchanged show ?thesis by (auto simp: process_bulk_payment_batch_def)
      next
        case hb: (Inr ht1)
        obtain h' t1 where ht1: "ht1 = (h', t1)" by (cases ht1)
        let ?s1 = "s\<lparr>bs_leases := t1\<rparr>"
        show ?thesis
        proof (cases "process_batch_locked env clock ?s1 h bk")
          case (Inl e)
          with True Inr Some ht hb ht1 assms unchanged show ?thesis
            by (auto simp: process_bulk_payment_batch_def Let_def)
        next
          case locked: (Inr s2)
          with True Inr Some ht hb ht1 assms have res: "s' = release_after s2 h stop" "err = None"
            by (auto simp: process_bulk_payment_batch_def Let_def)
          from locked assms(2) True obtain l h2 t2 where
            "assert_current_owner t1 h (clock 1) = Inr l" "heartbeat t1 h (clock 1) default_ttl = Inr (h2, t2)"
            by (auto simp: process_batch_locked_def split: sum.splits)
          with locked assms(2) True obtain s3 cs where
            "process_children env clock h b 2 (s\<lparr>bs_leases := t2\<rparr>) (instruction_keys s bk) = Inr (s3, cs)"
            "decide_batch env s3 (clock (2 + length cs)) h bk b cs = Inr s2"
            by (auto simp: process_batch_locked_def instruction_keys_def split: sum.splits)
          with ran [of "s\<lparr>bs_leases := t2\<rparr>" h s3 cs "clock (2 + length cs)" s2] True res show ?thesis by simp
        qed
      qed
    qed
  qed
qed

lemma decide_batch_closed:
  assumes run: "decide_batch env s now h bk b cs = Inr s'"
    and new: "tget (bs_batches s') bk = Some b'" "closed_status (bb_status b')"
    and und: "undecided s bk"
  obtains d where "b' = project_batch b now d cs"
    "\<forall>c\<in>set cs. ch_status c = ''settled'' \<or> ch_status c = ''rejected''"
    "gd_settled d = length (filter (\<lambda>c. ch_status c = ''settled'') cs)"
    "gd_rejected d = length (filter (\<lambda>c. ch_status c = ''rejected'') cs)"
    "gd_action d \<in> {ActTerminal, ActReturnFunds}"
    "frame_le (s\<lparr>bs_batches := bs_batches s', bs_decisions := bs_decisions s'\<rparr>) s'" "bs_instructions s' = bs_instructions s"
    "bs_batches s' = tput bk b' (bs_batches s)"
proof -
  from run obtain d created policy ds where d: "decide (be_decision_fp env) (bs_leases s) (bs_decisions s) bk h
      (map (to_item env) cs) (be_threshold env) (be_return_funds env) now = Inr (d, created, policy, ds)"
    by (auto simp: decide_batch_def split: sum.splits)
  let ?b1 = "project_batch b now d cs"
  let ?s1 = "s\<lparr>bs_decisions := ds, bs_batches := tput bk ?b1 (bs_batches s)\<rparr>"
  from run d have res: "if created then publish_decision env ?s1 now bk ?b1 d = Inr s' else s' = ?s1"
    by (auto simp: decide_batch_def Let_def split: if_splits)
  have fr: "frame_le ?s1 s' \<and> bs_instructions s' = bs_instructions s"
    using res publish_frame [of env ?s1 now bk ?b1 d s'] by (cases created) auto
  then have batches: "bs_batches s' = tput bk ?b1 (bs_batches s)" and decs: "bs_decisions s' = ds"
    using frame_leD(1,2) [of ?s1 s'] by auto
  with new have b': "b' = ?b1" by (simp add: table_simps)
  with new(2) have act: "gd_action d \<in> {ActTerminal, ActReturnFunds}"
    by (auto simp: project_batch_def closed_status_def Let_def split: if_splits)
  have created
  proof (rule ccontr)
    assume "\<not> created"
    with d have "d \<in> set (bs_decisions s) \<and> gd_batch d = bk" using decide_replay by fastforce
    with und act show False by (auto simp: undecided_def list_all_iff)
  qed
  with d have made: "decide (be_decision_fp env) (bs_leases s) (bs_decisions s) bk h
      (map (to_item env) cs) (be_threshold env) (be_return_funds env) now = Inr (d, True, policy, ds)" by simp
  from decide_created [OF made] have counts: "gd_settled d = length (filter (\<lambda>c. ch_status c = ''settled'') cs)"
    "gd_rejected d = length (filter (\<lambda>c. ch_status c = ''rejected'') cs)"
    by (simp_all add: filter_map comp_def to_item_def)
  from decide_created [OF made] act have "length cs \<le> gd_settled d + gd_rejected d" by (simp del: insert_iff)
  then have "\<forall>c\<in>set cs. ch_status c = ''settled'' \<or> ch_status c = ''rejected''"
    unfolding counts by (rule two_kinds) simp
  moreover have "s\<lparr>bs_batches := bs_batches s', bs_decisions := bs_decisions s'\<rparr> = ?s1"
    by (simp add: batches decs)
  with fr have "frame_le (s\<lparr>bs_batches := bs_batches s', bs_decisions := bs_decisions s'\<rparr>) s'" by simp
  ultimately show ?thesis using that [OF b' _ counts act] fr batches b' by simp
qed

text \<open>The instruction is final with this status, as the finality check of the code reports it.\<close>

definition ended :: "bulk_env \<Rightarrow> bulk_state \<Rightarrow> string \<Rightarrow> nat \<Rightarrow> bool" where
  "ended env s st ik \<longleftrightarrow> (case materialize_credit_instruction_finality (be_binding env) s ik of
     Inl e \<Rightarrow> False | Inr f \<Rightarrow> fy_final f \<and> fy_status f = st)"

definition instruction_amount :: "bulk_state \<Rightarrow> nat \<Rightarrow> int" where
  "instruction_amount s ik = (case tget (bs_instructions s) ik of None \<Rightarrow> 0 | Some i \<Rightarrow> in_amount i)"

lemma projected_status:
  assumes "gd_action d \<in> {ActTerminal, ActReturnFunds}"
    and "gd_settled d = length (filter (\<lambda>c. ch_status c = ''settled'') cs)"
    and "gd_rejected d = length (filter (\<lambda>c. ch_status c = ''rejected'') cs)"
    and "\<forall>c\<in>set cs. ch_status c = ''settled'' \<or> ch_status c = ''rejected''"
  shows "bb_status (project_batch b now d cs) = BCompleted \<longleftrightarrow> (\<forall>c\<in>set cs. ch_status c = ''settled'')"
    "bb_status (project_batch b now d cs) = BFailed \<longleftrightarrow> cs \<noteq> [] \<and> (\<forall>c\<in>set cs. ch_status c = ''rejected'')"
    "bb_status (project_batch b now d cs) = BPartial
       \<longleftrightarrow> (\<exists>c\<in>set cs. ch_status c = ''settled'') \<and> (\<exists>c\<in>set cs. ch_status c = ''rejected'')"
proof -
  have none: "gd_rejected d = 0 \<longleftrightarrow> (\<forall>c\<in>set cs. ch_status c = ''settled'')" "gd_settled d = 0 \<longleftrightarrow> (\<forall>c\<in>set cs. ch_status c = ''rejected'')"
    using assms(4) by (auto simp: assms(2,3) filter_empty_conv)
  have st: "bb_status (project_batch b now d cs)
      = (if gd_rejected d = 0 then BCompleted else if gd_settled d = 0 then BFailed else BPartial)"
    using assms(1) by (auto simp: project_batch_def Let_def)
  have some: "(\<forall>c\<in>set cs. ch_status c = ''settled'') \<Longrightarrow> (\<forall>c\<in>set cs. ch_status c = ''rejected'') \<Longrightarrow> cs = []"
    by (cases cs) auto
  show "bb_status (project_batch b now d cs) = BCompleted \<longleftrightarrow> (\<forall>c\<in>set cs. ch_status c = ''settled'')"
    by (simp add: st none)
  show "bb_status (project_batch b now d cs) = BFailed \<longleftrightarrow> cs \<noteq> [] \<and> (\<forall>c\<in>set cs. ch_status c = ''rejected'')"
    unfolding st none using some by auto
  show "bb_status (project_batch b now d cs) = BPartial
       \<longleftrightarrow> (\<exists>c\<in>set cs. ch_status c = ''settled'') \<and> (\<exists>c\<in>set cs. ch_status c = ''rejected'')"
    unfolding st none using assms(4) by auto
qed

text \<open>
  C7. Closing a batch: when a run of the task leaves an open batch completed, partially
  completed or failed, every credit instruction of the batch is final in the state it
  leaves - bound to an attempt whose single observation is accepted, exactly bound and
  reconciled - as settled or rejected. The batch is completed exactly if all of them settled,
  failed exactly if there are some and all were rejected, and partially completed exactly if
  there are some of each; its completed amount is the sum of the amounts of the settled
  instructions and its failed amount that of the rejected ones, to the cent.
\<close>

theorem bulk_batch_closed_only_when_final:
  assumes "tget (bs_batches s) bk = Some b" "open_status (bb_status b)" "undecided s bk" "tok (bs_instructions s)"
    and "process_bulk_payment_batch env clock stop s bk owner = (s', err)"
    and "tget (bs_batches s') bk = Some b'" "closed_status (bb_status b')"
  shows "(\<forall>ik\<in>set (instruction_keys s' bk). ended env s' ''settled'' ik \<or> ended env s' ''rejected'' ik)
    \<and> (bb_status b' = BCompleted \<longleftrightarrow> (\<forall>ik\<in>set (instruction_keys s' bk). ended env s' ''settled'' ik))
    \<and> (bb_status b' = BFailed \<longleftrightarrow> instruction_keys s' bk \<noteq> [] \<and> (\<forall>ik\<in>set (instruction_keys s' bk). ended env s' ''rejected'' ik))
    \<and> (bb_status b' = BPartial \<longleftrightarrow> (\<exists>ik\<in>set (instruction_keys s' bk). ended env s' ''settled'' ik)
         \<and> (\<exists>ik\<in>set (instruction_keys s' bk). ended env s' ''rejected'' ik))
    \<and> bb_completed_amount b' = sum_list (map (instruction_amount s') (filter (ended env s' ''settled'') (instruction_keys s' bk)))
    \<and> bb_failed_amount b' = sum_list (map (instruction_amount s') (filter (ended env s' ''rejected'') (instruction_keys s' bk)))"
  using assms(5,1)
proof (cases rule: process_cases)
  case unchanged
  with assms(1,2,6,7) show ?thesis by (auto simp: open_status_def closed_status_def)
next
  case (ran h s0 s1 s2 cs now)
  let ?bd = "be_binding env"
  from process_children_result [OF ran(8)] have ch: "frame_le s0 s1" "map ch_key cs = instruction_keys s bk"
    "\<And>c. c \<in> set cs \<Longrightarrow> justified ?bd s1 c" by simp_all
  have fr1: "frame_le s s1" by (rule frame_trans [OF ran(7) ch(1)])
  have und: "undecided s1 bk" using assms(3) frame_leD(2) [OF fr1] by (simp add: undecided_def)
  from assms(6) have b2: "tget (bs_batches s2) bk = Some b'" by (simp add: ran(10))
  from ran(9) b2 assms(7) und obtain d where d: "b' = project_batch b now d cs"
    "\<forall>c\<in>set cs. ch_status c = ''settled'' \<or> ch_status c = ''rejected''"
    "gd_settled d = length (filter (\<lambda>c. ch_status c = ''settled'') cs)"
    "gd_rejected d = length (filter (\<lambda>c. ch_status c = ''rejected'') cs)"
    "gd_action d \<in> {ActTerminal, ActReturnFunds}"
    "frame_le (s1\<lparr>bs_batches := bs_batches s2, bs_decisions := bs_decisions s2\<rparr>) s2" "bs_instructions s2 = bs_instructions s1"
    "bs_batches s2 = tput bk b' (bs_batches s1)"
    by (rule decide_batch_closed)
  have "bb_request_id b' = bb_request_id b" by (simp add: d(1) project_batch_def Let_def)
  with d(6,8) assms(1) frame_leD(1) [OF fr1] have "weak_le s1 s2"
    by (simp add: weak_le_def table_simps)
  then have weak: "weak_le s1 s'" by (simp add: weak_le_def frame_le_def ran(10))
  have just: "justified ?bd s' c" if "c \<in> set cs" for c
    by (rule justified_stable [OF ch(3) [OF that] weak])
  have keys: "instruction_keys s' bk = map ch_key cs"
    using instruction_keys_frame [OF fr1 assms(4)] by (simp add: instruction_keys_def ran(10) d(7) ch(2))
  have amount: "instruction_amount s' (ch_key c) = ch_amount c" if "c \<in> set cs" for c
    using just [OF that] by (auto simp: justified_def instruction_amount_def)
  have final: "ended env s' st (ch_key c) \<longleftrightarrow> ch_status c = st" if c: "c \<in> set cs" for c st
  proof -
    from d(2) c just [OF c] obtain f where "final_child ?bd s' (ch_key c) f" "fy_status f = ch_status c"
      by (auto simp: justified_def)
    then show ?thesis by (simp add: ended_def)
  qed
  have total: "sum_list (map (instruction_amount s') (filter (ended env s' st) (map ch_key cs))) = total_of st cs" for st
  proof -
    have "filter (\<lambda>c. ended env s' st (ch_key c)) cs = filter (\<lambda>c. ch_status c = st) cs" by (rule filter_cong) (simp_all add: final)
    moreover have "map (\<lambda>c. instruction_amount s' (ch_key c)) (filter (\<lambda>c. ch_status c = st) cs) = map ch_amount (filter (\<lambda>c. ch_status c = st) cs)"
      by (rule map_cong) (simp_all add: amount)
    ultimately show ?thesis unfolding total_of_def filter_map comp_def map_map by (simp only:)
  qed
  have sums: "bb_completed_amount b' = total_of ''settled'' cs" "bb_failed_amount b' = total_of ''rejected'' cs"
    by (simp_all add: d(1) project_batch_def Let_def)
  from projected_status [OF d(5,3,4,2), of b now] d(2) show ?thesis
    by (simp add: keys total sums d(1) [symmetric] final)
qed

text \<open>A batch of one instruction whose attempt settled on a verified, reconciled observation.\<close>

definition paid_env :: bulk_env where
  "paid_env = \<lparr>be_instruction_fp = (\<lambda>x. snd (snd (snd x))), be_callback_fp = fst, be_callback_json = fst,
     be_digest = id, be_decision_fp = (\<lambda>x. ''fp''), be_binding = scene_bd, be_key = scene_key,
     be_money = (\<lambda>n. ''5''), be_runtime = True, be_threshold = 1 / 4, be_return_funds = False\<rparr>"

definition paid_attempt :: attempt where
  "paid_attempt = scene_attempt\<lparr>pa_operation := bulk_operation, pa_request_id := ''R:I'', pa_status := ASettled\<rparr>"

definition paid_state :: bulk_state where
  "paid_state = \<lparr>
     bs_pay = scene_pay\<lparr>ps_attempts := [(1, paid_attempt)],
       ps_observations := [\<lparr>ob_attempt = 1, ob_tenant = ''t'', ob_kind = ''provider'', ob_id = ''o'',
         ob_provider_transaction_id = ''x'', ob_event_id = '''', ob_amount = 500, ob_currency = ''USD'',
         ob_outcome = ''settled'', ob_verified = True, ob_verification_method = ''poll'', ob_binding_hash = ''t'',
         ob_accepted = True\<rparr>],
       ps_reconciliations := [\<lparr>rc_attempt = 1, rc_provider_status = ''settled'', rc_source_status = '''',
         rc_internal_status = ASettled, rc_status = ReconMatched, rc_external_transaction_id = ''x''\<rparr>]\<rparr>,
     bs_batches = [(7, \<lparr>bb_request_id = ''R'', bb_source_bb_id = ''B'', bb_batch_id = ''b'', bb_status = BReceived,
       bb_callback_url = '''', bb_correlation_id = '''', bb_total_amount = 500, bb_completed_amount = 0,
       bb_failed_amount = 0, bb_result_at = None\<rparr>)],
     bs_instructions = [(3, \<lparr>in_batch = 7, in_id = ''I'', in_payee = ''p'', in_amount = 500, in_currency = ''USD'',
       in_narration = '''', in_status = InPending, in_failure_reason = '''', in_attempt = Some 1\<rparr>)],
     bs_leases = [], bs_decisions = [], bs_audit = [], bs_queue = [], bs_payees = [''p'']\<rparr>"

lemma bulk_batch_closed_only_when_final_witness:
  "\<exists>s' b'. fst (process_bulk_payment_batch paid_env (\<lambda>n. 10) 20 paid_state 7 ''w'') = s'
     \<and> tget (bs_batches s') 7 = Some b' \<and> bb_status b' = BCompleted \<and> bb_completed_amount b' = 500 \<and> bb_failed_amount b' = 0
     \<and> ended paid_env s' ''settled'' 3"
proof -
  let ?r = "process_bulk_payment_batch paid_env (\<lambda>n. 10) 20 paid_state 7 ''w''"
  let ?s = "fst ?r"
  obtain b where 1: "tget (bs_batches paid_state) 7 = Some b" "open_status (bb_status b)"
    by (simp add: paid_state_def tget_Cons open_status_def)
  have 2: "undecided paid_state 7" "tok (bs_instructions paid_state)"
    by (simp_all add: undecided_def paid_state_def tok_def)
  have r: "?r = (?s, snd ?r)" by simp
  have st: "map_option bb_status (tget (bs_batches ?s) 7) = Some BCompleted" by code_simp
  then obtain b' where b': "tget (bs_batches ?s) 7 = Some b'" "bb_status b' = BCompleted" by auto
  have one: "instruction_keys ?s 7 = [3]" "instruction_amount ?s 3 = 500" "\<not> ended paid_env ?s ''rejected'' 3" by code_simp+
  have "closed_status (bb_status b')" by (simp add: b'(2) closed_status_def)
  note all = bulk_batch_closed_only_when_final [OF 1 2 r b'(1) this, unfolded one(1)]
  from all b'(2) have "ended paid_env ?s ''settled'' 3" by simp
  with all one(2,3) have "ended paid_env ?s ''settled'' 3" "bb_completed_amount b' = 500" "bb_failed_amount b' = 0" by simp_all
  with b' show ?thesis by blast
qed

end
