(* ===== verification/BatchStuck.thy ===== *)
theory BatchStuck
  imports BatchProcessingProps
begin

text \<open>
  Bulk batches and the provider workers together: the runs in which batches are received
  and processed while workers execute the attempts. An attempt of a bulk instruction has no
  tenant, and the workers never touch an attempt without one.
\<close>

section \<open>The composed system\<close>

record bulk_sys =
  by_bulk :: bulk_state
  by_calls :: "provider_call list"

datatype bulk_op =
    BkReceive string string string "(string \<times> string \<times> int \<times> string \<times> string) list" string string
  | BkProcess "nat \<Rightarrow> int" int nat string
  | BkWorker worker_op

definition workers_of :: "bulk_sys \<Rightarrow> workers" where
  "workers_of y = \<lparr>wk_pay = bs_pay (by_bulk y), wk_calls = by_calls y\<rparr>"

fun bulk_step ::
  "bulk_env \<Rightarrow> registration list \<Rightarrow> bulk_sys \<Rightarrow> bulk_op \<Rightarrow> bulk_error + bulk_sys" where
  "bulk_step env regs y (BkReceive request source batch_id items url correlation) =
     (case receive_batch (by_bulk y) request source batch_id items url correlation of
        Inl e \<Rightarrow> Inl e | Inr (s, bk) \<Rightarrow> Inr (y\<lparr>by_bulk := s\<rparr>))"
| "bulk_step env regs y (BkProcess clock stop bk owner) =
     Inr (y\<lparr>by_bulk := fst (process_bulk_payment_batch env clock stop (by_bulk y) bk owner)\<rparr>)"
| "bulk_step env regs y (BkWorker x) =
     (case worker_step (be_binding env) (be_key env) regs (workers_of y) x of
        Inl e \<Rightarrow> Inl (BulkPay e)
      | Inr w \<Rightarrow> Inr \<lparr>by_bulk = (by_bulk y)\<lparr>bs_pay := wk_pay w\<rparr>, by_calls = wk_calls w\<rparr>)"

fun bulk_owed :: "bulk_sys \<Rightarrow> bulk_op \<Rightarrow> bool" where
  "bulk_owed y (BkWorker x) = worker_owed (workers_of y) x"
| "bulk_owed y x = True"

section \<open>Observations belong to attempts with a tenant\<close>

definition tenantful :: "pay_state \<Rightarrow> nat \<Rightarrow> bool" where
  "tenantful s k \<longleftrightarrow> (\<exists>a. tget (ps_attempts s) k = Some a \<and> pa_tenant a \<noteq> '''')"

definition ident_le :: "pay_state \<Rightarrow> pay_state \<Rightarrow> bool" where
  "ident_le s t \<longleftrightarrow> (\<forall>k a. tget (ps_attempts s) k = Some a
     \<longrightarrow> (\<exists>b. tget (ps_attempts t) k = Some b \<and> pa_tenant b = pa_tenant a))"

definition observed_tenants :: "pay_state \<Rightarrow> bool" where
  "observed_tenants s \<longleftrightarrow> (\<forall>x\<in>set (ps_observations s). tenantful s (ob_attempt x))"

lemma ident_refl [simp]: "ident_le s s"
  by (simp add: ident_le_def)

lemma ident_trans: "ident_le s t \<Longrightarrow> ident_le t u \<Longrightarrow> ident_le s u"
  unfolding ident_le_def by (metis (no_types, lifting))

lemma keeps_ident: "keeps s t \<Longrightarrow> ident_le s t"
  by (force simp: ident_le_def same_identity_def dest: keepsD(2))

lemma quiet_ident: "quiet s t \<Longrightarrow> ident_le s t"
  by (force simp: ident_le_def quiet_row_def same_identity_def dest: quietD(2))

lemma tenantful_le: "tenantful s k \<Longrightarrow> ident_le s t \<Longrightarrow> tenantful t k"
  by (fastforce simp: tenantful_def ident_le_def)

lemma observed_same:
  "observed_tenants s \<Longrightarrow> ident_le s t \<Longrightarrow> ps_observations t = ps_observations s \<Longrightarrow> observed_tenants t"
  by (auto simp: observed_tenants_def intro: tenantful_le)

lemma observed_keeps: "observed_tenants s \<Longrightarrow> keeps s t \<Longrightarrow> observed_tenants t"
  by (rule observed_same) (auto intro: keeps_ident simp: keepsD(1))

lemma observed_record:
  assumes "record_provider_result bd sh s now k a r source = Inr t" "tenantful s k" "observed_tenants s"
  shows "observed_tenants t \<and> ident_le s t"
  using assms(1)
proof (cases rule: record_result_cases)
  case (1 s1 s2 a1 a2 row)
  from 1(1) have q: "quiet s s1" and obs: "ps_observations s1 = ps_observations s @ [row]"
    by (auto dest: record_observation_quiet)
  from 1(1) have "ob_attempt row = k"
    by (cases rule: record_observation_cases) (simp add: stored_observation_def)
  with obs assms(2,3) quiet_ident [OF q] have "observed_tenants s1"
    by (auto simp: observed_tenants_def intro: tenantful_le)
  moreover have "quiet s1 s2 \<and> ps_observations s2 = ps_observations s1"
    using 1(3) by (auto dest: apply_outcome_quiet split: if_splits)
  moreover have "ps_attempts t = ps_attempts s2" "ps_observations t = ps_observations s2"
    using 1(5) by simp_all
  ultimately show ?thesis
    using quiet_ident [OF q] quiet_ident [of s1 s2]
    by (auto simp: observed_tenants_def tenantful_def ident_le_def) (metis (no_types, lifting))+
qed

lemma begin_unavailable: "begin_call regs s now token j k = Inl ProviderUnavailable \<Longrightarrow> tenantful s k"
  by (auto simp: begin_call_def tenantful_def Let_def select_intent_def create_intent_def
      split: option.splits if_splits sum.splits)

lemma recover_unavailable:
  assumes "recover_attempt regs s now token j k = (t, Inl ProviderUnavailable)"
  shows "tenantful t k"
proof (cases "tget (ps_attempts s) k")
  case None
  with assms show ?thesis by (simp add: recover_attempt_def)
next
  case (Some a)
  with assms begin_unavailable [of regs s now token j k]
    begin_unavailable [of regs "put_attempt k (a\<lparr>pa_status := AUncertain\<rparr>) s" now token j k]
  show ?thesis
    by (auto simp: recover_attempt_def status_first_recovery_def mark_uncertain_def Let_def split: if_splits)
qed

section \<open>The workers keep it\<close>

definition calls_tenant :: "workers \<Rightarrow> bool" where
  "calls_tenant w \<longleftrightarrow> (\<forall>c\<in>set (wk_calls w). tenantful (wk_pay w) (pc_attempt c))"

lemma begun_tenant: "call_begun s token k s' c \<Longrightarrow> tenantful s' (pc_attempt c)"
  by (auto simp: call_begun_def tenantful_def same_identity_def table_simps)

lemma effect_calls_tenant:
  assumes "step_effect w w'" "calls_tenant w" "ident_le (wk_pay w) (wk_pay w')"
  shows "calls_tenant w'"
proof -
  have old: "tenantful (wk_pay w') (pc_attempt c)" if "c \<in> set (wk_calls w)" for c
    using tenantful_le [OF _ assms(3)] assms(2) that by (simp add: calls_tenant_def)
  have new: "tenantful (wk_pay w') (pc_attempt c)" if "new_call (wk_pay w) (wk_pay w') c" for c
    using that by (auto simp: new_call_def dest: begun_tenant)
  from assms(1) old new show ?thesis by (auto simp: step_effect_def calls_tenant_def)
qed

lemma finalize_observed:
  assumes "finalize_claimed_result bd sh s now k token g r = Inr (t, res)" "tenantful s k" "observed_tenants s"
  shows "observed_tenants t \<and> ident_le s t"
  using assms(1)
proof (cases rule: finalize_cases)
  case (recorded a s1 a1 b)
  from observed_record [OF recorded(4) assms(2,3)] have 1: "observed_tenants s1" "ident_le s s1" by simp_all
  have "keeps s1 t"
    unfolding recorded(6,7) by (rule keeps_put_attempt [OF recorded(5)]) (simp_all add: same_identity_def)
  with 1 show ?thesis by (blast intro: observed_keeps keeps_ident ident_trans)
qed (use assms(3) in simp)

lemma unavailable_observed:
  assumes "unavailable bd sh s now k = Inr t" "tenantful s k" "observed_tenants s"
  shows "observed_tenants t \<and> ident_le s t"
  using assms by (auto simp: unavailable_def split: option.splits if_splits dest: observed_record)

lemma orchestrate_observed:
  assumes "intents_ok (ps_intents s)" "observed_tenants s" "orchestrate_attempt bd sh regs s now token j k = (t, res)"
  shows "observed_tenants t \<and> ident_le s t \<and> (\<forall>sr. res = Inr sr \<longrightarrow> observed_tenants (fst sr) \<and> ident_le s (fst sr))"
proof -
  obtain s1 r where rec: "recover_attempt regs s now token j k = (s1, r)" by fastforce
  from recover_keeps [OF assms(1) rec] have k: "keeps s s1" "begun_keeps_result s r" by simp_all
  have s1: "observed_tenants s1" "ident_le s s1" using assms(2) k(1) by (auto intro: observed_keeps keeps_ident)
  show ?thesis
  proof (cases r)
    case (Inl e)
    with assms(3) rec consider "t = s1" "\<exists>e. res = Inl e"
      | s2 where "e = ProviderUnavailable" "unavailable bd sh s1 now k = Inr s2" "t = s2" "res = Inr (s2, Noop ''PROVIDER_UNAVAILABLE'')"
      by (auto simp: orchestrate_attempt_def split: pay_error.splits sum.splits)
    then show ?thesis
    proof cases
      case 1
      with s1 show ?thesis by auto
    next
      case (2 s2)
      have "tenantful s1 k" using rec Inl 2(1) by (auto intro: recover_unavailable)
      from unavailable_observed [OF 2(2) this s1(1)] 2(3,4) s1(2) show ?thesis by (auto intro: ident_trans)
    qed
  next
    case (Inr x)
    with assms(3) rec have t: "t = s1" "res = Inr x" by (auto simp: orchestrate_attempt_def)
    from Inr k(2) have "keeps s (fst x)" by (simp add: begun_keeps_result_def)
    with t s1 assms(2) show ?thesis by (auto intro: observed_keeps keeps_ident)
  qed
qed

lemma create_ident:
  assumes "get_or_create_attempt s k tenant operation request fp rest audited = Inr (s', r)"
  shows "ident_le s s' \<and> ps_observations s' = ps_observations s"
  using assms
  by (auto simp: get_or_create_attempt_def Let_def ident_le_def table_simps split: option.splits if_splits)

lemma worker_observed:
  assumes ok: "intents_ok (ps_intents (wk_pay w))" and obs: "observed_tenants (wk_pay w)" and calls: "calls_tenant w"
    and owed: "worker_owed w x" and run: "worker_step bd sh regs w x = Inr w'"
  shows "observed_tenants (wk_pay w') \<and> ident_le (wk_pay w) (wk_pay w')"
proof -
  have kp: "observed_tenants s \<and> ident_le (wk_pay w) s" if "keeps (wk_pay w) s" for s
    using observed_keeps [OF obs that] keeps_ident [OF that] by simp
  have same: "observed_tenants s \<and> ident_le (wk_pay w) s"
    if "ident_le (wk_pay w) s" "ps_observations s = ps_observations (wk_pay w)" for s
    using observed_same [OF obs that] that(1) by simp
  show ?thesis
  proof (cases x)
    case (WOrchestrate now token j k)
    obtain t res where r: "orchestrate_attempt bd sh regs (wk_pay w) now token j k = (t, res)" by fastforce
    with WOrchestrate run orchestrate_observed [OF ok obs r] show ?thesis by (cases res) auto
  next
    case (WRecover now token j k)
    obtain s1 r where r: "recover_attempt regs (wk_pay w) now token j k = (s1, r)" by fastforce
    with WRecover run recover_keeps [OF ok r] show ?thesis
      by (cases r) (auto simp: begun_keeps_result_def dest: kp)
  next
    case (WStatusFirst now token j k)
    obtain s1 r where r: "status_first_recovery regs (wk_pay w) now token j k = (s1, r)" by fastforce
    with WStatusFirst run status_first_keeps [OF ok r] show ?thesis
      by (cases r) (auto simp: begun_keeps_result_def dest: kp)
  next
    case (WMark k)
    with run kp [OF keeps_refl] kp [OF mark_keeps] show ?thesis by (auto simp: map_sum_Inr_iff split: option.splits)
  next
    case (WSubmit now token j k)
    with run begin_call_keeps [OF ok, of regs now token j k] show ?thesis
      by (auto simp: map_sum_Inr_iff begun_keeps_result_def dest: kp)
  next
    case (WUnavailable now k)
    with run obtain s where s: "unavailable bd sh (wk_pay w) now k = Inr s" "w' = w\<lparr>wk_pay := s\<rparr>"
      by (auto simp: map_sum_Inr_iff)
    from s(1) owed WUnavailable have "tenantful (wk_pay w) k"
      by (auto simp: tenantful_def unavailable_def split: option.splits)
    from unavailable_observed [OF s(1) this obs] s(2) show ?thesis by simp
  next
    case (WFinish now c r)
    with owed calls have "tenantful (wk_pay w) (pc_attempt c)" by (simp add: calls_tenant_def)
    with WFinish run obs show ?thesis by (auto simp: map_sum_Inr_iff dest: finalize_observed)
  next
    case (WOutcome now k out)
    with run obtain s where s: "apply_outcome (wk_pay w) now k out = Inr s" "w' = w\<lparr>wk_pay := s\<rparr>"
      by (auto simp: map_sum_Inr_iff)
    from apply_outcome_quiet [OF s(1)] s(2) show ?thesis by (simp add: same quiet_ident)
  next
    case (WTriage now)
    with run kp [OF triage_uncertain_keeps] show ?thesis by (auto simp: triage_uncertain_def)
  next
    case (WTriageRetry now)
    with run kp [OF triage_retryable_keeps] show ?thesis by (auto simp: triage_retryable_def)
  next
    case (WCorrelate j c)
    with run obtain s where s: "record_provider_correlation (wk_pay w) j c = Inr s" "w' = w\<lparr>wk_pay := s\<rparr>"
      by (auto simp: map_sum_Inr_iff)
    have "keeps (wk_pay w) s" using correlation_intents [OF s(1) ok] by (intro keeps_same) simp_all
    with s(2) show ?thesis by (simp add: kp)
  next
    case (WReserve j k scope operation request fp)
    with run obtain s i where s: "reserve_execution_intent (wk_pay w) j k scope operation request fp = Inr (s, i)"
      "w' = w\<lparr>wk_pay := s\<rparr>" by (auto simp: map_sum_Inr_iff)
    have "keeps (wk_pay w) s" using reserve_intents [OF s(1) ok] by (intro keeps_same) simp_all
    with s(2) show ?thesis by (simp add: kp)
  next
    case (WCreate k tenant operation request fp rest)
    with run show ?thesis by (auto simp: map_sum_Inr_iff intro!: same dest: create_ident)
  qed
qed

section \<open>Processing keeps it\<close>

definition pay_ident :: "pay_state \<Rightarrow> pay_state \<Rightarrow> bool" where
  "pay_ident p q \<longleftrightarrow> ident_le p q \<and> ps_observations q = ps_observations p \<and> ps_intents q = ps_intents p
     \<and> (tok (ps_attempts p) \<longrightarrow> tok (ps_attempts q))"

definition bound_untenanted :: "bulk_state \<Rightarrow> bool" where
  "bound_untenanted s \<longleftrightarrow> (\<forall>ik i k. tget (bs_instructions s) ik = Some i \<longrightarrow> in_attempt i = Some k
     \<longrightarrow> (\<exists>a. tget (ps_attempts (bs_pay s)) k = Some a \<and> pa_tenant a = ''''))"

definition unsettleable :: "bulk_state \<Rightarrow> bool" where
  "unsettleable s \<longleftrightarrow> tok (ps_attempts (bs_pay s)) \<and> observed_tenants (bs_pay s) \<and> bound_untenanted s"

lemma pay_ident_refl [simp]: "pay_ident p p"
  by (simp add: pay_ident_def)

lemma pay_ident_trans: "pay_ident p q \<Longrightarrow> pay_ident q r \<Longrightarrow> pay_ident p r"
  by (auto simp: pay_ident_def intro: ident_trans)

lemma untenanted_le:
  "tget (ps_attempts p) k = Some a \<Longrightarrow> pa_tenant a = '''' \<Longrightarrow> ident_le p q
     \<Longrightarrow> \<exists>b. tget (ps_attempts q) k = Some b \<and> pa_tenant b = ''''"
  by (force simp: ident_le_def)

lemma unsettleable_pay:
  assumes "unsettleable s" "pay_ident (bs_pay s) p" "bs_pay t = p" "bs_instructions t = bs_instructions s"
  shows "unsettleable t"
proof -
  from assms(1,2) have "tok (ps_attempts p)" "observed_tenants p"
    by (auto simp: unsettleable_def pay_ident_def intro: observed_same)
  moreover have "bound_untenanted t"
    using assms(1,2) untenanted_le [of "bs_pay s" _ _ p]
    by (simp add: unsettleable_def bound_untenanted_def pay_ident_def assms(3,4)) blast
  ultimately show ?thesis by (simp add: unsettleable_def assms(3))
qed

lemma unsettleable_put:
  assumes "unsettleable s" and "in_attempt j = Some k \<Longrightarrow> \<exists>a. tget (ps_attempts (bs_pay s)) k = Some a \<and> pa_tenant a = ''''"
    and "in_attempt j = None \<or> in_attempt j = Some k"
  shows "unsettleable (put_instruction ik j s)"
  using assms by (auto simp: unsettleable_def bound_untenanted_def put_instruction_def table_simps)

lemma apply_outcome_ident:
  assumes "apply_outcome s now k out = Inr s'"
  shows "pay_ident s s'"
  using apply_outcome_quiet [OF assms] by (auto simp: pay_ident_def quiet_ident quietD(1,4))

lemma get_or_create_ident:
  assumes "get_or_create_attempt s k tenant operation request fp rest audited = Inr (s', r)"
  shows "pay_ident s s'"
  using create_ident [OF assms] create_attempt_effect [OF assms] by (simp add: pay_ident_def)

lemma queue_callback_ident:
  "queue_callback digest p now j k url payload = Inr (p', r) \<Longrightarrow> pay_ident p p'"
  by (auto simp: queue_callback_def pay_ident_def ident_le_def split: option.splits if_splits)

lemma get_or_create_untenanted:
  assumes "get_or_create_attempt s k '''' operation request fp rest audited = Inr (s', j, c)" "tok (ps_attempts s)"
  shows "\<exists>a. tget (ps_attempts s') j = Some a \<and> pa_tenant a = ''''"
proof (cases "List.find (\<lambda>ka. scope_match '''' operation request (snd ka)) (ps_attempts s)")
  case None
  with assms show ?thesis by (auto simp: get_or_create_attempt_def Let_def table_simps split: if_splits)
next
  case (Some ja)
  obtain i a where ja: "ja = (i, a)" by (cases ja)
  from Some ja obtain n where n: "n < length (ps_attempts s)" "(i, a) = ps_attempts s ! n"
    "scope_match '''' operation request (snd (ps_attempts s ! n))"
    by (auto simp: find_Some_iff)
  from n(1,2) have "(i, a) \<in> set (ps_attempts s)" by simp
  moreover from n(2,3) have "pa_tenant a = ''''" by (metis scope_match_def snd_conv take_Nil)
  ultimately have "(i, a) \<in> set (ps_attempts s)" "pa_tenant a = ''''" .
  with assms Some ja show ?thesis by (auto simp: get_or_create_attempt_def tget_iff split: if_splits)
qed

lemma lifecycle_unsettleable:
  assumes run: "record_bulk_instruction_lifecycle env s now b ik i found = Inr (s', k)" and inv: "unsettleable s"
  shows "unsettleable s' \<and> bs_instructions s' = bs_instructions s \<and> pay_ident (bs_pay s) (bs_pay s')
    \<and> (\<exists>a. tget (ps_attempts (bs_pay s')) k = Some a \<and> pa_tenant a = '''')"
proof -
  obtain p j c where got: "get_or_create_attempt (bs_pay s) (next_key (ps_attempts (bs_pay s))) '''' bulk_operation
      (expected_request b i) (be_instruction_fp env (in_batch i, ik, in_amount i, in_currency i))
      (blank_attempt (bb_source_bb_id b) (Some (in_amount i)) (in_currency i)) True = Inr (p, j, c)"
    using run unfolding record_bulk_instruction_lifecycle_def by (auto split: sum.splits)
  have 1: "pay_ident (bs_pay s) p" by (rule get_or_create_ident [OF got])
  have "tok (ps_attempts (bs_pay s))" using inv by (simp add: unsettleable_def)
  from get_or_create_untenanted [OF got this] obtain a where a: "tget (ps_attempts p) j = Some a" "pa_tenant a = ''''"
    by blast
  have "\<exists>q. bs_pay s' = q \<and> pay_ident p q \<and> k = j \<and> bs_instructions s' = bs_instructions s"
    using run got by (auto simp: record_bulk_instruction_lifecycle_def split: if_splits sum.splits dest: apply_outcome_ident)
  then have q: "pay_ident p (bs_pay s')" "k = j" "bs_instructions s' = bs_instructions s" by auto
  from untenanted_le [OF a] q have "\<exists>a. tget (ps_attempts (bs_pay s')) k = Some a \<and> pa_tenant a = ''''"
    by (simp add: pay_ident_def)
  with unsettleable_pay [OF inv pay_ident_trans [OF 1 q(1)] refl q(3)] pay_ident_trans [OF 1 q(1)] q(3)
  show ?thesis by simp
qed

lemma bind_unsettleable:
  assumes run: "bind_credit_instruction_attempt s ik k = Inr s'" and inv: "unsettleable s"
    and a: "\<exists>a. tget (ps_attempts (bs_pay s)) k = Some a \<and> pa_tenant a = ''''"
  shows "unsettleable s' \<and> bs_pay s' = bs_pay s"
proof -
  from run obtain i where i: "tget (bs_instructions s) ik = Some i"
    by (auto simp: bind_credit_instruction_attempt_def split: option.splits)
  with run have "s' = s \<or> s' = put_instruction ik (i\<lparr>in_attempt := Some k\<rparr>) s"
    by (auto simp: bind_credit_instruction_attempt_def put_instruction_def split: option.splits if_splits)
  moreover have "unsettleable (put_instruction ik (i\<lparr>in_attempt := Some k\<rparr>) s)"
    by (rule unsettleable_put [OF inv, of _ k]) (use a in simp_all)
  ultimately show ?thesis using inv by (auto simp: put_instruction_def)
qed

lemma bind_child_unsettleable:
  assumes run: "bind_child env s now b ik i = Inr s'" and inv: "unsettleable s"
  shows "unsettleable s' \<and> pay_ident (bs_pay s) (bs_pay s')"
proof (cases "in_attempt i")
  case None
  with run obtain s1 k where 1: "record_bulk_instruction_lifecycle env s now b ik i (in_payee i \<in> set (bs_payees s)) = Inr (s1, k)"
    and 2: "bind_credit_instruction_attempt s1 ik k = Inr s'"
    by (auto simp: bind_child_def split: sum.splits)
  note l = lifecycle_unsettleable [OF 1 inv]
  from bind_unsettleable [OF 2] l show ?thesis by auto
qed (use run inv in \<open>simp add: bind_child_def\<close>)

lemma unsettleable_not_final:
  assumes "unsettleable s" "materialize_credit_instruction_finality bd s ik = Inr f"
  shows "\<not> fy_final f"
proof
  assume "fy_final f"
  with assms(2) have "final_child bd s ik f" by simp
  then obtain i k b a where *: "tget (bs_instructions s) ik = Some i" "in_attempt i = Some k"
    "tget (bs_batches s) (in_batch i) = Some b" "tget (ps_attempts (bs_pay s)) k = Some a"
    "f = attempt_finality bd (bs_pay s) b i k a" by (rule final_childD)
  with \<open>fy_final f\<close> obtain x where "accepted_of (observations_of (bs_pay s) k) = [x]"
    by (auto elim: attempt_finality_final)
  then have "x \<in> set (accepted_of (observations_of (bs_pay s) k))" by simp
  then have "x \<in> set (ps_observations (bs_pay s))" "ob_attempt x = k"
    by (simp_all add: accepted_of_def observations_of_def)
  with assms(1) have "tenantful (bs_pay s) k" by (auto simp: unsettleable_def observed_tenants_def)
  moreover from assms(1) * have "\<exists>a. tget (ps_attempts (bs_pay s)) k = Some a \<and> pa_tenant a = ''''"
    unfolding unsettleable_def bound_untenanted_def by blast
  ultimately show False by (auto simp: tenantful_def)
qed

lemma project_child_unsettleable:
  assumes "unsettleable s" "tget (bs_instructions s) ik = Some i"
  shows "unsettleable (fst (project_child s ik i f)) \<and> bs_pay (fst (project_child s ik i f)) = bs_pay s"
proof -
  have "\<exists>a. tget (ps_attempts (bs_pay s)) k = Some a \<and> pa_tenant a = ''''" if "in_attempt i = Some k" for k
    using assms that unfolding unsettleable_def bound_untenanted_def by blast
  then have "unsettleable (put_instruction ik j s)" if "in_attempt j = in_attempt i" for j
    using that by (cases "in_attempt i") (auto intro: unsettleable_put [OF assms(1)])
  with assms(1) show ?thesis by (simp add: project_child_def put_instruction_def)
qed

lemma process_child_unsettleable:
  assumes run: "process_child env s now h b ik = Inr (s', c)" and inv: "unsettleable s"
  shows "unsettleable s' \<and> pay_ident (bs_pay s) (bs_pay s') \<and> ch_status c \<notin> {''settled'', ''rejected''}"
proof -
  from run obtain h' leases i where hb: "heartbeat (bs_leases s) h now default_ttl = Inr (h', leases)"
    and i: "tget (bs_instructions s) ik = Some i"
    by (auto simp: process_child_def Let_def split: sum.splits option.splits)
  let ?s0 = "s\<lparr>bs_leases := leases\<rparr>"
  have s0: "unsettleable ?s0" using inv by (simp add: unsettleable_def bound_untenanted_def)
  show ?thesis
  proof (cases "in_attempt i = None \<and> in_status i \<in> {InCompleted, InFailed}")
    case True
    with run hb i have "s' = ?s0" "ch_status c = ''review''" by (auto simp: process_child_def)
    with s0 show ?thesis by simp
  next
    case False
    with run hb i obtain s1 f i1 where s1: "bind_child env ?s0 now b ik i = Inr s1"
      and f: "materialize_credit_instruction_finality (be_binding env) s1 ik = Inr f"
      and i1: "tget (bs_instructions s1) ik = Some i1" and res: "(s', c) = project_child s1 ik i1 f"
      by (auto simp: process_child_def split: sum.splits option.splits if_splits)
    from bind_child_unsettleable [OF s1 s0] have u1: "unsettleable s1" "pay_ident (bs_pay s) (bs_pay s1)" by simp_all
    from unsettleable_not_final [OF u1(1) f] res have "ch_status c \<notin> {''settled'', ''rejected''}"
      using project_child_status [of s1 ik i1 f] by (metis snd_conv)
    moreover from res have "s' = fst (project_child s1 ik i1 f)" by (metis fst_conv)
    ultimately show ?thesis using project_child_unsettleable [OF u1(1) i1, of f] u1(2) by simp
  qed
qed

lemma process_children_unsettleable:
  assumes "process_children env clock h b n s iks = Inr (s', cs)" "unsettleable s"
  shows "unsettleable s' \<and> pay_ident (bs_pay s) (bs_pay s')
    \<and> (\<forall>c\<in>set cs. ch_status c \<notin> {''settled'', ''rejected''})"
  using assms
proof (induction iks arbitrary: n s s' cs)
  case (Cons ik iks)
  then obtain s1 c cs' where one: "process_child env s (clock n) h b ik = Inr (s1, c)"
    and rest: "process_children env clock h b (Suc n) s1 iks = Inr (s', cs')" and cs: "cs = c # cs'"
    by (auto split: sum.splits)
  from process_child_unsettleable [OF one Cons.prems(2)] have 1: "unsettleable s1" "pay_ident (bs_pay s) (bs_pay s1)"
    "ch_status c \<notin> {''settled'', ''rejected''}" by simp_all
  from Cons.IH [OF rest 1(1)] 1 show ?case unfolding cs by (auto intro: pay_ident_trans)
qed simp

text \<open>No child final: the decision does not close the batch, and no amount is booked.\<close>

definition all_open :: "bulk_state \<Rightarrow> bool" where
  "all_open s \<longleftrightarrow> (\<forall>bk b. tget (bs_batches s) bk = Some b \<longrightarrow> open_status (bb_status b) \<and> bb_completed_amount b = 0)
     \<and> (\<forall>d\<in>set (bs_decisions s). gd_action d \<notin> {ActTerminal, ActReturnFunds})"

lemma none_final:
  assumes "\<forall>c\<in>set cs. ch_status c \<notin> {''settled'', ''rejected''}"
  shows "filter (\<lambda>c. ch_status c = ''settled'') cs = []" "filter (\<lambda>c. ch_status c = ''rejected'') cs = []"
  using assms by (auto simp: filter_empty_conv)

lemma decide_open:
  assumes d: "decide fp leases decs bk h (map (to_item env) cs) th rf now = Inr (d, created, policy, ds)"
    and cs: "\<forall>c\<in>set cs. ch_status c \<notin> {''settled'', ''rejected''}"
    and old: "\<forall>d\<in>set decs. gd_action d \<notin> {ActTerminal, ActReturnFunds}"
  shows "gd_action d \<notin> {ActTerminal, ActReturnFunds} \<and> (\<forall>d\<in>set ds. gd_action d \<notin> {ActTerminal, ActReturnFunds})"
proof (cases created)
  case False
  with d old show ?thesis using decide_replay by fastforce
next
  case True
  with d have new: "decide fp leases decs bk h (map (to_item env) cs) th rf now = Inr (d, True, policy, ds)" by simp
  note made = decide_created [OF new]
  have zero: "gd_settled d = 0" "gd_rejected d = 0"
    using made none_final [OF cs] by (simp_all add: filter_map comp_def to_item_def)
  have "gd_action d \<notin> {ActTerminal, ActReturnFunds}"
  proof
    assume "gd_action d \<in> {ActTerminal, ActReturnFunds}"
    with made zero have "cs = []" by (simp del: insert_iff)
    with decide_create_counts(3) [OF new] have "gd_action d = ActEmpty"
      by (simp add: decision_action_of_def canonical_items_def)
    with \<open>gd_action d \<in> {ActTerminal, ActReturnFunds}\<close> show False by simp
  qed
  with made old show ?thesis by auto
qed

lemma publish_unsettleable:
  assumes "publish_decision env s now bk b d = Inr s'" "unsettleable s"
  shows "unsettleable s' \<and> pay_ident (bs_pay s) (bs_pay s')"
proof (cases "bb_callback_url b = ''''")
  case True
  with assms show ?thesis by (auto simp: publish_decision_def Let_def unsettleable_def bound_untenanted_def)
next
  case False
  with assms(1) obtain p k c p' r where g: "get_or_create_attempt (bs_pay s) (next_key (ps_attempts (bs_pay s))) '''' ''g2p_bulk_callback''
      (''callback:'' @ bb_request_id b @ '':'' @ bb_batch_id b) (be_callback_fp env (bb_request_id b, bb_batch_id b))
      (blank_attempt (bb_source_bb_id b) None '''') False = Inr (p, k, c)"
    and q: "queue_callback (be_digest env) p now (next_key (ps_callbacks p)) k (bb_callback_url b)
             (be_callback_json env (bb_request_id b, bb_batch_id b, action_upper (gd_action d))) = Inr (p', r)"
    and s': "s' = (s\<lparr>bs_audit := bs_audit s @ [(bk, d)]\<rparr>)\<lparr>bs_pay := p'\<rparr>"
    by (auto simp: publish_decision_def Let_def split: sum.splits)
  have "pay_ident (bs_pay s) p'" by (rule pay_ident_trans [OF get_or_create_ident [OF g] queue_callback_ident [OF q]])
  with unsettleable_pay [OF assms(2) this, of s'] show ?thesis by (simp add: s')
qed

lemma decide_batch_open:
  assumes run: "decide_batch env s now h bk b cs = Inr s'" and inv: "unsettleable s" "all_open s"
    and cs: "\<forall>c\<in>set cs. ch_status c \<notin> {''settled'', ''rejected''}"
  shows "unsettleable s' \<and> all_open s' \<and> pay_ident (bs_pay s) (bs_pay s')"
proof -
  from run obtain d created policy ds where d: "decide (be_decision_fp env) (bs_leases s) (bs_decisions s) bk h
      (map (to_item env) cs) (be_threshold env) (be_return_funds env) now = Inr (d, created, policy, ds)"
    by (auto simp: decide_batch_def split: sum.splits)
  let ?b1 = "project_batch b now d cs"
  let ?s1 = "s\<lparr>bs_decisions := ds, bs_batches := tput bk ?b1 (bs_batches s)\<rparr>"
  have act: "gd_action d \<notin> {ActTerminal, ActReturnFunds}" "\<forall>d\<in>set ds. gd_action d \<notin> {ActTerminal, ActReturnFunds}"
    using decide_open [OF d cs] inv(2) unfolding all_open_def by blast+
  have "open_status (bb_status ?b1) \<and> bb_completed_amount ?b1 = 0"
    unfolding project_batch_def Let_def if_not_P [OF act(1)] total_of_def none_final [OF cs] by (simp add: open_status_def)
  with inv(2) act(2) have 1: "all_open ?s1" by (simp add: all_open_def table_simps)
  from inv(1) have 2: "unsettleable ?s1" by (simp add: unsettleable_def bound_untenanted_def)
  from run d have res: "if created then publish_decision env ?s1 now bk ?b1 d = Inr s' else s' = ?s1"
    by (auto simp: decide_batch_def Let_def split: if_splits)
  show ?thesis
  proof (cases created)
    case True
    with res have p: "publish_decision env ?s1 now bk ?b1 d = Inr s'" by simp
    from publish_frame [OF p] have "all_open s'" using 1 frame_leD(1,2) [of ?s1 s'] by (simp add: all_open_def)
    with publish_unsettleable [OF p 2] show ?thesis by simp
  qed (use res 1 2 in simp)
qed

lemma process_open:
  assumes "unsettleable s" "all_open s" "process_bulk_payment_batch env clock stop s bk owner = (s', err)"
  shows "unsettleable s' \<and> all_open s' \<and> pay_ident (bs_pay s) (bs_pay s')"
proof (cases "tget (bs_batches s) bk")
  case None
  with assms show ?thesis by (simp add: process_bulk_payment_batch_def)
next
  case (Some b)
  from assms(3) Some show ?thesis
  proof (cases rule: process_cases)
    case unchanged
    with assms(1,2) show ?thesis by (simp add: unsettleable_def bound_untenanted_def all_open_def)
  next
    case (ran h s0 s1 s2 cs now)
    have s0: "unsettleable s0" using assms(1) ran(3,5) by (simp add: unsettleable_def bound_untenanted_def)
    from process_children_unsettleable [OF ran(8) s0] have s1: "unsettleable s1" "pay_ident (bs_pay s) (bs_pay s1)"
      "\<forall>c\<in>set cs. ch_status c \<notin> {''settled'', ''rejected''}" using ran(3) by simp_all
    from process_children_result [OF ran(8)] have "all_open s1"
      using assms(2) ran(4,6) frame_leD(1,2) [of s0 s1] by (simp add: all_open_def)
    from decide_batch_open [OF ran(9) s1(1) this s1(3)] s1(2) show ?thesis
      by (auto simp: ran(10) unsettleable_def bound_untenanted_def all_open_def intro: pay_ident_trans)
  qed
qed

section \<open>No bulk batch is ever closed\<close>

definition stuck_inv :: "bulk_sys \<Rightarrow> bool" where
  "stuck_inv y \<longleftrightarrow> intents_ok (ps_intents (bs_pay (by_bulk y))) \<and> calls_tenant (workers_of y)
     \<and> unsettleable (by_bulk y) \<and> all_open (by_bulk y)"

lemma calls_tenant_pay:
  "calls_tenant (workers_of y) \<Longrightarrow> ident_le (bs_pay (by_bulk y)) (bs_pay s) \<Longrightarrow> calls_tenant (workers_of (y\<lparr>by_bulk := s\<rparr>))"
  by (auto simp: calls_tenant_def workers_of_def intro: tenantful_le)

lemma add_instructions_unbound:
  "add_instructions bk t items = Some t' \<Longrightarrow> tget t' ik = Some i \<Longrightarrow> in_attempt i = Some k \<Longrightarrow> tget t ik = Some i"
proof (induction bk t items arbitrary: t' rule: add_instructions.induct)
  case (2 bk t item items)
  then have "tget (tput (next_key t) (new_instruction bk item) t) ik = Some i"
    by (auto split: if_splits)
  with 2(4) show ?case by (auto simp: table_simps new_instruction_def split: if_splits prod.splits)
qed simp

lemma receive_stuck:
  assumes "receive_batch s request source batch_id items url correlation = Inr (s', bk)" "unsettleable s" "all_open s"
  shows "unsettleable s' \<and> all_open s' \<and> bs_pay s' = bs_pay s"
proof -
  from assms(1) obtain t b where t: "add_instructions bk (bs_instructions s) items = Some t"
    and s': "s' = s\<lparr>bs_batches := tput bk b (bs_batches s), bs_instructions := t\<rparr>"
    and b: "bb_status b = BReceived" "bb_completed_amount b = 0"
    by (auto simp: receive_batch_def Let_def split: if_splits option.splits)
  have "bound_untenanted s'"
    using assms(2) add_instructions_unbound [OF t] unfolding unsettleable_def bound_untenanted_def s' by fastforce
  moreover have "all_open s'"
    using assms(3) b by (simp add: all_open_def s' table_simps open_status_def)
  ultimately show ?thesis using assms(2) by (simp add: unsettleable_def s')
qed

lemma stuck_step:
  assumes inv: "stuck_inv y" and owed: "bulk_owed y x" and run: "bulk_step env regs y x = Inr y'"
  shows "stuck_inv y'"
proof (cases x)
  case (BkReceive request source batch_id items url correlation)
  with run obtain s bk where r: "receive_batch (by_bulk y) request source batch_id items url correlation = Inr (s, bk)"
    and y': "y' = y\<lparr>by_bulk := s\<rparr>" by (auto split: sum.splits)
  from inv have "unsettleable (by_bulk y)" "all_open (by_bulk y)" by (simp_all add: stuck_inv_def)
  from receive_stuck [OF r this] inv show ?thesis
    by (simp add: stuck_inv_def y' workers_of_def)
next
  case (BkProcess clock stop bk owner)
  obtain s err where r: "process_bulk_payment_batch env clock stop (by_bulk y) bk owner = (s, err)" by fastforce
  with BkProcess run have y': "y' = y\<lparr>by_bulk := s\<rparr>" by simp
  from inv have "unsettleable (by_bulk y)" "all_open (by_bulk y)" by (simp_all add: stuck_inv_def)
  from process_open [OF this r] inv show ?thesis
    by (simp add: stuck_inv_def y' pay_ident_def calls_tenant_pay)
next
  case (BkWorker z)
  let ?w = "workers_of y"
  from BkWorker run obtain w' where w': "worker_step (be_binding env) (be_key env) regs ?w z = Inr w'"
    and y': "y' = \<lparr>by_bulk = (by_bulk y)\<lparr>bs_pay := wk_pay w'\<rparr>, by_calls = wk_calls w'\<rparr>" by (auto split: sum.splits)
  have pay: "wk_pay ?w = bs_pay (by_bulk y)" by (simp add: workers_of_def)
  from inv have ok: "intents_ok (ps_intents (wk_pay ?w))" "observed_tenants (wk_pay ?w)" "calls_tenant ?w"
    by (simp_all add: stuck_inv_def unsettleable_def pay)
  have z: "worker_owed ?w z" using owed BkWorker by simp
  from worker_observed [OF ok z w'] have obs: "observed_tenants (wk_pay w')" "ident_le (wk_pay ?w) (wk_pay w')" by simp_all
  from worker_step_effect [OF ok(1) z w'] have eff: "step_effect ?w w'" .
  have "bound_untenanted (by_bulk y')"
    using inv untenanted_le [OF _ _ obs(2)] unfolding stuck_inv_def unsettleable_def bound_untenanted_def
    by (simp add: y' pay) blast
  moreover have "tok (ps_attempts (wk_pay w'))" "intents_ok (ps_intents (wk_pay w'))"
    using inv eff by (simp_all add: stuck_inv_def unsettleable_def step_effect_def claims_le_def pay)
  moreover have "calls_tenant (workers_of y')"
    using effect_calls_tenant [OF eff ok(3) obs(2)] by (simp add: y' workers_of_def calls_tenant_def)
  moreover have "all_open (by_bulk y')" using inv by (simp add: stuck_inv_def all_open_def y')
  ultimately show ?thesis using obs(1) by (simp add: stuck_inv_def unsettleable_def y')
qed

interpretation stuck: step_system "bulk_step env regs" bulk_owed stuck_inv for env regs
  by unfold_locales (rule stuck_step)

text \<open>A system in which nothing has happened yet.\<close>

definition fresh_bulk :: "bulk_sys \<Rightarrow> bool" where
  "fresh_bulk y \<longleftrightarrow> by_calls y = [] \<and> bs_batches (by_bulk y) = [] \<and> bs_instructions (by_bulk y) = []
     \<and> bs_decisions (by_bulk y) = [] \<and> ps_attempts (bs_pay (by_bulk y)) = []
     \<and> ps_intents (bs_pay (by_bulk y)) = [] \<and> ps_observations (bs_pay (by_bulk y)) = []"

lemma fresh_stuck: "fresh_bulk y \<Longrightarrow> stuck_inv y"
  by (simp add: fresh_bulk_def stuck_inv_def calls_tenant_def workers_of_def unsettleable_def
      observed_tenants_def bound_untenanted_def all_open_def)

text \<open>
  C25. No bulk batch ever closes: in every run in which batches are received through
  \<open>receive_batch\<close>, processed by the task any number of times and their attempts executed by
  the provider workers under any registrations and with any answers, every batch stays
  received or processing and no amount of it is ever booked as completed. The task creates
  the attempts of its instructions with an empty tenant, and \<open>submit_or_poll\<close> refuses an
  attempt without a tenant, so no verified observation can ever exist for them.
\<close>

theorem bulk_batches_never_close:
  assumes "fresh_bulk y" and "ops_ok bulk_owed (bulk_step env regs) y xs"
    and "tget (bs_batches (by_bulk (run_ops (bulk_step env regs) y xs))) bk = Some b"
  shows "open_status (bb_status b) \<and> bb_completed_amount b = 0"
proof -
  from stuck.inv_run [OF fresh_stuck [OF assms(1)] assms(2)] assms(3) show ?thesis
    by (simp add: stuck_inv_def all_open_def)
qed

text \<open>
  A scene: a batch of one instruction for a known payee is received and processed, a worker
  takes its attempt, and the task runs again.
\<close>

definition new_bulk :: bulk_sys where
  "new_bulk = \<lparr>by_bulk = paid_state\<lparr>bs_pay := scene_pay\<lparr>ps_attempts := []\<rparr>, bs_batches := [], bs_instructions := []\<rparr>,
     by_calls = []\<rparr>"

definition bulk_scene :: "bulk_op list" where
  "bulk_scene = [BkReceive ''R'' ''B'' ''b'' [(''I'', ''p'', 500, ''USD'', '''')] '''' '''',
     BkProcess (\<lambda>n. 10) 20 1 ''w'', BkWorker (WOrchestrate 30 ''a'' 1 1), BkProcess (\<lambda>n. 40) 50 1 ''v'']"

lemma bulk_batches_never_close_witness:
  "\<exists>y b. y = run_ops (bulk_step paid_env scene_regs) new_bulk bulk_scene \<and> tget (bs_batches (by_bulk y)) 1 = Some b
     \<and> bb_status b = BProcessing \<and> bb_completed_amount b = 0 \<and> by_calls y = []
     \<and> map (\<lambda>a. (pa_tenant (snd a), pa_status (snd a))) (ps_attempts (bs_pay (by_bulk y))) = [('''', APending)]"
proof -
  let ?y = "run_ops (bulk_step paid_env scene_regs) new_bulk bulk_scene"
  have 1: "fresh_bulk new_bulk" by code_simp
  have 2: "ops_ok bulk_owed (bulk_step paid_env scene_regs) new_bulk bulk_scene"
    by (simp add: bulk_scene_def del: bulk_step.simps)
  have st: "map_option bb_status (tget (bs_batches (by_bulk ?y)) 1) = Some BProcessing" by code_simp
  then obtain b where b: "tget (bs_batches (by_bulk ?y)) 1 = Some b" "bb_status b = BProcessing" by auto
  have calls: "by_calls ?y = []" by code_simp
  have rows: "map (\<lambda>a. (pa_tenant (snd a), pa_status (snd a))) (ps_attempts (bs_pay (by_bulk ?y))) = [('''', APending)]"
    by code_simp
  note never = bulk_batches_never_close [OF 1 2 b(1)]
  show ?thesis
    by (intro exI conjI, rule refl, rule b(1), rule b(2), rule conjunct2 [OF never], rule calls, rule rows)
qed

end
