(* ===== verification/PaymentCommands.thy ===== *)
theory PaymentCommands
  imports RuntimeSettlement
begin

text \<open>
  The command boundary in front of provider execution: \<open>payment_command_boundary.py\<close>
  (scope, reservation, publication), \<open>payment_command_consumer.py\<close> (the acknowledgement
  fence) and \<open>payment_command_tasks.py\<close>. A payload is its canonical JSON text, \<open>digest\<close> its SHA-256, \<open>key\<close> the text of a primary key.
\<close>

section \<open>Rows\<close>

datatype command_status = CmdReserved | CmdDispatched

record command =
  cm_tenant :: string
  cm_caller :: string
  cm_operation :: string
  cm_request :: string
  cm_fingerprint :: string
  cm_payload :: string
  cm_status :: command_status
  cm_attempt :: "nat option"

text \<open>The payload of an outbox row: command, attempt and operation.\<close>

record outbox =
  ox_command :: nat
  ox_topic :: string
  ox_payload :: "string \<times> string \<times> string"
  ox_published :: "int option"
  ox_acknowledged :: "int option"
  ox_token :: "string option"
  ox_result :: "(bool \<times> string \<times> string) option"

record command_state =
  cs_pay :: pay_state
  cs_commands :: "command table"
  cs_outbox :: "outbox table"
  cs_consumers :: "nat list"
  cs_scheduled :: "nat list"

datatype command_error =
    ScopeDenied | CommandConflict | CommandRowMissing | InvalidDelivery string

section \<open>Scope\<close>

record payment_scope =
  sc_caller :: string
  sc_tenant :: string

text \<open>A registered building block: id, active flag and allowed tenants.\<close>

type_synonym registered_bb = "string \<times> bool \<times> string list"

definition resolve_registered_bb_scope ::
  "registered_bb list \<Rightarrow> bool \<Rightarrow> string \<Rightarrow> string \<Rightarrow> string \<Rightarrow> command_error + payment_scope" where
  "resolve_registered_bb_scope bbs production caller0 tenant0 request0 =
     (let caller = py_strip caller0; tenant = py_strip tenant0 in
      if \<not> production then
        (if py_strip request0 = '''' then Inl ScopeDenied
         else Inr \<lparr>sc_caller = ''__harness__'', sc_tenant = ''__harness__''\<rparr>)
      else if caller = '''' \<or> tenant = '''' then Inl ScopeDenied
      else case filter (\<lambda>bb. fst bb = caller \<and> fst (snd bb)) bbs of
        [] \<Rightarrow> Inl ScopeDenied
      | bb # _ \<Rightarrow> if tenant \<in> set (snd (snd bb)) then Inr \<lparr>sc_caller = caller, sc_tenant = tenant\<rparr>
          else Inl ScopeDenied)"

section \<open>Reservation\<close>

definition command_attempt :: "payment_scope \<Rightarrow> string \<Rightarrow> string \<Rightarrow> string \<Rightarrow> string \<Rightarrow> attempt" where
  "command_attempt scope operation request fp command_id = \<lparr>pa_tenant = sc_tenant scope, pa_claim_token = '''',
     pa_claim_expires_at = None, pa_claim_generation = 0, pa_claim_heartbeat_at = None,
     pa_submission_intent = CommandIntent command_id, pa_recovery_evidence = NoEvidence, pa_request_id = take 100 request,
     pa_operation = take 30 operation, pa_source_bb_id = sc_caller scope, pa_provider_attempt_id = '''',
     pa_external_transaction_id = '''', pa_amount = None, pa_currency = '''', pa_status = APending,
     pa_failure_code = '''', pa_failure_category = '''', pa_retryable = False, pa_attempt_count = 0,
     pa_next_retry_at = None, pa_last_error = '''', pa_payload_fingerprint = fp, pa_version = 1\<rparr>"

definition same_command :: "string \<Rightarrow> string \<Rightarrow> string \<Rightarrow> command \<Rightarrow> bool" where
  "same_command tenant operation request c \<longleftrightarrow> cm_tenant c = tenant \<and> cm_operation c = operation \<and> cm_request c = request"

definition find_command :: "command_state \<Rightarrow> string \<Rightarrow> string \<Rightarrow> string \<Rightarrow> (nat \<times> command) option" where
  "find_command s tenant operation request =
     tfind (same_command tenant operation request) (cs_commands s)"

definition command_clash :: "command_state \<Rightarrow> nat \<times> nat \<times> nat \<times> nat \<Rightarrow> payment_scope \<Rightarrow> string \<Rightarrow> string \<Rightarrow> bool" where
  "command_clash s keys scope operation request \<longleftrightarrow> (case keys of (ck, ak, ik, xk) \<Rightarrow>
     tget (cs_commands s) ck \<noteq> None \<or> find_command s (sc_tenant scope) operation request \<noteq> None
     \<or> tget (ps_attempts (cs_pay s)) ak \<noteq> None
     \<or> list_ex (\<lambda>ka. scope_match (sc_tenant scope) operation request (snd ka)) (ps_attempts (cs_pay s))
     \<or> list_ex (\<lambda>kc. cm_attempt (snd kc) = Some ak) (cs_commands s)
     \<or> tget (cs_outbox s) xk \<noteq> None \<or> list_ex (\<lambda>kx. ox_command (snd kx) = ck) (cs_outbox s))"

text \<open>
  The savepoint: the five inserts, with keys \<open>ck\<close>, \<open>ak\<close>, \<open>ik\<close> and \<open>xk\<close>; \<open>None\<close> is an
  \<open>IntegrityError\<close> (a key or a unique constraint), which rolls all of it back.
\<close>

definition insert_command ::
  "(nat \<Rightarrow> string) \<Rightarrow> command_state \<Rightarrow> nat \<times> nat \<times> nat \<times> nat \<Rightarrow> payment_scope \<Rightarrow> string \<Rightarrow> string \<Rightarrow> string \<Rightarrow> string
     \<Rightarrow> command_state option" where
  "insert_command key s keys scope operation request payload fp = (case keys of (ck, ak, ik, xk) \<Rightarrow>
     let a = command_attempt scope operation request fp (key ck);
         c = \<lparr>cm_tenant = sc_tenant scope, cm_caller = sc_caller scope, cm_operation = operation,
           cm_request = request, cm_fingerprint = fp, cm_payload = payload, cm_status = CmdReserved,
           cm_attempt = Some ak\<rparr>;
         x = \<lparr>ox_command = ck, ox_topic = ''payments.command.reserved'', ox_payload = (key ck, key ak, operation),
           ox_published = None, ox_acknowledged = None, ox_token = None, ox_result = None\<rparr>
     in if command_clash s keys scope operation request then None
        else case create_intent (put_attempt ak a (cs_pay s)) ik
            (new_intent ak (sc_tenant scope) (take 30 operation) (take 100 request) fp) of
          Inl e \<Rightarrow> None
        | Inr p \<Rightarrow> Some (s\<lparr>cs_pay := p, cs_commands := tput ck c (cs_commands s), cs_outbox := tput xk x (cs_outbox s)\<rparr>))"

definition reserve ::
  "(string \<Rightarrow> string) \<Rightarrow> (nat \<Rightarrow> string) \<Rightarrow> command_state \<Rightarrow> nat \<times> nat \<times> nat \<times> nat \<Rightarrow> payment_scope
     \<Rightarrow> string \<Rightarrow> string \<Rightarrow> string \<Rightarrow> command_error + (command_state \<times> nat \<times> bool)" where
  "reserve digest key s keys scope operation0 request0 payload =
     (let operation = py_strip operation0; request = py_strip request0; fp = digest payload in
      if operation = '''' \<or> request = '''' then Inl ScopeDenied
      else case insert_command key s keys scope operation request payload fp of
        Some s1 \<Rightarrow> Inr (s1, fst keys, False)
      | None \<Rightarrow> (case find_command s (sc_tenant scope) operation request of
          None \<Rightarrow> Inl CommandRowMissing
        | Some (ck, c) \<Rightarrow> if cm_fingerprint c \<noteq> fp then Inl CommandConflict
            else if cm_attempt c = None then Inl ScopeDenied else Inr (s, ck, True)))"

section \<open>Publication\<close>

definition publish :: "(nat \<Rightarrow> string) \<Rightarrow> command_state \<Rightarrow> int \<Rightarrow> nat \<Rightarrow> command_error + command_state" where
  "publish key s now xk = (case tget (cs_outbox s) xk of
     None \<Rightarrow> Inl CommandRowMissing
   | Some x \<Rightarrow> (case tget (cs_commands s) (ox_command x) of
       None \<Rightarrow> Inl CommandRowMissing
     | Some c \<Rightarrow>
         if ox_published x \<noteq> None then Inr s
         else (case cm_attempt c of
           None \<Rightarrow> Inr s
         | Some k \<Rightarrow>
             if fst (snd (ox_payload x)) \<noteq> key k then Inr s
             else if \<not> list_ex (\<lambda>ji. ei_attempt (snd ji) = k) (ps_intents (cs_pay s)) then Inr s
             else Inr (s\<lparr>cs_outbox := tput xk (x\<lparr>ox_published := Some now\<rparr>) (cs_outbox s),
               cs_commands := tput (ox_command x) (c\<lparr>cm_status := CmdDispatched\<rparr>) (cs_commands s),
               cs_consumers := cs_consumers s @ [xk]\<rparr>))))"

section \<open>Acknowledgement\<close>

record delivery =
  dl_command :: string
  dl_attempt :: string
  dl_tenant :: string
  dl_operation :: string
  dl_fingerprint :: string
  dl_token :: string

definition command_topic :: string where
  "command_topic = ''payments.command.reserved''"

text \<open>The checks of a delivery against the bound rows, in their order; \<open>None\<close> when all pass.\<close>

definition delivery_fault ::
  "(nat \<Rightarrow> string) \<Rightarrow> pay_state \<Rightarrow> outbox \<Rightarrow> command \<Rightarrow> (nat \<times> attempt) option \<Rightarrow> delivery \<Rightarrow> string option" where
  "delivery_fault key p x c bound d =
     (if ox_topic x \<noteq> command_topic \<or> py_strip (key (ox_command x)) \<noteq> dl_command d
      then Some ''topic or command identity mismatch''
      else case bound of
        None \<Rightarrow> Some ''attempt identity mismatch''
      | Some (k, a) \<Rightarrow>
          if py_strip (key k) \<noteq> dl_attempt d then Some ''attempt identity mismatch''
          else if cm_tenant c \<noteq> dl_tenant d \<or> pa_tenant a \<noteq> dl_tenant d then Some ''tenant mismatch''
          else if cm_operation c \<noteq> dl_operation d \<or> pa_operation a \<noteq> take 30 (dl_operation d)
            then Some ''operation mismatch''
          else if cm_fingerprint c \<noteq> dl_fingerprint d \<or> pa_payload_fingerprint a \<noteq> dl_fingerprint d
            then Some ''fingerprint mismatch''
          else (case find_intent p k of
              None \<Rightarrow> Some ''execution intent mismatch''
            | Some (j, ei) \<Rightarrow>
                if ei_scope ei \<noteq> dl_tenant d \<or> ei_operation ei \<noteq> take 30 (dl_operation d)
                    \<or> ei_payload_fingerprint ei \<noteq> dl_fingerprint d
                then Some ''execution intent mismatch''
                else if py_strip (fst (ox_payload x)) \<noteq> dl_command d
                    \<or> py_strip (fst (snd (ox_payload x))) \<noteq> dl_attempt d
                    \<or> py_strip (snd (snd (ox_payload x))) \<noteq> dl_operation d
                then Some ''outbox payload mismatch'' else None))"

definition strip_delivery :: "delivery \<Rightarrow> delivery" where
  "strip_delivery d = \<lparr>dl_command = py_strip (dl_command d), dl_attempt = py_strip (dl_attempt d),
     dl_tenant = py_strip (dl_tenant d), dl_operation = py_strip (dl_operation d),
     dl_fingerprint = py_strip (dl_fingerprint d), dl_token = py_strip (dl_token d)\<rparr>"

definition bound_attempt :: "command_state \<Rightarrow> command \<Rightarrow> (nat \<times> attempt) option" where
  "bound_attempt s c = (case cm_attempt c of None \<Rightarrow> None
     | Some k \<Rightarrow> map_option (Pair k) (tget (ps_attempts (cs_pay s)) k))"

text \<open>
  \<open>acknowledge_reserved_command\<close>: the result is whether work was scheduled by this row,
  the attempt and the token; \<open>fresh\<close> is the uuid used when the delivery has no token.
\<close>

definition acknowledge_reserved_command ::
  "(nat \<Rightarrow> string) \<Rightarrow> command_state \<Rightarrow> int \<Rightarrow> string \<Rightarrow> nat \<Rightarrow> delivery \<Rightarrow> command_error + (command_state \<times> (bool \<times> string \<times> string))" where
  "acknowledge_reserved_command key s now fresh xk d0 =
     (let d = strip_delivery d0; token = py_or (dl_token d) fresh in
      if '''' \<in> {dl_command d, dl_attempt d, dl_tenant d, dl_operation d, dl_fingerprint d}
      then Inl (InvalidDelivery ''complete delivery identity is required'')
      else case tget (cs_outbox s) xk of
        None \<Rightarrow> Inl CommandRowMissing
      | Some x \<Rightarrow> (case tget (cs_commands s) (ox_command x) of
          None \<Rightarrow> Inl CommandRowMissing
        | Some c \<Rightarrow>
            if ox_acknowledged x \<noteq> None
            then Inr (s, case ox_result x of Some r \<Rightarrow> r
                 | None \<Rightarrow> (False, case cm_attempt c of None \<Rightarrow> ''None'' | Some k \<Rightarrow> key k, ''''))
            else (case delivery_fault key (cs_pay s) x c (bound_attempt s c) d of
                Some m \<Rightarrow> Inl (InvalidDelivery m)
              | None \<Rightarrow> (case cm_attempt c of
                  None \<Rightarrow> Inl CommandRowMissing
                | Some k \<Rightarrow>
                    let r = (True, dl_attempt d, token) in
                    Inr (s\<lparr>cs_outbox := tput xk (x\<lparr>ox_acknowledged := Some now, ox_token := Some token,
                           ox_result := Some r\<rparr>) (cs_outbox s),
                        cs_scheduled := cs_scheduled s @ [k]\<rparr>, r)))))"

text \<open>The Celery task: the delivery is read from the rows.\<close>

definition consume_bound_command_outbox ::
  "(nat \<Rightarrow> string) \<Rightarrow> command_state \<Rightarrow> int \<Rightarrow> string \<Rightarrow> nat \<Rightarrow> command_error + (command_state \<times> (bool \<times> string \<times> string) option)" where
  "consume_bound_command_outbox key s now fresh xk = (case tget (cs_outbox s) xk of
     None \<Rightarrow> Inl CommandRowMissing
   | Some x \<Rightarrow> (case tget (cs_commands s) (ox_command x) of
       None \<Rightarrow> Inl CommandRowMissing
     | Some c \<Rightarrow> (case cm_attempt c of
         None \<Rightarrow> Inr (s, None)
       | Some k \<Rightarrow> map_sum id (\<lambda>sr. (fst sr, Some (snd sr)))
           (acknowledge_reserved_command key s now fresh xk
             \<lparr>dl_command = key (ox_command x), dl_attempt = key k, dl_tenant = cm_tenant c,
              dl_operation = cm_operation c, dl_fingerprint = cm_fingerprint c, dl_token = ''''\<rparr>))))"

section \<open>Runs\<close>

datatype command_op =
    CmReserve "nat \<times> nat \<times> nat \<times> nat" payment_scope string string string
  | CmPublish int nat
  | CmAcknowledge int string nat delivery
  | CmConsume int string nat

fun command_step ::
  "(string \<Rightarrow> string) \<Rightarrow> (nat \<Rightarrow> string) \<Rightarrow> command_state \<Rightarrow> command_op \<Rightarrow> command_error + command_state" where
  "command_step digest key s (CmReserve keys scope operation request payload) =
     map_sum id fst (reserve digest key s keys scope operation request payload)"
| "command_step digest key s (CmPublish now xk) = publish key s now xk"
| "command_step digest key s (CmAcknowledge now fresh xk d) =
     map_sum id fst (acknowledge_reserved_command key s now fresh xk d)"
| "command_step digest key s (CmConsume now fresh xk) =
     map_sum id fst (consume_bound_command_outbox key s now fresh xk)"

end
