(* ===== verification/CommandProps.thy ===== *)
theory CommandProps
  imports PaymentCommands
begin

text \<open>
  What the command boundary guarantees: one command per request, replayed or refused but
  never executed twice; one handoff per command, to the attempt it was bound to; and what
  becomes of the attempts it reserves.
\<close>

section \<open>The invariant\<close>

definition commands_unique :: "command table \<Rightarrow> bool" where
  "commands_unique t \<longleftrightarrow> tok t
     \<and> (\<forall>i j c d. tget t i = Some c \<longrightarrow> tget t j = Some d \<longrightarrow>
          (cm_attempt c \<noteq> None \<and> cm_attempt c = cm_attempt d
           \<or> same_command (cm_tenant c) (cm_operation c) (cm_request c) d) \<longrightarrow> i = j)"

definition outbox_unique :: "command table \<Rightarrow> outbox table \<Rightarrow> bool" where
  "outbox_unique t u \<longleftrightarrow> (\<forall>i x. tget u i = Some x \<longrightarrow> tget t (ox_command x) \<noteq> None)
     \<and> (\<forall>i j x y. tget u i = Some x \<longrightarrow> tget u j = Some y \<longrightarrow> ox_command x = ox_command y \<longrightarrow> i = j)"

text \<open>A command and the attempt reserved for it.\<close>

definition bound_to :: "command_state \<Rightarrow> command \<Rightarrow> nat \<Rightarrow> attempt \<Rightarrow> bool" where
  "bound_to s c k a \<longleftrightarrow> cm_attempt c = Some k \<and> tget (ps_attempts (cs_pay s)) k = Some a
     \<and> pa_tenant a = cm_tenant c \<and> pa_operation a = take 30 (cm_operation c)
     \<and> pa_request_id a = take 100 (cm_request c) \<and> pa_payload_fingerprint a = cm_fingerprint c \<and> pa_amount a = None"

definition commands_bound :: "command_state \<Rightarrow> bool" where
  "commands_bound s \<longleftrightarrow> (\<forall>ck c. tget (cs_commands s) ck = Some c \<longrightarrow> (\<exists>k a. bound_to s c k a))"

definition handed_over :: "command_state \<Rightarrow> nat \<Rightarrow> bool" where
  "handed_over s k \<longleftrightarrow> (\<exists>xk x c. tget (cs_outbox s) xk = Some x \<and> ox_acknowledged x \<noteq> None
     \<and> tget (cs_commands s) (ox_command x) = Some c \<and> cm_attempt c = Some k)"

definition command_inv :: "command_state \<Rightarrow> bool" where
  "command_inv s \<longleftrightarrow> commands_unique (cs_commands s) \<and> outbox_unique (cs_commands s) (cs_outbox s)
     \<and> commands_bound s \<and> distinct (cs_scheduled s) \<and> (\<forall>k\<in>set (cs_scheduled s). handed_over s k)"

text \<open>A command row never changes but for its status, and acknowledgements stay.\<close>

definition command_le :: "command \<Rightarrow> command \<Rightarrow> bool" where
  "command_le c d \<longleftrightarrow> cm_tenant d = cm_tenant c \<and> cm_operation d = cm_operation c \<and> cm_request d = cm_request c
     \<and> cm_fingerprint d = cm_fingerprint c \<and> cm_attempt d = cm_attempt c"

definition commands_le :: "command_state \<Rightarrow> command_state \<Rightarrow> bool" where
  "commands_le s t \<longleftrightarrow> (\<forall>ck c. tget (cs_commands s) ck = Some c
     \<longrightarrow> (\<exists>d. tget (cs_commands t) ck = Some d \<and> command_le c d))"

lemma command_le_refl [simp]: "command_le c c"
  by (simp add: command_le_def)

lemma commands_le_refl [simp]: "commands_le s s"
  by (auto simp: commands_le_def)

lemma commands_le_trans: "commands_le s t \<Longrightarrow> commands_le t u \<Longrightarrow> commands_le s u"
proof -
  have "command_le c e" if "command_le c d" "command_le d e" for c d e
    using that by (simp add: command_le_def)
  then show "commands_le s t \<Longrightarrow> commands_le t u \<Longrightarrow> commands_le s u"
    unfolding commands_le_def by blast
qed

section \<open>Reservation\<close>

lemma find_commandD:
  assumes "find_command s tenant operation request = Some (ck, c)" "tok (cs_commands s)"
  shows "tget (cs_commands s) ck = Some c \<and> same_command tenant operation request c"
  using assms unfolding find_command_def by (rule tfind_Some)

lemma find_command_None:
  "find_command s tenant operation request = None \<Longrightarrow> tget (cs_commands s) ck = Some c
     \<Longrightarrow> \<not> same_command tenant operation request c"
  unfolding find_command_def by (rule tfind_None)

text \<open>What a new command is.\<close>

lemma insert_command_cases:
  assumes ins: "insert_command key s keys scope operation request payload fp = Some s'"
    and fields: "keys = (ck, ak, ik, xk)"
  defines "a \<equiv> command_attempt scope operation request fp (key ck)"
    and "c \<equiv> \<lparr>cm_tenant = sc_tenant scope, cm_caller = sc_caller scope, cm_operation = operation, cm_request = request,
      cm_fingerprint = fp, cm_payload = payload, cm_status = CmdReserved, cm_attempt = Some ak\<rparr>"
    and "x \<equiv> \<lparr>ox_command = ck, ox_topic = ''payments.command.reserved'', ox_payload = (key ck, key ak, operation),
      ox_published = None, ox_acknowledged = None, ox_token = None, ox_result = None\<rparr>"
  shows "cs_commands s' = tput ck c (cs_commands s)" "cs_outbox s' = tput xk x (cs_outbox s)"
    and "ps_attempts (cs_pay s') = tput ak a (ps_attempts (cs_pay s))" "cs_scheduled s' = cs_scheduled s"
    and "ps_observations (cs_pay s') = ps_observations (cs_pay s)"
    and "tget (cs_commands s) ck = None" "tget (ps_attempts (cs_pay s)) ak = None" "tget (cs_outbox s) xk = None"
    and "find_command s (sc_tenant scope) operation request = None"
    and "\<not> list_ex (\<lambda>kc. cm_attempt (snd kc) = Some ak) (cs_commands s)"
    and "\<not> list_ex (\<lambda>kx. ox_command (snd kx) = ck) (cs_outbox s)"
    and "\<exists>ei. ps_intents (cs_pay s') = tput ik ei (ps_intents (cs_pay s))"
proof -
  from ins have free: "\<not> command_clash s (ck, ak, ik, xk) scope operation request"
    by (auto simp: insert_command_def fields Let_def split: if_splits)
  then show "tget (cs_commands s) ck = None" "tget (ps_attempts (cs_pay s)) ak = None" "tget (cs_outbox s) xk = None"
    "find_command s (sc_tenant scope) operation request = None"
    "\<not> list_ex (\<lambda>kc. cm_attempt (snd kc) = Some ak) (cs_commands s)"
    "\<not> list_ex (\<lambda>kx. ox_command (snd kx) = ck) (cs_outbox s)"
    unfolding command_clash_def by (simp_all only: prod.case de_Morgan_disj not_not simp_thms)
  from ins free obtain p where p: "create_intent (put_attempt ak a (cs_pay s)) ik
      (new_intent ak (sc_tenant scope) (take 30 operation) (take 100 request) fp) = Inr p"
    and s': "s' = s\<lparr>cs_pay := p, cs_commands := tput ck c (cs_commands s), cs_outbox := tput xk x (cs_outbox s)\<rparr>"
    by (auto simp: insert_command_def fields Let_def a_def c_def x_def split: sum.splits)
  from p have "ps_attempts p = tput ak a (ps_attempts (cs_pay s))" "ps_observations p = ps_observations (cs_pay s)"
    and intent: "\<exists>ei. ps_intents p = tput ik ei (ps_intents (cs_pay s))"
    by (auto simp: create_intent_def split: if_splits)
  from intent show "\<exists>ei. ps_intents (cs_pay s') = tput ik ei (ps_intents (cs_pay s))" by (simp add: s')
  from p have "ps_attempts p = tput ak a (ps_attempts (cs_pay s))" "ps_observations p = ps_observations (cs_pay s)"
    by (auto simp: create_intent_def split: if_splits)
  then show "cs_commands s' = tput ck c (cs_commands s)" "cs_outbox s' = tput xk x (cs_outbox s)"
    "ps_attempts (cs_pay s') = tput ak a (ps_attempts (cs_pay s))" "cs_scheduled s' = cs_scheduled s"
    "ps_observations (cs_pay s') = ps_observations (cs_pay s)"
    by (simp_all add: s')
qed

lemma no_row_iff: "tok t \<Longrightarrow> \<not> list_ex (\<lambda>kr. P (snd kr)) t \<longleftrightarrow> (\<forall>k r. tget t k = Some r \<longrightarrow> \<not> P r)"
  by (auto simp: list_ex_iff tget_iff)

lemma no_row: "\<not> list_ex (\<lambda>kr. P (snd kr)) t \<Longrightarrow> tget t k = Some r \<Longrightarrow> \<not> P r"
  by (fastforce simp: list_ex_iff dest: tget_in_set)

lemma insert_command_inv:
  assumes ins: "insert_command key s keys scope operation request payload fp = Some s'" and inv: "command_inv s"
  shows "command_inv s' \<and> commands_le s s'"
proof -
  obtain ck ak ik xk where keys: "keys = (ck, ak, ik, xk)" by (cases keys)
  note new = insert_command_cases [OF ins keys]
  have fresh_a: "cm_attempt d \<noteq> Some ak" if "tget (cs_commands s) j = Some d" for j d
    using no_row [OF new(10) that] .
  have fresh_x: "ox_command y \<noteq> ck" if "tget (cs_outbox s) j = Some y" for j y
    using no_row [OF new(11) that] .
  have fresh_c: "\<not> same_command (sc_tenant scope) operation request d" if "tget (cs_commands s) j = Some d" for j d
    using find_command_None [OF new(9) that] .
  have "commands_unique (cs_commands s')"
    using inv fresh_a fresh_c unfolding command_inv_def commands_unique_def new(1)
    by (auto simp: table_simps same_command_def split: if_splits) metis+
  moreover have "outbox_unique (cs_commands s') (cs_outbox s')"
    using inv fresh_x unfolding command_inv_def outbox_unique_def new(1,2)
    by (auto simp: table_simps split: if_splits)
  moreover have "commands_bound s'"
    unfolding commands_bound_def
  proof (intro allI impI)
    fix j d assume d: "tget (cs_commands s') j = Some d"
    show "\<exists>k a. bound_to s' d k a"
    proof (cases "j = ck")
      case True
      with d show ?thesis by (auto simp: new(1,3) table_simps bound_to_def command_attempt_def)
    next
      case False
      with d have old: "tget (cs_commands s) j = Some d" by (simp add: new(1) table_simps)
      with inv obtain k a where "bound_to s d k a" unfolding command_inv_def commands_bound_def by blast
      moreover from this fresh_a [OF old] have "k \<noteq> ak" by (auto simp: bound_to_def)
      ultimately have "bound_to s' d k a" by (simp add: bound_to_def new(3) table_simps)
      then show ?thesis by blast
    qed
  qed
  moreover have "handed_over s' k" if "handed_over s k" for k
  proof -
    from that obtain j y d where *: "tget (cs_outbox s) j = Some y" "ox_acknowledged y \<noteq> None"
      "tget (cs_commands s) (ox_command y) = Some d" "cm_attempt d = Some k" by (auto simp: handed_over_def)
    with new(6,8) have "j \<noteq> xk" "ox_command y \<noteq> ck" by auto
    with * show ?thesis unfolding handed_over_def new(1,2)
      by (intro exI [of _ j] exI [of _ y] exI [of _ d]) (simp add: table_simps)
  qed
  moreover have "commands_le s s'" using new(6) by (auto simp: commands_le_def new(1) table_simps)
  ultimately show ?thesis using inv by (simp add: command_inv_def new(4))
qed

lemma reserve_inv:
  assumes "reserve digest key s keys scope operation request payload = Inr (s', ck, replayed)" "command_inv s"
  shows "command_inv s' \<and> commands_le s s'"
  using assms insert_command_inv
  by (auto simp: reserve_def Let_def split: if_splits option.splits)

section \<open>Publication and acknowledgement\<close>

lemma outbox_change_inv:
  assumes inv: "command_inv s" and x: "tget (cs_outbox s) xk = Some x"
    and y: "ox_command y = ox_command x" "ox_acknowledged x \<noteq> None \<longrightarrow> ox_acknowledged y \<noteq> None"
    and s': "cs_outbox s' = tput xk y (cs_outbox s)" "cs_commands s' = cs_commands s" "cs_pay s' = cs_pay s"
    "cs_scheduled s' = cs_scheduled s"
  shows "command_inv s'"
proof -
  have "handed_over s' k" if "handed_over s k" for k
  proof -
    from that obtain j z d where *: "tget (cs_outbox s) j = Some z" "ox_acknowledged z \<noteq> None"
      "tget (cs_commands s) (ox_command z) = Some d" "cm_attempt d = Some k" by (auto simp: handed_over_def)
    show ?thesis
    proof (cases "j = xk")
      case True
      with * x y show ?thesis unfolding handed_over_def s'
        by (intro exI [of _ xk] exI [of _ y] exI [of _ d]) (simp add: table_simps)
    next
      case False
      with * show ?thesis unfolding handed_over_def s'
        by (intro exI [of _ j] exI [of _ z] exI [of _ d]) (simp add: table_simps)
    qed
  qed
  moreover have "outbox_unique (cs_commands s') (cs_outbox s')"
    using inv x y(1) unfolding command_inv_def outbox_unique_def s' by (auto simp: table_simps)
  ultimately show ?thesis
    using inv by (simp add: command_inv_def s' commands_bound_def bound_to_def)
qed

lemma dispatch_inv:
  assumes inv: "command_inv s" and c: "tget (cs_commands s) ck = Some c"
    and s': "s' = s\<lparr>cs_commands := tput ck (c\<lparr>cm_status := CmdDispatched\<rparr>) (cs_commands s), cs_consumers := q\<rparr>"
  shows "command_inv s' \<and> commands_le s s'"
proof -
  have le: "commands_le s s'" using c by (auto simp: commands_le_def s' table_simps command_le_def)
  have older: "\<exists>d. tget (cs_commands s) j = Some d \<and> command_le d e" if "tget (cs_commands s') j = Some e" for j e
    using that c by (auto simp: s' table_simps command_le_def split: if_splits)
  have "commands_unique (cs_commands s')"
    unfolding commands_unique_def
  proof (intro conjI allI impI)
    show "tok (cs_commands s')" using inv by (simp add: s' command_inv_def commands_unique_def table_simps)
    fix i j d e
    assume de: "tget (cs_commands s') i = Some d" "tget (cs_commands s') j = Some e"
      and eq: "cm_attempt d \<noteq> None \<and> cm_attempt d = cm_attempt e
        \<or> same_command (cm_tenant d) (cm_operation d) (cm_request d) e"
    from older [OF de(1)] older [OF de(2)] obtain d0 e0 where "tget (cs_commands s) i = Some d0" "command_le d0 d"
      "tget (cs_commands s) j = Some e0" "command_le e0 e" by blast
    with eq inv show "i = j" unfolding command_inv_def commands_unique_def command_le_def same_command_def by metis
  qed
  moreover have "outbox_unique (cs_commands s') (cs_outbox s')"
    using inv by (auto simp: command_inv_def outbox_unique_def s' table_simps)
  moreover have "commands_bound s'"
    using inv older unfolding commands_bound_def command_inv_def bound_to_def command_le_def
    by (simp add: s') metis
  moreover have "handed_over s' k" if "handed_over s k" for k
    using that le by (fastforce simp: handed_over_def commands_le_def command_le_def s')
  ultimately show ?thesis using inv le by (simp add: command_inv_def s')
qed

lemma publish_inv:
  assumes run: "publish key s now xk = Inr s'" and inv: "command_inv s"
  shows "command_inv s' \<and> commands_le s s'"
proof (cases "s' = s")
  case False
  with run obtain x c where x: "tget (cs_outbox s) xk = Some x" and c: "tget (cs_commands s) (ox_command x) = Some c"
    and s': "s' = s\<lparr>cs_outbox := tput xk (x\<lparr>ox_published := Some now\<rparr>) (cs_outbox s),
      cs_commands := tput (ox_command x) (c\<lparr>cm_status := CmdDispatched\<rparr>) (cs_commands s),
      cs_consumers := cs_consumers s @ [xk]\<rparr>"
    by (auto simp: publish_def split: option.splits if_splits)
  let ?t = "s\<lparr>cs_outbox := tput xk (x\<lparr>ox_published := Some now\<rparr>) (cs_outbox s)\<rparr>"
  have t: "command_inv ?t" by (rule outbox_change_inv [OF inv x, of "x\<lparr>ox_published := Some now\<rparr>"]) simp_all
  have "command_inv s' \<and> commands_le ?t s'"
    by (rule dispatch_inv [OF t, of "ox_command x" c]) (simp_all add: c s')
  then show ?thesis by (simp add: commands_le_def)
qed (use inv in simp)

text \<open>An acknowledgement that schedules: the first one of its row.\<close>

lemma acknowledge_cases:
  assumes "acknowledge_reserved_command key s now fresh xk d = Inr (s', r)"
  obtains (replay) x where "tget (cs_outbox s) xk = Some x" "ox_acknowledged x \<noteq> None" "s' = s"
    | (first) x c k y where "tget (cs_outbox s) xk = Some x" "ox_acknowledged x = None"
      "tget (cs_commands s) (ox_command x) = Some c" "cm_attempt c = Some k"
      "ox_command y = ox_command x" "ox_acknowledged y = Some now"
      "s' = s\<lparr>cs_outbox := tput xk y (cs_outbox s), cs_scheduled := cs_scheduled s @ [k]\<rparr>"
proof -
  from assms obtain x c where x: "tget (cs_outbox s) xk = Some x" "tget (cs_commands s) (ox_command x) = Some c"
    by (auto simp: acknowledge_reserved_command_def Let_def split: if_splits option.splits)
  show ?thesis
  proof (cases "ox_acknowledged x")
    case None
    let ?token = "py_or (dl_token (strip_delivery d)) fresh"
    let ?y = "x\<lparr>ox_acknowledged := Some now, ox_token := Some ?token,
      ox_result := Some (True, dl_attempt (strip_delivery d), ?token)\<rparr>"
    from assms x None obtain k where "cm_attempt c = Some k"
      "s' = s\<lparr>cs_outbox := tput xk ?y (cs_outbox s), cs_scheduled := cs_scheduled s @ [k]\<rparr>"
      by (auto simp: acknowledge_reserved_command_def Let_def split: if_splits option.splits)
    with x None show ?thesis by (intro first [of x c k ?y]) simp_all
  next
    case (Some t)
    with assms x show ?thesis
      by (intro replay [of x]) (auto simp: acknowledge_reserved_command_def Let_def split: if_splits)
  qed
qed

lemma acknowledge_inv:
  assumes run: "acknowledge_reserved_command key s now fresh xk d = Inr (s', r)" and inv: "command_inv s"
  shows "command_inv s' \<and> commands_le s s'"
  using run
proof (cases rule: acknowledge_cases)
  case (first x c k y)
  have new: "k \<notin> set (cs_scheduled s)"
  proof
    assume "k \<in> set (cs_scheduled s)"
    with inv obtain j z e where z: "tget (cs_outbox s) j = Some z" "ox_acknowledged z \<noteq> None"
      "tget (cs_commands s) (ox_command z) = Some e" "cm_attempt e = Some k"
      unfolding command_inv_def handed_over_def by blast
    with inv first(3,4) have "ox_command z = ox_command x"
      unfolding command_inv_def commands_unique_def by (metis option.distinct(1))
    with inv z(1) first(1) have "j = xk" unfolding command_inv_def outbox_unique_def by metis
    with z first(1,2) show False by simp
  qed
  let ?t = "s\<lparr>cs_outbox := tput xk y (cs_outbox s)\<rparr>"
  have t: "command_inv ?t" by (rule outbox_change_inv [OF inv first(1,5)]) (simp_all add: first(6))
  have "handed_over s' k"
    unfolding handed_over_def first(7) using first(3-6)
    by (intro exI [of _ xk] exI [of _ y] exI [of _ c]) (simp add: table_simps)
  moreover have "handed_over s' j" if "handed_over ?t j" for j
    using that by (simp add: handed_over_def first(7))
  ultimately have "command_inv s'"
    using t new by (auto simp: command_inv_def first(7) commands_bound_def bound_to_def)
  then show ?thesis by (simp add: first(7) commands_le_def)
qed (use inv in simp)

lemma consume_inv:
  assumes "consume_bound_command_outbox key s now fresh xk = Inr (s', r)" "command_inv s"
  shows "command_inv s' \<and> commands_le s s'"
  using assms
  by (auto simp: consume_bound_command_outbox_def map_sum_Inr_iff split: option.splits dest: acknowledge_inv)

lemma command_step_inv:
  assumes "command_step digest key s x = Inr s'" "command_inv s"
  shows "command_inv s' \<and> commands_le s s'"
proof (cases x)
  case (CmReserve keys scope operation request payload)
  with assms show ?thesis by (auto simp: map_sum_Inr_iff dest: reserve_inv)
next
  case (CmPublish now xk)
  with assms show ?thesis by (auto dest: publish_inv)
next
  case (CmAcknowledge now fresh xk d)
  with assms show ?thesis by (auto simp: map_sum_Inr_iff dest: acknowledge_inv)
next
  case (CmConsume now fresh xk)
  with assms show ?thesis by (auto simp: map_sum_Inr_iff dest: consume_inv)
qed

interpretation cmd: monotone_system "command_step digest key" "\<lambda>_ _. True" command_inv commands_le
  for digest key
  by unfold_locales (auto dest: command_step_inv intro: commands_le_trans)

section \<open>The properties\<close>

definition no_commands :: "command_state \<Rightarrow> bool" where
  "no_commands s \<longleftrightarrow> cs_commands s = [] \<and> cs_outbox s = [] \<and> cs_scheduled s = []"

lemma no_commands_inv: "no_commands s \<Longrightarrow> command_inv s"
  by (simp add: no_commands_def command_inv_def commands_unique_def outbox_unique_def commands_bound_def)

text \<open>
  C9. One handoff: in every run of reservations, publications, deliveries (forged, stale,
  duplicated or right) and consumer tasks no attempt is scheduled for orchestration twice,
  and every scheduled attempt is the one its command reserved, in the command's tenant, for
  its operation and with the fingerprint of its payload.
\<close>

theorem command_handoff_at_most_once:
  assumes "no_commands s0" and "s = run_ops (command_step digest key) s0 xs"
  shows "distinct (cs_scheduled s) \<and> (\<forall>k\<in>set (cs_scheduled s). \<exists>ck c a. tget (cs_commands s) ck = Some c
    \<and> cm_attempt c = Some k \<and> tget (ps_attempts (cs_pay s)) k = Some a \<and> pa_tenant a = cm_tenant c
    \<and> pa_operation a = take 30 (cm_operation c) \<and> pa_payload_fingerprint a = cm_fingerprint c)"
proof -
  have inv: "command_inv s"
    unfolding assms(2) by (rule cmd.inv_run [OF no_commands_inv [OF assms(1)]]) simp
  have "\<exists>ck c a. tget (cs_commands s) ck = Some c \<and> cm_attempt c = Some k \<and> tget (ps_attempts (cs_pay s)) k = Some a
      \<and> pa_tenant a = cm_tenant c \<and> pa_operation a = take 30 (cm_operation c) \<and> pa_payload_fingerprint a = cm_fingerprint c"
    if "k \<in> set (cs_scheduled s)" for k
  proof -
    from inv that have "handed_over s k" by (simp add: command_inv_def)
    then obtain x :: outbox and c where c: "tget (cs_commands s) (ox_command x) = Some c" "cm_attempt c = Some k"
      by (auto simp: handed_over_def)
    from inv c(1) obtain j a where "bound_to s c j a"
      unfolding command_inv_def commands_bound_def by blast
    with c show ?thesis by (auto simp: bound_to_def)
  qed
  with inv show ?thesis by (simp add: command_inv_def)
qed

text \<open>A concrete scene: one registered caller, nothing reserved yet.\<close>

definition scene_commands :: command_state where
  "scene_commands = \<lparr>cs_pay = scene_pay\<lparr>ps_attempts := []\<rparr>, cs_commands = [], cs_outbox = [],
     cs_consumers = [], cs_scheduled = []\<rparr>"

definition scene_scope :: payment_scope where
  "scene_scope = \<lparr>sc_caller = ''bb'', sc_tenant = ''t''\<rparr>"

definition scene_handoff :: "command_op list" where
  "scene_handoff = [CmPublish 5 1, CmConsume 6 ''u'' 1, CmConsume 7 ''v'' 1]"

lemma command_handoff_at_most_once_witness:
  "\<exists>s. s = run_ops (command_step id scene_key) scene_commands
        (CmReserve (1, 1, 1, 1) scene_scope ''g2p'' ''r'' ''p'' # scene_handoff)
    \<and> cs_scheduled s = [1]
    \<and> (\<exists>ck c a. tget (cs_commands s) ck = Some c \<and> cm_attempt c = Some 1
        \<and> tget (ps_attempts (cs_pay s)) 1 = Some a \<and> pa_payload_fingerprint a = cm_fingerprint c)"
proof -
  let ?s = "run_ops (command_step id scene_key) scene_commands
    (CmReserve (1, 1, 1, 1) scene_scope ''g2p'' ''r'' ''p'' # scene_handoff)"
  have start: "no_commands scene_commands" by code_simp
  have "cs_scheduled ?s = [1]" by code_simp
  moreover from command_handoff_at_most_once [OF start refl] this
  have "\<exists>ck c a. tget (cs_commands ?s) ck = Some c \<and> cm_attempt c = Some 1
    \<and> tget (ps_attempts (cs_pay ?s)) 1 = Some a \<and> pa_payload_fingerprint a = cm_fingerprint c" by fastforce
  ultimately show ?thesis by blast
qed

text \<open>
  Idempotent reservation: once a request was reserved as a command, then after any
  further operations a second reservation of the same request in the same tenant changes
  nothing and returns that very command as a replay if its payload has the same digest, and
  is refused as a conflict otherwise - whoever calls, and whatever keys it would use.
\<close>

theorem command_reservation_idempotent:
  assumes "no_commands s0" and "s = run_ops (command_step digest key) s0 xs"
    and "reserve digest key s keys scope operation request payload = Inr (s1, ck, False)"
    and "s2 = run_ops (command_step digest key) s1 ys" and "sc_tenant scope2 = sc_tenant scope"
  shows "reserve digest key s2 keys2 scope2 operation request payload2
    = (if digest payload2 = digest payload then Inr (s2, ck, True) else Inl CommandConflict)"
proof -
  let ?op = "py_strip operation" and ?req = "py_strip request"
  obtain ak ik xk where keys: "keys = (ck, ak, ik, xk)"
    and ins: "insert_command key s keys scope ?op ?req payload (digest payload) = Some s1"
    and nonempty: "?op \<noteq> ''''" "?req \<noteq> ''''"
    using assms(3) by (cases keys) (auto simp: reserve_def Let_def split: if_splits option.splits)
  have inv: "command_inv s"
    unfolding assms(2) by (rule cmd.inv_run [OF no_commands_inv [OF assms(1)]]) simp
  from reserve_inv [OF assms(3) inv] have inv1: "command_inv s1" by simp
  have inv2: "command_inv s2" unfolding assms(4) by (rule cmd.inv_run [OF inv1]) simp
  have le: "commands_le s1 s2" unfolding assms(4) by (rule cmd.rel_run [OF inv1]) simp
  from insert_command_cases(1) [OF ins keys] obtain c1 where c1: "tget (cs_commands s1) ck = Some c1"
    "cm_tenant c1 = sc_tenant scope" "cm_operation c1 = ?op" "cm_request c1 = ?req" "cm_fingerprint c1 = digest payload"
    "cm_attempt c1 = Some ak"
    by (simp add: table_simps)
  from le c1(1) obtain c2 where c2a: "tget (cs_commands s2) ck = Some c2" "command_le c1 c2"
    unfolding commands_le_def by blast
  with c1 have c2: "tget (cs_commands s2) ck = Some c2" "cm_tenant c2 = sc_tenant scope" "cm_operation c2 = ?op"
    "cm_request c2 = ?req" "cm_fingerprint c2 = digest payload" "cm_attempt c2 = Some ak"
    by (simp_all add: command_le_def)
  have tok: "tok (cs_commands s2)" using inv2 by (simp add: command_inv_def commands_unique_def)
  have found: "find_command s2 (sc_tenant scope) ?op ?req = Some (ck, c2)"
  proof (cases "find_command s2 (sc_tenant scope) ?op ?req")
    case None
    from find_command_None [OF None c2(1)] c2 show ?thesis by (simp add: same_command_def)
  next
    case (Some jd)
    obtain j d where jd: "jd = (j, d)" by (cases jd)
    from find_commandD [OF Some [unfolded jd] tok] have d: "tget (cs_commands s2) j = Some d"
      "same_command (sc_tenant scope) ?op ?req d" by simp_all
    with c2 inv2 have "ck = j" unfolding command_inv_def commands_unique_def by metis
    with d c2(1) Some jd show ?thesis by simp
  qed
  obtain a b c d where k2: "keys2 = (a, b, c, d)" by (cases keys2)
  have "insert_command key s2 keys2 scope2 ?op ?req payload2 (digest payload2) = None"
    using found by (simp add: insert_command_def command_clash_def k2 Let_def assms(5))
  with found nonempty c2(5,6) assms(5) show ?thesis by (simp add: reserve_def Let_def)
qed

lemma command_reservation_idempotent_witness:
  "\<exists>s1 s2. reserve id scene_key scene_commands (1, 1, 1, 1) scene_scope ''g2p'' ''r'' ''p'' = Inr (s1, 1, False)
    \<and> s2 = run_ops (command_step id scene_key) s1 scene_handoff
    \<and> reserve id scene_key s2 (2, 2, 2, 2) scene_scope ''g2p'' ''r'' ''p'' = Inr (s2, 1, True)
    \<and> reserve id scene_key s2 (2, 2, 2, 2) scene_scope ''g2p'' ''r'' ''q'' = Inl CommandConflict"
proof -
  have "\<not> isl (reserve id scene_key scene_commands (1, 1, 1, 1) scene_scope ''g2p'' ''r'' ''p'')
    \<and> snd (projr (reserve id scene_key scene_commands (1, 1, 1, 1) scene_scope ''g2p'' ''r'' ''p'')) = (1, False)"
    by code_simp
  then obtain s1 where s1: "reserve id scene_key scene_commands (1, 1, 1, 1) scene_scope ''g2p'' ''r'' ''p'' = Inr (s1, 1, False)"
    by (cases "reserve id scene_key scene_commands (1, 1, 1, 1) scene_scope ''g2p'' ''r'' ''p''") auto
  have start: "no_commands scene_commands" "scene_commands = run_ops (command_step id scene_key) scene_commands []"
    by (code_simp, simp)
  note again = command_reservation_idempotent [OF start s1 refl, of scene_scope]
  from s1 again [of scene_handoff "(2, 2, 2, 2)" "''p''"] again [of scene_handoff "(2, 2, 2, 2)" "''q''"]
  show ?thesis by simp
qed

section \<open>What becomes of a reserved attempt\<close>

text \<open>
  No settlement for commands: the attempt a command reserves has no amount, so whatever
  the workers do with it - submissions, polls, verified answers that say settled, recovery,
  triage - it is never settled.
\<close>

theorem reserved_command_attempt_never_settles:
  assumes "reserve digest key s keys scope operation request payload = Inr (s1, ck, False)"
    and "no_calls \<lparr>wk_pay = cs_pay s, wk_calls = []\<rparr>" "unsettled \<lparr>wk_pay = cs_pay s, wk_calls = []\<rparr>"
    and "ops_ok worker_owed (worker_step bd sh regs) \<lparr>wk_pay = cs_pay s1, wk_calls = []\<rparr> xs"
    and "w = run_ops (worker_step bd sh regs) \<lparr>wk_pay = cs_pay s1, wk_calls = []\<rparr> xs"
  shows "\<exists>a. tget (ps_attempts (wk_pay w)) (fst (snd keys)) = Some a \<and> pa_tenant a = sc_tenant scope
    \<and> pa_amount a = None \<and> pa_status a \<noteq> ASettled"
proof -
  let ?w1 = "\<lparr>wk_pay = cs_pay s1, wk_calls = []\<rparr>"
  obtain ck' ak ik xk where keys: "keys = (ck', ak, ik, xk)" by (cases keys)
  from assms(1) have "insert_command key s keys scope (py_strip operation) (py_strip request) payload (digest payload) = Some s1"
    by (auto simp: reserve_def Let_def split: if_splits option.splits)
  note new = insert_command_cases [OF this keys]
  from assms(2) new(12) have "intents_ok (ps_intents (cs_pay s1))"
    by (auto simp: no_calls_def intents_ok_def table_simps split: if_splits)
  then have inv: "workers_inv ?w1" by (simp add: workers_inv_def submits_def)
  from assms(3) have "settle_inv bd (cs_pay s)" by (drule_tac unsettled_inv) simp
  moreover from assms(3) have "ps_observations (cs_pay s) = []" by (simp add: unsettled_def)
  ultimately have "settle_inv bd (cs_pay s1)"
    by (auto simp: settle_inv_def settled_backed_def accepted_final_def one_accepted_def new(3,5) table_simps
        command_attempt_def split: if_splits)
  with inv have start: "settle_workers bd ?w1" by (simp add: settle_workers_def)
  obtain a where a: "tget (ps_attempts (cs_pay s1)) ak = Some a" "pa_amount a = None" "pa_tenant a = sc_tenant scope"
    by (simp add: new(3) table_simps command_attempt_def)
  from wk.rel_run [OF inv assms(4)] a(1) obtain b where b: "tget (ps_attempts (wk_pay w)) ak = Some b" "same_identity a b"
    by (auto simp: wk_rows_le_def rows_le_def row_le_def assms(5))
  with a have amount: "pa_amount b = None" "pa_tenant b = sc_tenant scope" by (simp_all add: same_identity_def)
  from settle.inv_run [OF start assms(4)] have "settled_backed bd (wk_pay w)"
    by (simp add: settle_workers_def settle_inv_def assms(5))
  then have "pa_status b = ASettled \<Longrightarrow> \<exists>x\<in>set (ps_observations (wk_pay w)). backs bd ak b x"
    using b(1) unfolding settled_backed_def by blast
  with amount(1) have "pa_status b \<noteq> ASettled" by (auto simp: backs_def)
  with b(1) amount show ?thesis by (auto simp: keys)
qed

lemma reserved_command_attempt_never_settles_witness:
  "\<exists>s1 w a. reserve id scene_key scene_commands (1, 1, 1, 1) scene_scope ''g2p'' ''r'' ''p'' = Inr (s1, 1, False)
    \<and> w = run_ops (worker_step scene_bd scene_key scene_regs) \<lparr>wk_pay = cs_pay s1, wk_calls = []\<rparr>
        [WOrchestrate 10 ''a'' 1 1, WFinish 20 (scene_call ''a'' Submit 1) scene_answer]
    \<and> wk_calls w = [scene_call ''a'' Submit 1] \<and> pr_outcome scene_answer = PSettled \<and> pr_verified scene_answer
    \<and> tget (ps_attempts (wk_pay w)) 1 = Some a \<and> pa_amount a = None \<and> pa_status a \<noteq> ASettled"
proof -
  let ?r = "reserve id scene_key scene_commands (1, 1, 1, 1) scene_scope ''g2p'' ''r'' ''p''"
  let ?s1 = "fst (projr ?r)" and ?step = "worker_step scene_bd scene_key scene_regs"
  let ?w1 = "\<lparr>wk_pay = cs_pay ?s1, wk_calls = []\<rparr>"
  let ?xs = "[WOrchestrate 10 ''a'' 1 1, WFinish 20 (scene_call ''a'' Submit 1) scene_answer]"
  have "\<not> isl ?r \<and> snd (projr ?r) = (1, False)" by code_simp
  then have r: "?r = Inr (?s1, 1, False)" by (cases ?r) auto
  have start: "no_calls \<lparr>wk_pay = cs_pay scene_commands, wk_calls = []\<rparr>"
    "unsettled \<lparr>wk_pay = cs_pay scene_commands, wk_calls = []\<rparr>" by code_simp+
  have "wk_calls (run_ops ?step ?w1 [WOrchestrate 10 ''a'' 1 1]) = [scene_call ''a'' Submit 1]" by code_simp
  then have owed: "ops_ok worker_owed ?step ?w1 ?xs" by simp
  have "wk_calls (run_ops ?step ?w1 ?xs) = [scene_call ''a'' Submit 1]" by code_simp
  moreover have "pr_outcome scene_answer = PSettled \<and> pr_verified scene_answer" by code_simp
  moreover from reserved_command_attempt_never_settles [OF r start owed refl]
  obtain a where "tget (ps_attempts (wk_pay (run_ops ?step ?w1 ?xs))) 1 = Some a" "pa_amount a = None" "pa_status a \<noteq> ASettled"
    by auto
  ultimately show ?thesis using r by blast
qed

end
