(* ===== verification/Vouchers.thy ===== *)
theory Vouchers
  imports Prelude
begin

text \<open>
  The voucher engine: \<open>GovStackVoucherService\<close> of \<open>govstack_services.py\<close> with its
  helpers, over \<open>GovStackVoucher\<close> of \<open>govstack_models.py\<close>. Amounts are in cents and
  times in seconds. Serial numbers and primary keys of new rows, transaction ids, the
  registered building blocks and the settings are arguments. The voucher's secret, which no
  service reads, is left out, and so is the length of the audit entry's actor, which the
  serializers bound.
\<close>

section \<open>The voucher\<close>

datatype voucher_status =
    VNotPreactivated | VPreactivated | VActivated | VConsumed | VBlocked | VSuspended | VCancelled | VPurged

definition status_int_of :: "voucher_status \<Rightarrow> nat" where
  "status_int_of st = (case st of VNotPreactivated \<Rightarrow> 0 | VPreactivated \<Rightarrow> 1 | VActivated \<Rightarrow> 2
     | VConsumed \<Rightarrow> 3 | VBlocked \<Rightarrow> 4 | VSuspended \<Rightarrow> 5 | VCancelled \<Rightarrow> 6 | VPurged \<Rightarrow> 7)"

definition voucher_transitions :: "voucher_status \<Rightarrow> voucher_status list" where
  "voucher_transitions st = (case st of
     VNotPreactivated \<Rightarrow> [VPreactivated]
   | VPreactivated \<Rightarrow> [VActivated, VCancelled]
   | VActivated \<Rightarrow> [VConsumed, VBlocked, VSuspended, VCancelled]
   | VBlocked \<Rightarrow> [VActivated, VCancelled]
   | VSuspended \<Rightarrow> [VActivated, VCancelled]
   | VConsumed \<Rightarrow> [] | VCancelled \<Rightarrow> [] | VPurged \<Rightarrow> [])"

record voucher =
  vo_serial :: string
  vo_amount :: int
  vo_currency :: string
  vo_group :: string
  vo_status :: voucher_status
  vo_issuing_bb :: string
  vo_institution :: string
  vo_batch :: string
  vo_payee :: string
  vo_callback :: string
  vo_expiry :: "int option"
  vo_agent :: string
  vo_merchant :: string
  vo_bank :: string
  vo_merchant_group :: string
  vo_redeemed_at :: "int option"
  vo_transaction :: string

text \<open>\<open>transition_to\<close>; \<open>None\<close> is the \<open>ValueError\<close>.\<close>

definition voucher_to :: "voucher_status \<Rightarrow> voucher \<Rightarrow> voucher option" where
  "voucher_to new v = (if new \<in> set (voucher_transitions (vo_status v)) then Some (v\<lparr>vo_status := new\<rparr>) else None)"

definition voucher_terminal :: "voucher \<Rightarrow> bool" where
  "voucher_terminal v \<longleftrightarrow> vo_status v \<in> {VConsumed, VCancelled, VPurged}"

datatype voucher_action = VoPreactivated | VoActivated | VoRedeemed | VoCancelled

text \<open>An audit entry with its details: serial number, group, currency or status, transaction.\<close>

record voucher_audit =
  va_action :: voucher_action
  va_actor :: string
  va_voucher :: nat
  va_details :: "(string \<times> string) list"

record voucher_state =
  vc_vouchers :: "voucher table"
  vc_audit :: "voucher_audit list"

datatype voucher_error =
    BBNotFound | InvalidAmount | InvalidGroup | InvalidCurrency | InvalidSerial | InvalidNumber
  | VInsufficientFunds | VCannotCreditMerchant | InvalidCancellation | AlreadyCancelled
  | AlreadyUsed | Expired | SerialsExhausted | ColumnOverflow

section \<open>Checks\<close>

definition bb_sentinels :: "string list" where
  "bb_sentinels = [''not_exist'', ''invalid_bb'']"

text \<open>A building block that is Python's \<open>None\<close> is the empty string here.\<close>

definition known_invalid_bb :: "string \<Rightarrow> bool" where
  "known_invalid_bb v \<longleftrightarrow> py_strip v = '''' \<or> py_lower (py_strip v) \<in> set bb_sentinels"

text \<open>The settings the service reads, and the registered building blocks with their active flag.\<close>

record voucher_env =
  ve_require_registered :: bool
  ve_registered :: "(string \<times> bool) list"
  ve_expiry_days :: int

definition unregistered_bb :: "voucher_env \<Rightarrow> string \<Rightarrow> bool" where
  "unregistered_bb env v \<longleftrightarrow> ve_require_registered env
     \<and> (py_strip v = '''' \<or> \<not> list_ex (\<lambda>(bb, active). bb = py_strip v \<and> active) (ve_registered env))"

definition py_digit :: "char \<Rightarrow> bool" where
  "py_digit c \<longleftrightarrow> (let n = (of_char c :: nat) in 48 \<le> n \<and> n \<le> 57)"

text \<open>Decimal digits with single underscores between them, as \<open>int\<close> reads them.\<close>

fun py_digits :: "string \<Rightarrow> bool" where
  "py_digits [] = False"
| "py_digits [c] = py_digit c"
| "py_digits (c # d # cs) = (py_digit c \<and> (if d = CHR ''_'' then py_digits cs else py_digits (d # cs)))"

definition numeric_voucher_number :: "string \<Rightarrow> bool" where
  "numeric_voucher_number v =
     (let s = py_strip v; body = (case s of [] \<Rightarrow> [] | c # cs \<Rightarrow> if c \<in> {CHR ''+'', CHR ''-''} then cs else s)
      in py_digits body \<and> length (filter py_digit body) \<le> 4300)"

definition redemption_decline :: "string \<Rightarrow> string \<Rightarrow> string \<Rightarrow> voucher_error option" where
  "redemption_decline merchant_group merchant bank =
     (let name = py_strip merchant; details = py_strip bank; grp = py_lower (py_strip merchant_group) in
      if name = ''Annie Krueger'' \<and> details = ''Omega Holding Company'' then Some VCannotCreditMerchant
      else if name = ''Ronan Oliver'' \<and> details = ''Vigor Bank Group'' then Some VInsufficientFunds
      else if grp = ''insufficient funds'' then Some VInsufficientFunds else None)"

text \<open>\<open>^[A-Z]{3}$\<close> under \<open>re.match\<close>: the dollar also matches before a final newline.\<close>

definition iso4217 :: "string \<Rightarrow> bool" where
  "iso4217 c \<longleftrightarrow> list_all (\<lambda>x. let n = (of_char x :: nat) in 65 \<le> n \<and> n \<le> 90) (take 3 c)
     \<and> (length c = 3 \<or> length c = 4 \<and> c ! 3 = char_of (10 :: nat))"

section \<open>Operations\<close>

definition find_voucher :: "voucher_state \<Rightarrow> string \<Rightarrow> (nat \<times> voucher) option" where
  "find_voucher s serial = tfind (\<lambda>v. vo_serial v = serial) (vc_vouchers s)"

definition put_voucher :: "nat \<Rightarrow> voucher \<Rightarrow> voucher_state \<Rightarrow> voucher_state" where
  "put_voucher k v s = s\<lparr>vc_vouchers := tput k v (vc_vouchers s)\<rparr>"

definition voucher_log :: "voucher_action \<Rightarrow> string \<Rightarrow> nat \<Rightarrow> (string \<times> string) list \<Rightarrow> voucher_state \<Rightarrow> voucher_state" where
  "voucher_log act actor k det s = s\<lparr>vc_audit := vc_audit s
     @ [\<lparr>va_action = act, va_actor = actor, va_voucher = k, va_details = det\<rparr>]\<rparr>"

text \<open>The values of \<open>create\<close>; the columns that are not clamped must fit or the database raises.\<close>

definition new_voucher ::
  "voucher_env \<Rightarrow> int \<Rightarrow> int \<Rightarrow> string \<Rightarrow> string \<Rightarrow> string \<Rightarrow> string \<Rightarrow> string \<Rightarrow> string \<Rightarrow> string \<Rightarrow> voucher" where
  "new_voucher env now amount currency grp issuing institution batch payee callback =
     \<lparr>vo_serial = '''', vo_amount = amount, vo_currency = currency, vo_group = py_strip grp,
      vo_status = VPreactivated, vo_issuing_bb = py_strip issuing, vo_institution = take 20 institution,
      vo_batch = take 12 batch, vo_payee = take 20 payee, vo_callback = take 500 callback,
      vo_expiry = Some (now + 86400 * ve_expiry_days env), vo_agent = '''', vo_merchant = '''', vo_bank = '''',
      vo_merchant_group = '''', vo_redeemed_at = None, vo_transaction = ''''\<rparr>"

definition voucher_fits :: "voucher \<Rightarrow> bool" where
  "voucher_fits v \<longleftrightarrow> \<bar>vo_amount v\<bar> < 10 ^ 14 \<and> length (vo_currency v) \<le> 3 \<and> length (vo_group v) \<le> 50
     \<and> length (vo_issuing_bb v) \<le> 50"

text \<open>
  The retry loop: one candidate, a serial number and a primary key, per attempt. A collision
  of either is an \<open>IntegrityError\<close>, which the last attempt raises.
\<close>

fun insert_voucher ::
  "(string \<times> nat) list \<Rightarrow> voucher \<Rightarrow> voucher_state \<Rightarrow> voucher_error + (voucher_state \<times> nat)" where
  "insert_voucher [] v s = Inl SerialsExhausted"
| "insert_voucher ((serial, k) # cs) v s =
     (if find_voucher s serial \<noteq> None \<or> tget (vc_vouchers s) k \<noteq> None then insert_voucher cs v s
      else let w = v\<lparr>vo_serial := serial\<rparr> in
        Inr (voucher_log VoPreactivated (vo_issuing_bb w) k
          [(''serial_number'', serial), (''group_code'', vo_group w), (''currency'', vo_currency w)]
          (put_voucher k w s), k))"

definition serial_max_retries :: nat where
  "serial_max_retries = 5"

definition preactivate ::
  "voucher_env \<Rightarrow> (nat \<Rightarrow> string \<times> nat) \<Rightarrow> voucher_state \<Rightarrow> int \<Rightarrow> int option \<Rightarrow> string \<Rightarrow> string \<Rightarrow> string
     \<Rightarrow> string \<Rightarrow> string \<Rightarrow> string \<Rightarrow> string \<Rightarrow> voucher_error + (voucher_state \<times> nat)" where
  "preactivate env candidate s now amount currency grp issuing institution batch payee callback =
     (if known_invalid_bb issuing \<or> unregistered_bb env issuing then Inl BBNotFound
      else case amount of
        None \<Rightarrow> Inl InvalidAmount
      | Some cents \<Rightarrow>
          if cents \<le> 0 then Inl InvalidAmount
          else if py_strip grp = '''' then Inl InvalidGroup
          else if \<not> iso4217 currency then Inl InvalidCurrency
          else let v = new_voucher env now cents currency grp issuing institution batch payee callback in
            if \<not> voucher_fits v then Inl ColumnOverflow
            else insert_voucher (map candidate [0..<serial_max_retries]) v s)"

definition activate :: "voucher_env \<Rightarrow> voucher_state \<Rightarrow> string \<Rightarrow> string \<Rightarrow> voucher_error + (voucher_state \<times> nat)" where
  "activate env s serial issuing =
     (if known_invalid_bb issuing \<or> unregistered_bb env issuing then Inl BBNotFound
      else case find_voucher s serial of
        None \<Rightarrow> Inl InvalidSerial
      | Some (k, v) \<Rightarrow> (case voucher_to VActivated v of
          None \<Rightarrow> Inl InvalidSerial
        | Some w \<Rightarrow> Inr (voucher_log VoActivated (py_strip issuing) k
            [(''serial_number'', vo_serial w), (''group_code'', vo_group w), (''new_status'', ''activated'')]
            (put_voucher k w s), k)))"

text \<open>\<open>tx\<close> is the fresh transaction id. The flag \<open>override\<close> and the secret number are not read.\<close>

definition redeem ::
  "voucher_env \<Rightarrow> voucher_state \<Rightarrow> int \<Rightarrow> string \<Rightarrow> string \<Rightarrow> string \<Rightarrow> string \<Rightarrow> string \<Rightarrow> string \<Rightarrow> string
     \<Rightarrow> voucher_error + (voucher_state \<times> nat)" where
  "redeem env s now tx number issuing merchant bank merchant_group agent =
     (if known_invalid_bb issuing \<or> unregistered_bb env issuing then Inl BBNotFound
      else if \<not> numeric_voucher_number number then Inl InvalidNumber
      else case redemption_decline merchant_group merchant bank of
        Some e \<Rightarrow> Inl e
      | None \<Rightarrow> (case find_voucher s number of
          None \<Rightarrow> Inl InvalidSerial
        | Some (k, v) \<Rightarrow> (case voucher_to VConsumed v of
            None \<Rightarrow> Inl InvalidSerial
          | Some w \<Rightarrow> Inr (voucher_log VoRedeemed (py_strip issuing) k
              [(''serial_number'', vo_serial w), (''transaction_id'', tx)]
              (put_voucher k (w\<lparr>vo_agent := take 10 agent, vo_merchant := take 200 merchant,
                vo_bank := take 200 bank, vo_merchant_group := take 100 merchant_group,
                vo_redeemed_at := Some now, vo_transaction := tx\<rparr>) s), k))))"

definition cancel_voucher :: "voucher_state \<Rightarrow> string \<Rightarrow> voucher_error + (voucher_state \<times> nat)" where
  "cancel_voucher s serial = (case find_voucher s serial of
     None \<Rightarrow> Inl InvalidCancellation
   | Some (k, v) \<Rightarrow>
       if vo_status v = VCancelled then Inl AlreadyCancelled
       else (case voucher_to VCancelled v of
         None \<Rightarrow> Inl InvalidCancellation
       | Some w \<Rightarrow> Inr (voucher_log VoCancelled '''' k
           [(''serial_number'', vo_serial w), (''group_code'', vo_group w)] (put_voucher k w s), k)))"

definition voucher_status_check :: "voucher_state \<Rightarrow> int \<Rightarrow> string \<Rightarrow> voucher_error + (nat \<times> voucher)" where
  "voucher_status_check s now serial = (case find_voucher s serial of
     None \<Rightarrow> Inl InvalidSerial
   | Some (k, v) \<Rightarrow>
       if vo_status v = VConsumed then Inl AlreadyUsed
       else if (case vo_expiry v of None \<Rightarrow> False | Some t \<Rightarrow> t < now) then Inl Expired
       else Inr (k, v))"

section \<open>Runs\<close>

datatype voucher_op =
    VoPreactivate "nat \<Rightarrow> string \<times> nat" int "int option" string string string string string string string
  | VoActivate string string
  | VoRedeem int string string string string string string string
  | VoCancel string

fun voucher_step :: "voucher_env \<Rightarrow> voucher_state \<Rightarrow> voucher_op \<Rightarrow> voucher_error + voucher_state" where
  "voucher_step env s (VoPreactivate candidate now amount currency grp issuing institution batch payee callback) =
     map_sum id fst (preactivate env candidate s now amount currency grp issuing institution batch payee callback)"
| "voucher_step env s (VoActivate serial issuing) = map_sum id fst (activate env s serial issuing)"
| "voucher_step env s (VoRedeem now tx number issuing merchant bank merchant_group agent) =
     map_sum id fst (redeem env s now tx number issuing merchant bank merchant_group agent)"
| "voucher_step env s (VoCancel serial) = map_sum id fst (cancel_voucher s serial)"

end
