(* ===== verification/VoucherProps.thy ===== *)
theory VoucherProps
  imports Vouchers
begin

text \<open>
  What holds of vouchers: the audit log explains the status of each, serial numbers and
  redemptions are unique, closed vouchers never change, and expiry does not stop a
  redemption.
\<close>

section \<open>The audit trail of a voucher\<close>

definition action_target :: "voucher_action \<Rightarrow> voucher_status" where
  "action_target act = (case act of VoPreactivated \<Rightarrow> VPreactivated | VoActivated \<Rightarrow> VActivated
     | VoRedeemed \<Rightarrow> VConsumed | VoCancelled \<Rightarrow> VCancelled)"

fun legal :: "voucher_status \<Rightarrow> voucher_action list \<Rightarrow> voucher_status option" where
  "legal st [] = Some st"
| "legal st (act # acts) = (if action_target act \<in> set (voucher_transitions st) then legal (action_target act) acts else None)"

definition trail :: "nat \<Rightarrow> voucher_state \<Rightarrow> voucher_action list" where
  "trail k s = map va_action (filter (\<lambda>e. va_voucher e = k) (vc_audit s))"

lemma legal_snoc:
  "legal st (acts @ [act]) = (case legal st acts of None \<Rightarrow> None
     | Some mid \<Rightarrow> if action_target act \<in> set (voucher_transitions mid) then Some (action_target act) else None)"
  by (induction acts arbitrary: st) auto

lemma trail_log: "trail k (voucher_log act actor j det s) = trail k s @ (if j = k then [act] else [])"
  by (simp add: trail_def voucher_log_def)

lemma trail_put [simp]: "trail k (put_voucher j v s) = trail k s"
  by (simp add: trail_def put_voucher_def)

lemma vouchers_log [simp]: "vc_vouchers (voucher_log act actor j det s) = vc_vouchers s"
  by (simp add: voucher_log_def)

lemma vouchers_put [simp]: "vc_vouchers (put_voucher j v s) = tput j v (vc_vouchers s)"
  by (simp add: put_voucher_def)

text \<open>No legal trail redeems twice, and nothing follows a redemption.\<close>

lemma legal_redeemed:
  "legal st acts = Some end_st \<Longrightarrow> st \<noteq> VConsumed
     \<Longrightarrow> count_list acts VoRedeemed = of_bool (end_st = VConsumed)"
proof (induction acts arbitrary: st)
  case (Cons act acts)
  from Cons.prems have go: "action_target act \<in> set (voucher_transitions st)" "legal (action_target act) acts = Some end_st"
    by (auto split: if_splits)
  show ?case
  proof (cases "act = VoRedeemed")
    case True
    with go(2) have "acts = []" by (cases acts) (simp_all add: action_target_def voucher_transitions_def)
    with True go(2) show ?thesis by (simp add: action_target_def)
  next
    case False
    then have "action_target act \<noteq> VConsumed" by (cases act) (simp_all add: action_target_def)
    from Cons.IH [OF go(2) this] False show ?thesis by simp
  qed
qed simp

section \<open>The invariant\<close>

definition redemption_recorded :: "voucher_state \<Rightarrow> nat \<Rightarrow> voucher \<Rightarrow> bool" where
  "redemption_recorded s k v \<longleftrightarrow> (\<exists>actor. \<lparr>va_action = VoRedeemed, va_actor = actor, va_voucher = k,
     va_details = [(''serial_number'', vo_serial v), (''transaction_id'', vo_transaction v)]\<rparr> \<in> set (vc_audit s))"

definition voucher_ok :: "voucher_state \<Rightarrow> nat \<Rightarrow> voucher \<Rightarrow> bool" where
  "voucher_ok s k v \<longleftrightarrow> legal VNotPreactivated (trail k s) = Some (vo_status v) \<and> 0 < vo_amount v
     \<and> (vo_redeemed_at v \<noteq> None \<longleftrightarrow> vo_status v = VConsumed) \<and> (vo_status v = VConsumed \<longrightarrow> redemption_recorded s k v)"

definition serials_unique :: "voucher table \<Rightarrow> bool" where
  "serials_unique t \<longleftrightarrow> (\<forall>i j v w. tget t i = Some v \<longrightarrow> tget t j = Some w \<longrightarrow> vo_serial v = vo_serial w \<longrightarrow> i = j)"

definition voucher_inv :: "voucher_state \<Rightarrow> bool" where
  "voucher_inv s \<longleftrightarrow> tok (vc_vouchers s) \<and> serials_unique (vc_vouchers s)
     \<and> (\<forall>k. tget (vc_vouchers s) k = None \<longrightarrow> trail k s = [])
     \<and> (\<forall>k v. tget (vc_vouchers s) k = Some v \<longrightarrow> voucher_ok s k v)"

text \<open>What an operation may do to one voucher: create it, or move it along one transition.\<close>

definition moved_to :: "voucher_state \<Rightarrow> nat \<Rightarrow> voucher_action \<Rightarrow> voucher \<Rightarrow> voucher_state \<Rightarrow> bool" where
  "moved_to s k act w s' \<longleftrightarrow> vc_vouchers s' = tput k w (vc_vouchers s)
     \<and> (\<exists>actor det. vc_audit s' = vc_audit s @ [\<lparr>va_action = act, va_actor = actor, va_voucher = k, va_details = det\<rparr>]
          \<and> (act = VoRedeemed \<longrightarrow> det = [(''serial_number'', vo_serial w), (''transaction_id'', vo_transaction w)]))
     \<and> vo_status w = action_target act \<and> 0 < vo_amount w \<and> (vo_redeemed_at w \<noteq> None \<longleftrightarrow> act = VoRedeemed)"

definition voucher_move :: "voucher_state \<Rightarrow> voucher_state \<Rightarrow> bool" where
  "voucher_move s s' \<longleftrightarrow> (\<exists>k act w. moved_to s k act w s' \<and>
     (case tget (vc_vouchers s) k of
        None \<Rightarrow> act = VoPreactivated \<and> find_voucher s (vo_serial w) = None
      | Some v \<Rightarrow> vo_serial w = vo_serial v \<and> vo_status w \<in> set (voucher_transitions (vo_status v))))"

lemma find_voucher_Some: "find_voucher s serial = Some (k, v) \<Longrightarrow> tok (vc_vouchers s)
    \<Longrightarrow> tget (vc_vouchers s) k = Some v \<and> vo_serial v = serial"
  unfolding find_voucher_def by (rule tfind_Some)

lemma find_voucher_None: "find_voucher s serial = None \<Longrightarrow> tget (vc_vouchers s) k = Some v \<Longrightarrow> vo_serial v \<noteq> serial"
  unfolding find_voucher_def by (rule tfind_None)

lemma find_voucher_get:
  assumes "voucher_inv s" "tget (vc_vouchers s) k = Some v"
  shows "find_voucher s (vo_serial v) = Some (k, v)"
  unfolding find_voucher_def by (rule tfind_unique)
    (use assms in \<open>auto simp: voucher_inv_def serials_unique_def\<close>)

lemma moved_trail: "moved_to s k act w s' \<Longrightarrow> trail j s' = trail j s @ (if j = k then [act] else [])"
  by (auto simp: moved_to_def trail_def)

lemma voucher_move_inv:
  assumes inv: "voucher_inv s" and move: "voucher_move s s'"
  shows "voucher_inv s'"
proof -
  from move obtain k act w where m: "moved_to s k act w s'"
    and old: "case tget (vc_vouchers s) k of None \<Rightarrow> act = VoPreactivated \<and> find_voucher s (vo_serial w) = None
      | Some v \<Rightarrow> vo_serial w = vo_serial v \<and> vo_status w \<in> set (voucher_transitions (vo_status v))"
    unfolding voucher_move_def by blast
  have rows: "vc_vouchers s' = tput k w (vc_vouchers s)" using m by (simp add: moved_to_def)
  have new: "j = k" if "tget (vc_vouchers s) j = Some v" "vo_serial v = vo_serial w" for j v
  proof (cases "tget (vc_vouchers s) k")
    case None
    with old find_voucher_None [of s "vo_serial w" j v] that show ?thesis by simp
  next
    case (Some u)
    with old that inv show ?thesis unfolding voucher_inv_def serials_unique_def by auto
  qed
  have "serials_unique (vc_vouchers s')"
    unfolding serials_unique_def rows using inv new
    by (auto simp: table_simps voucher_inv_def serials_unique_def split: if_splits dest: sym)
  moreover have "voucher_ok s' k w"
  proof -
    have "legal VNotPreactivated (trail k s @ [act]) = Some (vo_status w)"
    proof (cases "tget (vc_vouchers s) k")
      case None
      with old inv m show ?thesis
        by (simp add: voucher_inv_def moved_to_def action_target_def voucher_transitions_def)
    next
      case (Some v)
      with inv have "legal VNotPreactivated (trail k s) = Some (vo_status v)" by (auto simp: voucher_inv_def voucher_ok_def)
      with Some old m show ?thesis by (simp add: legal_snoc moved_to_def)
    qed
    moreover have "act = VoRedeemed \<longleftrightarrow> vo_status w = VConsumed"
      using m by (cases act) (simp_all add: moved_to_def action_target_def)
    ultimately show ?thesis
      using m moved_trail [OF m, of k] unfolding voucher_ok_def redemption_recorded_def moved_to_def by auto
  qed
  moreover have "voucher_ok s' j v" if "tget (vc_vouchers s) j = Some v" "j \<noteq> k" for j v
  proof -
    from that inv have "voucher_ok s j v" by (simp add: voucher_inv_def)
    with that(2) m moved_trail [OF m, of j] show ?thesis
      by (auto simp: voucher_ok_def redemption_recorded_def moved_to_def)
  qed
  moreover have "trail j s' = []" if "tget (vc_vouchers s') j = None" for j
    using that inv moved_trail [OF m, of j] by (auto simp: rows table_simps voucher_inv_def split: if_splits)
  ultimately show ?thesis
    using inv unfolding voucher_inv_def rows by (auto simp: table_simps split: if_splits)
qed

section \<open>Every operation is a move\<close>

lemma logged_move:
  assumes "s' = voucher_log act actor k det (put_voucher k w s)" "vo_status w = action_target act" "0 < vo_amount w"
    and "vo_redeemed_at w \<noteq> None \<longleftrightarrow> act = VoRedeemed"
    and "act = VoRedeemed \<longrightarrow> det = [(''serial_number'', vo_serial w), (''transaction_id'', vo_transaction w)]"
  shows "moved_to s k act w s'"
  using assms by (simp add: moved_to_def voucher_log_def put_voucher_def)

lemma insert_voucher_move:
  assumes "insert_voucher cs v s = Inr (s', k)" "vo_status v = VPreactivated" "0 < vo_amount v" "vo_redeemed_at v = None"
  shows "voucher_move s s'"
  using assms
proof (induction cs v s rule: insert_voucher.induct)
  case (2 serial j cs v s)
  show ?case
  proof (cases "find_voucher s serial \<noteq> None \<or> tget (vc_vouchers s) j \<noteq> None")
    case True
    with 2 show ?thesis by (simp split: if_splits)
  next
    case False
    let ?w = "v\<lparr>vo_serial := serial\<rparr>"
    from False 2(2) have s': "s' = voucher_log VoPreactivated (vo_issuing_bb ?w) j
      [(''serial_number'', serial), (''group_code'', vo_group ?w), (''currency'', vo_currency ?w)] (put_voucher j ?w s)"
      by (auto simp: Let_def)
    have "moved_to s j VoPreactivated ?w s'"
      by (rule logged_move [OF s']) (use 2(3-5) in \<open>simp_all add: action_target_def\<close>)
    moreover from False have "find_voucher s serial = None" "tget (vc_vouchers s) j = None" by blast+
    ultimately show ?thesis unfolding voucher_move_def
      by (intro exI [of _ j] exI [of _ VoPreactivated] exI [of _ ?w]) simp
  qed
qed simp

lemma existing_move:
  assumes inv: "voucher_inv s" and found: "find_voucher s serial = Some (k, v)" and m: "moved_to s k act w s'"
    and w: "vo_serial w = vo_serial v" "vo_status w \<in> set (voucher_transitions (vo_status v))"
  shows "voucher_move s s'"
proof -
  from find_voucher_Some [OF found] inv have "tget (vc_vouchers s) k = Some v" by (simp add: voucher_inv_def)
  with m w show ?thesis unfolding voucher_move_def by (intro exI [of _ k] exI [of _ act] exI [of _ w]) simp
qed

lemma found_ok:
  assumes "voucher_inv s" "find_voucher s serial = Some (k, v)"
  shows "voucher_ok s k v"
  using assms find_voucher_Some [OF assms(2)] by (simp add: voucher_inv_def)

lemma voucher_to_Some:
  "voucher_to new v = Some w \<Longrightarrow> w = v\<lparr>vo_status := new\<rparr> \<and> new \<in> set (voucher_transitions (vo_status v))
     \<and> vo_status v \<noteq> VConsumed"
  by (auto simp: voucher_to_def voucher_transitions_def split: if_splits)

lemma voucher_step_move:
  assumes run: "voucher_step env s x = Inr s'" and inv: "voucher_inv s"
  shows "voucher_move s s'"
proof (cases x)
  case (VoPreactivate candidate now amount currency grp issuing institution batch payee callback)
  with run obtain k where pre:
      "preactivate env candidate s now amount currency grp issuing institution batch payee callback = Inr (s', k)"
    by (auto simp: map_sum_Inr_iff)
  then obtain cents where cents: "0 < cents"
    and ins: "insert_voucher (map candidate [0..<serial_max_retries])
      (new_voucher env now cents currency grp issuing institution batch payee callback) s = Inr (s', k)"
    by (auto simp: preactivate_def Let_def not_le split: if_splits option.splits)
  from ins show ?thesis
    by (rule insert_voucher_move) (use cents in \<open>simp_all add: new_voucher_def\<close>)
next
  case (VoActivate serial issuing)
  with run obtain k v w where f: "find_voucher s serial = Some (k, v)" and w: "voucher_to VActivated v = Some w"
    and s': "s' = voucher_log VoActivated (py_strip issuing) k
      [(''serial_number'', vo_serial w), (''group_code'', vo_group w), (''new_status'', ''activated'')] (put_voucher k w s)"
    by (auto simp: activate_def map_sum_Inr_iff split: if_splits option.splits)
  have "moved_to s k VoActivated w s'"
    by (rule logged_move [OF s']) (use voucher_to_Some [OF w] found_ok [OF inv f] in \<open>simp_all add: action_target_def voucher_ok_def\<close>)
  then show ?thesis by (rule existing_move [OF inv f]) (use voucher_to_Some [OF w] in simp_all)
next
  case (VoRedeem now tx number issuing merchant bank merchant_group agent)
  let ?upd = "\<lambda>w. w\<lparr>vo_agent := take 10 agent, vo_merchant := take 200 merchant, vo_bank := take 200 bank,
      vo_merchant_group := take 100 merchant_group, vo_redeemed_at := Some now, vo_transaction := tx\<rparr>"
  from VoRedeem run obtain k v w where f: "find_voucher s number = Some (k, v)" and w: "voucher_to VConsumed v = Some w"
    and s': "s' = voucher_log VoRedeemed (py_strip issuing) k
      [(''serial_number'', vo_serial w), (''transaction_id'', tx)] (put_voucher k (?upd w) s)"
    by (auto simp: redeem_def map_sum_Inr_iff split: if_splits option.splits)
  have "moved_to s k VoRedeemed (?upd w) s'"
    by (rule logged_move [OF s']) (use voucher_to_Some [OF w] found_ok [OF inv f] in \<open>simp_all add: action_target_def voucher_ok_def\<close>)
  then show ?thesis by (rule existing_move [OF inv f]) (use voucher_to_Some [OF w] in simp_all)
next
  case (VoCancel serial)
  with run obtain k v w where f: "find_voucher s serial = Some (k, v)" and w: "voucher_to VCancelled v = Some w"
    and s': "s' = voucher_log VoCancelled '''' k
      [(''serial_number'', vo_serial w), (''group_code'', vo_group w)] (put_voucher k w s)"
    by (auto simp: cancel_voucher_def map_sum_Inr_iff split: if_splits option.splits)
  have "moved_to s k VoCancelled w s'"
    by (rule logged_move [OF s']) (use voucher_to_Some [OF w] found_ok [OF inv f] in \<open>simp_all add: action_target_def voucher_ok_def\<close>)
  then show ?thesis by (rule existing_move [OF inv f]) (use voucher_to_Some [OF w] in simp_all)
qed

text \<open>Rows are never lost, and a terminal row and its trail stay as they are.\<close>

definition vouchers_le :: "voucher_state \<Rightarrow> voucher_state \<Rightarrow> bool" where
  "vouchers_le s t \<longleftrightarrow> (\<forall>k v. tget (vc_vouchers s) k = Some v \<longrightarrow> voucher_terminal v
     \<longrightarrow> tget (vc_vouchers t) k = Some v \<and> trail k t = trail k s)"

lemma voucher_move_le:
  assumes "voucher_move s s'"
  shows "vouchers_le s s'"
  unfolding vouchers_le_def
proof (intro allI impI)
  fix j v assume v: "tget (vc_vouchers s) j = Some v" "voucher_terminal v"
  from assms obtain k act w where m: "moved_to s k act w s'"
    and old: "case tget (vc_vouchers s) k of None \<Rightarrow> act = VoPreactivated \<and> find_voucher s (vo_serial w) = None
      | Some v \<Rightarrow> vo_serial w = vo_serial v \<and> vo_status w \<in> set (voucher_transitions (vo_status v))"
    unfolding voucher_move_def by blast
  from v old have "j \<noteq> k" by (auto simp: voucher_terminal_def voucher_transitions_def)
  with v m moved_trail [OF m, of j] show "tget (vc_vouchers s') j = Some v \<and> trail j s' = trail j s"
    by (simp add: moved_to_def table_simps)
qed

interpretation vou: monotone_system "voucher_step env" "\<lambda>_ _. True" voucher_inv vouchers_le
  for env
proof unfold_locales
  fix s t u x s'
  show "voucher_inv s \<Longrightarrow> True \<Longrightarrow> voucher_step env s x = Inr s' \<Longrightarrow> voucher_inv s'"
    by (blast intro: voucher_move_inv voucher_step_move)
  show "vouchers_le s s" by (simp add: vouchers_le_def)
  show "vouchers_le s t \<Longrightarrow> vouchers_le t u \<Longrightarrow> vouchers_le s u" by (simp add: vouchers_le_def)
  show "voucher_inv s \<Longrightarrow> True \<Longrightarrow> voucher_step env s x = Inr s' \<Longrightarrow> vouchers_le s s'"
    by (blast intro: voucher_move_le voucher_step_move)
qed

definition no_vouchers :: voucher_state where
  "no_vouchers = \<lparr>vc_vouchers = [], vc_audit = []\<rparr>"

lemma no_vouchers_inv: "voucher_inv no_vouchers"
  by (simp add: voucher_inv_def no_vouchers_def serials_unique_def trail_def)

section \<open>The properties\<close>

text \<open>
  C16. Vouchers and their audit log agree: after any calls on the empty system the actions
  recorded for a voucher are a legal path of its state machine that ends in its status, at
  most one of them is a redemption, and exactly the consumed vouchers have one, with the
  transaction id stored on the row; two vouchers never share a serial number.
\<close>

theorem vouchers_explained_by_audit:
  assumes "s = run_ops (voucher_step env) no_vouchers xs"
  shows "(\<forall>k v. tget (vc_vouchers s) k = Some v \<longrightarrow>
      legal VNotPreactivated (trail k s) = Some (vo_status v)
      \<and> count_list (trail k s) VoRedeemed = of_bool (vo_status v = VConsumed)
      \<and> (vo_redeemed_at v \<noteq> None \<longleftrightarrow> vo_status v = VConsumed)
      \<and> (vo_status v = VConsumed \<longrightarrow> redemption_recorded s k v) \<and> 0 < vo_amount v)
    \<and> (\<forall>i j v w. tget (vc_vouchers s) i = Some v \<longrightarrow> tget (vc_vouchers s) j = Some w \<longrightarrow> vo_serial v = vo_serial w \<longrightarrow> i = j)"
proof -
  have inv: "voucher_inv s" unfolding assms by (rule vou.inv_run [OF no_vouchers_inv]) simp
  then have ok: "voucher_ok s k v" if "tget (vc_vouchers s) k = Some v" for k v
    using that by (simp add: voucher_inv_def)
  have "count_list (trail k s) VoRedeemed = of_bool (vo_status v = VConsumed)" if "tget (vc_vouchers s) k = Some v" for k v
    by (rule legal_redeemed [of VNotPreactivated]) (use ok [OF that] in \<open>simp_all add: voucher_ok_def\<close>)
  with inv ok show ?thesis unfolding voucher_inv_def serials_unique_def voucher_ok_def by blast
qed

text \<open>One registered building block that issues a voucher, activates it and redeems it twice.\<close>

definition shop_env :: voucher_env where
  "shop_env = \<lparr>ve_require_registered = True, ve_registered = [(''bb'', True)], ve_expiry_days = 90\<rparr>"

definition shop_candidate :: "nat \<Rightarrow> string \<times> nat" where
  "shop_candidate i = (''123456789012345678'', i)"

definition shop_issue :: voucher_op where
  "shop_issue = VoPreactivate shop_candidate 100 (Some 2500) ''CAD'' ''food'' '' bb '' [] [] [] []"

definition shop_redeem :: "int \<Rightarrow> string \<Rightarrow> voucher_op" where
  "shop_redeem now tx = VoRedeem now tx ''123456789012345678'' ''bb'' ''Shop'' ''Bank'' ''food'' ''7''"

lemma vouchers_explained_by_audit_witness:
  "\<exists>s v. s = run_ops (voucher_step shop_env) no_vouchers
        [shop_issue, VoActivate ''123456789012345678'' ''bb'', shop_redeem 200 ''tx1'', shop_redeem 300 ''tx2'', shop_issue]
    \<and> tget (vc_vouchers s) 0 = Some v \<and> vo_status v = VConsumed \<and> vo_transaction v = ''tx1''
    \<and> trail 0 s = [VoPreactivated, VoActivated, VoRedeemed] \<and> count_list (trail 0 s) VoRedeemed = 1
    \<and> redemption_recorded s 0 v"
proof -
  let ?s = "run_ops (voucher_step shop_env) no_vouchers
    [shop_issue, VoActivate ''123456789012345678'' ''bb'', shop_redeem 200 ''tx1'', shop_redeem 300 ''tx2'', shop_issue]"
  have "map_option (\<lambda>v. (vo_status v, vo_transaction v)) (tget (vc_vouchers ?s) 0) = Some (VConsumed, ''tx1'')" by code_simp
  then obtain v where v: "tget (vc_vouchers ?s) 0 = Some v" "vo_status v = VConsumed" "vo_transaction v = ''tx1''" by auto
  moreover have "trail 0 ?s = [VoPreactivated, VoActivated, VoRedeemed]" by code_simp
  moreover from vouchers_explained_by_audit [OF refl, of shop_env] v(1,2)
  have "count_list (trail 0 ?s) VoRedeemed = 1 \<and> redemption_recorded ?s 0 v" by fastforce
  ultimately show ?thesis by blast
qed

text \<open>
  Closed vouchers stay closed: once a voucher is consumed or cancelled, no later call
  changes its row or adds an audit entry for it, and redeeming, activating or cancelling its
  serial number is refused for ever.
\<close>

theorem closed_vouchers_final:
  assumes "s = run_ops (voucher_step env) no_vouchers xs" and "tget (vc_vouchers s) k = Some v" "voucher_terminal v"
    and "t = run_ops (voucher_step env) s ys"
  shows "tget (vc_vouchers t) k = Some v \<and> trail k t = trail k s
    \<and> isl (redeem env t now tx (vo_serial v) issuing merchant bank merchant_group agent)
    \<and> isl (activate env t (vo_serial v) issuing) \<and> isl (cancel_voucher t (vo_serial v))"
proof -
  have inv: "voucher_inv s" unfolding assms(1) by (rule vou.inv_run [OF no_vouchers_inv]) simp
  have "vouchers_le s t" unfolding assms(4) by (rule vou.rel_run [OF inv]) simp
  with assms(2,3) have kept: "tget (vc_vouchers t) k = Some v" "trail k t = trail k s" by (auto simp: vouchers_le_def)
  have "voucher_inv t" unfolding assms(4) by (rule vou.inv_run [OF inv]) simp
  from find_voucher_get [OF this kept(1)] have found: "find_voucher t (vo_serial v) = Some (k, v)" .
  have "voucher_to new v = None" for new
    using assms(3) by (auto simp: voucher_to_def voucher_terminal_def voucher_transitions_def)
  then show ?thesis
    using kept found by (simp add: redeem_def activate_def cancel_voucher_def split: option.split)
qed

lemma closed_vouchers_final_witness:
  "\<exists>s v. s = run_ops (voucher_step shop_env) no_vouchers
        [shop_issue, VoActivate ''123456789012345678'' ''bb'', shop_redeem 200 ''tx1'']
    \<and> tget (vc_vouchers s) 0 = Some v \<and> vo_status v = VConsumed
    \<and> isl (redeem shop_env (run_ops (voucher_step shop_env) s [shop_issue]) 400 ''tx3'' (vo_serial v) ''bb'' ''Shop'' ''Bank'' ''food'' ''7'')"
proof -
  let ?s = "run_ops (voucher_step shop_env) no_vouchers
    [shop_issue, VoActivate ''123456789012345678'' ''bb'', shop_redeem 200 ''tx1'']"
  have "map_option vo_status (tget (vc_vouchers ?s) 0) = Some VConsumed" by code_simp
  then obtain v where v: "tget (vc_vouchers ?s) 0 = Some v" "vo_status v = VConsumed" by auto
  then have closed: "voucher_terminal v" by (simp add: voucher_terminal_def)
  show ?thesis
    by (intro exI [of _ ?s] exI [of _ v] conjI refl v
        closed_vouchers_final [OF refl v(1) closed refl, THEN conjunct2, THEN conjunct2, THEN conjunct1])
qed

text \<open>
  Expiry does not count: whatever the expiry date, an activated voucher whose status
  check reports it as expired is still redeemed by a request that passes the other checks.
\<close>

theorem expired_voucher_redeems:
  assumes "s = run_ops (voucher_step env) no_vouchers xs" and "tget (vc_vouchers s) k = Some v" "vo_status v = VActivated"
    and "voucher_status_check s now (vo_serial v) = Inl Expired"
    and "numeric_voucher_number (vo_serial v)" "redemption_decline merchant_group merchant bank = None"
    and "\<not> known_invalid_bb issuing" "\<not> unregistered_bb env issuing"
  shows "\<exists>t w. redeem env s now tx (vo_serial v) issuing merchant bank merchant_group agent = Inr (t, k)
    \<and> tget (vc_vouchers t) k = Some w \<and> vo_status w = VConsumed \<and> vo_expiry w = vo_expiry v \<and> vo_redeemed_at w = Some now"
proof -
  have inv: "voucher_inv s" unfolding assms(1) by (rule vou.inv_run [OF no_vouchers_inv]) simp
  from find_voucher_get [OF inv assms(2)] assms(3,5-8) show ?thesis
    by (simp add: redeem_def voucher_to_def voucher_transitions_def table_simps)
qed

lemma expired_voucher_redeems_witness:
  "\<exists>s t w. s = run_ops (voucher_step shop_env) no_vouchers [shop_issue, VoActivate ''123456789012345678'' ''bb'']
    \<and> voucher_status_check s 9000000 ''123456789012345678'' = Inl Expired
    \<and> redeem shop_env s 9000000 ''tx'' ''123456789012345678'' ''bb'' ''Shop'' ''Bank'' ''food'' ''7'' = Inr (t, 0)
    \<and> tget (vc_vouchers t) 0 = Some w \<and> vo_status w = VConsumed \<and> vo_redeemed_at w = Some 9000000"
proof -
  let ?s = "run_ops (voucher_step shop_env) no_vouchers [shop_issue, VoActivate ''123456789012345678'' ''bb'']"
  have "map_option (\<lambda>v. (vo_status v, vo_serial v)) (tget (vc_vouchers ?s) 0) = Some (VActivated, ''123456789012345678'')"
    by code_simp
  then obtain v where v: "tget (vc_vouchers ?s) 0 = Some v" "vo_status v = VActivated" "vo_serial v = ''123456789012345678''"
    by auto
  have "isl (voucher_status_check ?s 9000000 ''123456789012345678'')
      \<and> projl (voucher_status_check ?s 9000000 ''123456789012345678'') = Expired" by code_simp
  then have expired: "voucher_status_check ?s 9000000 ''123456789012345678'' = Inl Expired"
    by (cases "voucher_status_check ?s 9000000 ''123456789012345678''") auto
  have checks: "numeric_voucher_number ''123456789012345678''" "redemption_decline ''food'' ''Shop'' ''Bank'' = None"
    "\<not> known_invalid_bb ''bb''" "\<not> unregistered_bb shop_env ''bb''" by code_simp+
  from expired_voucher_redeems [OF refl v(1,2), unfolded v(3), OF expired checks] expired show ?thesis by blast
qed

end
