(* ===== verification/Bills.thy ===== *)
theory Bills
  imports PaymentAttempts
begin

text \<open>
  Person to government payments: \<open>GovStackP2GService\<close> of \<open>govstack_services.py\<close> over
  \<open>GovStackBill\<close> and \<open>GovStackBillPayment\<close>. Bills are put into the table by staff, not by
  the service, with any status; what staff later change in a bill by hand is not modelled. Amounts are in cents; fingerprints, the text of a primary key and the keys of
  new rows are arguments.
\<close>

section \<open>Rows\<close>

datatype bill_status = BillUnpaid | BillPaid | BillOverdue | BillCancelled

record bill =
  bi_bill_id :: string
  bi_amount :: int
  bi_currency :: string
  bi_status :: bill_status
  bi_tenant :: string

datatype bill_payment_status = PaymentPending | PaymentCompleted | PaymentFailed

record bill_payment =
  bp_request :: string
  bp_bill :: nat
  bp_inquiry :: string
  bp_reference :: string
  bp_correlation :: string
  bp_payer_fi :: string
  bp_tenant :: string
  bp_amount :: int
  bp_currency :: string
  bp_status :: bill_payment_status

datatype bill_action = BillPaymentRequested | BillPaidAction

record bill_audit =
  ba_action :: bill_action
  ba_actor :: string
  ba_object :: nat
  ba_details :: "(string \<times> string) list"

text \<open>\<open>bt_enqueued\<close> is what the provider runtime was asked to do after commit.\<close>

record bill_state =
  bt_bills :: "bill table"
  bt_payments :: "bill_payment table"
  bt_audit :: "bill_audit list"
  bt_pay :: pay_state
  bt_enqueued :: "nat list"

datatype bill_error = BillNotFound | BillPaymentNotFound | DuplicateBillPayment | BillAttempt pay_error

text \<open>Settings and digests.\<close>

record bill_env =
  bn_runtime :: bool
  bn_key :: "nat \<Rightarrow> string"
  bn_fingerprint :: "nat \<times> nat \<times> int \<times> string \<Rightarrow> string"

section \<open>Lookups\<close>

text \<open>\<open>first()\<close> on a query without an order takes the least primary key.\<close>

definition first_by_key :: "('r \<Rightarrow> bool) \<Rightarrow> 'r table \<Rightarrow> (nat \<times> 'r) option" where
  "first_by_key P t = (case filter (\<lambda>kr. P (snd kr)) t of [] \<Rightarrow> None
     | kr # krs \<Rightarrow> Some (fold (\<lambda>a b. if fst a < fst b then a else b) krs kr))"

text \<open>A lookup is scoped to the tenant only when the caller declares one.\<close>

definition in_tenant :: "string \<Rightarrow> string \<Rightarrow> bool" where
  "in_tenant declared tenant \<longleftrightarrow> declared = '''' \<or> tenant = declared"

definition find_bill :: "bill_state \<Rightarrow> string \<Rightarrow> string \<Rightarrow> (nat \<times> bill) option" where
  "find_bill s bill_id tenant =
     first_by_key (\<lambda>b. bi_bill_id b = bill_id \<and> in_tenant tenant (bi_tenant b)) (bt_bills s)"

definition get_bill :: "bill_state \<Rightarrow> string \<Rightarrow> string \<Rightarrow> bill_error + (nat \<times> bill)" where
  "get_bill s bill_id tenant = (case find_bill s bill_id tenant of None \<Rightarrow> Inl BillNotFound | Some kb \<Rightarrow> Inr kb)"

definition get_transfer_request :: "bill_state \<Rightarrow> string \<Rightarrow> string \<Rightarrow> bill_error + (nat \<times> bill_payment)" where
  "get_transfer_request s request tenant =
     (case first_by_key (\<lambda>p. bp_request p = request \<and> in_tenant tenant (bp_tenant p)) (bt_payments s) of
        None \<Rightarrow> Inl BillPaymentNotFound | Some kp \<Rightarrow> Inr kp)"

section \<open>Transfer requests\<close>

definition new_bill_payment ::
  "nat \<Rightarrow> bill \<Rightarrow> string \<Rightarrow> string \<Rightarrow> string \<Rightarrow> string \<Rightarrow> string \<Rightarrow> string \<Rightarrow> bill_payment" where
  "new_bill_payment bk b request inquiry reference correlation payer tenant =
     \<lparr>bp_request = take 100 request, bp_bill = bk, bp_inquiry = take 100 inquiry, bp_reference = take 100 reference,
      bp_correlation = take 100 correlation, bp_payer_fi = take 100 payer, bp_tenant = take 100 tenant,
      bp_amount = bi_amount b, bp_currency = bi_currency b, bp_status = PaymentCompleted\<rparr>"

text \<open>The key, the unique constraint on tenant and request, and the check on the amount.\<close>

definition payment_clash :: "bill_payment table \<Rightarrow> nat \<Rightarrow> bill_payment \<Rightarrow> bool" where
  "payment_clash t pk p \<longleftrightarrow> tget t pk \<noteq> None \<or> bp_amount p \<le> 0
     \<or> list_ex (\<lambda>kq. bp_tenant (snd kq) = bp_tenant p \<and> bp_request (snd kq) = bp_request p) t"

definition p2g_operation :: string where
  "p2g_operation = ''p2g_bill_notification''"

definition p2g_defaults :: "bill_payment \<Rightarrow> attempt" where
  "p2g_defaults p = \<lparr>pa_tenant = '''', pa_claim_token = '''', pa_claim_expires_at = None, pa_claim_generation = 0,
     pa_claim_heartbeat_at = None, pa_submission_intent = NoIntent, pa_recovery_evidence = NoEvidence,
     pa_request_id = '''', pa_operation = '''', pa_source_bb_id = '''', pa_provider_attempt_id = '''',
     pa_external_transaction_id = bp_reference p, pa_amount = Some (bp_amount p), pa_currency = bp_currency p,
     pa_status = APending, pa_failure_code = '''', pa_failure_category = '''', pa_retryable = False,
     pa_attempt_count = 0, pa_next_retry_at = None, pa_last_error = '''', pa_payload_fingerprint = '''',
     pa_version = 1\<rparr>"

definition p2g_review :: pay_outcome where
  "p2g_review = (plain_outcome ''review'')\<lparr>po_code := ''P2G_SETTLEMENT_VERIFICATION_REQUIRED'',
     po_category := ''reconciliation'',
     po_message := ''Payment notification recorded; settlement verification is required.''\<rparr>"

text \<open>The settlement-verification record of a payment.\<close>

definition record_settlement_check ::
  "bill_env \<Rightarrow> bill_state \<Rightarrow> int \<Rightarrow> nat \<Rightarrow> nat \<Rightarrow> nat \<Rightarrow> bill_payment \<Rightarrow> string \<Rightarrow> string \<Rightarrow> bill_error + bill_state" where
  "record_settlement_check env s now ak bk pk p request tenant =
     (case get_or_create_attempt (bt_pay s) ak tenant p2g_operation request
         (bn_fingerprint env (bk, pk, bp_amount p, bp_currency p)) (p2g_defaults p) True of
        Inl e \<Rightarrow> Inl (BillAttempt e)
      | Inr (q, k, created) \<Rightarrow>
          if bn_runtime env then Inr (s\<lparr>bt_pay := q, bt_enqueued := bt_enqueued s @ [k]\<rparr>)
          else (case apply_outcome q now k p2g_review of
            Inl e \<Rightarrow> Inl (BillAttempt e)
          | Inr q' \<Rightarrow> Inr (s\<lparr>bt_pay := q'\<rparr>)))"

definition pay_bill :: "nat \<Rightarrow> bill \<Rightarrow> bill_state \<Rightarrow> bill_state" where
  "pay_bill bk b s = (if bi_status b \<noteq> BillPaid
     then s\<lparr>bt_bills := tput bk (b\<lparr>bi_status := BillPaid\<rparr>) (bt_bills s)\<rparr> else s)"

definition bill_log :: "bill_action \<Rightarrow> string \<Rightarrow> nat \<Rightarrow> (string \<times> string) list \<Rightarrow> bill_state \<Rightarrow> bill_state" where
  "bill_log act actor k det s = s\<lparr>bt_audit := bt_audit s
     @ [\<lparr>ba_action = act, ba_actor = actor, ba_object = k, ba_details = det\<rparr>]\<rparr>"

text \<open>\<open>pk\<close> and \<open>ak\<close> are the keys a new payment and a new attempt get.\<close>

definition create_transfer_request ::
  "bill_env \<Rightarrow> bill_state \<Rightarrow> int \<Rightarrow> nat \<Rightarrow> nat \<Rightarrow> string \<Rightarrow> string \<Rightarrow> string \<Rightarrow> string \<Rightarrow> string \<Rightarrow> string \<Rightarrow> string
     \<Rightarrow> bill_error + bill_state" where
  "create_transfer_request env s now pk ak request bill_id inquiry reference correlation payer tenant =
     (case find_bill s bill_id tenant of
        None \<Rightarrow> Inl BillNotFound
      | Some (bk, b) \<Rightarrow>
          let p = new_bill_payment bk b request inquiry reference correlation payer tenant in
          if payment_clash (bt_payments s) pk p then Inl DuplicateBillPayment
          else case record_settlement_check env (s\<lparr>bt_payments := tput pk p (bt_payments s)\<rparr>) now ak bk pk p request tenant of
            Inl e \<Rightarrow> Inl e
          | Inr s1 \<Rightarrow> Inr (bill_log BillPaymentRequested '''' pk
              [(''request_id'', bp_request p), (''bill_pk'', bn_key env bk)] (pay_bill bk b s1)))"

definition mark_bill_paid :: "bill_env \<Rightarrow> bill_state \<Rightarrow> string \<Rightarrow> string \<Rightarrow> string \<Rightarrow> bill_error + bill_state" where
  "mark_bill_paid env s bill_id tenant actor = (case find_bill s bill_id tenant of
     None \<Rightarrow> Inl BillNotFound
   | Some (bk, b) \<Rightarrow> Inr (bill_log BillPaidAction actor bk
       [(''bill_pk'', bn_key env bk),
        (''trigger'', if bi_status b \<noteq> BillPaid then ''status_transition'' else ''already_paid_noop'')]
       (pay_bill bk b s)))"

section \<open>Runs\<close>

text \<open>\<open>BoImport\<close> is staff putting a bill into the table, under its constraints.\<close>

datatype bill_op =
    BoImport nat bill
  | BoTransfer int nat nat string string string string string string string
  | BoMarkPaid string string string

definition import_bill :: "bill_state \<Rightarrow> nat \<Rightarrow> bill \<Rightarrow> bill_error + bill_state" where
  "import_bill s bk b =
     (if tget (bt_bills s) bk \<noteq> None \<or> bi_amount b \<le> 0
         \<or> list_ex (\<lambda>kc. bi_tenant (snd kc) = bi_tenant b \<and> bi_bill_id (snd kc) = bi_bill_id b) (bt_bills s)
      then Inl (BillAttempt UniqueViolation)
      else Inr (s\<lparr>bt_bills := tput bk b (bt_bills s)\<rparr>))"

fun bill_step :: "bill_env \<Rightarrow> bill_state \<Rightarrow> bill_op \<Rightarrow> bill_error + bill_state" where
  "bill_step env s (BoImport bk b) = import_bill s bk b"
| "bill_step env s (BoTransfer now pk ak request bill_id inquiry reference correlation payer tenant) =
     create_transfer_request env s now pk ak request bill_id inquiry reference correlation payer tenant"
| "bill_step env s (BoMarkPaid bill_id tenant actor) = mark_bill_paid env s bill_id tenant actor"

end
