(* ===== verification/BillProps.thy ===== *)
theory BillProps
  imports Bills RuntimeProps
begin

text \<open>
  What holds of bills: payments and paid bills explain each other, tenants do not see each
  other, a bill can be paid again and again, and a notification without a reference is
  submitted to the provider as a new payment.
\<close>

section \<open>Lookups\<close>

lemma fold_least_mem: "fold (\<lambda>a b. if fst a < fst b then a else b) krs kr \<in> set (kr # krs)"
proof (induction krs arbitrary: kr)
  case (Cons x krs)
  from Cons.IH [of "if fst x < fst kr then x else kr"] show ?case by (auto split: if_splits)
qed simp

lemma first_by_key_Some:
  assumes "first_by_key P t = Some (k, r)" "tok t"
  shows "tget t k = Some r \<and> P r"
proof -
  from assms(1) obtain kr krs where "filter (\<lambda>kr. P (snd kr)) t = kr # krs"
    "fold (\<lambda>a b. if fst a < fst b then a else b) krs kr = (k, r)"
    by (auto simp: first_by_key_def split: list.splits)
  with fold_least_mem [of krs kr] have "(k, r) \<in> set (filter (\<lambda>kr. P (snd kr)) t)" by simp
  with assms(2) show ?thesis by (simp add: tget_iff)
qed

lemma filter_tput:
  "\<not> P r \<Longrightarrow> (\<And>q. tget t k = Some q \<Longrightarrow> \<not> P q) \<Longrightarrow> filter (\<lambda>kr. P (snd kr)) (tput k r t) = filter (\<lambda>kr. P (snd kr)) t"
proof (induction t)
  case Nil
  then show ?case by (simp add: tput_def)
next
  case (Cons x t)
  then show ?case by (cases x) (auto simp: tput_Cons tget_Cons split: if_splits)
qed

lemma first_by_key_tput:
  "\<not> P r \<Longrightarrow> (\<And>q. tget t k = Some q \<Longrightarrow> \<not> P q) \<Longrightarrow> first_by_key P (tput k r t) = first_by_key P t"
  using filter_tput [of P r t k] by (simp add: first_by_key_def)

lemma find_bill_Some:
  "find_bill s bill_id tenant = Some (k, b) \<Longrightarrow> tok (bt_bills s)
     \<Longrightarrow> tget (bt_bills s) k = Some b \<and> bi_bill_id b = bill_id \<and> in_tenant tenant (bi_tenant b)"
  unfolding find_bill_def by (drule (1) first_by_key_Some) simp

lemma bill_log_fields [simp]:
  "bt_bills (bill_log act actor k det s) = bt_bills s" "bt_payments (bill_log act actor k det s) = bt_payments s"
  "bt_pay (bill_log act actor k det s) = bt_pay s" "bt_enqueued (bill_log act actor k det s) = bt_enqueued s"
  "bt_audit (bill_log act actor k det s) = bt_audit s @ [\<lparr>ba_action = act, ba_actor = actor, ba_object = k, ba_details = det\<rparr>]"
  by (simp_all add: bill_log_def)

lemma pay_bill_fields [simp]:
  "bt_payments (pay_bill bk b s) = bt_payments s" "bt_pay (pay_bill bk b s) = bt_pay s"
  "bt_enqueued (pay_bill bk b s) = bt_enqueued s" "bt_audit (pay_bill bk b s) = bt_audit s"
  by (simp_all add: pay_bill_def)

lemma pay_bill_rows:
  "tget (bt_bills s) bk = Some b \<Longrightarrow> tget (bt_bills (pay_bill bk b s)) j = (if j = bk then Some (b\<lparr>bi_status := BillPaid\<rparr>) else tget (bt_bills s) j)"
  by (cases b) (auto simp: pay_bill_def table_simps)

section \<open>The settlement-verification record\<close>

definition settlement_check :: "bill_env \<Rightarrow> bill_payment \<Rightarrow> attempt \<Rightarrow> bool" where
  "settlement_check env p a \<longleftrightarrow> pa_tenant a = bp_tenant p \<and> pa_operation a = p2g_operation \<and> pa_request_id a = bp_request p
     \<and> pa_amount a = Some (bp_amount p) \<and> pa_currency a = bp_currency p \<and> (\<not> bn_runtime env \<longrightarrow> pa_status a = AReview)"

text \<open>No attempt for the tenant and request: the record is a new attempt, for review or enqueued.\<close>

definition no_attempt :: "pay_state \<Rightarrow> string \<Rightarrow> string \<Rightarrow> bool" where
  "no_attempt q tenant request \<longleftrightarrow> (\<forall>ka\<in>set (ps_attempts q). \<not> scope_match tenant p2g_operation request (snd ka))"

definition new_check :: "bill_env \<Rightarrow> nat \<Rightarrow> nat \<Rightarrow> bill_payment \<Rightarrow> string \<Rightarrow> string \<Rightarrow> attempt" where
  "new_check env bk pk p request tenant = (p2g_defaults p)\<lparr>pa_tenant := take 100 tenant, pa_operation := p2g_operation,
     pa_request_id := take 100 request, pa_payload_fingerprint := bn_fingerprint env (bk, pk, bp_amount p, bp_currency p)\<rparr>"

lemma p2g_operation_short: "take 30 p2g_operation = p2g_operation"
  by (simp add: p2g_operation_def)

lemma create_check:
  assumes "no_attempt q tenant request"
  shows "get_or_create_attempt q ak tenant p2g_operation request (bn_fingerprint env (bk, pk, bp_amount p, bp_currency p)) (p2g_defaults p) True
    = (if tget (ps_attempts q) ak \<noteq> None then Inl UniqueViolation
       else let a = new_check env bk pk p request tenant in
         Inr (pay_log ak a AttemptCreated (DetOperation p2g_operation) (put_attempt ak a q), ak, True))"
proof -
  have "List.find (\<lambda>ka. scope_match tenant p2g_operation request (snd ka)) (ps_attempts q) = None"
    using assms by (auto simp: find_None_iff no_attempt_def)
  then show ?thesis
    by (simp add: get_or_create_attempt_def Let_def new_check_def p2g_operation_short)
qed

lemma review_target: "target_status p2g_review = AReview"
  by (simp add: target_status_def p2g_review_def plain_outcome_def outcome_to_status_def)

lemma record_check:
  assumes free: "no_attempt (bt_pay s) tenant request" "tget (ps_attempts (bt_pay s)) ak = None"
    and p: "bp_request p = take 100 request" "bp_tenant p = take 100 tenant"
  obtains s' a where "record_settlement_check env s now ak bk pk p request tenant = Inr s'"
    "ps_attempts (bt_pay s') = tput ak a (ps_attempts (bt_pay s))" "settlement_check env p a"
    "bt_bills s' = bt_bills s" "bt_payments s' = bt_payments s" "bt_audit s' = bt_audit s"
    "bn_runtime env \<longrightarrow> a = new_check env bk pk p request tenant \<and> bt_enqueued s' = bt_enqueued s @ [ak]
       \<and> ps_intents (bt_pay s') = ps_intents (bt_pay s)"
proof -
  let ?a = "new_check env bk pk p request tenant"
  let ?q = "pay_log ak ?a AttemptCreated (DetOperation p2g_operation) (put_attempt ak ?a (bt_pay s))"
  have created: "get_or_create_attempt (bt_pay s) ak tenant p2g_operation request
      (bn_fingerprint env (bk, pk, bp_amount p, bp_currency p)) (p2g_defaults p) True = Inr (?q, ak, True)"
    by (simp add: create_check [OF free(1)] free(2) Let_def)
  have a: "pa_status ?a = APending" "pa_tenant ?a = bp_tenant p" "pa_operation ?a = p2g_operation"
    "pa_request_id ?a = bp_request p" "pa_amount ?a = Some (bp_amount p)" "pa_currency ?a = bp_currency p"
    by (simp_all add: new_check_def p2g_defaults_def p)
  show ?thesis
  proof (cases "bn_runtime env")
    case True
    let ?s' = "s\<lparr>bt_pay := ?q, bt_enqueued := bt_enqueued s @ [ak]\<rparr>"
    have "record_settlement_check env s now ak bk pk p request tenant = Inr ?s'"
      by (simp add: record_settlement_check_def created True)
    then show ?thesis by (rule that [of ?s' ?a]) (simp_all add: True a settlement_check_def)
  next
    case False
    have row: "tget (ps_attempts ?q) ak = Some ?a" by (simp add: table_simps)
    have "\<not> attempt_terminal ?a" "target_status p2g_review \<in> set (allowed_transitions (pa_status ?a))"
      by (simp_all add: attempt_terminal_def a review_target allowed_transitions_def)
    from apply_outcome_allowed [OF row this]
    obtain q' b where q': "apply_outcome ?q now ak p2g_review = Inr q'" by blast
    let ?s' = "s\<lparr>bt_pay := q'\<rparr>"
    have run: "record_settlement_check env s now ak bk pk p request tenant = Inr ?s'"
      by (simp add: record_settlement_check_def created False q')
    from q' show ?thesis
    proof (cases rule: apply_outcome_cases)
      case (stays c)
      with row a show ?thesis by (simp add: attempt_terminal_def)
    next
      case (moves c b)
      with row have c: "c = ?a" by simp
      have "ps_attempts q' = tput ak b (ps_attempts (bt_pay s))" using moves(4) by (simp add: tput_def)
      moreover have "settlement_check env p b"
        using moves(5,6) a by (simp add: c settlement_check_def review_target quiet_row_def same_identity_def)
      ultimately show ?thesis using False by (intro that [OF run, of b]) simp_all
    qed
  qed
qed

section \<open>The invariant\<close>

definition payment_ok :: "bill_env \<Rightarrow> bill_state \<Rightarrow> bill_payment \<Rightarrow> bool" where
  "payment_ok env s p \<longleftrightarrow> bp_status p = PaymentCompleted
     \<and> (\<exists>b. tget (bt_bills s) (bp_bill p) = Some b \<and> bi_status b = BillPaid \<and> bp_amount p = bi_amount b
          \<and> bp_currency p = bi_currency b \<and> (bp_tenant p = '''' \<or> bp_tenant p = take 100 (bi_tenant b)))
     \<and> (\<exists>k a. tget (ps_attempts (bt_pay s)) k = Some a \<and> settlement_check env p a)"

definition paid_for :: "bill_state \<Rightarrow> nat \<Rightarrow> bool" where
  "paid_for s bk \<longleftrightarrow> (\<exists>pk p. tget (bt_payments s) pk = Some p \<and> bp_bill p = bk)
     \<or> (\<exists>e\<in>set (bt_audit s). ba_action e = BillPaidAction \<and> ba_object e = bk)"

definition requests_unique :: "bill_payment table \<Rightarrow> bool" where
  "requests_unique t \<longleftrightarrow> (\<forall>i j p q. tget t i = Some p \<longrightarrow> tget t j = Some q
     \<longrightarrow> bp_tenant p = bp_tenant q \<longrightarrow> bp_request p = bp_request q \<longrightarrow> i = j)"

definition attempts_paid :: "bill_state \<Rightarrow> bool" where
  "attempts_paid s \<longleftrightarrow> (\<forall>k a. tget (ps_attempts (bt_pay s)) k = Some a \<longrightarrow> pa_operation a = p2g_operation
     \<longrightarrow> (\<exists>pk p. tget (bt_payments s) pk = Some p \<and> bp_tenant p = pa_tenant a \<and> bp_request p = pa_request_id a))"

text \<open>The entries of payment requests in the audit log are those of the payments, in their order.\<close>

definition request_entry :: "bill_env \<Rightarrow> nat \<times> bill_payment \<Rightarrow> bill_audit" where
  "request_entry env kp = \<lparr>ba_action = BillPaymentRequested, ba_actor = '''', ba_object = fst kp,
     ba_details = [(''request_id'', bp_request (snd kp)), (''bill_pk'', bn_key env (bp_bill (snd kp)))]\<rparr>"

definition requests_logged :: "bill_env \<Rightarrow> bill_state \<Rightarrow> bool" where
  "requests_logged env s \<longleftrightarrow> filter (\<lambda>e. ba_action e = BillPaymentRequested) (bt_audit s) = map (request_entry env) (bt_payments s)"

definition bill_inv :: "bill_env \<Rightarrow> bill_state \<Rightarrow> bool" where
  "bill_inv env s \<longleftrightarrow> tok (bt_bills s) \<and> tok (bt_payments s) \<and> tok (ps_attempts (bt_pay s))
     \<and> (\<forall>pk p. tget (bt_payments s) pk = Some p \<longrightarrow> payment_ok env s p) \<and> requests_unique (bt_payments s)
     \<and> (\<forall>bk b. tget (bt_bills s) bk = Some b \<longrightarrow> (bi_status b = BillPaid \<longleftrightarrow> paid_for s bk)) \<and> attempts_paid s
     \<and> (\<forall>e\<in>set (bt_audit s). ba_action e = BillPaidAction \<longrightarrow> tget (bt_bills s) (ba_object e) \<noteq> None)
     \<and> requests_logged env s"

lemma bill_invD:
  assumes "bill_inv env s"
  shows "tok (bt_bills s)" "tok (bt_payments s)" "tok (ps_attempts (bt_pay s))" "requests_unique (bt_payments s)"
    "attempts_paid s" "tget (bt_payments s) pk = Some p \<Longrightarrow> payment_ok env s p"
    "tget (bt_bills s) bk = Some b \<Longrightarrow> bi_status b = BillPaid \<longleftrightarrow> paid_for s bk"
    "e \<in> set (bt_audit s) \<Longrightarrow> ba_action e = BillPaidAction \<Longrightarrow> tget (bt_bills s) (ba_object e) \<noteq> None"
    "requests_logged env s"
  using assms unfolding bill_inv_def by blast+

text \<open>A transfer that passes the lookup and the constraints always commits.\<close>

lemma no_clash_no_attempt:
  assumes inv: "bill_inv env s" and free: "\<not> payment_clash (bt_payments s) pk p"
    and p: "bp_request p = take 100 request" "bp_tenant p = take 100 tenant"
  shows "no_attempt (bt_pay s) tenant request"
  unfolding no_attempt_def
proof (intro ballI notI)
  fix ka assume ka: "ka \<in> set (ps_attempts (bt_pay s))" "scope_match tenant p2g_operation request (snd ka)"
  obtain k a where [simp]: "ka = (k, a)" by (cases ka)
  from ka bill_invD(3) [OF inv] have "tget (ps_attempts (bt_pay s)) k = Some a" by (simp add: tget_iff)
  moreover from ka(2) have a: "pa_operation a = p2g_operation" "pa_tenant a = take 100 tenant" "pa_request_id a = take 100 request"
    by (simp_all add: scope_match_def p2g_operation_short)
  ultimately obtain j q where "tget (bt_payments s) j = Some q" "bp_tenant q = bp_tenant p" "bp_request q = bp_request p"
    using bill_invD(5) [OF inv] unfolding attempts_paid_def p by metis
  with free show False using tget_in_set [of "bt_payments s" j q] by (auto simp: payment_clash_def list_ex_iff)
qed

lemma new_bill_payment_fields [simp]:
  "bp_request (new_bill_payment bk b request inquiry reference correlation payer tenant) = take 100 request"
  "bp_tenant (new_bill_payment bk b request inquiry reference correlation payer tenant) = take 100 tenant"
  "bp_bill (new_bill_payment bk b request inquiry reference correlation payer tenant) = bk"
  "bp_amount (new_bill_payment bk b request inquiry reference correlation payer tenant) = bi_amount b"
  "bp_currency (new_bill_payment bk b request inquiry reference correlation payer tenant) = bi_currency b"
  "bp_status (new_bill_payment bk b request inquiry reference correlation payer tenant) = PaymentCompleted"
  "bp_reference (new_bill_payment bk b request inquiry reference correlation payer tenant) = take 100 reference"
  by (simp_all add: new_bill_payment_def)

lemma transfer_commits:
  assumes inv: "bill_inv env s" and found: "find_bill s bill_id tenant = Some (bk, b)"
    and p: "p = new_bill_payment bk b request inquiry reference correlation payer tenant"
    and free: "\<not> payment_clash (bt_payments s) pk p" "tget (ps_attempts (bt_pay s)) ak = None"
  obtains s' a where "create_transfer_request env s now pk ak request bill_id inquiry reference correlation payer tenant = Inr s'"
    "bt_payments s' = tput pk p (bt_payments s)" "ps_attempts (bt_pay s') = tput ak a (ps_attempts (bt_pay s))"
    "settlement_check env p a" "bt_bills s' = bt_bills (pay_bill bk b s)"
    "bt_audit s' = bt_audit s @ [\<lparr>ba_action = BillPaymentRequested, ba_actor = '''', ba_object = pk,
       ba_details = [(''request_id'', bp_request p), (''bill_pk'', bn_key env bk)]\<rparr>]"
    "bn_runtime env \<longrightarrow> a = new_check env bk pk p request tenant \<and> bt_enqueued s' = bt_enqueued s @ [ak]
       \<and> ps_intents (bt_pay s') = ps_intents (bt_pay s)"
proof -
  let ?s1 = "s\<lparr>bt_payments := tput pk p (bt_payments s)\<rparr>"
  have "no_attempt (bt_pay ?s1) tenant request"
    using no_clash_no_attempt [OF inv free(1), of request tenant] by (simp add: p)
  from record_check [OF this, of ak p env now bk pk] free(2)
  obtain s2 a where s2: "record_settlement_check env ?s1 now ak bk pk p request tenant = Inr s2"
    "ps_attempts (bt_pay s2) = tput ak a (ps_attempts (bt_pay s))" "settlement_check env p a"
    "bt_bills s2 = bt_bills s" "bt_payments s2 = tput pk p (bt_payments s)" "bt_audit s2 = bt_audit s"
    "bn_runtime env \<longrightarrow> a = new_check env bk pk p request tenant \<and> bt_enqueued s2 = bt_enqueued s @ [ak]
       \<and> ps_intents (bt_pay s2) = ps_intents (bt_pay s)"
    by (auto simp: p)
  let ?s' = "bill_log BillPaymentRequested '''' pk [(''request_id'', bp_request p), (''bill_pk'', bn_key env bk)] (pay_bill bk b s2)"
  have "create_transfer_request env s now pk ak request bill_id inquiry reference correlation payer tenant = Inr ?s'"
    using s2(1) free(1) by (simp add: create_transfer_request_def found Let_def p [symmetric])
  then show ?thesis by (rule that [of ?s' a]) (use s2 in \<open>simp_all add: pay_bill_def\<close>)
qed

section \<open>Every operation keeps the invariant\<close>

lemma payment_ok_kept:
  assumes "payment_ok env s p"
    and "\<And>bk b. tget (bt_bills s) bk = Some b \<Longrightarrow> \<exists>c. tget (bt_bills s') bk = Some c \<and> bi_amount c = bi_amount b
      \<and> bi_currency c = bi_currency b \<and> bi_tenant c = bi_tenant b \<and> (bi_status b = BillPaid \<longrightarrow> bi_status c = BillPaid)"
    and "\<And>k a. tget (ps_attempts (bt_pay s)) k = Some a \<Longrightarrow> tget (ps_attempts (bt_pay s')) k = Some a"
  shows "payment_ok env s' p"
proof -
  from assms(1) obtain b where b: "tget (bt_bills s) (bp_bill p) = Some b" "bi_status b = BillPaid"
    "bp_amount p = bi_amount b" "bp_currency p = bi_currency b" "bp_tenant p = '''' \<or> bp_tenant p = take 100 (bi_tenant b)"
    unfolding payment_ok_def by blast
  from assms(2) [OF b(1)] b obtain c where "tget (bt_bills s') (bp_bill p) = Some c" "bi_status c = BillPaid"
    "bp_amount p = bi_amount c" "bp_currency p = bi_currency c" "bp_tenant p = '''' \<or> bp_tenant p = take 100 (bi_tenant c)"
    by auto
  with assms(1,3) show ?thesis unfolding payment_ok_def by blast
qed

lemma pay_bill_kept:
  assumes "tget (bt_bills s) bk = Some b" "tget (bt_bills s) j = Some c"
  shows "\<exists>d. tget (bt_bills (pay_bill bk b s)) j = Some d \<and> bi_amount d = bi_amount c \<and> bi_currency d = bi_currency c
    \<and> bi_tenant d = bi_tenant c \<and> (bi_status c = BillPaid \<longrightarrow> bi_status d = BillPaid)"
  using assms by (auto simp: pay_bill_rows)

lemma ex_row_tput:
  assumes "tget t k = None"
  shows "(\<exists>i r. tget (tput k q t) i = Some r \<and> P r) \<longleftrightarrow> P q \<or> (\<exists>i r. tget t i = Some r \<and> P r)"
  using assms unfolding tget_tput by (metis option.distinct(1) option.inject)

text \<open>What a committed notification wrote.\<close>

lemma transfer_rows:
  assumes inv: "bill_inv env s"
    and run: "create_transfer_request env s now pk ak request bill_id inquiry reference correlation payer tenant = Inr s'"
    and found: "find_bill s bill_id tenant = Some (bk, b)"
    and p: "p = new_bill_payment bk b request inquiry reference correlation payer tenant"
  obtains a where "bt_payments s' = tput pk p (bt_payments s)" "ps_attempts (bt_pay s') = tput ak a (ps_attempts (bt_pay s))"
    "settlement_check env p a" "bt_bills s' = bt_bills (pay_bill bk b s)"
    "bt_audit s' = bt_audit s @ [\<lparr>ba_action = BillPaymentRequested, ba_actor = [], ba_object = pk,
       ba_details = [(''request_id'', bp_request p), (''bill_pk'', bn_key env bk)]\<rparr>]"
    "\<not> payment_clash (bt_payments s) pk p" "tget (ps_attempts (bt_pay s)) ak = None" "tget (bt_payments s) pk = None"
proof -
  have free: "\<not> payment_clash (bt_payments s) pk p"
    using run by (auto simp: create_transfer_request_def found Let_def p split: if_splits)
  have key: "tget (ps_attempts (bt_pay s)) ak = None"
  proof (rule ccontr)
    assume busy: "tget (ps_attempts (bt_pay s)) ak \<noteq> None"
    have "no_attempt (bt_pay s) tenant request"
      using no_clash_no_attempt [OF inv free] by (simp add: p)
    from create_check [OF this, of ak env bk pk p] busy run free show False
      by (simp add: create_transfer_request_def found Let_def p [symmetric] record_settlement_check_def)
  qed
  from free have "tget (bt_payments s) pk = None" by (simp add: payment_clash_def)
  moreover obtain t a where t: "create_transfer_request env s now pk ak request bill_id inquiry reference correlation payer tenant = Inr t"
    "bt_payments t = tput pk p (bt_payments s)" "ps_attempts (bt_pay t) = tput ak a (ps_attempts (bt_pay s))"
    "settlement_check env p a" "bt_bills t = bt_bills (pay_bill bk b s)"
    "bt_audit t = bt_audit s @ [\<lparr>ba_action = BillPaymentRequested, ba_actor = [], ba_object = pk,
       ba_details = [(''request_id'', bp_request p), (''bill_pk'', bn_key env bk)]\<rparr>]"
    by (rule transfer_commits [OF inv found p free key, where now = now])
  moreover from t(1) run have "t = s'" by simp
  ultimately show ?thesis using free key by (intro that [of a]) simp_all
qed

lemma transfer_inv:
  assumes inv: "bill_inv env s"
    and run: "create_transfer_request env s now pk ak request bill_id inquiry reference correlation payer tenant = Inr s'"
  shows "bill_inv env s'"
proof -
  from run obtain bk b where found: "find_bill s bill_id tenant = Some (bk, b)"
    by (auto simp: create_transfer_request_def split: option.splits)
  define p where "p = new_bill_payment bk b request inquiry reference correlation payer tenant"
  from transfer_rows [OF inv run found p_def]
  obtain a where s': "bt_payments s' = tput pk p (bt_payments s)" "ps_attempts (bt_pay s') = tput ak a (ps_attempts (bt_pay s))"
    "settlement_check env p a" "bt_bills s' = bt_bills (pay_bill bk b s)"
    "bt_audit s' = bt_audit s @ [\<lparr>ba_action = BillPaymentRequested, ba_actor = [], ba_object = pk,
       ba_details = [(''request_id'', bp_request p), (''bill_pk'', bn_key env bk)]\<rparr>]"
    and free: "\<not> payment_clash (bt_payments s) pk p" and key: "tget (ps_attempts (bt_pay s)) ak = None" .
  note I = bill_invD [OF inv]
  from find_bill_Some [OF found I(1)] have b: "tget (bt_bills s) bk = Some b" "in_tenant tenant (bi_tenant b)" by simp_all
  note rows = pay_bill_rows [OF b(1)]
  have newp: "tget (bt_payments s) pk = None" "\<And>j q. tget (bt_payments s) j = Some q \<Longrightarrow> bp_tenant q = bp_tenant p \<Longrightarrow> bp_request q \<noteq> bp_request p"
    using free by (auto simp: payment_clash_def list_ex_iff dest!: tget_in_set)
  have old: "payment_ok env s' q" if "tget (bt_payments s) j = Some q" for j q
    by (rule payment_ok_kept [OF I(6) [OF that]]) (use pay_bill_kept [OF b(1)] key in \<open>auto simp: s'(2,4) table_simps\<close>)
  have new: "payment_ok env s' p"
    unfolding payment_ok_def s'(2,4) using b s'(3)
    by (auto simp: p_def rows table_simps in_tenant_def)
  have paid: "paid_for s' j \<longleftrightarrow> j = bk \<or> paid_for s j" for j
    using ex_row_tput [OF newp(1), of p "\<lambda>q. bp_bill q = j"] by (auto simp: paid_for_def s'(1,5)) (simp_all add: p_def)
  have "requests_unique (bt_payments s')"
    using I(4) newp unfolding requests_unique_def s'(1) by (auto simp: table_simps dest: sym)
  moreover have "attempts_paid s'"
    unfolding attempts_paid_def
  proof (intro allI impI)
    fix k c assume c: "tget (ps_attempts (bt_pay s')) k = Some c" "pa_operation c = p2g_operation"
    show "\<exists>j q. tget (bt_payments s') j = Some q \<and> bp_tenant q = pa_tenant c \<and> bp_request q = pa_request_id c"
    proof (cases "k = ak")
      case True
      with c(1) s'(3) show ?thesis by (intro exI [of _ pk] exI [of _ p]) (simp add: s'(1,2) table_simps settlement_check_def)
    next
      case False
      with c(1) have "tget (ps_attempts (bt_pay s)) k = Some c" by (simp add: s'(2) table_simps)
      with c(2) I(5) obtain j q where "tget (bt_payments s) j = Some q" "bp_tenant q = pa_tenant c" "bp_request q = pa_request_id c"
        unfolding attempts_paid_def by blast
      with newp(1) show ?thesis by (intro exI [of _ j] exI [of _ q]) (auto simp: s'(1) table_simps)
    qed
  qed
  moreover have "tok (bt_bills s')" "tok (bt_payments s')" "tok (ps_attempts (bt_pay s'))"
    using I(1-3) by (simp_all add: s' pay_bill_def table_simps)
  moreover have "bi_status c = BillPaid \<longleftrightarrow> paid_for s' j" if "tget (bt_bills s') j = Some c" for j c
    using that I(7) b(1) by (auto simp: paid s'(4) rows split: if_splits)
  moreover have "tget (bt_bills s') (ba_object e) \<noteq> None" if "e \<in> set (bt_audit s')" "ba_action e = BillPaidAction" for e
    using that I(8) by (auto simp: s'(4,5) rows)
  moreover have "requests_logged env s'"
    using I(9) by (simp add: requests_logged_def s'(1,5) tput_new [OF newp(1)] request_entry_def) (simp add: p_def)
  ultimately show ?thesis
    using old new unfolding bill_inv_def by (auto simp: s'(1) table_simps split: if_splits)
qed

lemma mark_paid_inv:
  assumes inv: "bill_inv env s" and run: "mark_bill_paid env s bill_id tenant actor = Inr s'"
  shows "bill_inv env s'"
proof -
  from run obtain bk b det where found: "find_bill s bill_id tenant = Some (bk, b)"
    and s': "s' = bill_log BillPaidAction actor bk det (pay_bill bk b s)"
    by (auto simp: mark_bill_paid_def split: option.splits)
  note I = bill_invD [OF inv]
  from find_bill_Some [OF found I(1)] have b: "tget (bt_bills s) bk = Some b" by simp
  note rows = pay_bill_rows [OF b]
  have paid: "paid_for s' j \<longleftrightarrow> j = bk \<or> paid_for s j" for j by (auto simp: paid_for_def s')
  have "payment_ok env s' q" if "tget (bt_payments s) j = Some q" for j q
    by (rule payment_ok_kept [OF I(6) [OF that]]) (use pay_bill_kept [OF b] in \<open>auto simp: s'\<close>)
  moreover have "bi_status c = BillPaid \<longleftrightarrow> paid_for s' j" if "tget (bt_bills s') j = Some c" for j c
    using that I(7) b by (auto simp: paid) (auto simp: s' rows split: if_splits)
  moreover have "tok (bt_bills s')" using I(1) by (simp add: s' pay_bill_def table_simps)
  moreover have "tget (bt_bills s') (ba_object e) \<noteq> None" if "e \<in> set (bt_audit s')" "ba_action e = BillPaidAction" for e
    using that I(8) by (auto simp: s' rows)
  ultimately show ?thesis
    using I(2-5,9) unfolding bill_inv_def by (simp add: s' attempts_paid_def requests_logged_def)
qed

text \<open>Staff import bills that are not paid yet.\<close>

fun bill_owed :: "bill_state \<Rightarrow> bill_op \<Rightarrow> bool" where
  "bill_owed s (BoImport bk b) = (bi_status b \<noteq> BillPaid)"
| "bill_owed s _ = True"

lemma import_inv:
  assumes inv: "bill_inv env s" and run: "import_bill s bk b = Inr s'" and unpaid: "bi_status b \<noteq> BillPaid"
  shows "bill_inv env s'"
proof -
  from run have new: "tget (bt_bills s) bk = None" and s': "s' = s\<lparr>bt_bills := tput bk b (bt_bills s)\<rparr>"
    by (auto simp: import_bill_def split: if_splits)
  note I = bill_invD [OF inv]
  have "payment_ok env s' q" if "tget (bt_payments s) j = Some q" for j q
    by (rule payment_ok_kept [OF I(6) [OF that]]) (use new in \<open>auto simp: s' table_simps\<close>)
  moreover have "\<not> paid_for s bk"
    using I(6,8) new by (fastforce simp: paid_for_def payment_ok_def)
  ultimately show ?thesis
    using inv unpaid unfolding bill_inv_def by (auto simp: s' attempts_paid_def requests_logged_def paid_for_def table_simps split: if_splits)
qed

lemma bill_step_inv:
  assumes "bill_inv env s" "bill_owed s x" "bill_step env s x = Inr s'"
  shows "bill_inv env s'"
  using assms by (cases x) (auto intro: transfer_inv mark_paid_inv import_inv)

interpretation bills: step_system "bill_step env" bill_owed "bill_inv env"
  for env
  by unfold_locales (rule bill_step_inv)

section \<open>The properties\<close>

text \<open>No bill, no payment, and no settlement check among the attempts of other operations.\<close>

definition fresh_bills :: "bill_state \<Rightarrow> bool" where
  "fresh_bills s \<longleftrightarrow> bt_bills s = [] \<and> bt_payments s = [] \<and> bt_audit s = [] \<and> tok (ps_attempts (bt_pay s))
     \<and> list_all (\<lambda>ka. pa_operation (snd ka) \<noteq> p2g_operation) (ps_attempts (bt_pay s))"

lemma fresh_bills_inv: "fresh_bills s \<Longrightarrow> bill_inv env s"
  by (auto simp: fresh_bills_def bill_inv_def requests_logged_def requests_unique_def attempts_paid_def list_all_iff dest!: tget_in_set)

text \<open>
  C17. Payments and bills explain each other: starting without bills, payments and settlement
  checks, and after any imports of bills that are not paid yet, notifications and manual
  marks, every payment is completed, for a paid bill whose amount and currency it carries,
  made without a tenant or in the bill's own, and has its settlement-verification attempt
  with the same identity and amount, in review unless the runtime is enabled; the entries of
  payment requests in the audit log are exactly one for each payment, in their order, naming
  the payment, its request and its bill; a tenant's request is paid at most once; and a bill is
  paid exactly if it has a payment or an audit entry of a manual mark.
\<close>

theorem bill_payments_explained:
  assumes "fresh_bills s0" "ops_ok bill_owed (bill_step env) s0 xs" "s = run_ops (bill_step env) s0 xs"
  shows "(\<forall>pk p. tget (bt_payments s) pk = Some p \<longrightarrow> payment_ok env s p)
    \<and> (\<forall>i j p q. tget (bt_payments s) i = Some p \<longrightarrow> tget (bt_payments s) j = Some q
        \<longrightarrow> bp_tenant p = bp_tenant q \<longrightarrow> bp_request p = bp_request q \<longrightarrow> i = j)
    \<and> (\<forall>bk b. tget (bt_bills s) bk = Some b \<longrightarrow> (bi_status b = BillPaid \<longleftrightarrow> paid_for s bk))
    \<and> filter (\<lambda>e. ba_action e = BillPaymentRequested) (bt_audit s) = map (request_entry env) (bt_payments s)"
proof -
  have "bill_inv env s"
    unfolding assms(3) by (rule bills.inv_run [OF fresh_bills_inv [OF assms(1)] assms(2)])
  from bill_invD(4,6,7,9) [OF this] show ?thesis unfolding requests_unique_def requests_logged_def by blast
qed

text \<open>A town with one bill; the runtime is off.\<close>

definition town_env :: bill_env where
  "town_env = \<lparr>bn_runtime = False, bn_key = scene_key, bn_fingerprint = (\<lambda>_. ''fp'')\<rparr>"

definition town_bill :: bill where
  "town_bill = \<lparr>bi_bill_id = ''B1'', bi_amount = 12000, bi_currency = ''CAD'', bi_status = BillUnpaid, bi_tenant = ''t''\<rparr>"

definition town_start :: bill_state where
  "town_start = \<lparr>bt_bills = [], bt_payments = [], bt_audit = [], bt_pay = scene_pay, bt_enqueued = []\<rparr>"

definition notify :: "nat \<Rightarrow> nat \<Rightarrow> string \<Rightarrow> bill_op" where
  "notify pk ak request = BoTransfer 50 pk ak request ''B1'' '''' ''ref'' '''' ''fi'' ''t''"

lemma bill_payments_explained_witness:
  "\<exists>s p b. s = run_ops (bill_step town_env) town_start
        [BoImport 1 town_bill, notify 1 5 ''r1'', notify 2 6 ''r1'', BoMarkPaid ''B1'' ''u'' ''x'']
    \<and> bt_payments s = [(1, p)] \<and> payment_ok town_env s p \<and> tget (bt_bills s) 1 = Some b \<and> bi_status b = BillPaid \<and> paid_for s 1
    \<and> filter (\<lambda>e. ba_action e = BillPaymentRequested) (bt_audit s) = [request_entry town_env (1, p)]"
proof -
  let ?xs = "[BoImport 1 town_bill, notify 1 5 ''r1'', notify 2 6 ''r1'', BoMarkPaid ''B1'' ''u'' ''x'']"
  let ?s = "run_ops (bill_step town_env) town_start ?xs"
  have start: "fresh_bills town_start" by code_simp
  have owed: "ops_ok bill_owed (bill_step town_env) town_start ?xs" by (simp add: town_bill_def notify_def)
  have "map fst (bt_payments ?s) = [1]" by code_simp
  then obtain p where p: "bt_payments ?s = [(1, p)]" by auto
  have "map_option bi_status (tget (bt_bills ?s) 1) = Some BillPaid" by code_simp
  then obtain b where b: "tget (bt_bills ?s) 1 = Some b" "bi_status b = BillPaid" by auto
  note all = bill_payments_explained [OF start owed refl]
  have "tget (bt_payments ?s) 1 = Some p" by (simp only: p tget_Cons if_True simp_thms)
  with all have "payment_ok town_env ?s p" by blast
  moreover from all b have "paid_for ?s 1" by blast
  moreover from all p have "filter (\<lambda>e. ba_action e = BillPaymentRequested) (bt_audit ?s) = [request_entry town_env (1, p)]" by simp
  ultimately show ?thesis using p b by blast
qed

fun of_other_tenant :: "string \<Rightarrow> bill_op \<Rightarrow> bool" where
  "of_other_tenant tenant (BoImport bk b) = (bi_tenant b \<noteq> tenant)"
| "of_other_tenant tenant (BoTransfer now pk ak request bill_id inquiry reference correlation payer declared) =
     (declared \<noteq> '''' \<and> declared \<noteq> tenant \<and> length declared \<le> 100)"
| "of_other_tenant tenant (BoMarkPaid bill_id declared actor) = (declared \<noteq> '''' \<and> declared \<noteq> tenant)"

definition tenant_view :: "string \<Rightarrow> bill_state \<Rightarrow> (nat \<times> bill) list \<times> (nat \<times> bill_payment) list" where
  "tenant_view tenant s = (filter (\<lambda>kb. bi_tenant (snd kb) = tenant) (bt_bills s),
     filter (\<lambda>kp. bp_tenant (snd kp) = tenant) (bt_payments s))"

lemma find_bill_view:
  "tenant \<noteq> '''' \<Longrightarrow> find_bill s bill_id tenant = first_by_key (\<lambda>b. bi_bill_id b = bill_id) (fst (tenant_view tenant s))"
  by (simp add: find_bill_def first_by_key_def in_tenant_def tenant_view_def conj_commute)

lemma get_transfer_view:
  "tenant \<noteq> '''' \<Longrightarrow> get_transfer_request s request tenant =
     (case first_by_key (\<lambda>p. bp_request p = request) (snd (tenant_view tenant s)) of
        None \<Rightarrow> Inl BillPaymentNotFound | Some kp \<Rightarrow> Inr kp)"
  by (simp add: get_transfer_request_def first_by_key_def in_tenant_def tenant_view_def conj_commute)

lemma pay_bill_view:
  assumes "tget (bt_bills s) bk = Some b" "bi_tenant b \<noteq> tenant"
  shows "filter (\<lambda>kb. bi_tenant (snd kb) = tenant) (bt_bills (pay_bill bk b s)) = filter (\<lambda>kb. bi_tenant (snd kb) = tenant) (bt_bills s)"
  using assms filter_tput [of "\<lambda>b. bi_tenant b = tenant" "b\<lparr>bi_status := BillPaid\<rparr>" "bt_bills s" bk]
  by (simp add: pay_bill_def)

lemma other_tenant_step:
  assumes inv: "bill_inv env s" and run: "bill_step env s x = Inr s'" and other: "of_other_tenant tenant x"
  shows "tenant_view tenant s' = tenant_view tenant s"
  using other
proof (cases x)
  case (BoImport bk b)
  with run have "tget (bt_bills s) bk = None" "s' = s\<lparr>bt_bills := tput bk b (bt_bills s)\<rparr>"
    by (auto simp: import_bill_def split: if_splits)
  with other BoImport show ?thesis
    using filter_tput [of "\<lambda>b. bi_tenant b = tenant" b "bt_bills s" bk] by (simp add: tenant_view_def)
next
  case (BoTransfer now pk ak request bill_id inquiry reference correlation payer declared)
  with run obtain bk b where found: "find_bill s bill_id declared = Some (bk, b)"
    by (auto simp: create_transfer_request_def split: option.splits)
  from find_bill_Some [OF found bill_invD(1) [OF inv]] other BoTransfer
  have b: "tget (bt_bills s) bk = Some b" "bi_tenant b \<noteq> tenant" by (auto simp: in_tenant_def)
  define p where "p = new_bill_payment bk b request inquiry reference correlation payer declared"
  from transfer_rows [OF inv _ found p_def] run BoTransfer
  have s': "bt_payments s' = tput pk p (bt_payments s)" "bt_bills s' = bt_bills (pay_bill bk b s)"
    "tget (bt_payments s) pk = None" by auto
  have "bp_tenant p \<noteq> tenant" using other BoTransfer by (simp add: p_def)
  with pay_bill_view [OF b] s' show ?thesis
    using filter_tput [of "\<lambda>p. bp_tenant p = tenant" p "bt_payments s" pk] by (simp add: tenant_view_def)
next
  case (BoMarkPaid bill_id declared actor)
  with run obtain bk b det where found: "find_bill s bill_id declared = Some (bk, b)"
    and s': "s' = bill_log BillPaidAction actor bk det (pay_bill bk b s)"
    by (auto simp: mark_bill_paid_def split: option.splits)
  from find_bill_Some [OF found bill_invD(1) [OF inv]] other BoMarkPaid
  have b: "tget (bt_bills s) bk = Some b" "bi_tenant b \<noteq> tenant" by (auto simp: in_tenant_def)
  from pay_bill_view [OF this] show ?thesis by (simp add: s' tenant_view_def)
qed

interpretation other: step_system "bill_step env" "\<lambda>s x. bill_owed s x \<and> of_other_tenant tenant x"
    "\<lambda>s. bill_inv env s \<and> tenant_view tenant s = view"
  for env tenant view
  by unfold_locales (auto intro: bill_step_inv simp: other_tenant_step)

lemma ops_ok_conj:
  "ops_ok g step s xs \<Longrightarrow> list_all P xs \<Longrightarrow> ops_ok (\<lambda>s x. g s x \<and> P x) step s xs"
  by (induction xs arbitrary: s) auto

text \<open>
  Tenants do not see each other: whatever calls other tenants make, the bills of a tenant
  stay as they are, and what that tenant reads of bills and transfer requests is the same as
  before.
\<close>

theorem tenants_isolated:
  assumes "fresh_bills s0" "ops_ok bill_owed (bill_step env) s0 xs" "s = run_ops (bill_step env) s0 xs"
    and "tenant \<noteq> ''''" "ops_ok bill_owed (bill_step env) s ys" "list_all (of_other_tenant tenant) ys"
    and "t = run_ops (bill_step env) s ys"
  shows "get_bill t bill_id tenant = get_bill s bill_id tenant
    \<and> get_transfer_request t request tenant = get_transfer_request s request tenant
    \<and> tenant_view tenant t = tenant_view tenant s"
proof -
  have "bill_inv env s"
    unfolding assms(3) by (rule bills.inv_run [OF fresh_bills_inv [OF assms(1)] assms(2)])
  then have start: "bill_inv env s \<and> tenant_view tenant s = tenant_view tenant s" by simp
  have view: "tenant_view tenant t = tenant_view tenant s"
    unfolding assms(7) using other.inv_run [OF start ops_ok_conj [OF assms(5,6)]] by blast
  then show ?thesis by (simp add: get_bill_def find_bill_view get_transfer_view assms(4))
qed

lemma tenants_isolated_witness:
  "\<exists>s t kb. s = run_ops (bill_step town_env) town_start [BoImport 1 town_bill]
    \<and> t = run_ops (bill_step town_env) s [BoImport 2 (town_bill\<lparr>bi_tenant := ''u''\<rparr>), BoMarkPaid ''B1'' ''u'' ''x'']
    \<and> get_bill t ''B1'' ''t'' = Inr kb \<and> bi_status (snd kb) = BillUnpaid"
proof -
  let ?s = "run_ops (bill_step town_env) town_start [BoImport 1 town_bill]"
  let ?ys = "[BoImport 2 (town_bill\<lparr>bi_tenant := ''u''\<rparr>), BoMarkPaid ''B1'' ''u'' ''x'']"
  have start: "fresh_bills town_start" by code_simp
  have owed: "ops_ok bill_owed (bill_step town_env) town_start [BoImport 1 town_bill]"
    "ops_ok bill_owed (bill_step town_env) ?s ?ys" by (simp_all add: town_bill_def)
  have other: "list_all (of_other_tenant ''t'') ?ys" by (simp add: town_bill_def)
  have "get_bill ?s ''B1'' ''t'' = Inr (1, town_bill)" by code_simp
  with tenants_isolated [OF start owed(1) refl _ owed(2) other refl, of "''B1''"]
  have "get_bill (run_ops (bill_step town_env) ?s ?ys) ''B1'' ''t'' = Inr (1, town_bill)" by simp
  moreover have "bi_status (snd (1 :: nat, town_bill)) = BillUnpaid" by (simp add: town_bill_def)
  ultimately show ?thesis by blast
qed

text \<open>
  A bill can be paid twice: whatever the bill's status, paid and cancelled included, a
  notification with an unused request id is accepted and records one more payment of the
  full amount. The lock on the bill's row does not limit its payments to one.
\<close>

theorem paid_bill_pays_again:
  assumes "fresh_bills s0" "ops_ok bill_owed (bill_step env) s0 xs" "s = run_ops (bill_step env) s0 xs"
    and "find_bill s bill_id tenant = Some (bk, b)" "0 < bi_amount b"
    and "list_all (\<lambda>kp. bp_tenant (snd kp) \<noteq> take 100 tenant \<or> bp_request (snd kp) \<noteq> take 100 request) (bt_payments s)"
    and "tget (bt_payments s) pk = None" "tget (ps_attempts (bt_pay s)) ak = None"
  shows "\<exists>s'. create_transfer_request env s now pk ak request bill_id inquiry reference correlation payer tenant = Inr s'
    \<and> tcount (\<lambda>p. bp_bill p = bk \<and> bp_amount p = bi_amount b) (bt_payments s')
        = Suc (tcount (\<lambda>p. bp_bill p = bk \<and> bp_amount p = bi_amount b) (bt_payments s))"
proof -
  have inv: "bill_inv env s"
    unfolding assms(3) by (rule bills.inv_run [OF fresh_bills_inv [OF assms(1)] assms(2)])
  define p where "p = new_bill_payment bk b request inquiry reference correlation payer tenant"
  have "\<not> payment_clash (bt_payments s) pk p"
    using assms(5-7) by (auto simp: payment_clash_def p_def list_ex_iff list_all_iff)
  from transfer_commits [OF inv assms(4) p_def this assms(8), where now = now]
  obtain s' where "create_transfer_request env s now pk ak request bill_id inquiry reference correlation payer tenant = Inr s'"
    "bt_payments s' = tput pk p (bt_payments s)" by blast
  moreover have "tcount (\<lambda>p. bp_bill p = bk \<and> bp_amount p = bi_amount b) (tput pk p (bt_payments s))
      = tcount (\<lambda>p. bp_bill p = bk \<and> bp_amount p = bi_amount b) (bt_payments s) + of_bool (bp_bill p = bk \<and> bp_amount p = bi_amount b)"
    by (rule tbl.count_insert [OF bill_invD(2) [OF inv] assms(7)])
  ultimately show ?thesis by (auto simp: p_def)
qed

lemma paid_bill_pays_again_witness:
  "\<exists>s s' b. s = run_ops (bill_step town_env) town_start [BoImport 1 town_bill, notify 1 5 ''r1'']
    \<and> tget (bt_bills s) 1 = Some b \<and> bi_status b = BillPaid
    \<and> create_transfer_request town_env s 60 2 6 ''r2'' ''B1'' '''' ''ref'' '''' ''fi'' ''t'' = Inr s'
    \<and> tcount (\<lambda>p. bp_bill p = 1 \<and> bp_amount p = 12000) (bt_payments s') = 2"
proof -
  let ?xs = "[BoImport 1 town_bill, notify 1 5 ''r1'']"
  let ?s = "run_ops (bill_step town_env) town_start ?xs"
  let ?b = "town_bill\<lparr>bi_status := BillPaid\<rparr>"
  have start: "fresh_bills town_start" by code_simp
  have owed: "ops_ok bill_owed (bill_step town_env) town_start ?xs" by (simp add: town_bill_def notify_def)
  have found: "find_bill ?s ''B1'' ''t'' = Some (1, ?b)" "0 < bi_amount ?b" by code_simp+
  have free: "list_all (\<lambda>kp. bp_tenant (snd kp) \<noteq> take 100 ''t'' \<or> bp_request (snd kp) \<noteq> take 100 ''r2'') (bt_payments ?s)"
    "tget (bt_payments ?s) 2 = None" "tget (ps_attempts (bt_pay ?s)) 6 = None" by code_simp+
  have one: "tcount (\<lambda>p. bp_bill p = 1 \<and> bp_amount p = bi_amount ?b) (bt_payments ?s) = 1" by code_simp
  have amount: "bi_amount ?b = 12000" by (simp add: town_bill_def)
  from paid_bill_pays_again [OF start owed refl found free, of 60 "''''" "''ref''" "''''" "''fi''"]
  obtain s' where s': "create_transfer_request town_env ?s 60 2 6 ''r2'' ''B1'' '''' ''ref'' '''' ''fi'' ''t'' = Inr s'"
    and c: "tcount (\<lambda>p. bp_bill p = 1 \<and> bp_amount p = bi_amount ?b) (bt_payments s')
      = Suc (tcount (\<lambda>p. bp_bill p = 1 \<and> bp_amount p = bi_amount ?b) (bt_payments ?s))" by blast
  from c [unfolded one, unfolded amount] have "tcount (\<lambda>p. bp_bill p = 1 \<and> bp_amount p = 12000) (bt_payments s') = 2" by simp
  moreover
  have "tget (bt_bills ?s) 1 = Some ?b" by code_simp
  moreover have "bi_status ?b = BillPaid" by simp
  ultimately show ?thesis using s' by blast
qed

text \<open>The first call of an attempt without an intent row.\<close>

lemma begin_unseen:
  assumes "tget (ps_attempts s) k = Some a" "pa_tenant a \<noteq> ''''" "\<not> attempt_terminal a" "pa_status a \<noteq> AReview"
    and "\<not> claim_live now a" "resolvable regs now (pa_tenant a) (pa_operation a)"
    and "find_intent s k = None" "intent_free s j k a"
  shows "\<exists>q. begin_call regs s now token j k
    = Inr (q, Started (started_call k a (if poll_evidence a None then Poll else Submit) token ''''))"
proof -
  let ?ei = "new_intent k (pa_tenant a) (pa_operation a) (pa_request_id a) (pa_payload_fingerprint a)"
  have "create_intent s j ?ei = Inr (s\<lparr>ps_intents := tput j ?ei (ps_intents s)\<rparr>)"
    using assms(7,8) by (simp add: create_intent_def intent_free_def new_intent_def)
  then have "select_intent s j k a = Inr (s\<lparr>ps_intents := tput j ?ei (ps_intents s)\<rparr>, j, ?ei)"
    using assms(7) by (simp add: select_intent_def)
  moreover have "ei_submit_started_at ?ei = None" by (simp add: new_intent_def)
  ultimately show ?thesis using assms(1-7) by (simp add: begin_call_def Let_def)
qed

text \<open>
  A notification may become a payment: with the runtime enabled the attempt of a
  notification that names a payment reference is only polled, but one without a reference is
  submitted to the provider as a payment of the bill's amount, although the money has moved
  already.
\<close>

theorem unreferenced_notification_submits:
  assumes "fresh_bills s0" "ops_ok bill_owed (bill_step env) s0 xs" "s = run_ops (bill_step env) s0 xs"
    and "bn_runtime env" "ps_intents (bt_pay s) = []" "tenant \<noteq> ''''"
    and "create_transfer_request env s now pk ak request bill_id inquiry reference correlation payer tenant = Inr s'"
    and "resolvable regs later (take 100 tenant) p2g_operation"
  shows "\<exists>q c. begin_call regs (bt_pay s') later token j ak = Inr (q, Started c) \<and> pc_attempt c = ak
    \<and> pc_kind c = (if reference = '''' then Submit else Poll)"
proof -
  have inv: "bill_inv env s"
    unfolding assms(3) by (rule bills.inv_run [OF fresh_bills_inv [OF assms(1)] assms(2)])
  from assms(7) obtain bk b where found: "find_bill s bill_id tenant = Some (bk, b)"
    by (auto simp: create_transfer_request_def split: option.splits)
  define p where "p = new_bill_payment bk b request inquiry reference correlation payer tenant"
  let ?a = "new_check env bk pk p request tenant"
  from transfer_rows [OF inv assms(7) found p_def]
  have free: "\<not> payment_clash (bt_payments s) pk p" and key: "tget (ps_attempts (bt_pay s)) ak = None" by blast+
  obtain t a where t: "create_transfer_request env s now pk ak request bill_id inquiry reference correlation payer tenant = Inr t"
    "ps_attempts (bt_pay t) = tput ak a (ps_attempts (bt_pay s))"
    "bn_runtime env \<longrightarrow> a = ?a \<and> bt_enqueued t = bt_enqueued s @ [ak] \<and> ps_intents (bt_pay t) = ps_intents (bt_pay s)"
    by (rule transfer_commits [OF inv found p_def free key, where now = now])
  from t(1) assms(7) have "t = s'" by simp
  with t(2,3) assms(4,5) have row: "tget (ps_attempts (bt_pay s')) ak = Some ?a" and none: "ps_intents (bt_pay s') = []"
    by (simp_all add: table_simps)
  have free: "intent_free (bt_pay s') j ak ?a" "find_intent (bt_pay s') ak = None"
    by (simp_all add: intent_free_def find_intent_def none)
  have a: "pa_tenant ?a = take 100 tenant" "pa_operation ?a = p2g_operation" "pa_status ?a = APending" "\<not> claim_live later ?a"
    "poll_evidence ?a None \<longleftrightarrow> reference \<noteq> ''''" "\<not> attempt_terminal ?a"
    by (simp_all add: new_check_def p2g_defaults_def p_def claim_live_def poll_evidence_def attempt_terminal_def)
  have "pa_tenant ?a \<noteq> ''''" "pa_status ?a \<noteq> AReview" "resolvable regs later (pa_tenant ?a) (pa_operation ?a)"
    using a(1-3) assms(6,8) by simp_all
  from begin_unseen [OF row this(1) a(6) this(2) a(4) this(3) free(2,1)]
  obtain q where q: "begin_call regs (bt_pay s') later token j ak
      = Inr (q, Started (started_call ak ?a (if poll_evidence ?a None then Poll else Submit) token ''''))" by blast
  show ?thesis
    by (rule exI [of _ q], rule exI, rule conjI, rule q, unfold a(5)) (simp add: started_call_def)
qed

definition busy_town_env :: bill_env where
  "busy_town_env = town_env\<lparr>bn_runtime := True\<rparr>"

definition p2g_regs :: "registration list" where
  "p2g_regs = map (\<lambda>r. r\<lparr>rg_operation := p2g_operation\<rparr>) scene_regs"

lemma unreferenced_notification_submits_witness:
  "\<exists>s s' q c. s = run_ops (bill_step busy_town_env) town_start [BoImport 1 town_bill]
    \<and> create_transfer_request busy_town_env s 50 1 5 ''r1'' ''B1'' '''' '''' '''' ''fi'' ''t'' = Inr s'
    \<and> begin_call p2g_regs (bt_pay s') 60 ''tok'' 1 5 = Inr (q, Started c) \<and> pc_kind c = Submit"
proof -
  let ?s = "run_ops (bill_step busy_town_env) town_start [BoImport 1 town_bill]"
  let ?r = "create_transfer_request busy_town_env ?s 50 1 5 ''r1'' ''B1'' '''' '''' '''' ''fi'' ''t''"
  have start: "fresh_bills town_start" by code_simp
  have owed: "ops_ok bill_owed (bill_step busy_town_env) town_start [BoImport 1 town_bill]" by (simp add: town_bill_def)
  have side: "bn_runtime busy_town_env" "ps_intents (bt_pay ?s) = []" "resolvable p2g_regs 60 (take 100 ''t'') p2g_operation"
    by code_simp+
  have "\<not> isl ?r" by code_simp
  then obtain s' where s': "?r = Inr s'" by (cases ?r) auto
  from unreferenced_notification_submits [OF start owed refl side(1,2) _ s' side(3), of "''tok''" 1]
  obtain q c where c: "begin_call p2g_regs (bt_pay s') 60 ''tok'' 1 5 = Inr (q, Started c)" "pc_kind c = Submit" by auto
  show ?thesis by (intro exI conjI, rule refl, rule s', rule c(1), rule c(2))
qed

end
