(* ===== verification/Consent.thy ===== *)
theory Consent
  imports Prelude
begin

text \<open>
  Consent records: \<open>ConsentService\<close> of \<open>apps/consent/services.py\<close> over the models of
  \<open>apps/consent/models.py\<close>, and the receiver that grants required consents to a new citizen.
  Every object has a trail of revisions - snapshots linked from each to its successor - and
  every change of a record is a revision, an audit entry and a message to the webhooks.

  New rows get their key from \<open>cd_fresh\<close>, as a UUID is never used twice. Digests, the JSON text
  of a signed grant, the reading of an IP address and the broker are in the environment. Columns
  the services only copy into a snapshot are in the lists \<open>ct_columns\<close>, \<open>cp_columns\<close> and
  \<open>sg_optional\<close>. Two tables of the volunteer component refer to consent records and decide what
  deleting one does: an application protects its record, and a profile loses its photo. The
  signals that only send e-mail and log messages are left out. Calls run one after another:
  \<open>update_policy\<close> and \<open>update_data_agreement\<close> take no lock in the code, so that two of them at the
  same time, which are outside the model, could both follow the same revision.
\<close>

section \<open>Rows\<close>

datatype consent_status = CsPending | CsGranted | CsWithdrawn
datatype consent_state = StUnsigned | StPending | StSigned | StRevoked

record consent_policy =
  cp_name :: string
  cp_columns :: "(string \<times> string) list"

text \<open>A category is what GovStack calls a data agreement.\<close>

record category =
  ct_slug :: string
  ct_required :: bool
  ct_active :: bool
  ct_forgettable :: bool
  ct_policy :: "nat option"
  ct_columns :: "(string \<times> string) list"

record consent_record =
  cr_citizen :: nat
  cr_category :: nat
  cr_status :: consent_status
  cr_state :: consent_state
  cr_granted_at :: "int option"
  cr_withdrawn_at :: "int option"
  cr_ip :: string
  cr_source :: string
  cr_version :: string
  cr_revision :: "nat option"
  cr_hash :: string
  cr_current :: bool

record signature =
  sg_record :: nat
  sg_payload :: string
  sg_signature :: string
  sg_type :: string
  sg_verification :: string
  sg_verification_hash :: string
  sg_signed_by :: string
  sg_time :: int
  sg_revision_hash :: string
  sg_optional :: "(string \<times> string) list"

text \<open>
  The snapshots, one constructor per serializing function. A citizen's id in a snapshot is
  text that \<open>redact_pii\<close> replaces by a marker. \<open>rn_previous\<close> is the key \<open>previousState\<close> with
  the key \<open>transitionedBy\<close> that comes with it.
\<close>

datatype subject = Person nat | Redacted

record record_snapshot =
  rn_record :: nat
  rn_individual :: subject
  rn_category :: nat
  rn_revision :: "nat option"
  rn_hash :: string
  rn_opt_in :: bool
  rn_state :: consent_state
  rn_status :: consent_status
  rn_current :: bool
  rn_version :: string
  rn_previous :: "consent_state option"

datatype snapshot =
    PolicySnap nat consent_policy
  | AgreementSnap nat category
  | RecordSnap record_snapshot
  | SignatureSnap nat signature

datatype schema = PolicySchema | AgreementSchema | RecordSchema | SignatureSchema

text \<open>\<open>signedWithoutObjectId\<close> is always false and left out.\<close>

record envelope =
  ev_data :: snapshot
  ev_schema :: schema
  ev_object :: nat
  ev_time :: int
  ev_individual :: "subject option"
  ev_other :: string

record revision =
  rv_schema :: schema
  rv_object :: nat
  rv_snapshot :: envelope
  rv_hash :: string
  rv_time :: int
  rv_individual :: "nat option"
  rv_other :: string
  rv_predecessor :: string
  rv_successor :: "nat option"

datatype consent_action =
    CaGranted | CaWithdrawn | CaForgetRequested | CaForgetCompleted
  | CaPolicyCreated | CaPolicyUpdated | CaAgreementCreated | CaAgreementUpdated
  | CaExportRequested | CaExportReady | CaExportDelivered | CaExportExpired | CaExportFailed
  | CaExportDownloaded | CaExportMarkedDelivered
  | CaWebhookCreated | CaWebhookUpdated | CaWebhookDeleted

record consent_audit =
  ca_citizen :: "nat option"
  ca_actor :: "nat option"
  ca_action :: consent_action
  ca_category :: "nat option"
  ca_export :: "nat option"
  ca_ip :: string
  ca_details :: "(string \<times> string) list"

record webhook =
  wh_disabled :: bool
  wh_events :: "string list"

datatype export_status = ExPending | ExProcessing | ExReady | ExDelivered | ExFailed | ExExpired

record export_request =
  xr_citizen :: nat
  xr_status :: export_status
  xr_requested_at :: int
  xr_processed_at :: "int option"
  xr_expires_at :: "int option"
  xr_token :: "nat option"
  xr_document :: "nat option"

text \<open>The photo of a volunteer's profile and the consent it was uploaded under.\<close>

record photo_profile =
  pp_photo :: "string option"
  pp_consent :: "nat option"

text \<open>
  \<open>cd_queue\<close> holds the delivery tasks of the broker: webhook, event, payload and time.
  \<open>cd_applications\<close> holds the consent record of each volunteer application, if it names one, and
  \<open>cd_photos\<close> the files of the photo storage.
\<close>

record consent_db =
  cd_categories :: "category table"
  cd_policies :: "consent_policy table"
  cd_revisions :: "revision table"
  cd_records :: "consent_record table"
  cd_signatures :: "signature table"
  cd_exports :: "export_request table"
  cd_webhooks :: "webhook table"
  cd_audit :: "consent_audit list"
  cd_queue :: "(nat \<times> string \<times> (string \<times> string) list \<times> int) list"
  cd_applications :: "nat option table"
  cd_profiles :: "photo_profile table"
  cd_photos :: "string list"
  cd_fresh :: nat

datatype consent_error =
    UnknownCategory | RequiredConsent | NoConsentRecord | NeverGranted | SignatureExists
  | SignatureMissing | SignerMissing | NoSignature | NoRevision | NoObject | SlugTaken
  | ExportActive | NoExport | RecordProtected

section \<open>Requests\<close>

text \<open>An address as \<open>ipaddress\<close> reads it: three octets and the fourth, or the text of the /32 network.\<close>

datatype ip_address = IPv4 string string string string | IPv6 string

record consent_env =
  ce_digest :: "envelope \<Rightarrow> string"
  ce_sha :: "string \<Rightarrow> string"
  ce_json :: "nat \<times> nat \<times> nat \<times> nat option \<times> int \<Rightarrow> string"
  ce_text :: "nat \<Rightarrow> string"
  ce_address :: "string \<Rightarrow> ip_address option"
  ce_broker :: "nat \<Rightarrow> bool"
  ce_storage :: "string \<Rightarrow> bool"
  ce_ttl_days :: int

definition mask_ip :: "consent_env \<Rightarrow> string \<Rightarrow> string" where
  "mask_ip env ip = (if ip = '''' then ''0.0.0.0'' else case ce_address env (py_strip ip) of
     None \<Rightarrow> ''0.0.0.0''
   | Some (IPv4 a b c d) \<Rightarrow> a @ ''.'' @ b @ ''.'' @ c @ ''.0''
   | Some (IPv6 network) \<Rightarrow> network)"

record http_request =
  rq_address :: "string option"
  rq_api :: bool

definition get_ip :: "http_request option \<Rightarrow> string option" where
  "get_ip r = (case r of None \<Rightarrow> None | Some q \<Rightarrow> rq_address q)"

definition get_source :: "http_request option \<Rightarrow> string" where
  "get_source r = (case r of None \<Rightarrow> ''api'' | Some q \<Rightarrow> if rq_api q then ''api'' else ''web'')"

definition masked :: "consent_env \<Rightarrow> http_request option \<Rightarrow> string" where
  "masked env r = mask_ip env (case get_ip r of None \<Rightarrow> '''' | Some ip \<Rightarrow> ip)"

section \<open>Revisions\<close>

text \<open>
  The revision without a successor; the newest of them, as \<open>order_by("-timestamp").first()\<close>.
\<close>

definition newest :: "revision table \<Rightarrow> (nat \<times> revision) option" where
  "newest t = (case t of [] \<Rightarrow> None
     | kr # krs \<Rightarrow> Some (fold (\<lambda>a b. if rv_time (snd b) < rv_time (snd a) then a else b) krs kr))"

definition latest_revision :: "consent_db \<Rightarrow> schema \<Rightarrow> nat \<Rightarrow> (nat \<times> revision) option" where
  "latest_revision s sc k = newest (filter (\<lambda>kr. rv_schema (snd kr) = sc \<and> rv_object (snd kr) = k
     \<and> rv_successor (snd kr) = None) (cd_revisions s))"

definition get_latest_revision :: "consent_db \<Rightarrow> nat \<Rightarrow> (nat \<times> revision) option" where
  "get_latest_revision s ck = latest_revision s AgreementSchema ck"

text \<open>\<open>create_for\<close>: the key of the new revision and the state with the chain linked to it.\<close>

definition new_revision ::
  "consent_env \<Rightarrow> int \<Rightarrow> schema \<Rightarrow> nat \<Rightarrow> snapshot \<Rightarrow> nat option \<Rightarrow> string \<Rightarrow> string \<Rightarrow> revision" where
  "new_revision env now sc k snap by other predecessor =
     (let e = \<lparr>ev_data = snap, ev_schema = sc, ev_object = k, ev_time = now,
        ev_individual = map_option Person by, ev_other = other\<rparr>
      in \<lparr>rv_schema = sc, rv_object = k, rv_snapshot = e, rv_hash = ce_digest env e, rv_time = now,
        rv_individual = by, rv_other = other, rv_predecessor = predecessor, rv_successor = None\<rparr>)"

definition create_for ::
  "consent_env \<Rightarrow> consent_db \<Rightarrow> int \<Rightarrow> schema \<Rightarrow> nat \<Rightarrow> snapshot \<Rightarrow> nat option \<Rightarrow> string \<Rightarrow> nat \<times> consent_db" where
  "create_for env s now sc k snap by other =
     (let v = cd_fresh s; prev = latest_revision s sc k;
        r = new_revision env now sc k snap by other (case prev of None \<Rightarrow> '''' | Some (j, p) \<Rightarrow> rv_hash p);
        t = tput v r (cd_revisions s)
      in (v, s\<lparr>cd_fresh := Suc v, cd_revisions := (case prev of None \<Rightarrow> t
        | Some (j, p) \<Rightarrow> tput j (p\<lparr>rv_successor := Some v\<rparr>) t)\<rparr>))"

text \<open>\<open>redact_pii\<close>: the citizen is scrubbed from the row and from its snapshot.\<close>

definition redact_snapshot :: "snapshot \<Rightarrow> snapshot" where
  "redact_snapshot d = (case d of RecordSnap n \<Rightarrow> RecordSnap (n\<lparr>rn_individual := Redacted\<rparr>) | _ \<Rightarrow> d)"

definition redact_pii :: "revision \<Rightarrow> revision" where
  "redact_pii r = (let e = rv_snapshot r in r\<lparr>rv_individual := None,
     rv_snapshot := e\<lparr>ev_individual := map_option (\<lambda>_. Redacted) (ev_individual e),
       ev_data := redact_snapshot (ev_data e)\<rparr>\<rparr>)"

section \<open>Audit and webhooks\<close>

definition consent_log ::
  "nat option \<Rightarrow> nat option \<Rightarrow> consent_action \<Rightarrow> nat option \<Rightarrow> string \<Rightarrow> (string \<times> string) list \<Rightarrow> consent_db \<Rightarrow> consent_db" where
  "consent_log citizen actor act ck ip det s = s\<lparr>cd_audit := cd_audit s @ [\<lparr>ca_citizen = citizen, ca_actor = actor,
     ca_action = act, ca_category = ck, ca_export = None, ca_ip = ip, ca_details = det\<rparr>]\<rparr>"

definition is_subscribed_to :: "webhook \<Rightarrow> string \<Rightarrow> bool" where
  "is_subscribed_to w event \<longleftrightarrow> \<not> wh_disabled w \<and> event \<in> set (wh_events w)"

text \<open>One task per subscribed webhook; a task the broker refuses is logged and dropped.\<close>

definition dispatch_webhook ::
  "consent_env \<Rightarrow> int \<Rightarrow> string \<Rightarrow> (string \<times> string) list \<Rightarrow> consent_db \<Rightarrow> consent_db" where
  "dispatch_webhook env now event payload s = s\<lparr>cd_queue := cd_queue s
     @ map (\<lambda>kw. (fst kw, event, payload, now))
         (filter (\<lambda>kw. is_subscribed_to (snd kw) event \<and> ce_broker env (fst kw)) (cd_webhooks s))\<rparr>"

section \<open>Granting and withdrawing\<close>

definition find_category :: "consent_db \<Rightarrow> string \<Rightarrow> (nat \<times> category) option" where
  "find_category s slug = tfind (\<lambda>c. ct_slug c = slug \<and> ct_active c) (cd_categories s)"

definition is_current :: "nat \<Rightarrow> nat \<Rightarrow> consent_record \<Rightarrow> bool" where
  "is_current citizen ck r \<longleftrightarrow> cr_citizen r = citizen \<and> cr_category r = ck \<and> cr_current r"

definition granted_now :: "consent_record \<Rightarrow> bool" where
  "granted_now r \<longleftrightarrow> cr_status r = CsGranted \<and> cr_state r = StSigned"

definition record_snap :: "nat \<Rightarrow> consent_record \<Rightarrow> record_snapshot" where
  "record_snap k r = \<lparr>rn_record = k, rn_individual = Person (cr_citizen r), rn_category = cr_category r,
     rn_revision = cr_revision r, rn_hash = cr_hash r, rn_opt_in = (cr_status r = CsGranted), rn_state = cr_state r,
     rn_status = cr_status r, rn_current = cr_current r, rn_version = cr_version r, rn_previous = None\<rparr>"

definition put_record :: "nat \<Rightarrow> consent_record \<Rightarrow> consent_db \<Rightarrow> consent_db" where
  "put_record k r s = s\<lparr>cd_records := tput k r (cd_records s)\<rparr>"

definition put_signature :: "nat \<Rightarrow> signature \<Rightarrow> consent_db \<Rightarrow> consent_db" where
  "put_signature k g s = s\<lparr>cd_signatures := tput k g (cd_signatures s)\<rparr>"

text \<open>A new row, unless the partial unique index on current records refuses it.\<close>

definition insert_record :: "consent_record \<Rightarrow> consent_db \<Rightarrow> (nat \<times> consent_db) option" where
  "insert_record r s = (if cr_current r \<and> tfind (is_current (cr_citizen r) (cr_category r)) (cd_records s) \<noteq> None
     then None
     else Some (cd_fresh s, s\<lparr>cd_records := tput (cd_fresh s) r (cd_records s), cd_fresh := Suc (cd_fresh s)\<rparr>))"

definition revise_record ::
  "consent_env \<Rightarrow> int \<Rightarrow> nat \<Rightarrow> consent_record \<Rightarrow> consent_state option \<Rightarrow> consent_db \<Rightarrow> nat \<times> consent_db" where
  "revise_record env now k r previous s =
     create_for env s now RecordSchema k (RecordSnap ((record_snap k r)\<lparr>rn_previous := previous\<rparr>)) (Some (cr_citizen r)) ''''"

definition pending_record :: "nat \<Rightarrow> nat \<Rightarrow> consent_record" where
  "pending_record citizen ck = \<lparr>cr_citizen = citizen, cr_category = ck, cr_status = CsPending, cr_state = StUnsigned,
     cr_granted_at = None, cr_withdrawn_at = None, cr_ip = '''', cr_source = ''web'', cr_version = '''',
     cr_revision = None, cr_hash = '''', cr_current = True\<rparr>"

definition get_or_create_record :: "consent_db \<Rightarrow> nat \<Rightarrow> nat \<Rightarrow> consent_error + (consent_db \<times> nat)" where
  "get_or_create_record s citizen ck =
     (if tget (cd_categories s) ck = None then Inl NoObject
      else case tfind (is_current citizen ck) (cd_records s) of
        Some (k, r) \<Rightarrow> Inr (s, k)
      | None \<Rightarrow> (case insert_record (pending_record citizen ck) s of
          None \<Rightarrow> Inl NoObject | Some (k, s') \<Rightarrow> Inr (s', k)))"

text \<open>The record a grant returns unchanged.\<close>

definition existing_grant :: "consent_db \<Rightarrow> nat \<Rightarrow> nat \<Rightarrow> nat option \<Rightarrow> (nat \<times> consent_record) option" where
  "existing_grant s citizen ck agreed = tfind (\<lambda>r. is_current citizen ck r \<and> granted_now r
     \<and> (agreed \<noteq> None \<longrightarrow> cr_revision r = agreed)) (cd_records s)"

definition archive_current :: "nat \<Rightarrow> nat \<Rightarrow> consent_db \<Rightarrow> consent_db" where
  "archive_current citizen ck s =
     s\<lparr>cd_records := tupdate_where (is_current citizen ck) (\<lambda>r. r\<lparr>cr_current := False\<rparr>) (cd_records s)\<rparr>"

text \<open>The signature the service writes for a grant.\<close>

definition auto_signature :: "consent_env \<Rightarrow> int \<Rightarrow> nat \<Rightarrow> nat \<Rightarrow> nat \<Rightarrow> nat option \<Rightarrow> string \<Rightarrow> signature" where
  "auto_signature env now k citizen ck agreed hash =
     (let text = ce_json env (k, citizen, ck, agreed, now)
      in \<lparr>sg_record = k, sg_payload = text, sg_signature = ce_sha env text, sg_type = ''string'',
        sg_verification = text, sg_verification_hash = ce_sha env text, sg_signed_by = ce_text env citizen,
        sg_time = now, sg_revision_hash = hash, sg_optional = []\<rparr>)"

text \<open>The inserts of a grant, from the new record on.\<close>

definition grant_new ::
  "consent_env \<Rightarrow> consent_db \<Rightarrow> int \<Rightarrow> nat \<Rightarrow> string \<Rightarrow> nat \<Rightarrow> http_request option \<Rightarrow> string \<Rightarrow> nat option
     \<Rightarrow> consent_error + (consent_db \<times> nat)" where
  "grant_new env s now citizen slug ck req version agreed =
     (let hash = (case agreed of None \<Rightarrow> '''' | Some v \<Rightarrow> (case tget (cd_revisions s) v of None \<Rightarrow> '''' | Some q \<Rightarrow> rv_hash q));
        r = (pending_record citizen ck)\<lparr>cr_ip := masked env req, cr_source := get_source req, cr_version := version,
          cr_revision := agreed, cr_hash := hash\<rparr>
      in case insert_record r s of
        None \<Rightarrow> (case tfind (is_current citizen ck) (cd_records s) of None \<Rightarrow> Inl NoConsentRecord | Some (w, _) \<Rightarrow> Inr (s, w))
      | Some (k, s1) \<Rightarrow>
          let s2 = snd (revise_record env now k r None s1);
            g = r\<lparr>cr_status := CsGranted, cr_state := StSigned, cr_granted_at := Some now\<rparr>;
            s3 = consent_log (Some citizen) (Some citizen) CaGranted (Some ck) (masked env req)
              [(''category_slug'', slug), (''source'', get_source req)] (put_record k g s2);
            s4 = put_signature (cd_fresh s3) (auto_signature env now k citizen ck agreed hash) (s3\<lparr>cd_fresh := Suc (cd_fresh s3)\<rparr>);
            s5 = snd (revise_record env now k g None s4)
          in Inr (dispatch_webhook env now ''consent.granted''
            [(''consent_record_id'', ce_text env k), (''category_slug'', slug), (''individual_id'', ce_text env citizen)] s5, k))"

text \<open>\<open>given\<close> is the revision the caller asks for.\<close>

definition grant ::
  "consent_env \<Rightarrow> consent_db \<Rightarrow> int \<Rightarrow> nat \<Rightarrow> string \<Rightarrow> http_request option \<Rightarrow> string \<Rightarrow> nat option
     \<Rightarrow> consent_error + (consent_db \<times> nat)" where
  "grant env s now citizen slug req version given = (case find_category s slug of
     None \<Rightarrow> Inl UnknownCategory
   | Some (ck, c) \<Rightarrow>
       if given \<noteq> None \<and> tget (cd_revisions s) (the given) = None then Inl NoRevision
       else let agreed = (if given = None then map_option fst (get_latest_revision s ck) else given) in
         case existing_grant s citizen ck agreed of
           Some (k, r) \<Rightarrow> Inr (s, k)
         | None \<Rightarrow> grant_new env (archive_current citizen ck s) now citizen slug ck req version agreed)"

definition withdraw ::
  "consent_env \<Rightarrow> consent_db \<Rightarrow> int \<Rightarrow> nat \<Rightarrow> string \<Rightarrow> http_request option \<Rightarrow> consent_error + (consent_db \<times> nat)" where
  "withdraw env s now citizen slug req = (case find_category s slug of
     None \<Rightarrow> Inl UnknownCategory
   | Some (ck, c) \<Rightarrow>
       if ct_required c then Inl RequiredConsent
       else (case tfind (is_current citizen ck) (cd_records s) of
         None \<Rightarrow> Inl NoConsentRecord
       | Some (k, r) \<Rightarrow>
           if cr_status r = CsPending then Inl NeverGranted
           else if cr_status r \<noteq> CsGranted then Inr (s, k)
           else let w = r\<lparr>cr_status := CsWithdrawn, cr_state := StRevoked, cr_withdrawn_at := Some now,
                  cr_ip := masked env req, cr_source := get_source req\<rparr>;
                s1 = snd (revise_record env now k w None (put_record k w s));
                s2 = consent_log (Some citizen) (Some citizen) CaWithdrawn (Some ck) (masked env req)
                  [(''category_slug'', slug), (''source'', get_source req)] s1
              in Inr (dispatch_webhook env now ''consent.withdrawn''
                [(''consent_record_id'', ce_text env k), (''category_slug'', slug), (''individual_id'', ce_text env citizen)] s2, k)))"

definition has_consent :: "consent_db \<Rightarrow> nat \<Rightarrow> string \<Rightarrow> bool" where
  "has_consent s citizen slug = (case find_category s slug of
     None \<Rightarrow> False
   | Some (ck, c) \<Rightarrow> ct_required c
       \<or> tfind (\<lambda>r. is_current citizen ck r \<and> granted_now r) (cd_records s) \<noteq> None)"

section \<open>Signatures\<close>

text \<open>
  \<open>ConsentRecord.save\<close> would fill in \<open>granted_at\<close>, but the service names the columns to write,
  and this one is not among them: it stays as it was.
\<close>

definition attach_signature ::
  "consent_env \<Rightarrow> consent_db \<Rightarrow> int \<Rightarrow> nat \<Rightarrow> string \<Rightarrow> string \<Rightarrow> string \<Rightarrow> string \<Rightarrow> http_request option
     \<Rightarrow> consent_error + (consent_db \<times> nat)" where
  "attach_signature env s now k vtype vpayload sig signer req = (case tget (cd_records s) k of
     None \<Rightarrow> Inl NoConsentRecord
   | Some r \<Rightarrow>
       if tfind (\<lambda>g. sg_record g = k) (cd_signatures s) \<noteq> None then Inl SignatureExists
       else if sig = '''' then Inl SignatureMissing
       else if signer = '''' then Inl SignerMissing
       else let gk = cd_fresh s;
            g = \<lparr>sg_record = k, sg_payload = vpayload, sg_signature = sig, sg_type = vtype, sg_verification = vpayload,
              sg_verification_hash = ce_sha env vpayload, sg_signed_by = signer, sg_time = now,
              sg_revision_hash = cr_hash r, sg_optional = []\<rparr>;
            s1 = put_signature gk g (s\<lparr>cd_fresh := Suc gk\<rparr>) in
          if cr_state r = StSigned then Inr (s1, gk)
          else let q = r\<lparr>cr_status := CsGranted, cr_state := StSigned, cr_ip := masked env req, cr_source := get_source req\<rparr>;
              (v, s2) = revise_record env now k q (Some (cr_state r)) (put_record k q s1)
            in Inr (consent_log (Some (cr_citizen r)) (Some (cr_citizen r)) CaGranted (Some (cr_category r)) (masked env req)
              [(''trigger'', ''signature_attached''), (''verification_type'', vtype), (''revision_id'', ce_text env v)] s2, gk))"

text \<open>The fields of a validated update, in its order.\<close>

datatype signature_change =
    SgPayload string | SgSignature string | SgType string | SgVerification string | SgVerificationHash string
  | SgSignedBy string | SgTime int | SgRevisionHash string | SgOptional string string

fun change_signature :: "signature_change \<Rightarrow> signature \<Rightarrow> signature" where
  "change_signature (SgPayload x) g = g\<lparr>sg_payload := x\<rparr>"
| "change_signature (SgSignature x) g = g\<lparr>sg_signature := x\<rparr>"
| "change_signature (SgType x) g = g\<lparr>sg_type := x\<rparr>"
| "change_signature (SgVerification x) g = g\<lparr>sg_verification := x\<rparr>"
| "change_signature (SgVerificationHash x) g = g\<lparr>sg_verification_hash := x\<rparr>"
| "change_signature (SgSignedBy x) g = g\<lparr>sg_signed_by := x\<rparr>"
| "change_signature (SgTime x) g = g\<lparr>sg_time := x\<rparr>"
| "change_signature (SgRevisionHash x) g = g\<lparr>sg_revision_hash := x\<rparr>"
| "change_signature (SgOptional c x) g = g\<lparr>sg_optional := AList.update c x (sg_optional g)\<rparr>"

definition update_signature ::
  "consent_env \<Rightarrow> consent_db \<Rightarrow> int \<Rightarrow> nat \<Rightarrow> nat \<Rightarrow> signature_change list \<Rightarrow> http_request option
     \<Rightarrow> consent_error + consent_db" where
  "update_signature env s now k gk changes req = (case tget (cd_records s) k of
     None \<Rightarrow> Inl NoConsentRecord
   | Some r \<Rightarrow> (case tget (cd_signatures s) gk of
       None \<Rightarrow> Inl NoSignature
     | Some old \<Rightarrow>
         let g0 = fold change_signature changes old;
           g = (if list_ex (\<lambda>c. case c of SgVerification x \<Rightarrow> True | _ \<Rightarrow> False) changes
             then g0\<lparr>sg_verification_hash := ce_sha env (sg_verification g0)\<rparr> else g0);
           (v, s1) = create_for env (put_signature gk g s) now SignatureSchema gk
             (SignatureSnap gk (g\<lparr>sg_record := k, sg_revision_hash := '''', sg_optional := []\<rparr>)) (Some (cr_citizen r)) ''''
         in Inr (consent_log (Some (cr_citizen r)) (Some (cr_citizen r)) CaGranted (Some (cr_category r)) (masked env req)
           [(''trigger'', ''signature_updated''), (''revision_id'', ce_text env v)] s1)))"

section \<open>Policies and data agreements\<close>

definition by_other :: "consent_env \<Rightarrow> nat option \<Rightarrow> string" where
  "by_other env actor = (case actor of None \<Rightarrow> ''system'' | Some a \<Rightarrow> ce_text env a)"

definition revise_policy ::
  "consent_env \<Rightarrow> consent_db \<Rightarrow> int \<Rightarrow> consent_action \<Rightarrow> nat \<Rightarrow> consent_policy \<Rightarrow> nat option \<Rightarrow> consent_db" where
  "revise_policy env s now act pk p actor =
     (let (v, s1) = create_for env (s\<lparr>cd_policies := tput pk p (cd_policies s)\<rparr>) now PolicySchema pk (PolicySnap pk p)
        None (by_other env actor)
      in consent_log None actor act None ''''
        [(''policy_id'', ce_text env pk), (''revision_id'', ce_text env v), (''name'', cp_name p)] s1)"

definition create_policy :: "consent_env \<Rightarrow> consent_db \<Rightarrow> int \<Rightarrow> consent_policy \<Rightarrow> nat option \<Rightarrow> consent_db \<times> nat" where
  "create_policy env s now p actor = (let pk = cd_fresh s in
     (revise_policy env (s\<lparr>cd_fresh := Suc pk\<rparr>) now CaPolicyCreated pk p actor, pk))"

datatype policy_change = CpName string | CpColumn string string

fun change_policy :: "policy_change \<Rightarrow> consent_policy \<Rightarrow> consent_policy" where
  "change_policy (CpName x) p = p\<lparr>cp_name := x\<rparr>"
| "change_policy (CpColumn c x) p = p\<lparr>cp_columns := AList.update c x (cp_columns p)\<rparr>"

definition update_policy ::
  "consent_env \<Rightarrow> consent_db \<Rightarrow> int \<Rightarrow> nat \<Rightarrow> policy_change list \<Rightarrow> nat option \<Rightarrow> consent_error + consent_db" where
  "update_policy env s now pk changes actor = (case tget (cd_policies s) pk of
     None \<Rightarrow> Inl NoObject
   | Some p \<Rightarrow> Inr (revise_policy env s now CaPolicyUpdated pk (fold change_policy changes p) actor))"

text \<open>A slug is unique and a policy must exist.\<close>

definition category_refused :: "consent_db \<Rightarrow> nat \<Rightarrow> category \<Rightarrow> bool" where
  "category_refused s ck c \<longleftrightarrow> list_ex (\<lambda>kd. fst kd \<noteq> ck \<and> ct_slug (snd kd) = ct_slug c) (cd_categories s)
     \<or> (case ct_policy c of None \<Rightarrow> False | Some pk \<Rightarrow> tget (cd_policies s) pk = None)"

definition revise_agreement ::
  "consent_env \<Rightarrow> consent_db \<Rightarrow> int \<Rightarrow> consent_action \<Rightarrow> nat \<Rightarrow> category \<Rightarrow> nat option \<Rightarrow> consent_error + consent_db" where
  "revise_agreement env s now act ck c actor =
     (if category_refused s ck c then Inl SlugTaken
      else let (v, s1) = create_for env (s\<lparr>cd_categories := tput ck c (cd_categories s)\<rparr>) now AgreementSchema ck
          (AgreementSnap ck c) None (by_other env actor)
        in Inr (consent_log None actor act (Some ck) ''''
          [(''data_agreement_id'', ce_text env ck), (''revision_id'', ce_text env v), (''slug'', ct_slug c)] s1))"

definition create_data_agreement ::
  "consent_env \<Rightarrow> consent_db \<Rightarrow> int \<Rightarrow> category \<Rightarrow> nat option \<Rightarrow> consent_error + consent_db" where
  "create_data_agreement env s now c actor = (let ck = cd_fresh s in
     revise_agreement env (s\<lparr>cd_fresh := Suc ck\<rparr>) now CaAgreementCreated ck c actor)"

datatype category_change =
    CtSlug string | CtRequired bool | CtActive bool | CtForgettable bool | CtPolicy "nat option" | CtColumn string string

fun change_category :: "category_change \<Rightarrow> category \<Rightarrow> category" where
  "change_category (CtSlug x) c = c\<lparr>ct_slug := x\<rparr>"
| "change_category (CtRequired b) c = c\<lparr>ct_required := b\<rparr>"
| "change_category (CtActive b) c = c\<lparr>ct_active := b\<rparr>"
| "change_category (CtForgettable b) c = c\<lparr>ct_forgettable := b\<rparr>"
| "change_category (CtPolicy p) c = c\<lparr>ct_policy := p\<rparr>"
| "change_category (CtColumn n x) c = c\<lparr>ct_columns := AList.update n x (ct_columns c)\<rparr>"

definition update_data_agreement ::
  "consent_env \<Rightarrow> consent_db \<Rightarrow> int \<Rightarrow> nat \<Rightarrow> category_change list \<Rightarrow> nat option \<Rightarrow> consent_error + consent_db" where
  "update_data_agreement env s now ck changes actor = (case tget (cd_categories s) ck of
     None \<Rightarrow> Inl NoObject
   | Some c \<Rightarrow> revise_agreement env s now CaAgreementUpdated ck (fold change_category changes c) actor)"

section \<open>The right to be forgotten\<close>

definition forgettable :: "consent_db \<Rightarrow> nat \<Rightarrow> consent_record \<Rightarrow> bool" where
  "forgettable s citizen r \<longleftrightarrow> cr_citizen r = citizen \<and> (case tget (cd_categories s) (cr_category r) of
     None \<Rightarrow> False | Some c \<Rightarrow> ct_forgettable c \<and> \<not> ct_required c)"

definition slug_of :: "consent_db \<Rightarrow> nat \<Rightarrow> string" where
  "slug_of s ck = (case tget (cd_categories s) ck of None \<Rightarrow> '''' | Some c \<Rightarrow> ct_slug c)"

text \<open>
  The column \<open>consent_record\<close> of an application is a protected reference, and that a record exists
  is checked by the database; \<open>apply\<close> sets it for a new and for a reopened application.
\<close>

definition refer_application :: "consent_db \<Rightarrow> nat \<Rightarrow> nat option \<Rightarrow> consent_error + consent_db" where
  "refer_application s a c = (if c \<noteq> None \<and> tget (cd_records s) (the c) = None then Inl NoObject
     else Inr (s\<lparr>cd_applications := tput a c (cd_applications s)\<rparr>))"

definition edit_profile :: "consent_db \<Rightarrow> nat \<Rightarrow> photo_profile \<Rightarrow> consent_error + consent_db" where
  "edit_profile s p q = (if pp_consent q \<noteq> None \<and> tget (cd_records s) (the (pp_consent q)) = None then Inl NoObject
     else Inr (s\<lparr>cd_profiles := tput p q (cd_profiles s),
       cd_photos := (case pp_photo q of None \<Rightarrow> cd_photos s | Some f \<Rightarrow> List.insert f (cd_photos s))\<rparr>))"

definition record_protected :: "consent_db \<Rightarrow> nat \<Rightarrow> bool" where
  "record_protected s k \<longleftrightarrow> Some k \<in> snd ` set (cd_applications s)"

text \<open>
  The receiver before a record is deleted: the photos taken under it leave the storage and their
  profiles. A photo the storage fails to delete stays in both, and the failure is logged.
\<close>

definition loses_photo :: "consent_env \<Rightarrow> nat \<Rightarrow> photo_profile \<Rightarrow> bool" where
  "loses_photo env k q \<longleftrightarrow> pp_consent q = Some k \<and> (case pp_photo q of None \<Rightarrow> False | Some f \<Rightarrow> ce_storage env f)"

definition delete_volunteer_photo :: "consent_env \<Rightarrow> nat \<Rightarrow> consent_db \<Rightarrow> consent_db" where
  "delete_volunteer_photo env k s =
     s\<lparr>cd_photos := filter (\<lambda>f. \<not> list_ex (\<lambda>pq. loses_photo env k (snd pq) \<and> pp_photo (snd pq) = Some f) (cd_profiles s)) (cd_photos s),
       cd_profiles := tupdate_where (loses_photo env k) (\<lambda>q. q\<lparr>pp_photo := None\<rparr>) (cd_profiles s)\<rparr>"

text \<open>
  Deleting records is refused as a whole when one of them is protected. Otherwise the receiver runs
  for each, their signatures are deleted with them, and profiles no longer refer to them. The
  result is the number of deleted and of kept records and the slugs of the deleted ones.
\<close>

definition right_to_be_forgotten ::
  "consent_env \<Rightarrow> consent_db \<Rightarrow> nat \<Rightarrow> http_request option \<Rightarrow> consent_error + (consent_db \<times> nat \<times> nat \<times> string list)" where
  "right_to_be_forgotten env s citizen req =
     (let gone = filter (\<lambda>kr. forgettable s citizen (snd kr)) (cd_records s);
        ids = map fst gone; slugs = map (\<lambda>kr. slug_of s (cr_category (snd kr))) gone; n = length gone
      in if list_ex (record_protected s) ids then Inl RecordProtected
      else let s0 = fold (delete_volunteer_photo env) ids s;
        s1 = s0\<lparr>cd_records := filter (\<lambda>kr. \<not> forgettable s citizen (snd kr)) (cd_records s),
          cd_signatures := filter (\<lambda>kg. sg_record (snd kg) \<notin> set ids) (cd_signatures s),
          cd_profiles := tupdate_where (\<lambda>q. pp_consent q \<in> Some ` set ids) (\<lambda>q. q\<lparr>pp_consent := None\<rparr>) (cd_profiles s0),
          cd_revisions := tupdate_where (\<lambda>v. rv_schema v = RecordSchema \<and> rv_object v \<in> set ids) redact_pii (cd_revisions s)\<rparr>;
        kept = tcount (\<lambda>r. cr_citizen r = citizen) (cd_records s1);
        det = map (\<lambda>x. (''categories_deleted'', x)) slugs @ [(''deleted_count'', show_nat n)];
        s2 = consent_log (Some citizen) (Some citizen) CaForgetRequested None (masked env req) det s1;
        s3 = (if 0 < n then consent_log (Some citizen) (Some citizen) CaForgetCompleted None (masked env req)
          (det @ [(''retained_count'', show_nat kept)]) s2 else s2)
      in Inr (s3, n, kept, slugs))"

text \<open>The receiver for a new citizen: a grant that fails is logged.\<close>

definition bootstrap_required_consents :: "consent_env \<Rightarrow> consent_db \<Rightarrow> int \<Rightarrow> nat \<Rightarrow> consent_db" where
  "bootstrap_required_consents env s now citizen =
     fold (\<lambda>kc t. case grant env t now citizen (ct_slug (snd kc)) None '''' None of Inl e \<Rightarrow> t | Inr (t', k) \<Rightarrow> t')
       (filter (\<lambda>kc. ct_required (snd kc) \<and> ct_active (snd kc)) (cd_categories s)) s"

section \<open>Runs\<close>

datatype consent_op =
    CoGrant int nat string "http_request option" string "nat option"
  | CoWithdraw int nat string "http_request option"
  | CoOpen nat nat
  | CoAttach int nat string string string string "http_request option"
  | CoUpdateSignature int nat nat "signature_change list" "http_request option"
  | CoCreatePolicy int consent_policy "nat option"
  | CoUpdatePolicy int nat "policy_change list" "nat option"
  | CoCreateAgreement int category "nat option"
  | CoUpdateAgreement int nat "category_change list" "nat option"
  | CoForget nat "http_request option"
  | CoApplication nat "nat option"
  | CoProfile nat photo_profile

fun consent_step :: "consent_env \<Rightarrow> consent_db \<Rightarrow> consent_op \<Rightarrow> consent_error + consent_db" where
  "consent_step env s (CoGrant now citizen slug req version given) = map_sum id fst (grant env s now citizen slug req version given)"
| "consent_step env s (CoWithdraw now citizen slug req) = map_sum id fst (withdraw env s now citizen slug req)"
| "consent_step env s (CoOpen citizen ck) = map_sum id fst (get_or_create_record s citizen ck)"
| "consent_step env s (CoAttach now k vtype vpayload sig signer req) =
     map_sum id fst (attach_signature env s now k vtype vpayload sig signer req)"
| "consent_step env s (CoUpdateSignature now k gk changes req) = update_signature env s now k gk changes req"
| "consent_step env s (CoCreatePolicy now p actor) = Inr (fst (create_policy env s now p actor))"
| "consent_step env s (CoUpdatePolicy now pk changes actor) = update_policy env s now pk changes actor"
| "consent_step env s (CoCreateAgreement now c actor) = create_data_agreement env s now c actor"
| "consent_step env s (CoUpdateAgreement now ck changes actor) = update_data_agreement env s now ck changes actor"
| "consent_step env s (CoForget citizen req) = map_sum id fst (right_to_be_forgotten env s citizen req)"
| "consent_step env s (CoApplication a c) = refer_application s a c"
| "consent_step env s (CoProfile p q) = edit_profile s p q"

end
