(* ===== verification/ConsentTrail.thy ===== *)
theory ConsentTrail
  imports Consent
begin

text \<open>
  The revisions of every object form one linked chain; what \<open>create_for\<close> does to it, and to what
  the services read of it.
\<close>

section \<open>Chains of revisions\<close>

definition is_of :: "schema \<Rightarrow> nat \<Rightarrow> nat \<times> revision \<Rightarrow> bool" where
  "is_of sc k vr \<longleftrightarrow> rv_schema (snd vr) = sc \<and> rv_object (snd vr) = k"

text \<open>The revisions of an object in the order of their creation.\<close>

definition trail_of :: "revision table \<Rightarrow> schema \<Rightarrow> nat \<Rightarrow> (nat \<times> revision) list" where
  "trail_of t sc k = filter (is_of sc k) t"

text \<open>Each is the predecessor of the next one, by key and by digest, and the last has no successor.\<close>

fun linked :: "string \<Rightarrow> (nat \<times> revision) list \<Rightarrow> bool" where
  "linked h [] = True"
| "linked h ((v, r) # vs) = (rv_predecessor r = h
     \<and> rv_successor r = (case vs of [] \<Rightarrow> None | (w, q) # _ \<Rightarrow> Some w) \<and> linked (rv_hash r) vs)"

definition link_last :: "nat \<Rightarrow> (nat \<times> revision) list \<Rightarrow> (nat \<times> revision) list" where
  "link_last w vs = map (\<lambda>(v, r). (v, if rv_successor r = None then r\<lparr>rv_successor := Some w\<rparr> else r)) vs"

definition last_hash :: "string \<Rightarrow> (nat \<times> revision) list \<Rightarrow> string" where
  "last_hash h vs = (if vs = [] then h else rv_hash (snd (last vs)))"

lemma linked_open: "linked h vs \<Longrightarrow> filter (\<lambda>vr. rv_successor (snd vr) = None) vs = (if vs = [] then [] else [last vs])"
  by (induction h vs rule: linked.induct) (auto split: list.splits)

lemma linked_extend:
  "linked h vs \<Longrightarrow> rv_predecessor q = last_hash h vs \<Longrightarrow> rv_successor q = None \<Longrightarrow> linked h (link_last w vs @ [(w, q)])"
proof (induction h vs rule: linked.induct)
  case (2 h v r vs)
  from "2.prems" have "linked (rv_hash r) (link_last w vs @ [(w, q)])"
    by (intro "2.IH") (auto simp: last_hash_def split: if_splits)
  with "2.prems" show ?case by (auto simp: link_last_def split: list.splits)
qed (simp add: link_last_def last_hash_def)

lemma newest_single: "newest [x] = Some x"
  by (simp add: newest_def)

text \<open>What \<open>create_for\<close> needs of the revisions, and what it does to them.\<close>

definition revisions_ok :: "consent_db \<Rightarrow> bool" where
  "revisions_ok s \<longleftrightarrow> tok (cd_revisions s) \<and> (\<forall>v r. tget (cd_revisions s) v = Some r \<longrightarrow> v < cd_fresh s)
     \<and> (\<forall>sc k. linked '''' (trail_of (cd_revisions s) sc k))"

lemma revisions_okD:
  assumes "revisions_ok s"
  shows "tok (cd_revisions s)" "tget (cd_revisions s) v = Some r \<Longrightarrow> v < cd_fresh s"
    "linked '''' (trail_of (cd_revisions s) sc k)"
  using assms by (auto simp: revisions_ok_def)

lemma latest_of_trail:
  assumes "revisions_ok s"
  shows "latest_revision s sc k = (if trail_of (cd_revisions s) sc k = [] then None
    else Some (last (trail_of (cd_revisions s) sc k)))"
proof -
  have "filter (\<lambda>kr. rv_schema (snd kr) = sc \<and> rv_object (snd kr) = k \<and> rv_successor (snd kr) = None) (cd_revisions s)
      = filter (\<lambda>vr. rv_successor (snd vr) = None) (trail_of (cd_revisions s) sc k)"
    by (simp add: trail_of_def is_of_def conj_ac)
  with linked_open [OF revisions_okD(3) [OF assms]] show ?thesis
    by (simp add: latest_revision_def newest_def)
qed

lemma trail_set: "(v, r) \<in> set (trail_of t sc k) \<Longrightarrow> tok t \<Longrightarrow> tget t v = Some r \<and> rv_schema r = sc \<and> rv_object r = k"
  by (auto simp: trail_of_def is_of_def tget_iff)

lemma linked_last: "linked h vs \<Longrightarrow> (v, r) \<in> set vs \<Longrightarrow> rv_successor r = None \<Longrightarrow> (v, r) = last vs"
proof -
  assume "linked h vs" and row: "(v, r) \<in> set vs" "rv_successor r = None"
  from row have "(v, r) \<in> set (filter (\<lambda>vr. rv_successor (snd vr) = None) vs)" by simp
  with linked_open [OF \<open>linked h vs\<close>] show ?thesis by (cases "vs = []") auto
qed

lemma trail_relink:
  assumes ok: "tok t" "linked '''' (trail_of t sc k)" and last: "trail_of t sc k \<noteq> []" "last (trail_of t sc k) = (j, p)"
  shows "trail_of (map (\<lambda>(i, q). (i, if i = j then p\<lparr>rv_successor := Some w\<rparr> else q)) t) sc' k'
    = (if sc' = sc \<and> k' = k then link_last w (trail_of t sc k) else trail_of t sc' k')"
proof -
  let ?g = "\<lambda>(i, q). (i, if i = j then p\<lparr>rv_successor := Some w\<rparr> else q)"
  from last have "(j, p) \<in> set (trail_of t sc k)" using last_in_set by metis
  from trail_set [OF this ok(1)] have p: "tget t j = Some p" "rv_schema p = sc" "rv_object p = k" by auto
  have same: "q = p" if "(j, q) \<in> set t" for q using that p(1) ok(1) by (simp add: tget_iff [symmetric])
  have "is_of sc' k' (?g x) = is_of sc' k' x" if "x \<in> set t" for x
  proof -
    obtain i q where x: "x = (i, q)" by (cases x)
    show ?thesis using that same [of q] by (cases "i = j") (auto simp: x is_of_def)
  qed
  then have f: "trail_of (map ?g t) sc' k' = map ?g (trail_of t sc' k')"
    unfolding trail_of_def by (induction t) auto
  have own: "map ?g (trail_of t sc k) = link_last w (trail_of t sc k)"
    unfolding link_last_def
  proof (rule map_cong [OF refl])
    fix x assume x: "x \<in> set (trail_of t sc k)"
    obtain i q where iq: "x = (i, q)" by (cases x)
    from linked_last [OF ok(2) x [unfolded iq]] last(2) have "rv_successor q = None \<Longrightarrow> i = j" by auto
    moreover have "(j, p) \<in> set (filter (\<lambda>vr. rv_successor (snd vr) = None) (trail_of t sc k))"
      using last by (simp add: linked_open [OF ok(2)])
    then have "rv_successor p = None" by simp
    ultimately show "?g x = (\<lambda>(v, r). (v, if rv_successor r = None then r\<lparr>rv_successor := Some w\<rparr> else r)) x"
      using same x by (auto simp: iq trail_of_def)
  qed
  have other: "map ?g (trail_of t sc' k') = trail_of t sc' k'" if "\<not> (sc' = sc \<and> k' = k)"
    using that p same by (intro map_idI) (auto simp: trail_of_def is_of_def)
  show ?thesis
  proof (cases "sc' = sc \<and> k' = k")
    case True
    with f own show ?thesis by (simp only: simp_thms if_True)
  next
    case False
    with other f show ?thesis by (simp only: simp_thms if_False)
  qed
qed

definition same_revision :: "revision \<Rightarrow> revision \<Rightarrow> bool" where
  "same_revision q q' \<longleftrightarrow> (\<exists>w. q' = q\<lparr>rv_successor := w\<rparr>)"

lemma same_revision_refl [simp]: "same_revision q q"
  unfolding same_revision_def by (rule exI [of _ "rv_successor q"]) simp

lemma create_for_trails:
  assumes ok: "revisions_ok s" and run: "create_for env s now sc k snap by other = (v, s')"
  obtains r where "v = cd_fresh s"
    "\<forall>sc' k'. trail_of (cd_revisions s') sc' k' = (if sc' = sc \<and> k' = k
       then link_last v (trail_of (cd_revisions s) sc k) @ [(v, r)] else trail_of (cd_revisions s) sc' k')"
    "r = new_revision env now sc k snap by other (last_hash '''' (trail_of (cd_revisions s) sc k))"
    "tok (cd_revisions s')" "tget (cd_revisions s') v = Some r"
    "\<forall>j. j \<noteq> v \<longrightarrow> rel_option same_revision (tget (cd_revisions s) j) (tget (cd_revisions s') j)"
    "s' = s\<lparr>cd_fresh := Suc v, cd_revisions := cd_revisions s'\<rparr>"
proof -
  let ?t = "cd_revisions s" and ?trail = "trail_of (cd_revisions s) sc k"
  define r where "r = new_revision env now sc k snap by other (last_hash '''' ?trail)"
  have r: "rv_schema r = sc" "rv_object r = k" by (simp_all add: r_def new_revision_def Let_def)
  note tok = revisions_okD(1) [OF ok]
  have free: "tget ?t (cd_fresh s) = None"
    using revisions_okD(2) [OF ok, of "cd_fresh s"] by (cases "tget ?t (cd_fresh s)") auto
  have add: "trail_of (u @ [(w, r)]) sc' k' = trail_of u sc' k' @ (if sc' = sc \<and> k' = k then [(w, r)] else [])" for u w sc' k'
    using r by (auto simp: trail_of_def is_of_def)
  show thesis
  proof (cases "?trail = []")
    case True
    then have "latest_revision s sc k = None" by (simp add: latest_of_trail [OF ok])
    with run True have v: "v = cd_fresh s" and s': "s' = s\<lparr>cd_fresh := Suc v, cd_revisions := tput v r ?t\<rparr>"
      by (auto simp: create_for_def Let_def r_def last_hash_def)
    have "trail_of (cd_revisions s') sc' k' = (if sc' = sc \<and> k' = k
       then link_last v ?trail @ [(v, r)] else trail_of ?t sc' k')" for sc' k'
      using True free by (simp add: s' v tput_new add link_last_def)
    then show thesis
      by (intro that [OF v, where r = r] allI impI)
        (use s' tok in \<open>simp_all add: r_def [symmetric] tok_tput tget_tput option.rel_refl\<close>)
  next
    case False
    obtain j p where jp: "last ?trail = (j, p)" by (cases "last ?trail")
    with False have "latest_revision s sc k = Some (j, p)" by (simp add: latest_of_trail [OF ok])
    moreover have h: "last_hash '''' ?trail = rv_hash p" using False jp by (simp add: last_hash_def)
    ultimately have v: "v = cd_fresh s" and
      s': "s' = s\<lparr>cd_fresh := Suc v, cd_revisions := tput j (p\<lparr>rv_successor := Some v\<rparr>) (tput v r ?t)\<rparr>"
      using run by (auto simp: create_for_def Let_def r_def)
    from jp False have "(j, p) \<in> set ?trail" using last_in_set by metis
    from trail_set [OF this tok] have j: "tget ?t j = Some p" by blast
    with free have jv: "j \<noteq> v" by (auto simp: v)
    have "tput j q (tput v r ?t) = map (\<lambda>(i, x). (i, if i = j then q else x)) ?t @ [(v, r)]" for q
    proof -
      have "tget (tput v r ?t) j \<noteq> None" using j jv by (simp add: tget_tput)
      from tput_old [OF tok_tput [OF tok] this] show ?thesis using free jv by (simp add: tput_new v)
    qed
    then have "trail_of (cd_revisions s') sc' k' = (if sc' = sc \<and> k' = k
       then link_last v ?trail @ [(v, r)] else trail_of ?t sc' k')" for sc' k'
      by (simp add: s' add trail_relink [OF tok revisions_okD(3) [OF ok] False jp])
    then show thesis
      by (intro that [OF v, where r = r] allI impI)
        (use s' jv tok j in \<open>simp_all add: r_def [symmetric] tok_tput tget_tput option.rel_refl same_revision_def exI [of _ "Some v"]\<close>)
  qed
qed

section \<open>What the services read of revisions\<close>

text \<open>The history a trail tells, and what identifies a revision.\<close>

definition told :: "(nat \<times> revision) list \<Rightarrow> (consent_state \<times> consent_status) list" where
  "told vs = concat (map (\<lambda>vr. case ev_data (rv_snapshot (snd vr)) of
     RecordSnap n \<Rightarrow> [(rn_state n, rn_status n)] | _ \<Rightarrow> []) vs)"

definition history :: "consent_db \<Rightarrow> nat \<Rightarrow> (consent_state \<times> consent_status) list" where
  "history s k = told (trail_of (cd_revisions s) RecordSchema k)"

definition revision_id :: "consent_db \<Rightarrow> nat \<Rightarrow> (schema \<times> nat \<times> string) option" where
  "revision_id s v = map_option (\<lambda>q. (rv_schema q, rv_object q, rv_hash q)) (tget (cd_revisions s) v)"

lemma told_append: "told (vs @ ws) = told vs @ told ws"
  by (simp add: told_def)

lemma told_link_last: "told (link_last w vs) = told vs"
  unfolding told_def link_last_def by (induction vs) (auto split: prod.splits)

definition told_by :: "schema \<Rightarrow> snapshot \<Rightarrow> (consent_state \<times> consent_status) list" where
  "told_by sc snap = (case snap of RecordSnap n \<Rightarrow> if sc = RecordSchema then [(rn_state n, rn_status n)] else [] | _ \<Rightarrow> [])"

lemma create_for_effect:
  assumes ok: "revisions_ok s" and run: "create_for env s now sc k snap by other = (v, s')"
  shows "v = cd_fresh s \<and> s' = s\<lparr>cd_fresh := Suc v, cd_revisions := cd_revisions s'\<rparr> \<and> revisions_ok s'
    \<and> history s' = (history s)(k := history s k @ told_by sc snap)
    \<and> (\<exists>h. revision_id s' = (revision_id s)(v \<mapsto> (sc, k, h)))"
proof -
  obtain r where v: "v = cd_fresh s"
    and trail: "\<forall>sc' k'. trail_of (cd_revisions s') sc' k' = (if sc' = sc \<and> k' = k
       then link_last v (trail_of (cd_revisions s) sc k) @ [(v, r)] else trail_of (cd_revisions s) sc' k')"
    and r: "r = new_revision env now sc k snap by other (last_hash '''' (trail_of (cd_revisions s) sc k))"
    and tok: "tok (cd_revisions s')" and new: "tget (cd_revisions s') v = Some r"
    and old: "\<forall>j. j \<noteq> v \<longrightarrow> rel_option same_revision (tget (cd_revisions s) j) (tget (cd_revisions s') j)"
    and s': "s' = s\<lparr>cd_fresh := Suc v, cd_revisions := cd_revisions s'\<rparr>"
    by (rule create_for_trails [OF ok run])
  have f: "rv_schema r = sc" "rv_object r = k" "ev_data (rv_snapshot r) = snap" "rv_successor r = None"
    "rv_predecessor r = last_hash '''' (trail_of (cd_revisions s) sc k)"
    by (simp_all add: r new_revision_def Let_def)
  have "linked '''' (trail_of (cd_revisions s') sc' k')" for sc' k'
    unfolding trail [rule_format] using linked_extend [OF revisions_okD(3) [OF ok] f(5,4)] revisions_okD(3) [OF ok] by auto
  moreover have "j < Suc v" if "tget (cd_revisions s') j = Some q" for j q
    using that old [rule_format, of j] revisions_okD(2) [OF ok, of j] v
    by (cases "j = v"; cases "tget (cd_revisions s) j") auto
  moreover have "cd_fresh s' = Suc v" by (subst s') simp
  ultimately have "revisions_ok s'" using tok by (simp add: revisions_ok_def)
  moreover have "history s' = (history s)(k := history s k @ told_by sc snap)"
    unfolding history_def trail [rule_format]
    by (auto simp: told_append told_link_last told_by_def f told_def [of "[_]"] fun_eq_iff split: snapshot.splits)
  moreover have "revision_id s' j = ((revision_id s)(v \<mapsto> (sc, k, rv_hash r))) j" for j
    using old [rule_format, of j] new f
    by (cases "j = v"; cases "tget (cd_revisions s) j"; cases "tget (cd_revisions s') j")
      (auto simp: revision_id_def same_revision_def)
  ultimately show ?thesis using v s' by blast
qed

end
