(* ===== verification/ConsentInv.thy ===== *)
theory ConsentInv
  imports ConsentTrail
begin

text \<open>
  The invariant of the consent records: every service keeps the trails linked and every record
  as its trail, its signature and the agreed revision say.
\<close>

section \<open>The invariant\<close>

abbreviation unsigned :: "consent_state \<times> consent_status" where "unsigned \<equiv> (StUnsigned, CsPending)"
abbreviation signed :: "consent_state \<times> consent_status" where "signed \<equiv> (StSigned, CsGranted)"
abbreviation revoked :: "consent_state \<times> consent_status" where "revoked \<equiv> (StRevoked, CsWithdrawn)"

definition legal_histories :: "(consent_state \<times> consent_status) list list" where
  "legal_histories = [[], [signed], [signed, revoked], [unsigned, signed], [unsigned, signed, revoked]]"

text \<open>A record is what its history says, signed once, and bound to the revision it agreed to.\<close>

definition record_explained :: "consent_db \<Rightarrow> nat \<Rightarrow> consent_record \<Rightarrow> bool" where
  "record_explained s k r \<longleftrightarrow> history s k \<in> set legal_histories
     \<and> (cr_state r, cr_status r) = (if history s k = [] then unsigned else last (history s k))
     \<and> tcount (\<lambda>g. sg_record g = k) (cd_signatures s) = of_bool (history s k \<noteq> [])
     \<and> (case cr_revision r of None \<Rightarrow> cr_hash r = ''''
        | Some v \<Rightarrow> revision_id s v = Some (AgreementSchema, cr_category r, cr_hash r))"

definition keys_below :: "consent_db \<Rightarrow> bool" where
  "keys_below s \<longleftrightarrow> (\<forall>k r. tget (cd_records s) k = Some r \<longrightarrow> k < cd_fresh s)
     \<and> (\<forall>k g. tget (cd_signatures s) k = Some g \<longrightarrow> k < cd_fresh s \<and> sg_record g < cd_fresh s)
     \<and> (\<forall>k. history s k \<noteq> [] \<longrightarrow> k < cd_fresh s)
     \<and> (\<forall>k c. tget (cd_categories s) k = Some c \<longrightarrow> k < cd_fresh s)
     \<and> (\<forall>k p. tget (cd_policies s) k = Some p \<longrightarrow> k < cd_fresh s)"

definition consent_inv :: "consent_db \<Rightarrow> bool" where
  "consent_inv s \<longleftrightarrow> revisions_ok s \<and> keys_below s \<and> tok (cd_records s) \<and> tok (cd_signatures s)
     \<and> tok (cd_categories s) \<and> tok (cd_policies s)
     \<and> (\<forall>k r. tget (cd_records s) k = Some r \<longrightarrow> record_explained s k r)
     \<and> (\<forall>citizen ck. tcount (is_current citizen ck) (cd_records s) \<le> 1)"

lemma consent_invD:
  assumes "consent_inv s"
  shows "revisions_ok s" "keys_below s" "tok (cd_records s)" "tok (cd_signatures s)" "tok (cd_categories s)" "tok (cd_policies s)"
    "tget (cd_records s) k = Some r \<Longrightarrow> record_explained s k r"
    "tcount (is_current citizen ck) (cd_records s) \<le> 1"
  using assms by (simp_all add: consent_inv_def)

lemma keys_belowD:
  assumes "keys_below s"
  shows "tget (cd_records s) k = Some r \<Longrightarrow> k < cd_fresh s" "tget (cd_signatures s) k = Some g \<Longrightarrow> k < cd_fresh s"
    "tget (cd_signatures s) k = Some g \<Longrightarrow> sg_record g < cd_fresh s"
    "history s k \<noteq> [] \<Longrightarrow> k < cd_fresh s" "tget (cd_categories s) k = Some c \<Longrightarrow> k < cd_fresh s"
    "tget (cd_policies s) k = Some p \<Longrightarrow> k < cd_fresh s"
  using assms by (auto simp: keys_below_def)

text \<open>The parts of the state the invariant does not read.\<close>

definition same_core :: "consent_db \<Rightarrow> consent_db \<Rightarrow> bool" where
  "same_core s t \<longleftrightarrow> cd_records t = cd_records s \<and> cd_signatures t = cd_signatures s \<and> cd_revisions t = cd_revisions s
     \<and> cd_categories t = cd_categories s \<and> cd_policies t = cd_policies s \<and> cd_fresh t = cd_fresh s"

lemma same_core_simps [simp]:
  "same_core s (consent_log c a act ck ip det s)" "same_core s (dispatch_webhook env now event payload s)"
  by (simp_all add: same_core_def consent_log_def dispatch_webhook_def)

text \<open>A state that differs by the creation of a revision.\<close>

definition revised :: "consent_db \<Rightarrow> schema \<Rightarrow> nat \<Rightarrow> snapshot \<Rightarrow> consent_db \<Rightarrow> bool" where
  "revised s sc k snap t \<longleftrightarrow> revisions_ok t \<and> t = s\<lparr>cd_fresh := Suc (cd_fresh s), cd_revisions := cd_revisions t\<rparr>
     \<and> history t = (history s)(k := history s k @ told_by sc snap)
     \<and> (\<exists>h. revision_id t = (revision_id s)(cd_fresh s \<mapsto> (sc, k, h)))"

lemma create_for_revised:
  "revisions_ok s \<Longrightarrow> create_for env s now sc k snap by other = (v, t) \<Longrightarrow> revised s sc k snap t \<and> v = cd_fresh s"
  unfolding revised_def using create_for_effect [of s env now sc k snap "by" other v t] by metis

lemma revision_id_fresh: "revisions_ok s \<Longrightarrow> cd_fresh s \<le> v \<Longrightarrow> revision_id s v = None"
  using revisions_okD(2) [of s v] by (cases "tget (cd_revisions s) v") (auto simp: revision_id_def)

text \<open>
  How a service changes the core: at most the record \<open>k\<close>, its history and its signatures.
\<close>

definition touches :: "nat \<Rightarrow> consent_db \<Rightarrow> consent_db \<Rightarrow> bool" where
  "touches k s t \<longleftrightarrow> revisions_ok t \<and> keys_below t \<and> tok (cd_records t) \<and> tok (cd_signatures t)
     \<and> tok (cd_categories t) \<and> tok (cd_policies t)
     \<and> (\<forall>j. j \<noteq> k \<longrightarrow> history t j = history s j \<and> tget (cd_records t) j = tget (cd_records s) j
          \<and> tcount (\<lambda>g. sg_record g = j) (cd_signatures t) = tcount (\<lambda>g. sg_record g = j) (cd_signatures s))
     \<and> revision_id s \<subseteq>\<^sub>m revision_id t"

lemma record_explained_mono:
  assumes "record_explained s k r" "history t k = history s k" "revision_id s \<subseteq>\<^sub>m revision_id t"
    "tcount (\<lambda>g. sg_record g = k) (cd_signatures t) = tcount (\<lambda>g. sg_record g = k) (cd_signatures s)"
  shows "record_explained t k r"
  using assms by (auto simp: record_explained_def map_le_def dom_def split: option.splits)

lemma touches_inv:
  assumes inv: "consent_inv s" and t: "touches k s t"
    and own: "\<And>r. tget (cd_records t) k = Some r \<Longrightarrow> record_explained t k r"
    and cur: "\<And>citizen ck. tcount (is_current citizen ck) (cd_records t) \<le> 1"
  shows "consent_inv t"
proof -
  have "record_explained t j r" if "tget (cd_records t) j = Some r" for j r
  proof (cases "j = k")
    case True
    with own that show ?thesis by simp
  next
    case False
    with t have j: "history t j = history s j" "tget (cd_records t) j = tget (cd_records s) j"
      "tcount (\<lambda>g. sg_record g = j) (cd_signatures t) = tcount (\<lambda>g. sg_record g = j) (cd_signatures s)"
      "revision_id s \<subseteq>\<^sub>m revision_id t" unfolding touches_def by blast+
    from consent_invD(7) [OF inv, of j r] j(2) that have "record_explained s j r" by simp
    from record_explained_mono [OF this j(1,4,3)] show ?thesis .
  qed
  with t cur show ?thesis by (simp add: consent_inv_def touches_def)
qed

section \<open>Granting\<close>

lemma revisions_only:
  assumes "cd_revisions t = cd_revisions s"
  shows "history t = history s" "revision_id t = revision_id s"
    "cd_fresh s \<le> cd_fresh t \<Longrightarrow> revisions_ok s \<Longrightarrow> revisions_ok t"
proof -
  show "history t = history s" "revision_id t = revision_id s"
    by (simp_all add: history_def revision_id_def assms fun_eq_iff)
  show "revisions_ok t" if "cd_fresh s \<le> cd_fresh t" "revisions_ok s"
    using that unfolding revisions_ok_def assms by (meson order.strict_trans2)
qed

lemma revise_record_revised:
  assumes "revisions_ok s"
  shows "revised s RecordSchema k (RecordSnap ((record_snap k r)\<lparr>rn_previous := previous\<rparr>)) (snd (revise_record env now k r previous s))
    \<and> fst (revise_record env now k r previous s) = cd_fresh s"
  using create_for_revised [OF assms] unfolding revise_record_def by (metis prod.collapse)

lemma revisedD:
  assumes "revised s sc k snap t"
  shows "revisions_ok t" "cd_fresh t = Suc (cd_fresh s)" "cd_records t = cd_records s" "cd_signatures t = cd_signatures s"
    "cd_categories t = cd_categories s" "cd_policies t = cd_policies s" "cd_exports t = cd_exports s"
    "cd_audit t = cd_audit s" "cd_queue t = cd_queue s" "cd_webhooks t = cd_webhooks s"
    "history t = (history s)(k := history s k @ told_by sc snap)"
proof -
  from assms have ok: "revisions_ok t" and h: "history t = (history s)(k := history s k @ told_by sc snap)"
    and t: "t = s\<lparr>cd_fresh := Suc (cd_fresh s), cd_revisions := cd_revisions t\<rparr>" by (simp_all add: revised_def)
  show "revisions_ok t" "history t = (history s)(k := history s k @ told_by sc snap)" by (fact ok, fact h)
  show "cd_fresh t = Suc (cd_fresh s)" "cd_records t = cd_records s" "cd_signatures t = cd_signatures s"
    "cd_categories t = cd_categories s" "cd_policies t = cd_policies s" "cd_exports t = cd_exports s"
    "cd_audit t = cd_audit s" "cd_queue t = cd_queue s" "cd_webhooks t = cd_webhooks s"
    by (subst t, simp)+
qed

lemma revised_ids: "revised s sc k snap t \<Longrightarrow> revisions_ok s \<Longrightarrow> revision_id s \<subseteq>\<^sub>m revision_id t"
  using revision_id_fresh [of s "cd_fresh s"] by (auto simp: revised_def map_le_def)

lemma told_by_record: "told_by RecordSchema (RecordSnap ((record_snap k r)\<lparr>rn_previous := previous\<rparr>)) = [(cr_state r, cr_status r)]"
  by (simp add: told_by_def record_snap_def)

text \<open>What a grant does when it creates a record.\<close>

definition granted_record :: "consent_db \<Rightarrow> nat \<Rightarrow> nat \<Rightarrow> nat option \<Rightarrow> consent_record \<Rightarrow> bool" where
  "granted_record s citizen ck agreed g \<longleftrightarrow> cr_state g = StSigned \<and> cr_status g = CsGranted \<and> cr_citizen g = citizen
     \<and> cr_category g = ck \<and> cr_current g \<and> cr_revision g = agreed
     \<and> cr_hash g = (case agreed of None \<Rightarrow> '''' | Some v \<Rightarrow> (case tget (cd_revisions s) v of None \<Rightarrow> '''' | Some q \<Rightarrow> rv_hash q))"

lemma grant_new_effect:
  assumes ok: "revisions_ok s" and none: "tfind (is_current citizen ck) (cd_records s) = None"
    and run: "grant_new env s now citizen slug ck req version agreed = Inr (s', k)"
  obtains g sg where "k = cd_fresh s" "granted_record s citizen ck agreed g" "cd_records s' = tput k g (cd_records s)"
    "cd_signatures s' = tput (k + 2) sg (cd_signatures s)" "sg_record sg = k"
    "history s' = (history s)(k := history s k @ [unsigned, signed])" "revisions_ok s'" "cd_fresh s' = k + 4"
    "cd_categories s' = cd_categories s" "cd_policies s' = cd_policies s" "revision_id s \<subseteq>\<^sub>m revision_id s'"
proof -
  let ?hash = "case agreed of None \<Rightarrow> '''' | Some v \<Rightarrow> (case tget (cd_revisions s) v of None \<Rightarrow> '''' | Some q \<Rightarrow> rv_hash q)"
  define r where "r = (pending_record citizen ck)\<lparr>cr_ip := masked env req, cr_source := get_source req, cr_version := version,
     cr_revision := agreed, cr_hash := ?hash\<rparr>"
  define g where "g = r\<lparr>cr_status := CsGranted, cr_state := StSigned, cr_granted_at := Some now\<rparr>"
  define k0 where "k0 = cd_fresh s"
  define s1 where "s1 = s\<lparr>cd_records := tput k0 r (cd_records s), cd_fresh := Suc k0\<rparr>"
  define s2 where "s2 = snd (revise_record env now k0 r None s1)"
  define s3 where "s3 = consent_log (Some citizen) (Some citizen) CaGranted (Some ck) (masked env req)
     [(''category_slug'', slug), (''source'', get_source req)] (put_record k0 g s2)"
  define sg where "sg = auto_signature env now k0 citizen ck agreed ?hash"
  define s4 where "s4 = put_signature (cd_fresh s3) sg (s3\<lparr>cd_fresh := Suc (cd_fresh s3)\<rparr>)"
  define s5 where "s5 = snd (revise_record env now k0 g None s4)"
  have "insert_record r s = Some (k0, s1)"
    using none by (simp add: insert_record_def r_def pending_record_def s1_def k0_def)
  with run [symmetric] have s': "s' = dispatch_webhook env now ''consent.granted''
      [(''consent_record_id'', ce_text env k0), (''category_slug'', slug), (''individual_id'', ce_text env citizen)] s5"
    and k: "k = k0"
    by (simp_all add: grant_new_def r_def [symmetric] Let_def g_def [symmetric] s2_def [symmetric] s3_def [symmetric]
        sg_def [symmetric] s4_def [symmetric] s5_def [symmetric])
  have ok1: "revisions_ok s1" by (rule revisions_only(3) [OF _ _ ok]) (simp_all add: s1_def k0_def)
  have r2: "revised s1 RecordSchema k0 (RecordSnap ((record_snap k0 r)\<lparr>rn_previous := None\<rparr>)) s2"
    unfolding s2_def using revise_record_revised [OF ok1] by blast
  have e34: "cd_revisions s4 = cd_revisions s2" "cd_fresh s4 = Suc (cd_fresh s2)"
    by (simp_all add: s4_def s3_def put_record_def put_signature_def consent_log_def)
  have ok4: "revisions_ok s4" by (rule revisions_only(3) [OF _ _ revisedD(1) [OF r2]]) (simp_all add: e34)
  have r5: "revised s4 RecordSchema k0 (RecordSnap ((record_snap k0 g)\<lparr>rn_previous := None\<rparr>)) s5"
    unfolding s5_def using revise_record_revised [OF ok4] by blast
  note f2 = revisedD [OF r2] and f5 = revisedD [OF r5]
  have fresh: "cd_fresh s3 = k0 + 2" "cd_fresh s5 = k0 + 4"
    using f2(2) f5(2) by (simp_all add: s3_def s4_def s1_def put_record_def put_signature_def consent_log_def)
  have h1: "history s1 = history s" and h4: "history s4 = history s2"
    by (rule revisions_only(1), simp add: s1_def e34)+
  have h5: "history s5 = (history s)(k0 := history s k0 @ [unsigned, signed])"
    unfolding f5(11) h4 f2(11) h1 told_by_record by (simp add: fun_eq_iff r_def g_def pending_record_def)
  have ids: "revision_id s \<subseteq>\<^sub>m revision_id s5"
    using revised_ids [OF r2 ok1] revised_ids [OF r5 ok4] revisions_only(2) [of s1 s] revisions_only(2) [of s4 s2]
    by (auto simp: s1_def e34 intro: map_le_trans)
  have final: "cd_records s' = cd_records s5" "cd_signatures s' = cd_signatures s5" "cd_revisions s' = cd_revisions s5"
    "cd_fresh s' = cd_fresh s5" "cd_categories s' = cd_categories s5" "cd_policies s' = cd_policies s5"
    by (simp_all add: s' dispatch_webhook_def)
  show thesis
  proof (rule that [of g sg])
    show "k = cd_fresh s" by (simp add: k k0_def)
    show "granted_record s citizen ck agreed g" by (simp add: granted_record_def g_def r_def pending_record_def)
    show "cd_records s' = tput k g (cd_records s)"
      using f5(3) f2(3) by (simp add: final s4_def s3_def s1_def put_record_def put_signature_def consent_log_def tput_tput k)
    show "cd_signatures s' = tput (k + 2) sg (cd_signatures s)"
      using f5(4) f2(4) fresh by (simp add: final s4_def s3_def s1_def put_record_def put_signature_def consent_log_def k)
    show "sg_record sg = k" by (simp add: sg_def auto_signature_def Let_def k)
    show "history s' = (history s)(k := history s k @ [unsigned, signed])"
      using revisions_only(1) [OF final(3)] h5 by (simp add: k)
    show "revisions_ok s'" by (rule revisions_only(3) [OF final(3) _ f5(1)]) (simp add: final)
    show "cd_fresh s' = k + 4" using fresh by (simp add: final k)
    show "cd_categories s' = cd_categories s" "cd_policies s' = cd_policies s"
      using f5(5,6) f2(5,6) by (simp_all add: final s4_def s3_def s1_def put_record_def put_signature_def consent_log_def)
    show "revision_id s \<subseteq>\<^sub>m revision_id s'" using ids revisions_only(2) [OF final(3)] by simp
  qed
qed

lemma keys_below_grow:
  assumes "keys_below s" "cd_fresh s \<le> cd_fresh t"
    and "\<And>k r. tget (cd_records t) k = Some r \<Longrightarrow> tget (cd_records s) k = None \<Longrightarrow> k < cd_fresh t"
    and "\<And>k g. tget (cd_signatures t) k = Some g \<Longrightarrow> map_option sg_record (tget (cd_signatures s) k) \<noteq> Some (sg_record g)
       \<Longrightarrow> k < cd_fresh t \<and> sg_record g < cd_fresh t"
    and "\<And>k. history t k \<noteq> [] \<Longrightarrow> history s k = [] \<Longrightarrow> k < cd_fresh t"
    and "\<And>k c. tget (cd_categories t) k = Some c \<Longrightarrow> tget (cd_categories s) k = None \<Longrightarrow> k < cd_fresh t"
    and "\<And>k p. tget (cd_policies t) k = Some p \<Longrightarrow> tget (cd_policies s) k = None \<Longrightarrow> k < cd_fresh t"
  shows "keys_below t"
proof -
  note below = keys_belowD [OF assms(1)]
  have up: "j < cd_fresh s \<Longrightarrow> j < cd_fresh t" for j using assms(2) by simp
  show ?thesis
    unfolding keys_below_def
  proof (intro conjI allI impI)
    fix k g assume g: "tget (cd_signatures t) k = Some g"
    have "k < cd_fresh t \<and> sg_record g < cd_fresh t"
    proof (cases "map_option sg_record (tget (cd_signatures s) k) = Some (sg_record g)")
      case True
      then obtain g0 where g0: "tget (cd_signatures s) k = Some g0" "sg_record g0 = sg_record g" by auto
      from below(2,3) [OF g0(1)] g0(2) show ?thesis by (simp add: up)
    qed (use assms(4) g in blast)
    then show "k < cd_fresh t" "sg_record g < cd_fresh t" by simp_all
  next
    show "k < cd_fresh t" if "tget (cd_records t) k = Some r" for k r
      using assms(3) [OF that] below(1) [of k] up by (cases "tget (cd_records s) k") auto
    show "k < cd_fresh t" if "tget (cd_categories t) k = Some r" for k r
      using assms(6) [OF that] below(5) [of k] up by (cases "tget (cd_categories s) k") auto
    show "k < cd_fresh t" if "tget (cd_policies t) k = Some r" for k r
      using assms(7) [OF that] below(6) [of k] up by (cases "tget (cd_policies s) k") auto
    show "k < cd_fresh t" if "history t k \<noteq> []" for k
      using assms(5) [OF that] below(4) [of k] up by blast
  qed
qed

lemma tfind_count: "tok t \<Longrightarrow> tfind P t = None \<longleftrightarrow> tcount P t = 0"
proof -
  assume "tok t"
  show ?thesis
  proof (cases "tfind P t")
    case None
    with tfind_None [OF None] \<open>tok t\<close> show ?thesis by (simp add: tcount_none)
  next
    case (Some kr)
    obtain k r where kr: "kr = (k, r)" by (cases kr)
    from tfind_Some [OF Some [unfolded kr] \<open>tok t\<close>] have "0 < tcount P t" by (auto intro: tcount_pos)
    with Some show ?thesis by simp
  qed
qed

lemma archive_facts:
  "cd_records (archive_current citizen ck s) = tupdate_where (is_current citizen ck) (\<lambda>r. r\<lparr>cr_current := False\<rparr>) (cd_records s)"
  "cd_signatures (archive_current citizen ck s) = cd_signatures s" "cd_revisions (archive_current citizen ck s) = cd_revisions s"
  "cd_categories (archive_current citizen ck s) = cd_categories s" "cd_policies (archive_current citizen ck s) = cd_policies s"
  "cd_fresh (archive_current citizen ck s) = cd_fresh s"
  by (simp_all add: archive_current_def)

lemma archive_inv:
  assumes inv: "consent_inv s"
  shows "consent_inv (archive_current citizen ck s)" "tcount (is_current citizen ck) (cd_records (archive_current citizen ck s)) = 0"
proof -
  let ?a = "archive_current citizen ck s"
  note f = archive_facts [of citizen ck s]
  have h: "history ?a = history s" "revision_id ?a = revision_id s" by (rule revisions_only, simp add: f)+
  show zero: "tcount (is_current citizen ck) (cd_records ?a) = 0"
  proof -
    have "tok (cd_records ?a)" by (simp add: f table_simps consent_invD(3) [OF inv])
    moreover have "\<not> is_current citizen ck r" if "tget (cd_records ?a) k = Some r" for k r
    proof -
      from that obtain q where "r = (if is_current citizen ck q then q\<lparr>cr_current := False\<rparr> else q)"
        unfolding f(1) tget_tupdate_where by blast
      then show ?thesis by (simp add: is_current_def)
    qed
    ultimately show ?thesis by (simp add: tcount_none)
  qed
  have "tcount (is_current c d) (cd_records ?a) \<le> 1" for c d
  proof (cases "c = citizen \<and> d = ck")
    case True
    with zero show ?thesis by simp
  next
    case False
    then have "tcount (is_current c d) (cd_records ?a) = tcount (is_current c d) (cd_records s)"
      unfolding f by (intro tcount_tupdate_where) (auto simp: is_current_def)
    with consent_invD(8) [OF inv] show ?thesis by simp
  qed
  moreover have "keys_below ?a"
    by (rule keys_below_grow [OF consent_invD(2) [OF inv]]) (auto simp: f h table_simps)
  moreover have "record_explained ?a k r" if "tget (cd_records ?a) k = Some r" for k r
  proof -
    from that obtain q where q: "tget (cd_records s) k = Some q" "r = q \<or> r = q\<lparr>cr_current := False\<rparr>"
      by (auto simp: f table_simps split: if_splits)
    from q(2) have "record_explained ?a k r = record_explained s k q" 
      unfolding record_explained_def h f by (elim disjE) (simp_all split: option.splits)
    with consent_invD(7) [OF inv q(1)] show ?thesis by simp
  qed
  moreover have "revisions_ok ?a" by (rule revisions_only(3) [OF f(3) _ consent_invD(1) [OF inv]]) (simp add: f)
  ultimately show "consent_inv ?a"
    using consent_invD(3-6) [OF inv] by (simp add: consent_inv_def f table_simps)
qed

text \<open>A caller may ask for a revision of the category only.\<close>

definition agreement_of :: "consent_db \<Rightarrow> nat \<Rightarrow> nat option \<Rightarrow> bool" where
  "agreement_of s ck agreed \<longleftrightarrow> (case agreed of None \<Rightarrow> True
     | Some v \<Rightarrow> (case revision_id s v of None \<Rightarrow> False | Some (sc, k, h) \<Rightarrow> sc = AgreementSchema \<and> k = ck))"

lemma latest_agreement: "revisions_ok s \<Longrightarrow> agreement_of s ck (map_option fst (get_latest_revision s ck))"
proof -
  assume ok: "revisions_ok s"
  let ?vs = "trail_of (cd_revisions s) AgreementSchema ck"
  show ?thesis
  proof (cases "?vs = []")
    case False
    obtain v r where vr: "last ?vs = (v, r)" by (cases "last ?vs")
    with False have "(v, r) \<in> set ?vs" using last_in_set by metis
    from trail_set [OF this revisions_okD(1) [OF ok]] False vr show ?thesis
      by (simp add: agreement_of_def get_latest_revision_def latest_of_trail [OF ok] revision_id_def)
  qed (simp add: agreement_of_def get_latest_revision_def latest_of_trail [OF ok])
qed

lemma grant_new_inv:
  assumes inv: "consent_inv s" and none: "tcount (is_current citizen ck) (cd_records s) = 0"
    and agreed: "agreement_of s ck agreed" and run: "grant_new env s now citizen slug ck req version agreed = Inr (s', k)"
  shows "consent_inv s'"
proof -
  note ok = consent_invD(1) [OF inv] and below = keys_belowD [OF consent_invD(2) [OF inv]]
  from none have free: "tfind (is_current citizen ck) (cd_records s) = None"
    by (simp add: tfind_count [OF consent_invD(3) [OF inv]])
  obtain g sg where k: "k = cd_fresh s" and g: "granted_record s citizen ck agreed g"
    and recs: "cd_records s' = tput k g (cd_records s)" and sigs: "cd_signatures s' = tput (k + 2) sg (cd_signatures s)"
    and sg: "sg_record sg = k" and h: "history s' = (history s)(k := history s k @ [unsigned, signed])"
    and ok': "revisions_ok s'" and fresh: "cd_fresh s' = k + 4"
    and cats: "cd_categories s' = cd_categories s" "cd_policies s' = cd_policies s"
    and ids: "revision_id s \<subseteq>\<^sub>m revision_id s'"
    by (rule grant_new_effect [OF ok free run])
  have new: "history s k = []" "tget (cd_records s) k = None" "tget (cd_signatures s) (k + 2) = None"
    using below(4) [of k] below(1) [of k] below(2) [of "k + 2"]
    by (auto simp: k) (cases "tget (cd_records s) (cd_fresh s)"; cases "tget (cd_signatures s) (Suc (Suc (cd_fresh s)))"; auto)+
  have count: "tcount (\<lambda>x. sg_record x = j) (cd_signatures s') = tcount (\<lambda>x. sg_record x = j) (cd_signatures s) + of_bool (k = j)" for j
    unfolding sigs using tbl.count_insert [OF consent_invD(4) [OF inv] new(3), of "\<lambda>x. sg_record x = j" sg] sg by simp
  have "tcount (\<lambda>x. sg_record x = k) (cd_signatures s) = 0"
    using below(3) by (fastforce simp: k tcount_none [OF consent_invD(4) [OF inv]])
  with count [of k] have own: "tcount (\<lambda>x. sg_record x = k) (cd_signatures s') = 1" by simp
  have "keys_below s'"
    by (rule keys_below_grow [OF consent_invD(2) [OF inv]])
      (auto simp: fresh k recs sigs sg h cats tget_tput split: if_splits)
  then have "touches k s s'"
    using ok' ids count consent_invD(3-6) [OF inv] by (simp add: touches_def recs sigs h cats table_simps)
  then show ?thesis
  proof (rule touches_inv [OF inv])
    fix r assume "tget (cd_records s') k = Some r"
    then have r: "r = g" by (simp add: recs tget_tput)
    have "case agreed of None \<Rightarrow> cr_hash g = '''' | Some v \<Rightarrow> revision_id s v = Some (AgreementSchema, ck, cr_hash g)"
      using agreed g by (auto simp: agreement_of_def granted_record_def revision_id_def split: option.splits)
    with ids have "case agreed of None \<Rightarrow> cr_hash g = '''' | Some v \<Rightarrow> revision_id s' v = Some (AgreementSchema, ck, cr_hash g)"
      by (auto simp: map_le_def dom_def split: option.splits)
    with g own show "record_explained s' k r"
      by (auto simp: record_explained_def r h new legal_histories_def granted_record_def split: option.splits)
  next
    fix c d
    from tbl.count_insert [OF consent_invD(3) [OF inv] new(2), of "is_current c d" g]
    show "tcount (is_current c d) (cd_records s') \<le> 1"
      using none consent_invD(8) [OF inv, of c d] g by (auto simp: recs is_current_def granted_record_def)
  qed
qed

lemma grant_inv:
  assumes inv: "consent_inv s" and run: "grant env s now citizen slug req version given = Inr (s', k)"
    and owed: "\<And>ck c. find_category s slug = Some (ck, c) \<Longrightarrow> agreement_of s ck given"
  shows "consent_inv s'"
proof -
  from run obtain ck c where cat: "find_category s slug = Some (ck, c)"
    by (auto simp: grant_def split: option.splits)
  let ?agreed = "if given = None then map_option fst (get_latest_revision s ck) else given"
  let ?a = "archive_current citizen ck s"
  from run consider "s' = s" | "grant_new env ?a now citizen slug ck req version ?agreed = Inr (s', k)"
    by (auto simp: grant_def cat Let_def split: if_splits option.splits)
  then show ?thesis
  proof cases
    case 1
    with inv show ?thesis by simp
  next
    case 2
    have "agreement_of s ck ?agreed"
      using owed [OF cat] latest_agreement [OF consent_invD(1) [OF inv]] by simp
    moreover have "revision_id ?a = revision_id s" by (rule revisions_only(2)) (simp add: archive_facts)
    ultimately have "agreement_of ?a ck ?agreed" by (simp only: agreement_of_def)
    from grant_new_inv [OF archive_inv [OF inv] this 2] show ?thesis .
  qed
qed

section \<open>The other services\<close>

text \<open>A revision of a record already there, after the record and the signatures were written.\<close>

lemma revise_inv:
  assumes inv: "consent_inv s" and row: "tget (cd_records s) k = Some r"
    and mid: "cd_records t = tput k w (cd_records s)" "cd_revisions t = cd_revisions s" "cd_categories t = cd_categories s"
      "cd_policies t = cd_policies s" "cd_fresh s \<le> cd_fresh t" "tok (cd_signatures t)"
      "\<And>j g. tget (cd_signatures t) j = Some g \<Longrightarrow> map_option sg_record (tget (cd_signatures s) j) \<noteq> Some (sg_record g)
         \<Longrightarrow> j < cd_fresh t \<and> sg_record g < cd_fresh t"
      "\<And>j. tcount (\<lambda>g. sg_record g = j) (cd_signatures t)
         = (if j = k then 1 else tcount (\<lambda>g. sg_record g = j) (cd_signatures s))"
    and w: "cr_citizen w = cr_citizen r" "cr_category w = cr_category r" "cr_current w = cr_current r"
      "cr_revision w = cr_revision r" "cr_hash w = cr_hash r"
      "history s k @ [(cr_state w, cr_status w)] \<in> set legal_histories"
    and run: "revised t RecordSchema k (RecordSnap ((record_snap k w)\<lparr>rn_previous := previous\<rparr>)) u" and core: "same_core u s'"
  shows "consent_inv s'"
proof -
  note f = revisedD [OF run]
  from core have c: "cd_records s' = cd_records u" "cd_signatures s' = cd_signatures u" "cd_revisions s' = cd_revisions u"
    "cd_categories s' = cd_categories u" "cd_policies s' = cd_policies u" "cd_fresh s' = cd_fresh u" by (simp_all add: same_core_def)
  note h' = revisions_only(1,2) [OF c(3)] and ht = revisions_only(1,2) [OF mid(2)]
  have okt: "revisions_ok t" by (rule revisions_only(3) [OF mid(2,5) consent_invD(1) [OF inv]])
  have h: "history s' = (history s)(k := history s k @ [(cr_state w, cr_status w)])"
    by (simp add: h' f(11) ht told_by_record)
  have ids: "revision_id s \<subseteq>\<^sub>m revision_id s'" using revised_ids [OF run okt] by (simp add: h' ht)
  have ok': "revisions_ok s'" by (rule revisions_only(3) [OF c(3) _ f(1)]) (simp add: c)
  have k: "k < cd_fresh s" by (rule keys_belowD(1) [OF consent_invD(2) [OF inv] row])
  have fresh: "cd_fresh s' = Suc (cd_fresh t)" "k < cd_fresh s'" using k mid(5) by (simp_all add: c f)
  have up: "cd_fresh s \<le> cd_fresh s'" using fresh(1) mid(5) by simp
  have "keys_below s'"
  proof (rule keys_below_grow [OF consent_invD(2) [OF inv] up])
    fix j g assume "tget (cd_signatures s') j = Some g" "map_option sg_record (tget (cd_signatures s) j) \<noteq> Some (sg_record g)"
    with mid(7) [of j g] show "j < cd_fresh s' \<and> sg_record g < cd_fresh s'" by (auto simp: c f)
  qed (use fresh in \<open>auto simp: c f mid h tget_tput split: if_splits\<close>)
  then have "touches k s s'"
    using ok' ids consent_invD(3-6) [OF inv] by (simp add: touches_def c f mid h table_simps)
  then show ?thesis
  proof (rule touches_inv [OF inv])
    fix q assume "tget (cd_records s') k = Some q"
    then have q: "q = w" by (simp add: c f mid tget_tput)
    from consent_invD(7) [OF inv row] ids
    have "case cr_revision w of None \<Rightarrow> cr_hash w = '''' | Some v \<Rightarrow> revision_id s' v = Some (AgreementSchema, cr_category w, cr_hash w)"
      by (auto simp: record_explained_def w map_le_def dom_def split: option.splits)
    with w(6) show "record_explained s' k q"
      by (simp add: record_explained_def q h c(2) f(4) mid(8))
  next
    fix citizen ck
    have "is_current citizen ck r = is_current citizen ck w" by (simp add: is_current_def w)
    from tbl.count_same [OF consent_invD(3) [OF inv] row this] consent_invD(8) [OF inv]
    show "tcount (is_current citizen ck) (cd_records s') \<le> 1" by (simp add: c f mid)
  qed
qed

lemma withdraw_inv:
  assumes inv: "consent_inv s" and run: "withdraw env s now citizen slug req = Inr (s', k)"
  shows "consent_inv s'"
proof -
  from run obtain ck c k0 r where cat: "find_category s slug = Some (ck, c)" "\<not> ct_required c"
    and found: "tfind (is_current citizen ck) (cd_records s) = Some (k0, r)" and status: "cr_status r \<noteq> CsPending"
    by (auto simp: withdraw_def split: option.splits if_splits)
  show ?thesis
  proof (cases "cr_status r = CsGranted")
    case False
    with run cat found status have "s' = s" by (simp add: withdraw_def)
    with inv show ?thesis by simp
  next
    case True
    from tfind_Some [OF found consent_invD(3) [OF inv]] have row: "tget (cd_records s) k0 = Some r" by blast
    let ?w = "r\<lparr>cr_status := CsWithdrawn, cr_state := StRevoked, cr_withdrawn_at := Some now, cr_ip := masked env req,
      cr_source := get_source req\<rparr>"
    let ?t = "put_record k0 ?w s"
    let ?u = "snd (revise_record env now k0 ?w None ?t)"
    from consent_invD(7) [OF inv row] True have h: "history s k0 \<in> {[signed], [unsigned, signed]}"
      by (auto simp: record_explained_def legal_histories_def split: if_splits)
    have sigs: "tcount (\<lambda>g. sg_record g = k0) (cd_signatures s) = 1"
      using consent_invD(7) [OF inv row] h by (auto simp: record_explained_def)
    have "revisions_ok ?t" by (rule revisions_only(3) [OF _ _ consent_invD(1) [OF inv]]) (simp_all add: put_record_def)
    then have u: "revised ?t RecordSchema k0 (RecordSnap ((record_snap k0 ?w)\<lparr>rn_previous := None\<rparr>)) ?u"
      using revise_record_revised by blast
    have "same_core ?u s'"
      using run cat found status True
      by (auto simp: withdraw_def Let_def same_core_def consent_log_def dispatch_webhook_def)
    from revise_inv [OF inv row _ _ _ _ _ _ _ _ _ _ _ _ _ _ u this] show ?thesis
      using h sigs consent_invD(4) [OF inv] by (auto simp: put_record_def legal_histories_def)
  qed
qed

lemma open_inv:
  assumes inv: "consent_inv s" and run: "get_or_create_record s citizen ck = Inr (s', k)"
  shows "consent_inv s'"
proof (cases "tfind (is_current citizen ck) (cd_records s)")
  case (Some kr)
  with run inv show ?thesis by (cases kr) (auto simp: get_or_create_record_def split: if_splits)
next
  case None
  let ?r = "pending_record citizen ck"
  from None run have k: "k = cd_fresh s" and s': "s' = s\<lparr>cd_records := tput k ?r (cd_records s), cd_fresh := Suc k\<rparr>"
    by (auto simp: get_or_create_record_def insert_record_def pending_record_def split: if_splits option.splits)
  have f: "cd_records s' = tput k ?r (cd_records s)" "cd_signatures s' = cd_signatures s" "cd_revisions s' = cd_revisions s"
    "cd_categories s' = cd_categories s" "cd_policies s' = cd_policies s" "cd_fresh s' = Suc k" by (simp_all add: s')
  have h: "history s' = history s" "revision_id s' = revision_id s" by (rule revisions_only, simp add: f)+
  note below = keys_belowD [OF consent_invD(2) [OF inv]]
  have new: "history s k = []" "tget (cd_records s) k = None"
    using below(4) [of k] below(1) [of k] by (auto simp: k) (cases "tget (cd_records s) (cd_fresh s)"; auto)
  have unsigned: "tcount (\<lambda>x. sg_record x = k) (cd_signatures s) = 0"
    using below(3) by (fastforce simp: k tcount_none [OF consent_invD(4) [OF inv]])
  have "keys_below s'"
    by (rule keys_below_grow [OF consent_invD(2) [OF inv]]) (auto simp: f h k [symmetric] tget_tput split: if_splits)
  moreover have "revisions_ok s'" by (rule revisions_only(3) [OF _ _ consent_invD(1) [OF inv]]) (simp_all add: f k [symmetric])
  ultimately have "touches k s s'"
    using consent_invD(3-6) [OF inv] by (simp add: touches_def h f table_simps)
  then show ?thesis
  proof (rule touches_inv [OF inv])
    fix r assume "tget (cd_records s') k = Some r"
    then have "r = ?r" by (simp add: f tget_tput)
    then show "record_explained s' k r"
      using new unsigned by (simp add: record_explained_def h f legal_histories_def pending_record_def)
  next
    fix c d
    have "tcount (is_current citizen ck) (cd_records s) = 0"
      using None by (simp add: tfind_count [OF consent_invD(3) [OF inv]])
    with tbl.count_insert [OF consent_invD(3) [OF inv] new(2), of "is_current c d" ?r] consent_invD(8) [OF inv, of c d]
    show "tcount (is_current c d) (cd_records s') \<le> 1" by (auto simp: f is_current_def pending_record_def)
  qed
qed

lemma attach_inv:
  assumes inv: "consent_inv s" and run: "attach_signature env s now k vtype vpayload sig signer req = Inr (s', gk)"
  shows "consent_inv s'"
proof -
  from run obtain r where row: "tget (cd_records s) k = Some r"
    by (auto simp: attach_signature_def split: option.splits)
  from run have free: "tfind (\<lambda>g. sg_record g = k) (cd_signatures s) = None"
    by (rule contrapos_pp) (simp add: attach_signature_def row)
  from free have zero: "tcount (\<lambda>g. sg_record g = k) (cd_signatures s) = 0"
    by (simp add: tfind_count [OF consent_invD(4) [OF inv]])
  with consent_invD(7) [OF inv row] have h: "history s k = []" and r: "cr_state r = StUnsigned" "cr_status r = CsPending"
    by (auto simp: record_explained_def)
  define g where "g = \<lparr>sg_record = k, sg_payload = vpayload, sg_signature = sig, sg_type = vtype, sg_verification = vpayload,
     sg_verification_hash = ce_sha env vpayload, sg_signed_by = signer, sg_time = now, sg_revision_hash = cr_hash r, sg_optional = []\<rparr>"
  define w where "w = r\<lparr>cr_status := CsGranted, cr_state := StSigned, cr_ip := masked env req, cr_source := get_source req\<rparr>"
  define t where "t = put_record k w (put_signature (cd_fresh s) g (s\<lparr>cd_fresh := Suc (cd_fresh s)\<rparr>))"
  let ?u = "snd (revise_record env now k w (Some (cr_state r)) t)"
  note below = keys_belowD [OF consent_invD(2) [OF inv]]
  have key: "tget (cd_signatures s) (cd_fresh s) = None"
    using below(2) [of "cd_fresh s"] by (cases "tget (cd_signatures s) (cd_fresh s)") auto
  have ft: "cd_records t = tput k w (cd_records s)" "cd_signatures t = tput (cd_fresh s) g (cd_signatures s)"
    "cd_revisions t = cd_revisions s" "cd_categories t = cd_categories s" "cd_policies t = cd_policies s" "cd_fresh t = Suc (cd_fresh s)"
    by (simp_all add: t_def put_record_def put_signature_def)
  have "revisions_ok t" by (rule revisions_only(3) [OF ft(3) _ consent_invD(1) [OF inv]]) (simp add: ft)
  then have u: "revised t RecordSchema k (RecordSnap ((record_snap k w)\<lparr>rn_previous := Some (cr_state r)\<rparr>)) ?u"
    using revise_record_revised by blast
  have core: "same_core ?u s'"
    using run row free r
    by (auto simp: attach_signature_def Let_def g_def [symmetric] w_def [symmetric] t_def [symmetric] same_core_def consent_log_def
        split: if_splits prod.splits)
  have count: "tcount (\<lambda>x. sg_record x = j) (cd_signatures t)
      = (if j = k then 1 else tcount (\<lambda>x. sg_record x = j) (cd_signatures s))" for j
    using tbl.count_insert [OF consent_invD(4) [OF inv] key, of "\<lambda>x. sg_record x = j" g] zero
    by (auto simp: ft g_def)
  show ?thesis
  proof (rule revise_inv [OF inv row ft(1,3,4,5) _ _ _ count _ _ _ _ _ _ u core])
    show "tok (cd_signatures t)" using consent_invD(4) [OF inv] by (simp add: ft table_simps)
    fix j x assume "tget (cd_signatures t) j = Some x" "map_option sg_record (tget (cd_signatures s) j) \<noteq> Some (sg_record x)"
    then show "j < cd_fresh t \<and> sg_record x < cd_fresh t"
      using below(1) [OF row] by (auto simp: ft g_def tget_tput split: if_splits)
  qed (simp_all add: ft w_def h legal_histories_def)
qed

text \<open>A revision of another object than a record leaves the records alone.\<close>

lemma other_inv:
  assumes inv: "consent_inv s" and okt: "keys_below t" "tok (cd_signatures t)" "tok (cd_categories t)" "tok (cd_policies t)"
    and mid: "cd_records t = cd_records s" "cd_revisions t = cd_revisions s" "cd_fresh s \<le> cd_fresh t"
      "\<And>j. tcount (\<lambda>g. sg_record g = j) (cd_signatures t) = tcount (\<lambda>g. sg_record g = j) (cd_signatures s)"
    and run: "revised t sc k snap u" and sc: "sc \<noteq> RecordSchema" and core: "same_core u s'"
  shows "consent_inv s'"
proof -
  note f = revisedD [OF run]
  from core have c: "cd_records s' = cd_records u" "cd_signatures s' = cd_signatures u" "cd_revisions s' = cd_revisions u"
    "cd_categories s' = cd_categories u" "cd_policies s' = cd_policies u" "cd_fresh s' = cd_fresh u" by (simp_all add: same_core_def)
  note h' = revisions_only(1,2) [OF c(3)] and ht = revisions_only(1,2) [OF mid(2)]
  have ok1: "revisions_ok t" by (rule revisions_only(3) [OF mid(2,3) consent_invD(1) [OF inv]])
  have "told_by sc snap = []" using sc by (simp add: told_by_def split: snapshot.splits)
  then have h: "history s' = history s" by (simp add: h' f(11) ht fun_eq_iff)
  have ids: "revision_id s \<subseteq>\<^sub>m revision_id s'" using revised_ids [OF run ok1] by (simp add: h' ht)
  have ok': "revisions_ok s'" by (rule revisions_only(3) [OF c(3) _ f(1)]) (simp add: c)
  have up: "cd_fresh t \<le> cd_fresh s'" by (simp add: c f)
  have "keys_below s'" by (rule keys_below_grow [OF okt(1) up]) (auto simp: c f h ht)
  moreover have "record_explained s' j r" if "tget (cd_records s') j = Some r" for j r
    using consent_invD(7) [OF inv, of j r] that by (intro record_explained_mono [OF _ _ ids]) (auto simp: h c f mid)
  ultimately show ?thesis
    using ok' okt consent_invD(3,8) [OF inv] by (simp add: consent_inv_def c f mid)
qed

lemma change_signature_record: "sg_record (fold change_signature cs g) = sg_record g"
proof (induction cs arbitrary: g)
  case (Cons c cs)
  then show ?case by (cases c) simp_all
qed simp

lemma update_signature_inv:
  assumes inv: "consent_inv s" and run: "update_signature env s now k gk changes req = Inr s'"
  shows "consent_inv s'"
proof -
  from run obtain r old where row: "tget (cd_records s) k = Some r" and old: "tget (cd_signatures s) gk = Some old"
    by (auto simp: update_signature_def split: option.splits)
  let ?g0 = "fold change_signature changes old"
  define g where "g = (if list_ex (\<lambda>c. case c of SgVerification x \<Rightarrow> True | _ \<Rightarrow> False) changes
     then ?g0\<lparr>sg_verification_hash := ce_sha env (sg_verification ?g0)\<rparr> else ?g0)"
  define t where "t = put_signature gk g s"
  let ?snap = "SignatureSnap gk (g\<lparr>sg_record := k, sg_revision_hash := '''', sg_optional := []\<rparr>)"
  have rec: "sg_record g = sg_record old" by (simp add: g_def change_signature_record)
  have f: "cd_records t = cd_records s" "cd_signatures t = tput gk g (cd_signatures s)" "cd_revisions t = cd_revisions s"
    "cd_categories t = cd_categories s" "cd_policies t = cd_policies s" "cd_fresh t = cd_fresh s" by (simp_all add: t_def put_signature_def)
  have okt: "revisions_ok t" by (rule revisions_only(3) [OF f(3) _ consent_invD(1) [OF inv]]) (simp add: f)
  obtain v u where vu: "create_for env t now SignatureSchema gk ?snap (Some (cr_citizen r)) '''' = (v, u)" by fastforce
  from create_for_revised [OF okt vu] have u: "revised t SignatureSchema gk ?snap u" by blast
  have core: "same_core u s'"
    using run row old vu by (auto simp: update_signature_def Let_def g_def [symmetric] t_def [symmetric] same_core_def consent_log_def)
  have "keys_below t"
    by (rule keys_below_grow [OF consent_invD(2) [OF inv]]) (auto simp: f rec old tget_tput revisions_only(1) [OF f(3)] split: if_splits)
  from other_inv [OF inv this _ _ _ f(1,3) _ _ u _ core] show ?thesis
    using consent_invD(4-6) [OF inv] tbl.count_same [OF consent_invD(4) [OF inv] old] by (simp add: f rec table_simps)
qed

lemma revise_policy_inv:
  assumes inv: "consent_inv s" and pk: "pk < cd_fresh s"
  shows "consent_inv (revise_policy env s now act pk p actor)"
proof -
  let ?t = "s\<lparr>cd_policies := tput pk p (cd_policies s)\<rparr>"
  obtain v u where vu: "create_for env ?t now PolicySchema pk (PolicySnap pk p) None (by_other env actor) = (v, u)" by fastforce
  have okt: "revisions_ok ?t" by (rule revisions_only(3) [OF _ _ consent_invD(1) [OF inv]]) simp_all
  from create_for_revised [OF okt vu] have u: "revised ?t PolicySchema pk (PolicySnap pk p) u" by blast
  have h: "history ?t = history s" by (rule revisions_only(1)) simp
  have "keys_below ?t"
    by (rule keys_below_grow [OF consent_invD(2) [OF inv]]) (auto simp: h pk tget_tput split: if_splits)
  from other_inv [OF inv this _ _ _ _ _ _ _ u, of "revise_policy env s now act pk p actor"] vu show ?thesis
    using consent_invD(4-6) [OF inv] by (simp add: revise_policy_def table_simps)
qed

lemma revise_agreement_inv:
  assumes inv: "consent_inv s" and ck: "ck < cd_fresh s" and run: "revise_agreement env s now act ck c actor = Inr s'"
  shows "consent_inv s'"
proof -
  let ?t = "s\<lparr>cd_categories := tput ck c (cd_categories s)\<rparr>"
  obtain v u where vu: "create_for env ?t now AgreementSchema ck (AgreementSnap ck c) None (by_other env actor) = (v, u)" by fastforce
  have okt: "revisions_ok ?t" by (rule revisions_only(3) [OF _ _ consent_invD(1) [OF inv]]) simp_all
  from create_for_revised [OF okt vu] have u: "revised ?t AgreementSchema ck (AgreementSnap ck c) u" by blast
  have h: "history ?t = history s" by (rule revisions_only(1)) simp
  have core: "same_core u s'"
    using run vu by (auto simp: revise_agreement_def Let_def split: if_splits)
  have "keys_below ?t"
    by (rule keys_below_grow [OF consent_invD(2) [OF inv]]) (auto simp: h ck tget_tput split: if_splits)
  from other_inv [OF inv this _ _ _ _ _ _ _ u _ core] show ?thesis
    using consent_invD(4-6) [OF inv] by (simp add: table_simps)
qed

lemma fresh_up_inv: "consent_inv s \<Longrightarrow> consent_inv (s\<lparr>cd_fresh := Suc (cd_fresh s)\<rparr>)"
proof -
  assume inv: "consent_inv s"
  let ?t = "s\<lparr>cd_fresh := Suc (cd_fresh s)\<rparr>"
  have h: "history ?t = history s" "revision_id ?t = revision_id s" by (rule revisions_only, simp)+
  have "keys_below ?t" by (rule keys_below_grow [OF consent_invD(2) [OF inv]]) (auto simp: h)
  moreover have "revisions_ok ?t" by (rule revisions_only(3) [OF _ _ consent_invD(1) [OF inv]]) simp_all
  moreover have "record_explained ?t k r = record_explained s k r" for k r unfolding record_explained_def h by simp
  ultimately show ?thesis using inv by (simp add: consent_inv_def)
qed

section \<open>Forgetting\<close>

lemma redact_same: "rv_schema (redact_pii r) = rv_schema r" "rv_object (redact_pii r) = rv_object r"
  "rv_hash (redact_pii r) = rv_hash r" "rv_predecessor (redact_pii r) = rv_predecessor r"
  "rv_successor (redact_pii r) = rv_successor r"
  by (simp_all add: redact_pii_def Let_def)

lemma trail_redact: "trail_of (tupdate_where P redact_pii t) sc k = tupdate_where P redact_pii (trail_of t sc k)"
  by (induction t) (auto simp: trail_of_def tupdate_where_def is_of_def redact_same split: if_splits)

lemma linked_redact: "linked h (tupdate_where P redact_pii vs) = linked h vs"
  by (induction h vs rule: linked.induct) (auto simp: tupdate_where_def redact_same split: list.splits)

lemma redact_tells: "(case ev_data (rv_snapshot (redact_pii r)) of RecordSnap n \<Rightarrow> [(rn_state n, rn_status n)] | _ \<Rightarrow> [])
    = (case ev_data (rv_snapshot r) of RecordSnap n \<Rightarrow> [(rn_state n, rn_status n)] | _ \<Rightarrow> [])"
  by (simp add: redact_pii_def redact_snapshot_def Let_def split: snapshot.splits)

lemma told_redact: "told (tupdate_where P redact_pii vs) = told vs"
  unfolding told_def tupdate_where_def map_map
  by (intro arg_cong [where f = concat] map_cong refl) (simp add: case_prod_beta redact_tells)

lemma photos_core [simp]: "same_core s (delete_volunteer_photo env k s)"
  by (simp add: same_core_def delete_volunteer_photo_def)

lemma same_core_trans: "same_core s t \<Longrightarrow> same_core t u \<Longrightarrow> same_core s u"
  by (simp add: same_core_def)

lemma photos_fold_core: "same_core s (fold (delete_volunteer_photo env) ids s)"
proof (induction ids arbitrary: s)
  case (Cons k ids)
  from same_core_trans [OF photos_core Cons.IH] show ?case by simp
qed (simp add: same_core_def)

lemma same_core_inv:
  assumes "same_core s t" "consent_inv s"
  shows "consent_inv t"
proof -
  note c = assms(1) [unfolded same_core_def]
  have h: "history t = history s" "revision_id t = revision_id s" using c by (simp_all add: history_def revision_id_def fun_eq_iff)
  have e: "record_explained t k r = record_explained s k r" for k r
    unfolding record_explained_def h using c by simp
  from assms(2) c h(1) e show ?thesis by (simp add: consent_inv_def keys_below_def revisions_ok_def)
qed

lemma forget_erased:
  assumes run: "right_to_be_forgotten env s citizen req = Inr (s', n, kept, slugs)"
  defines "ids \<equiv> map fst (filter (\<lambda>kr. forgettable s citizen (snd kr)) (cd_records s))"
  shows "cd_records s' = filter (\<lambda>kr. \<not> forgettable s citizen (snd kr)) (cd_records s)"
    "cd_signatures s' = filter (\<lambda>kg. sg_record (snd kg) \<notin> set ids) (cd_signatures s)"
    "cd_revisions s' = tupdate_where (\<lambda>v. rv_schema v = RecordSchema \<and> rv_object v \<in> set ids) redact_pii (cd_revisions s)"
    "cd_categories s' = cd_categories s" "cd_policies s' = cd_policies s" "cd_fresh s' = cd_fresh s"
    "cd_photos s' = cd_photos (fold (delete_volunteer_photo env) ids s)"
    "cd_profiles s' = tupdate_where (\<lambda>q. pp_consent q \<in> Some ` set ids) (\<lambda>q. q\<lparr>pp_consent := None\<rparr>)
       (cd_profiles (fold (delete_volunteer_photo env) ids s))"
    "n = length ids" "kept = tcount (\<lambda>r. cr_citizen r = citizen) (cd_records s')"
  using photos_fold_core [of s env ids] run
  by (auto simp: right_to_be_forgotten_def Let_def same_core_def consent_log_def ids_def [symmetric] split: if_splits simp del: set_map)
    (simp_all add: ids_def)

lemma forget_core:
  assumes run: "right_to_be_forgotten env s citizen req = Inr (s', n, kept, slugs)"
  shows "cd_records s' = filter (\<lambda>kr. \<not> forgettable s citizen (snd kr)) (cd_records s)"
    "cd_signatures s' = filter (\<lambda>kg. sg_record (snd kg) \<notin> fst ` {kr \<in> set (cd_records s). forgettable s citizen (snd kr)}) (cd_signatures s)"
    "cd_revisions s' = tupdate_where (\<lambda>v. rv_schema v = RecordSchema
       \<and> rv_object v \<in> fst ` {kr \<in> set (cd_records s). forgettable s citizen (snd kr)}) redact_pii (cd_revisions s)"
    "cd_categories s' = cd_categories s" "cd_policies s' = cd_policies s" "cd_fresh s' = cd_fresh s"
  using forget_erased(1-6) [OF run] by simp_all

lemma forget_inv:
  assumes inv: "consent_inv s" and run: "right_to_be_forgotten env s citizen req = Inr (s', n, kept, slugs)"
  shows "consent_inv s'"
proof -
  note f = forget_core [OF run]
  let ?gone = "fst ` {kr \<in> set (cd_records s). forgettable s citizen (snd kr)}"
  note tok = consent_invD(3,4) [OF inv]
  have h: "history s' k = history s k" for k by (simp add: history_def f(3) trail_redact told_redact)
  have ids: "revision_id s' = revision_id s"
    by (auto simp: revision_id_def f(3) table_simps redact_same fun_eq_iff option.map_comp comp_def intro: option.map_cong0)
  have rows: "tget (cd_records s') k = Some r \<longleftrightarrow> tget (cd_records s) k = Some r \<and> \<not> forgettable s citizen r" for k r
    using tget_filter [OF tok(1), of "\<lambda>r. \<not> forgettable s citizen r" k] by (auto simp: f(1) split: option.splits)
  have sigs: "tget (cd_signatures s') k = Some g \<Longrightarrow> tget (cd_signatures s) k = Some g" for k g
    using tget_filter [OF tok(2), of "\<lambda>g. sg_record g \<notin> ?gone" k] by (auto simp: f(2) split: option.splits if_splits)
  have live: "k \<notin> ?gone" if "tget (cd_records s') k = Some r" for k r
    using that by (auto simp: rows tget_iff [OF tok(1), symmetric])
  have "revisions_ok s'"
    using consent_invD(1) [OF inv]
    by (auto simp: revisions_ok_def f table_simps trail_redact linked_redact)
  moreover have "keys_below s'"
    by (rule keys_below_grow [OF consent_invD(2) [OF inv]]) (auto simp: f(4-6) h rows dest: sigs)
  moreover have "record_explained s' k r" if r: "tget (cd_records s') k = Some r" for k r
  proof -
    from r have old: "record_explained s k r" using consent_invD(7) [OF inv] by (simp add: rows)
    have sig: "tcount (\<lambda>g. sg_record g = k) (cd_signatures s') = tcount (\<lambda>g. sg_record g = k) (cd_signatures s)"
      unfolding f(2) by (rule tcount_filter) (use live [OF r] in simp)
    have "revision_id s \<subseteq>\<^sub>m revision_id s'" by (simp add: ids)
    from record_explained_mono [OF old h this sig] show ?thesis .
  qed
  moreover have "tcount (is_current c d) (cd_records s') \<le> 1" for c d
    unfolding f(1) by (rule order_trans [OF tcount_filter_le consent_invD(8) [OF inv]])
  ultimately show ?thesis using consent_invD(5,6) [OF inv] by (simp add: consent_inv_def f(1,2,4,5) tok tok_filter)
qed

end
