(* ===== verification/ConsentProps.thy ===== *)
theory ConsentProps
  imports ConsentInv
begin

text \<open>
  What holds of consents: the trail of a record tells its history, the services refine an
  abstract set of consents, and what the right to be forgotten erases and what it leaves.
\<close>

section \<open>Runs\<close>

text \<open>The revision a caller asks for is one of the category, as the view checks.\<close>

fun consent_owed :: "consent_db \<Rightarrow> consent_op \<Rightarrow> bool" where
  "consent_owed s (CoGrant now citizen slug req version given) = (case find_category s slug of
     None \<Rightarrow> True | Some (ck, c) \<Rightarrow> agreement_of s ck given)"
| "consent_owed s x = True"

lemma consent_step_inv:
  assumes inv: "consent_inv s" and owed: "consent_owed s x" and run: "consent_step env s x = Inr s'"
  shows "consent_inv s'"
proof (cases x)
  case (CoGrant now citizen slug req version given)
  with run obtain k where g: "grant env s now citizen slug req version given = Inr (s', k)" by (auto simp: map_sum_Inr_iff)
  have "agreement_of s ck given" if "find_category s slug = Some (ck, c)" for ck c
    using owed that by (simp add: CoGrant)
  from grant_inv [OF inv g this] show ?thesis .
next
  case (CoWithdraw now citizen slug req)
  with run withdraw_inv [OF inv] show ?thesis by (auto simp: map_sum_Inr_iff)
next
  case (CoOpen citizen ck)
  with run open_inv [OF inv] show ?thesis by (auto simp: map_sum_Inr_iff)
next
  case (CoAttach now k vtype vpayload sig signer req)
  with run attach_inv [OF inv] show ?thesis by (auto simp: map_sum_Inr_iff)
next
  case (CoUpdateSignature now k gk changes req)
  with run update_signature_inv [OF inv] show ?thesis by auto
next
  case (CoCreatePolicy now p actor)
  with run revise_policy_inv [OF fresh_up_inv [OF inv]] show ?thesis by (auto simp: create_policy_def Let_def)
next
  case (CoUpdatePolicy now pk changes actor)
  with run revise_policy_inv [OF inv] keys_belowD(6) [OF consent_invD(2) [OF inv]] show ?thesis
    by (auto simp: update_policy_def split: option.splits)
next
  case (CoCreateAgreement now c actor)
  with run have "revise_agreement env (s\<lparr>cd_fresh := Suc (cd_fresh s)\<rparr>) now CaAgreementCreated (cd_fresh s) c actor = Inr s'"
    by (simp add: create_data_agreement_def Let_def)
  from revise_agreement_inv [OF fresh_up_inv [OF inv] _ this] show ?thesis by simp
next
  case (CoUpdateAgreement now ck changes actor)
  with run obtain c where "tget (cd_categories s) ck = Some c"
    and "revise_agreement env s now CaAgreementUpdated ck (fold change_category changes c) actor = Inr s'"
    by (auto simp: update_data_agreement_def split: option.splits)
  with revise_agreement_inv [OF inv keys_belowD(5) [OF consent_invD(2) [OF inv]]] show ?thesis by blast
next
  case (CoForget citizen req)
  with run obtain n kept slugs where "right_to_be_forgotten env s citizen req = Inr (s', n, kept, slugs)"
    by (auto simp: map_sum_Inr_iff)
  from forget_inv [OF inv this] show ?thesis .
next
  case (CoApplication a c)
  with run have "same_core s s'" by (auto simp: refer_application_def same_core_def split: if_splits)
  from same_core_inv [OF this inv] show ?thesis .
next
  case (CoProfile p q)
  with run have "same_core s s'" by (auto simp: edit_profile_def same_core_def split: if_splits)
  from same_core_inv [OF this inv] show ?thesis .
qed

interpretation consents: step_system "consent_step env" consent_owed consent_inv
  by unfold_locales (rule consent_step_inv)

text \<open>A platform without agreements and consents yet; webhooks may be registered.\<close>

definition fresh_consents :: "consent_db \<Rightarrow> bool" where
  "fresh_consents s \<longleftrightarrow> cd_categories s = [] \<and> cd_policies s = [] \<and> cd_revisions s = [] \<and> cd_records s = [] \<and> cd_signatures s = []"

lemma fresh_consents_inv: "fresh_consents s \<Longrightarrow> consent_inv s"
  by (simp add: fresh_consents_def consent_inv_def revisions_ok_def keys_below_def history_def trail_of_def told_def)

section \<open>Trails\<close>

text \<open>
  C18. The revisions tell the truth: after any sequence of service calls the revisions of every
  object form one chain, linked by key and digest from the first to the last; every record of
  consent is in the state its chain ends with, having gone from unsigned to signed to revoked
  and never otherwise, carries exactly one signature once it was signed, and holds the digest of
  the revision of its category that was agreed to; and no citizen has two current records for
  one category.
\<close>

theorem consent_trails_explain_records:
  assumes "fresh_consents s0" "ops_ok consent_owed (consent_step env) s0 xs" "s = run_ops (consent_step env) s0 xs"
  shows "(\<forall>sc k. linked '''' (trail_of (cd_revisions s) sc k))
    \<and> (\<forall>k r. tget (cd_records s) k = Some r \<longrightarrow> record_explained s k r)
    \<and> (\<forall>citizen ck. tcount (is_current citizen ck) (cd_records s) \<le> 1)"
proof -
  have "consent_inv s" unfolding assms(3) by (rule consents.inv_run [OF fresh_consents_inv [OF assms(1)] assms(2)])
  then show ?thesis by (simp add: consent_inv_def revisions_ok_def)
qed

text \<open>A portal with one optional category that may be forgotten.\<close>

definition portal_env :: consent_env where
  "portal_env = \<lparr>ce_digest = \<lambda>e. ''digest'', ce_sha = \<lambda>x. ''sha'', ce_json = \<lambda>x. ''json'', ce_text = \<lambda>n. ''id'',
     ce_address = \<lambda>x. None, ce_broker = \<lambda>w. True,
     ce_storage = \<lambda>f. True, ce_ttl_days = 7\<rparr>"

definition portal_start :: consent_db where
  "portal_start = \<lparr>cd_categories = [], cd_policies = [], cd_revisions = [], cd_records = [], cd_signatures = [], cd_exports = [],
     cd_webhooks = [(1, \<lparr>wh_disabled = False, wh_events = [''consent.granted'']\<rparr>)], cd_audit = [], cd_queue = [],
     cd_applications = [], cd_profiles = [], cd_photos = [], cd_fresh = 0\<rparr>"

definition news :: category where
  "news = \<lparr>ct_slug = ''news'', ct_required = False, ct_active = True, ct_forgettable = True, ct_policy = None, ct_columns = []\<rparr>"

definition portal_run :: "consent_op list" where
  "portal_run = [CoCreateAgreement 1 news None, CoGrant 2 7 ''news'' None '''' None, CoWithdraw 3 7 ''news'' None]"

lemma portal_fresh: "fresh_consents portal_start"
  by (simp add: fresh_consents_def portal_start_def)

lemma portal_owed: "ops_ok consent_owed (consent_step env) portal_start portal_run"
  by (simp add: portal_run_def agreement_of_def split: option.splits)

lemma consent_trails_explain_records_witness:
  "\<exists>s r. s = run_ops (consent_step portal_env) portal_start portal_run
    \<and> tget (cd_records s) 2 = Some r \<and> cr_state r = StRevoked \<and> record_explained s 2 r
    \<and> history s 2 = [unsigned, signed, revoked] \<and> linked '''' (trail_of (cd_revisions s) RecordSchema 2)"
proof -
  let ?s = "run_ops (consent_step portal_env) portal_start portal_run"
  have run: "(let s = ?s in (map_option cr_state (tget (cd_records s) 2), history s 2))
    = (Some StRevoked, [unsigned, signed, revoked])" by code_simp
  then obtain r where r: "tget (cd_records ?s) 2 = Some r" "cr_state r = StRevoked" by (auto simp: Let_def)
  from run have "history ?s 2 = [unsigned, signed, revoked]" by (simp add: Let_def)
  with consent_trails_explain_records [OF portal_fresh portal_owed refl, of portal_env] r show ?thesis by blast
qed

section \<open>Refinement\<close>

text \<open>The abstract state: which citizen consents to which category.\<close>

definition consents_in :: "consent_record table \<Rightarrow> (nat \<times> nat) set" where
  "consents_in t = {(citizen, ck). \<exists>k r. tget t k = Some r \<and> is_current citizen ck r \<and> granted_now r}"

text \<open>What a service does to it.\<close>

fun consent_spec :: "consent_db \<Rightarrow> consent_op \<Rightarrow> (nat \<times> nat) set \<Rightarrow> (nat \<times> nat) set" where
  "consent_spec s (CoGrant now citizen slug req version given) A = (case find_category s slug of
     None \<Rightarrow> A | Some (ck, c) \<Rightarrow> insert (citizen, ck) A)"
| "consent_spec s (CoWithdraw now citizen slug req) A = (case find_category s slug of
     None \<Rightarrow> A | Some (ck, c) \<Rightarrow> A - {(citizen, ck)})"
| "consent_spec s (CoAttach now k vtype vpayload sig signer req) A = (case tget (cd_records s) k of
     None \<Rightarrow> A | Some r \<Rightarrow> if cr_current r then insert (cr_citizen r, cr_category r) A else A)"
| "consent_spec s (CoForget citizen req) A = A - {(c, ck). c = citizen \<and> (case tget (cd_categories s) ck of
     None \<Rightarrow> False | Some cat \<Rightarrow> ct_forgettable cat \<and> \<not> ct_required cat)}"
| "consent_spec s x A = A"

lemma tcount_unique:
  assumes "tcount P t \<le> 1" "tget t k = Some r" "P r" "tget t j = Some q" "P q"
  shows "j = k"
proof -
  let ?f = "filter (\<lambda>kr. P (snd kr)) t"
  have "(k, r) \<in> set ?f" "(j, q) \<in> set ?f" using assms(2-5) tget_in_set [of t] by auto
  moreover from assms(1) have "length ?f \<le> 1" by (simp add: tcount_def)
  then obtain x where "set ?f \<subseteq> {x}" by (cases ?f) (auto simp: length_Suc_conv le_Suc_eq)
  ultimately show ?thesis by (metis Pair_inject singletonD subsetD)
qed

lemma consents_mem:
  assumes "tget t k = Some r"
  shows "(c, d) \<in> consents_in t \<longleftrightarrow> is_current c d r \<and> granted_now r
      \<or> (\<exists>j q. j \<noteq> k \<and> tget t j = Some q \<and> is_current c d q \<and> granted_now q)"
proof -
  have "(\<exists>j q. tget t j = Some q \<and> is_current c d q \<and> granted_now q)
    \<longleftrightarrow> (\<exists>q. tget t k = Some q \<and> is_current c d q \<and> granted_now q)
      \<or> (\<exists>j q. j \<noteq> k \<and> tget t j = Some q \<and> is_current c d q \<and> granted_now q)" by metis
  then show ?thesis by (simp add: consents_in_def assms)
qed

lemma consents_new:
  assumes "tget t k = None"
  shows "(c, d) \<in> consents_in (tput k g t) \<longleftrightarrow> is_current c d g \<and> granted_now g \<or> (c, d) \<in> consents_in t"
proof -
  have "(\<exists>j q. j \<noteq> k \<and> tget (tput k g t) j = Some q \<and> is_current c d q \<and> granted_now q)
    \<longleftrightarrow> (\<exists>j q. tget t j = Some q \<and> is_current c d q \<and> granted_now q)"
    by (intro ex_cong1) (use assms in \<open>auto simp: tget_tput\<close>)
  then show ?thesis using consents_mem [of "tput k g t" k g c d] by (simp add: tget_tput consents_in_def)
qed

lemma consents_put:
  assumes "tget t k = Some r" "tcount (is_current (cr_citizen r) (cr_category r)) t \<le> 1"
    and "cr_citizen w = cr_citizen r" "cr_category w = cr_category r" "cr_current w = cr_current r"
  shows "consents_in (tput k w t) = (if \<not> cr_current r then consents_in t
    else if granted_now w then insert (cr_citizen r, cr_category r) (consents_in t)
    else consents_in t - {(cr_citizen r, cr_category r)})"
proof -
  have rest: "(\<exists>j q. j \<noteq> k \<and> tget (tput k w t) j = Some q \<and> is_current c d q \<and> granted_now q)
    \<longleftrightarrow> (\<exists>j q. j \<noteq> k \<and> tget t j = Some q \<and> is_current c d q \<and> granted_now q)" for c d
    by (rule ex_cong1)+ (auto simp: tget_tput)
  have new: "(c, d) \<in> consents_in (tput k w t) \<longleftrightarrow> is_current c d w \<and> granted_now w
      \<or> (\<exists>j q. j \<noteq> k \<and> tget t j = Some q \<and> is_current c d q \<and> granted_now q)" for c d
    unfolding rest [symmetric] by (rule consents_mem) (simp add: tget_tput)
  note old = consents_mem [OF assms(1)]
  have cur: "is_current c d w = is_current c d r" for c d using assms(3-5) by (simp add: is_current_def)
  show ?thesis
  proof (cases "cr_current r")
    case False
    then have "\<not> is_current c d r" for c d by (simp add: is_current_def)
    with False show ?thesis by (auto simp: new old cur)
  next
    case True
    have own: "is_current c d r \<longleftrightarrow> c = cr_citizen r \<and> d = cr_category r" for c d
      using True by (auto simp: is_current_def)
    have "\<not> is_current (cr_citizen r) (cr_category r) q" if "j \<noteq> k" "tget t j = Some q" for j q
      using tcount_unique [OF assms(2,1) _ that(2)] that(1) True by (auto simp: is_current_def)
    then have alone: "\<not> (\<exists>j q. j \<noteq> k \<and> tget t j = Some q \<and> is_current (cr_citizen r) (cr_category r) q \<and> granted_now q)" by blast
    show ?thesis
    proof (rule set_eqI)
      fix x :: "nat \<times> nat"
      obtain c d where x: "x = (c, d)" by (cases x)
      show "x \<in> consents_in (tput k w t) \<longleftrightarrow> x \<in> (if \<not> cr_current r then consents_in t
        else if granted_now w then insert (cr_citizen r, cr_category r) (consents_in t)
        else consents_in t - {(cr_citizen r, cr_category r)})"
      proof (cases "c = cr_citizen r \<and> d = cr_category r")
        case own_pair: True
        with True alone show ?thesis by (simp add: x new cur own)
      next
        case False
        with True show ?thesis by (auto simp: x new old cur own)
      qed
    qed
  qed
qed

lemma create_for_keeps:
  assumes "create_for env s now sc k snap by other = (v, s')"
  shows "cd_records s' = cd_records s" "cd_categories s' = cd_categories s" "cd_signatures s' = cd_signatures s"
  using assms by (auto simp: create_for_def Let_def)

lemma revise_record_keeps:
  "cd_records (snd (revise_record env now k r previous s)) = cd_records s"
  "cd_categories (snd (revise_record env now k r previous s)) = cd_categories s"
  using create_for_keeps [of env s now] unfolding revise_record_def by (metis prod.collapse)+

lemma grant_refines:
  assumes inv: "consent_inv s" and run: "grant env s now citizen slug req version given = Inr (s', k)"
    and cat: "find_category s slug = Some (ck, c)"
  shows "consents_in (cd_records s') = insert (citizen, ck) (consents_in (cd_records s))"
proof -
  let ?agreed = "if given = None then map_option fst (get_latest_revision s ck) else given"
  let ?a = "archive_current citizen ck s"
  from run consider r where "s' = s" "existing_grant s citizen ck ?agreed = Some (k, r)"
    | "grant_new env ?a now citizen slug ck req version ?agreed = Inr (s', k)"
    by (auto simp: grant_def cat Let_def split: if_splits option.splits)
  then show ?thesis
  proof cases
    case 1
    from tfind_Some [OF 1(2) [unfolded existing_grant_def] consent_invD(3) [OF inv]]
    have "(citizen, ck) \<in> consents_in (cd_records s)" by (auto simp: consents_in_def)
    with 1(1) show ?thesis by auto
  next
    case 2
    note ai = archive_inv [OF inv, of citizen ck]
    from ai(2) have free: "tfind (is_current citizen ck) (cd_records ?a) = None"
      by (simp add: tfind_count [OF consent_invD(3) [OF ai(1)]])
    obtain g sg where k: "k = cd_fresh ?a" and g: "granted_record ?a citizen ck ?agreed g"
      and recs: "cd_records s' = tput k g (cd_records ?a)"
      by (rule grant_new_effect [OF consent_invD(1) [OF ai(1)] free 2])
    have new: "tget (cd_records ?a) k = None"
      using keys_belowD(1) [OF consent_invD(2) [OF ai(1)], of k] by (cases "tget (cd_records ?a) k") (auto simp: k)
    have row: "tget (cd_records ?a) j = Some r \<and> is_current c' d r
      \<longleftrightarrow> tget (cd_records s) j = Some r \<and> is_current c' d r \<and> (c', d) \<noteq> (citizen, ck)" for j r c' d
    proof (cases "tget (cd_records s) j")
      case (Some q)
      then show ?thesis
        by (cases "is_current citizen ck q") (auto simp: archive_facts table_simps is_current_def)
    qed (simp add: archive_facts table_simps)
    have archived: "(c', d) \<in> consents_in (cd_records ?a) \<longleftrightarrow> (c', d) \<in> consents_in (cd_records s) \<and> (c', d) \<noteq> (citizen, ck)" for c' d
    proof -
      have "(\<exists>j r. tget (cd_records ?a) j = Some r \<and> is_current c' d r \<and> granted_now r)
        \<longleftrightarrow> (\<exists>j r. tget (cd_records s) j = Some r \<and> is_current c' d r \<and> granted_now r) \<and> (c', d) \<noteq> (citizen, ck)"
        using row [of _ _ c' d] by blast
      then show ?thesis by (simp add: consents_in_def)
    qed
    have "(c', d) \<in> consents_in (cd_records s') \<longleftrightarrow> (c', d) = (citizen, ck) \<or> (c', d) \<in> consents_in (cd_records ?a)" for c' d
    proof -
      have "is_current c' d g \<and> granted_now g \<longleftrightarrow> (c', d) = (citizen, ck)"
        using g by (auto simp: granted_record_def is_current_def granted_now_def)
      then show ?thesis using consents_new [OF new, of c' d g] by (simp add: recs)
    qed
    with archived show ?thesis by auto
  qed
qed

lemma withdraw_refines:
  assumes inv: "consent_inv s" and run: "withdraw env s now citizen slug req = Inr (s', k)"
    and cat: "find_category s slug = Some (ck, c)"
  shows "consents_in (cd_records s') = consents_in (cd_records s) - {(citizen, ck)}"
proof -
  from run cat obtain k0 r where found: "tfind (is_current citizen ck) (cd_records s) = Some (k0, r)"
    by (auto simp: withdraw_def split: option.splits if_splits)
  from tfind_Some [OF found consent_invD(3) [OF inv]]
  have row: "tget (cd_records s) k0 = Some r" and r: "cr_citizen r = citizen" "cr_category r = ck" "cr_current r"
    by (auto simp: is_current_def)
  have one: "tcount (is_current (cr_citizen r) (cr_category r)) (cd_records s) \<le> 1" by (rule consent_invD(8) [OF inv])
  show ?thesis
  proof (cases "cr_status r = CsGranted")
    case True
    let ?w = "r\<lparr>cr_status := CsWithdrawn, cr_state := StRevoked, cr_withdrawn_at := Some now, cr_ip := masked env req,
      cr_source := get_source req\<rparr>"
    have "cd_records s' = tput k0 ?w (cd_records s)"
      using run cat found True
      by (auto simp: withdraw_def Let_def consent_log_def dispatch_webhook_def revise_record_keeps put_record_def split: if_splits)
    moreover have "\<not> granted_now ?w" by (simp add: granted_now_def)
    ultimately show ?thesis using consents_put [OF row one, of ?w] r by simp
  next
    case False
    with run cat found have "s' = s" by (auto simp: withdraw_def split: if_splits)
    moreover have "(citizen, ck) \<notin> consents_in (cd_records s)"
    proof
      assume "(citizen, ck) \<in> consents_in (cd_records s)"
      then obtain j q where q: "tget (cd_records s) j = Some q" "is_current citizen ck q" "granted_now q" by (auto simp: consents_in_def)
      from tcount_unique [OF one row _ q(1)] q(2) r have "j = k0" by (simp add: is_current_def)
      with q row False show False by (simp add: granted_now_def)
    qed
    ultimately show ?thesis by blast
  qed
qed

lemma attach_refines:
  assumes inv: "consent_inv s" and run: "attach_signature env s now k vtype vpayload sig signer req = Inr (s', gk)"
    and row: "tget (cd_records s) k = Some r"
  shows "consents_in (cd_records s') = (if cr_current r then insert (cr_citizen r, cr_category r) (consents_in (cd_records s))
    else consents_in (cd_records s))"
proof -
  have free: "tfind (\<lambda>g. sg_record g = k) (cd_signatures s) = None"
    using run by (rule contrapos_pp) (simp add: attach_signature_def row)
  have "tcount (\<lambda>g. sg_record g = k) (cd_signatures s) = 0"
    using free by (simp add: tfind_count [OF consent_invD(4) [OF inv]])
  with consent_invD(7) [OF inv row] have "cr_state r = StUnsigned" by (auto simp: record_explained_def)
  with run row free have s': "cd_records s' = tput k (r\<lparr>cr_status := CsGranted, cr_state := StSigned, cr_ip := masked env req,
      cr_source := get_source req\<rparr>) (cd_records s)"
    by (auto simp: attach_signature_def Let_def put_record_def put_signature_def consent_log_def revise_record_def
        split: if_splits prod.splits dest!: create_for_keeps(1))
  show ?thesis
    unfolding s' by (subst consents_put [OF row consent_invD(8) [OF inv]]) (simp_all add: granted_now_def)
qed

lemma open_refines:
  assumes inv: "consent_inv s" and run: "get_or_create_record s citizen ck = Inr (s', k)"
  shows "consents_in (cd_records s') = consents_in (cd_records s)"
proof (cases "tfind (is_current citizen ck) (cd_records s)")
  case (Some kr)
  with run show ?thesis by (cases kr) (auto simp: get_or_create_record_def split: if_splits)
next
  case None
  then have s': "cd_records s' = tput (cd_fresh s) (pending_record citizen ck) (cd_records s)"
    using run by (auto simp: get_or_create_record_def insert_record_def pending_record_def split: if_splits option.splits)
  have "tget (cd_records s) (cd_fresh s) = None"
    using keys_belowD(1) [OF consent_invD(2) [OF inv], of "cd_fresh s"] by (cases "tget (cd_records s) (cd_fresh s)") auto
  from consents_new [OF this] show ?thesis
    unfolding s' by (auto simp: granted_now_def pending_record_def)
qed

lemma forget_refines:
  assumes inv: "consent_inv s" and run: "right_to_be_forgotten env s citizen req = Inr (s', n, kept, slugs)"
  shows "consents_in (cd_records s') = consent_spec s (CoForget citizen req) (consents_in (cd_records s))"
proof -
  have rows: "tget (cd_records s') k = Some r \<longleftrightarrow> tget (cd_records s) k = Some r \<and> \<not> forgettable s citizen r" for k r
    using tget_filter [OF consent_invD(3) [OF inv], of "\<lambda>r. \<not> forgettable s citizen r" k]
    by (auto simp: forget_core(1) [OF run] split: option.splits)
  show ?thesis
    by (auto simp: consents_in_def rows forgettable_def is_current_def)
qed

lemma others_keep_records:
  "update_signature env s now k gk changes req = Inr s' \<Longrightarrow> cd_records s' = cd_records s"
  "cd_records (revise_policy env s now act pk p actor) = cd_records s"
  "revise_agreement env s now act ck c actor = Inr s' \<Longrightarrow> cd_records s' = cd_records s"
  by (auto simp: update_signature_def revise_policy_def revise_agreement_def consent_log_def put_signature_def Let_def
      split: option.splits prod.splits if_splits dest!: create_for_keeps(1))

lemma step_refines:
  assumes inv: "consent_inv s" and run: "consent_step env s x = Inr s'"
  shows "consents_in (cd_records s') = consent_spec s x (consents_in (cd_records s))"
proof (cases x)
  case (CoGrant now citizen slug req version given)
  with run obtain k where g: "grant env s now citizen slug req version given = Inr (s', k)" by (auto simp: map_sum_Inr_iff)
  then obtain ck c where "find_category s slug = Some (ck, c)" by (auto simp: grant_def split: option.splits)
  with grant_refines [OF inv g] CoGrant show ?thesis by simp
next
  case (CoWithdraw now citizen slug req)
  with run obtain k where w: "withdraw env s now citizen slug req = Inr (s', k)" by (auto simp: map_sum_Inr_iff)
  then obtain ck c where "find_category s slug = Some (ck, c)" by (auto simp: withdraw_def split: option.splits)
  with withdraw_refines [OF inv w] CoWithdraw show ?thesis by simp
next
  case (CoAttach now k vtype vpayload sig signer req)
  with run obtain gk where a: "attach_signature env s now k vtype vpayload sig signer req = Inr (s', gk)" by (auto simp: map_sum_Inr_iff)
  then obtain r where "tget (cd_records s) k = Some r" by (auto simp: attach_signature_def split: option.splits)
  with attach_refines [OF inv a] CoAttach show ?thesis by simp
next
  case (CoOpen citizen ck)
  with run open_refines [OF inv] show ?thesis by (auto simp: map_sum_Inr_iff)
next
  case (CoForget citizen req)
  with run obtain n kept slugs where "right_to_be_forgotten env s citizen req = Inr (s', n, kept, slugs)"
    by (auto simp: map_sum_Inr_iff)
  from forget_refines [OF inv this] CoForget show ?thesis by simp
next
  case (CoApplication a c)
  with run show ?thesis by (auto simp: refer_application_def split: if_splits)
next
  case (CoProfile p q)
  with run show ?thesis by (auto simp: edit_profile_def split: if_splits)
qed (use run others_keep_records in \<open>auto simp: create_policy_def update_policy_def create_data_agreement_def
    update_data_agreement_def Let_def split: option.splits\<close>)

text \<open>
  C23. The services refine a set: seen as the set of pairs of a citizen and a category consented
  to, every successful call in every reachable state does exactly what its name says - a grant
  adds the pair, a withdrawal removes it, a signature on an open current record adds it,
  forgetting, where no protected record refuses it, removes the citizen's pairs of forgettable
  optional categories, everything else leaves the set alone. \<open>has_consent\<close> answers yes exactly
  when an active category has the slug and the category is required or the pair is in the set:
  a required one without the pair, an inactive one not even with it.
\<close>

theorem consent_services_refine_set:
  assumes "fresh_consents s0" "ops_ok consent_owed (consent_step env) s0 xs" "s = run_ops (consent_step env) s0 xs"
    and "consent_step env s x = Inr s'"
  shows "consents_in (cd_records s') = consent_spec s x (consents_in (cd_records s))
    \<and> has_consent s citizen slug = (\<exists>ck c. find_category s slug = Some (ck, c)
        \<and> (ct_required c \<or> (citizen, ck) \<in> consents_in (cd_records s)))"
proof -
  have inv: "consent_inv s" unfolding assms(3) by (rule consents.inv_run [OF fresh_consents_inv [OF assms(1)] assms(2)])
  have "tfind (\<lambda>r. is_current citizen ck r \<and> granted_now r) (cd_records s) \<noteq> None \<longleftrightarrow> (citizen, ck) \<in> consents_in (cd_records s)" for ck
    unfolding tfind_count [OF consent_invD(3) [OF inv]] tcount_none [OF consent_invD(3) [OF inv]] by (auto simp: consents_in_def)
  then have "has_consent s citizen slug = (\<exists>ck c. find_category s slug = Some (ck, c)
      \<and> (ct_required c \<or> (citizen, ck) \<in> consents_in (cd_records s)))"
    by (auto simp: has_consent_def split: option.splits)
  with step_refines [OF inv assms(4)] show ?thesis by blast
qed

lemma consent_services_refine_set_witness:
  "\<exists>s s'. s = run_ops (consent_step portal_env) portal_start [CoCreateAgreement 1 news None, CoGrant 2 7 ''news'' None '''' None]
    \<and> consent_step portal_env s (CoWithdraw 3 7 ''news'' None) = Inr s'
    \<and> consents_in (cd_records s') = consents_in (cd_records s) - {(7, 0)}
    \<and> has_consent s 7 ''news''"
proof -
  let ?xs = "[CoCreateAgreement 1 news None, CoGrant 2 7 ''news'' None '''' None]"
  let ?s = "run_ops (consent_step portal_env) portal_start ?xs"
  have owed: "ops_ok consent_owed (consent_step portal_env) portal_start ?xs" by (simp add: agreement_of_def split: option.splits)
  have "\<not> isl (consent_step portal_env ?s (CoWithdraw 3 7 ''news'' None))" by code_simp
  then obtain s' where s': "consent_step portal_env ?s (CoWithdraw 3 7 ''news'' None) = Inr s'"
    by (cases "consent_step portal_env ?s (CoWithdraw 3 7 ''news'' None)") auto
  have cat: "find_category ?s ''news'' = Some (0, news)" by code_simp
  have has: "has_consent ?s 7 ''news''" by code_simp
  from consent_services_refine_set [OF portal_fresh owed refl s', of 7 "''news''"] cat
  have "consents_in (cd_records s') = consents_in (cd_records ?s) - {(7, 0)}" by simp
  with s' has show ?thesis by blast
qed

section \<open>Forgetting\<close>

text \<open>A revision that refers to the citizen, in a column or in its snapshot.\<close>

definition names :: "nat \<Rightarrow> revision \<Rightarrow> bool" where
  "names citizen v \<longleftrightarrow> rv_individual v = Some citizen \<or> ev_individual (rv_snapshot v) = Some (Person citizen)
     \<or> (case ev_data (rv_snapshot v) of RecordSnap n \<Rightarrow> rn_individual n = Person citizen | _ \<Rightarrow> False)"

lemma redacted_names: "\<not> names citizen (redact_pii v)"
  by (auto simp: names_def redact_pii_def redact_snapshot_def Let_def split: snapshot.splits)

text \<open>A profile after the record of its photo consent is deleted.\<close>

definition unphotographed :: "consent_env \<Rightarrow> photo_profile \<Rightarrow> photo_profile" where
  "unphotographed env q = \<lparr>pp_photo = (case pp_photo q of None \<Rightarrow> None
     | Some f \<Rightarrow> if ce_storage env f then None else Some f), pp_consent = None\<rparr>"

text \<open>A record the citizen may have deleted.\<close>

definition erasable :: "consent_db \<Rightarrow> nat \<Rightarrow> nat \<Rightarrow> bool" where
  "erasable s citizen k \<longleftrightarrow> (case tget (cd_records s) k of None \<Rightarrow> False | Some r \<Rightarrow> forgettable s citizen r)"

lemma erasable_ids:
  "tok (cd_records s) \<Longrightarrow> k \<in> set (map fst (filter (\<lambda>kr. forgettable s citizen (snd kr)) (cd_records s))) \<longleftrightarrow> erasable s citizen k"
proof -
  assume tok: "tok (cd_records s)"
  have "erasable s citizen k \<longleftrightarrow> (\<exists>r. tget (cd_records s) k = Some r \<and> forgettable s citizen r)"
    by (auto simp: erasable_def split: option.splits)
  then show ?thesis by (force simp: tget_iff [OF tok])
qed

lemma forget_refused:
  assumes "tok (cd_records s)"
  shows "(\<exists>a k. (a, Some k) \<in> set (cd_applications s) \<and> erasable s citizen k)
      \<Longrightarrow> right_to_be_forgotten env s citizen req = Inl RecordProtected"
    "\<not> (\<exists>a k. (a, Some k) \<in> set (cd_applications s) \<and> erasable s citizen k)
      \<Longrightarrow> \<exists>s' n kept slugs. right_to_be_forgotten env s citizen req = Inr (s', n, kept, slugs)"
proof -
  have "list_ex (record_protected s) (map fst (filter (\<lambda>kr. forgettable s citizen (snd kr)) (cd_records s)))
    \<longleftrightarrow> (\<exists>a k. (a, Some k) \<in> set (cd_applications s) \<and> erasable s citizen k)"
    unfolding list_ex_iff Bex_def erasable_ids [OF assms] record_protected_def by force
  then show "(\<exists>a k. (a, Some k) \<in> set (cd_applications s) \<and> erasable s citizen k)
      \<Longrightarrow> right_to_be_forgotten env s citizen req = Inl RecordProtected"
    "\<not> (\<exists>a k. (a, Some k) \<in> set (cd_applications s) \<and> erasable s citizen k)
      \<Longrightarrow> \<exists>s' n kept slugs. right_to_be_forgotten env s citizen req = Inr (s', n, kept, slugs)"
    by (simp_all only: right_to_be_forgotten_def Let_def if_True if_False) blast
qed

lemma tupdate_where_again:
  "(\<And>q. \<not> P (f q)) \<Longrightarrow> tupdate_where P f (tupdate_where Q f t) = tupdate_where (\<lambda>q. Q q \<or> P q) f t"
  by (induction t) (auto simp: tupdate_where_def)

lemma photos_taken:
  "cd_profiles (fold (delete_volunteer_photo env) ids s)
     = tupdate_where (\<lambda>q. \<exists>k\<in>set ids. loses_photo env k q) (\<lambda>q. q\<lparr>pp_photo := None\<rparr>) (cd_profiles s)"
proof (induction ids arbitrary: s)
  case (Cons k ids)
  have lost: "\<not> loses_photo env j (q\<lparr>pp_photo := None\<rparr>)" for j q by (simp add: loses_photo_def)
  show ?case
    by (simp add: Cons.IH tupdate_where_again lost) (simp add: delete_volunteer_photo_def tupdate_where_again lost)
qed (simp add: tupdate_where_def)

lemma loses_photo_file:
  "loses_photo env k q \<and> pp_photo q = Some f \<longleftrightarrow> ce_storage env f \<and> pp_photo q = Some f \<and> pp_consent q = Some k"
  by (auto simp: loses_photo_def)

lemma photos_deleted:
  "f \<in> set (cd_photos (fold (delete_volunteer_photo env) ids s)) \<longleftrightarrow> f \<in> set (cd_photos s)
     \<and> \<not> (\<exists>pq\<in>set (cd_profiles s). \<exists>k\<in>set ids. loses_photo env k (snd pq) \<and> pp_photo (snd pq) = Some f)"
proof (induction ids arbitrary: s)
  case (Cons k ids)
  have more: "(\<exists>pq\<in>set (cd_profiles (delete_volunteer_photo env k s)). \<exists>j\<in>set ids. loses_photo env j (snd pq) \<and> pp_photo (snd pq) = Some f)
    \<longleftrightarrow> (\<exists>pq\<in>set (cd_profiles s). \<not> loses_photo env k (snd pq) \<and> (\<exists>j\<in>set ids. loses_photo env j (snd pq) \<and> pp_photo (snd pq) = Some f))"
    by (simp add: delete_volunteer_photo_def tupdate_where_def case_prod_beta)
      (intro bex_cong refl, auto simp: loses_photo_def)
  have one: "f \<in> set (cd_photos (delete_volunteer_photo env k s)) \<longleftrightarrow> f \<in> set (cd_photos s)
    \<and> \<not> (\<exists>pq\<in>set (cd_profiles s). loses_photo env k (snd pq) \<and> pp_photo (snd pq) = Some f)"
    by (simp add: delete_volunteer_photo_def list_ex_iff)
  show ?case unfolding fold_simps(2) Cons.IH one more list.set by blast
qed simp

text \<open>
  C34. What the right to be forgotten does, in every reachable state. It refuses, and changes
  nothing, exactly when a record it would delete is the consent of a volunteer application.
  Otherwise of the citizen's records exactly those of forgettable optional categories are gone,
  with their signatures, and every other record of anybody is as it was; the revisions of a
  deleted record stay in their chain, with the same keys, digests and links, but none of them
  refers to the citizen any more, and all other revisions are untouched; a profile whose photo
  was taken under a deleted record no longer refers to it and has lost the photo, file and all,
  unless the storage failed to delete it, and other profiles are as they were; and the numbers
  returned are those of deleted and kept records.
\<close>

theorem forgetting_erases_records:
  assumes "fresh_consents s0" "ops_ok consent_owed (consent_step env) s0 xs" "s = run_ops (consent_step env) s0 xs"
  shows "case right_to_be_forgotten env s citizen req of
      Inl e \<Rightarrow> e = RecordProtected \<and> (\<exists>a k. (a, Some k) \<in> set (cd_applications s) \<and> erasable s citizen k)
        \<and> run_ops (consent_step env) s [CoForget citizen req] = s
    | Inr (s', n, kept, slugs) \<Rightarrow>
        \<not> (\<exists>a k. (a, Some k) \<in> set (cd_applications s) \<and> erasable s citizen k)
        \<and> (\<forall>k r. tget (cd_records s') k = Some r \<longleftrightarrow> tget (cd_records s) k = Some r \<and> \<not> forgettable s citizen r)
        \<and> (\<forall>k g. tget (cd_signatures s') k = Some g \<longleftrightarrow> tget (cd_signatures s) k = Some g \<and> \<not> erasable s citizen (sg_record g))
        \<and> (\<forall>v q. tget (cd_revisions s) v = Some q \<longrightarrow> (\<exists>q'. tget (cd_revisions s') v = Some q'
             \<and> rv_hash q' = rv_hash q \<and> rv_predecessor q' = rv_predecessor q \<and> rv_successor q' = rv_successor q
             \<and> (if rv_schema q = RecordSchema \<and> erasable s citizen (rv_object q) then \<not> names citizen q' else q' = q)))
        \<and> (\<forall>p. tget (cd_profiles s') p = map_option (\<lambda>q.
             if \<exists>k. pp_consent q = Some k \<and> erasable s citizen k then unphotographed env q else q) (tget (cd_profiles s) p))
        \<and> (\<forall>f. f \<in> set (cd_photos s') \<longleftrightarrow> f \<in> set (cd_photos s) \<and> \<not> (ce_storage env f
             \<and> (\<exists>pq\<in>set (cd_profiles s). pp_photo (snd pq) = Some f \<and> (\<exists>k. pp_consent (snd pq) = Some k \<and> erasable s citizen k))))
        \<and> n + tcount (\<lambda>r. cr_citizen r = citizen) (cd_records s') = tcount (\<lambda>r. cr_citizen r = citizen) (cd_records s)
        \<and> kept = tcount (\<lambda>r. cr_citizen r = citizen) (cd_records s')"
proof -
  have inv: "consent_inv s" unfolding assms(3) by (rule consents.inv_run [OF fresh_consents_inv [OF assms(1)] assms(2)])
  note tok = consent_invD(3,4) [OF inv]
  note refused = forget_refused [OF tok(1), of citizen env req]
  show ?thesis
  proof (cases "\<exists>a k. (a, Some k) \<in> set (cd_applications s) \<and> erasable s citizen k")
    case True
    with refused(1) show ?thesis by (simp add: commit_def)
  next
    case False
    from refused(2) [OF this] obtain s' n kept slugs where run: "right_to_be_forgotten env s citizen req = Inr (s', n, kept, slugs)"
      by blast
    note f = forget_erased [OF run, unfolded erasable_ids [OF tok(1)]]
    let ?ids = "map fst (filter (\<lambda>kr. forgettable s citizen (snd kr)) (cd_records s))"
    have ids: "k \<in> set ?ids \<longleftrightarrow> erasable s citizen k" for k by (rule erasable_ids [OF tok(1)])
    have rows: "tget (cd_records s') k = Some r \<longleftrightarrow> tget (cd_records s) k = Some r \<and> \<not> forgettable s citizen r" for k r
      using tget_filter [OF tok(1), of "\<lambda>r. \<not> forgettable s citizen r" k] by (auto simp: f(1) split: option.splits)
    have sigs: "tget (cd_signatures s') k = Some g \<longleftrightarrow> tget (cd_signatures s) k = Some g \<and> \<not> erasable s citizen (sg_record g)" for k g
      using tget_filter [OF tok(2), of "\<lambda>g. \<not> erasable s citizen (sg_record g)" k] by (auto simp: f(2) split: option.splits)
    have revs: "\<exists>q'. tget (cd_revisions s') v = Some q' \<and> rv_hash q' = rv_hash q \<and> rv_predecessor q' = rv_predecessor q
        \<and> rv_successor q' = rv_successor q
        \<and> (if rv_schema q = RecordSchema \<and> erasable s citizen (rv_object q) then \<not> names citizen q' else q' = q)"
      if "tget (cd_revisions s) v = Some q" for v q
      using that by (auto simp: f(3) tget_tupdate_where redact_same redacted_names)
    have photos: "tget (cd_profiles s') p = map_option (\<lambda>q.
        if \<exists>k. pp_consent q = Some k \<and> erasable s citizen k then unphotographed env q else q) (tget (cd_profiles s) p)" for p
      unfolding f(8) photos_taken tget_tupdate_where option.map_comp Bex_def ids image_iff
      by (intro option.map_cong0) (auto simp: loses_photo_def unphotographed_def split: option.splits)
    have files: "g \<in> set (cd_photos s') \<longleftrightarrow> g \<in> set (cd_photos s) \<and> \<not> (ce_storage env g
        \<and> (\<exists>pq\<in>set (cd_profiles s). pp_photo (snd pq) = Some g \<and> (\<exists>k. pp_consent (snd pq) = Some k \<and> erasable s citizen k)))" for g
      unfolding f(7) photos_deleted Bex_def ids loses_photo_file by blast
    have "length (filter (\<lambda>kr. forgettable s citizen (snd kr)) t)
        + tcount (\<lambda>r. cr_citizen r = citizen) (filter (\<lambda>kr. \<not> forgettable s citizen (snd kr)) t)
        = tcount (\<lambda>r. cr_citizen r = citizen) t" for t
      by (induction t) (auto simp: tcount_def forgettable_def)
    then have "n + tcount (\<lambda>r. cr_citizen r = citizen) (cd_records s') = tcount (\<lambda>r. cr_citizen r = citizen) (cd_records s)"
      by (simp add: f(1,9))
    with False rows sigs revs photos files f(10) show ?thesis unfolding run by simp
  qed
qed

definition photo_run :: "consent_op list" where
  "photo_run = [CoCreateAgreement 1 news None, CoGrant 2 7 ''news'' None '''' None,
     CoProfile 5 \<lparr>pp_photo = Some ''jane.jpg'', pp_consent = Some 2\<rparr>]"

lemma photo_owed: "ops_ok consent_owed (consent_step env) portal_start photo_run"
  "ops_ok consent_owed (consent_step env) portal_start (photo_run @ [CoApplication 9 (Some 2)])"
  by (simp_all add: photo_run_def agreement_of_def split: option.splits)

lemma forgetting_erases_records_witness:
  "\<exists>s s' n kept slugs q. s = run_ops (consent_step portal_env) portal_start photo_run
    \<and> right_to_be_forgotten portal_env s 7 None = Inr (s', n, kept, slugs) \<and> tget (cd_records s') 2 = None \<and> n + kept = 1
    \<and> tget (cd_revisions s') 3 = Some q \<and> \<not> names 7 q \<and> rv_hash q = ''digest''
    \<and> tget (cd_profiles s') 5 = Some \<lparr>pp_photo = None, pp_consent = None\<rparr> \<and> cd_photos s' = []
    \<and> right_to_be_forgotten portal_env (run_ops (consent_step portal_env) portal_start (photo_run @ [CoApplication 9 (Some 2)])) 7 None
        = Inl RecordProtected"
proof -
  let ?s = "run_ops (consent_step portal_env) portal_start photo_run"
  let ?t = "run_ops (consent_step portal_env) portal_start (photo_run @ [CoApplication 9 (Some 2)])"
  have before: "(let s = ?s in (erasable s 7 2, map_option (forgettable s 7) (tget (cd_records s) 2),
      map_option (\<lambda>q. (rv_schema q, rv_object q, rv_hash q)) (tget (cd_revisions s) 3), tcount (\<lambda>r. cr_citizen r = 7) (cd_records s),
      tget (cd_profiles s) 5, cd_photos s, cd_profiles s, cd_applications s))
    = (True, Some True, Some (RecordSchema, 2, ''digest''), 1, Some \<lparr>pp_photo = Some ''jane.jpg'', pp_consent = Some 2\<rparr>, [''jane.jpg''],
       [(5, \<lparr>pp_photo = Some ''jane.jpg'', pp_consent = Some 2\<rparr>)], [])" by code_simp
  have after: "(let t = ?t in (cd_applications t, erasable t 7 2)) = ([(9, Some 2)], True)" by code_simp
  from before have e: "erasable ?s 7 2" "cd_applications ?s = []" and one: "tcount (\<lambda>r. cr_citizen r = 7) (cd_records ?s) = 1"
    and p: "tget (cd_profiles ?s) 5 = Some \<lparr>pp_photo = Some ''jane.jpg'', pp_consent = Some 2\<rparr>"
      "cd_profiles ?s = [(5, \<lparr>pp_photo = Some ''jane.jpg'', pp_consent = Some 2\<rparr>)]" "cd_photos ?s = [''jane.jpg'']"
    by (simp_all add: Let_def tget_def)
  have storage: "ce_storage portal_env f" for f by (simp add: portal_env_def)
  note all = forgetting_erases_records [OF portal_fresh photo_owed(1) refl, of portal_env 7 None]
  obtain s' n kept slugs where t: "right_to_be_forgotten portal_env ?s 7 None = Inr (s', n, kept, slugs)"
    using all e(2) by (cases "right_to_be_forgotten portal_env ?s 7 None") auto
  from before obtain r where r: "tget (cd_records ?s) 2 = Some r" "forgettable ?s 7 r" by (auto simp: Let_def)
  from before obtain q where q: "tget (cd_revisions ?s) 3 = Some q" "rv_schema q = RecordSchema" "rv_object q = 2" "rv_hash q = ''digest''"
    by (auto simp: Let_def)
  note made = all [unfolded t sum.case prod.case, THEN conjunct2]
  have gone: "tget (cd_records s') 2 = None" using made [THEN conjunct1] r by (cases "tget (cd_records s') 2") auto
  note made = made [THEN conjunct2, THEN conjunct2]
  from made [THEN conjunct1, rule_format, OF q(1)] q(2-4) e(1)
  obtain q' where q': "tget (cd_revisions s') 3 = Some q'" "\<not> names 7 q'" "rv_hash q' = ''digest''" by auto
  note made = made [THEN conjunct2]
  have bare: "tget (cd_profiles s') 5 = Some \<lparr>pp_photo = None, pp_consent = None\<rparr>"
    using made [THEN conjunct1, rule_format, of 5] e(1) by (simp add: p(1) unphotographed_def storage)
  note made = made [THEN conjunct2]
  have "f \<notin> set (cd_photos s')" for f
    using made [THEN conjunct1, rule_format, of f] e(1) by (auto simp: p(2,3) storage)
  then have none: "cd_photos s' = []" by (cases "cd_photos s'") auto
  from made [THEN conjunct2] one have "n + kept = 1" by simp
  moreover have "right_to_be_forgotten portal_env ?t 7 None = Inl RecordProtected"
    using forgetting_erases_records [OF portal_fresh photo_owed(2) refl, of portal_env 7 None] after
    by (cases "right_to_be_forgotten portal_env ?t 7 None") (auto simp: Let_def)
  ultimately show ?thesis using t gone q' bare none by blast
qed

text \<open>
  C35. What forgetting leaves behind: when the signature of a consent was updated and the citizen
  is then forgotten, the record and the signature are gone, but the revision of the signature
  stays as it was - it still names the citizen and holds the text that was signed.
\<close>

theorem forgotten_signature_still_names_citizen:
  assumes "fresh_consents s0" "ops_ok consent_owed (consent_step env) s0 xs" "s = run_ops (consent_step env) s0 xs"
    and "tget (cd_records s) k = Some r" "forgettable s citizen r"
    and "update_signature env s now k gk changes sreq = Inr s1"
    and "right_to_be_forgotten env s1 citizen req = Inr (s', n, kept, slugs)"
  shows "tget (cd_records s') k = None \<and> (\<exists>v q g. tget (cd_revisions s') v = Some q
    \<and> rv_individual q = Some citizen \<and> ev_data (rv_snapshot q) = SignatureSnap gk g
    \<and> (\<exists>old. tget (cd_signatures s) gk = Some old \<and> sg_payload g = sg_payload (fold change_signature changes old)))"
proof -
  have inv: "consent_inv s" unfolding assms(3) by (rule consents.inv_run [OF fresh_consents_inv [OF assms(1)] assms(2)])
  from assms(6) assms(4) obtain old where old: "tget (cd_signatures s) gk = Some old"
    by (auto simp: update_signature_def split: option.splits)
  let ?g0 = "fold change_signature changes old"
  define g where "g = (if list_ex (\<lambda>c. case c of SgVerification x \<Rightarrow> True | _ \<Rightarrow> False) changes
     then ?g0\<lparr>sg_verification_hash := ce_sha env (sg_verification ?g0)\<rparr> else ?g0)"
  define h where "h = g\<lparr>sg_record := k, sg_revision_hash := '''', sg_optional := []\<rparr>"
  let ?t = "put_signature gk g s"
  have okt: "revisions_ok ?t" by (rule revisions_only(3) [OF _ _ consent_invD(1) [OF inv]]) (simp_all add: put_signature_def)
  obtain v u where vu: "create_for env ?t now SignatureSchema gk (SignatureSnap gk h) (Some (cr_citizen r)) '''' = (v, u)" by fastforce
  obtain q where q: "q = new_revision env now SignatureSchema gk (SignatureSnap gk h) (Some (cr_citizen r)) ''''
      (last_hash '''' (trail_of (cd_revisions ?t) SignatureSchema gk))" "tget (cd_revisions u) v = Some q"
    by (rule create_for_trails [OF okt vu])
  have f: "rv_schema q = SignatureSchema" "rv_individual q = Some (cr_citizen r)" "ev_data (rv_snapshot q) = SignatureSnap gk h"
    by (simp_all add: q(1) new_revision_def Let_def)
  have s1: "cd_revisions s1 = cd_revisions u" "cd_records s1 = cd_records s" "cd_categories s1 = cd_categories s"
    using assms(4,6) old vu create_for_keeps(1,2) [OF vu]
    by (auto simp: update_signature_def Let_def g_def [symmetric] h_def [symmetric] consent_log_def put_signature_def)
  note fc = forget_core [OF assms(7)]
  have forget: "forgettable s1 citizen = forgettable s citizen" by (simp add: forgettable_def s1 fun_eq_iff)
  have "tget (cd_records s') k = None"
    using tget_filter [OF consent_invD(3) [OF inv], of "\<lambda>r. \<not> forgettable s citizen r" k] assms(4,5)
    by (simp add: fc(1) s1 forget)
  moreover have "tget (cd_revisions s') v = Some q"
    using q(2) f(1) by (simp add: fc(3) tget_tupdate_where s1)
  moreover have "sg_payload h = sg_payload ?g0" by (simp add: h_def g_def)
  moreover have "cr_citizen r = citizen" using assms(5) by (simp add: forgettable_def)
  ultimately show ?thesis using f old by blast
qed

lemma update_signature_succeeds:
  "tget (cd_records s) k = Some r \<Longrightarrow> tget (cd_signatures s) gk = Some old
    \<Longrightarrow> \<exists>s1. update_signature env s now k gk changes sreq = Inr s1"
  by (auto simp: update_signature_def Let_def split: prod.splits)

lemma update_signature_applications:
  "update_signature env s now k gk changes sreq = Inr s1 \<Longrightarrow> cd_applications s1 = cd_applications s"
  by (auto simp: update_signature_def consent_log_def create_for_def put_signature_def Let_def split: option.splits)

lemma forgotten_signature_still_names_citizen_witness:
  "\<exists>s s1 s' n kept slugs v q g. s = run_ops (consent_step portal_env) portal_start [CoCreateAgreement 1 news None, CoGrant 2 7 ''news'' None '''' None]
    \<and> update_signature portal_env s 3 2 4 [SgPayload ''Jane Doe''] None = Inr s1
    \<and> right_to_be_forgotten portal_env s1 7 None = Inr (s', n, kept, slugs)
    \<and> tget (cd_records s') 2 = None \<and> tget (cd_revisions s') v = Some q \<and> rv_individual q = Some 7
    \<and> ev_data (rv_snapshot q) = SignatureSnap 4 g \<and> sg_payload g = ''Jane Doe''"
proof -
  let ?xs = "[CoCreateAgreement 1 news None, CoGrant 2 7 ''news'' None '''' None]"
  let ?s = "run_ops (consent_step portal_env) portal_start ?xs"
  have owed: "ops_ok consent_owed (consent_step portal_env) portal_start ?xs" by (simp add: agreement_of_def split: option.splits)
  have before: "(let s = ?s in (map_option (forgettable s 7) (tget (cd_records s) 2), map_option sg_record (tget (cd_signatures s) 4)))
    = (Some True, Some 2)" by code_simp
  then obtain r where r: "tget (cd_records ?s) 2 = Some r" "forgettable ?s 7 r" by (auto simp: Let_def)
  from before obtain old where old: "tget (cd_signatures ?s) 4 = Some old" by (auto simp: Let_def)
  obtain s1 where s1: "update_signature portal_env ?s 3 2 4 [SgPayload ''Jane Doe''] None = Inr s1"
    using update_signature_succeeds [OF r(1) old] by blast
  have idle: "cd_applications ?s = []" by code_simp
  have "tok (cd_records s1)"
    using consent_invD(3) [OF consents.inv_run [OF fresh_consents_inv [OF portal_fresh] owed]] others_keep_records(1) [OF s1] by simp
  from forget_refused(2) [OF this, of 7 portal_env None] update_signature_applications [OF s1] idle
  obtain s' n kept slugs where t: "right_to_be_forgotten portal_env s1 7 None = Inr (s', n, kept, slugs)" by auto
  from forgotten_signature_still_names_citizen [OF portal_fresh owed refl r s1 t]
  obtain v q g where gone: "tget (cd_records s') 2 = None" and q: "tget (cd_revisions s') v = Some q" "rv_individual q = Some 7"
    "ev_data (rv_snapshot q) = SignatureSnap 4 g" "sg_payload g = ''Jane Doe''" by auto
  show ?thesis by (intro exI conjI, rule refl, rule s1, rule t, rule gone, rule q(1), rule q(2), rule q(3), rule q(4))
qed

end
