(* ===== verification/Documents.thy ===== *)
theory Documents
  imports Prelude
begin

text \<open>
  Documents: \<open>apps/documents\<close> - upload and its checks (\<open>services/upload.py\<close>), versions
  (\<open>versioning.py\<close>), retention, legal holds and destruction (\<open>retention.py\<close>), download tokens
  (\<open>download.py\<close>) and the tasks that scan, clean up and dispose (\<open>tasks.py\<close>).

  The store of objects is part of the state, because what the services promise is about it.
  A step that touches the store outside a transaction is an operation of its own: the verdict a
  scanning worker holds, a destruction between its lock and its commit, and the snapshot of the
  clean-up are rows of the worker tables. Magic numbers, PDF and ZIP parsing and the virus
  scanner are parameters. A call from a view is one transaction, so an exception undoes all of
  it: also the entry \<open>_record_access_denied\<close> writes before the exception.
\<close>

section \<open>Rows\<close>

record document_category =
  dc_slug :: string
  dc_classification :: string
  dc_mimes :: "string list"
  dc_max_size :: nat
  dc_min_days :: nat
  dc_max_days :: nat
  dc_transitory :: bool
  dc_staff_only :: bool

datatype scan_status = ScPendingUpload | ScScanning | ScActive | ScQuarantined | ScDeleted | ScPurged

text \<open>
  A storage key \<open>documents/{prefix}/{document}/{file}.bin\<close>; the empty key is \<open>None\<close> in a row.
\<close>

datatype storage_prefix = QuarantineArea | ActiveArea | DeletedArea

type_synonym storage_key = "storage_prefix \<times> nat \<times> nat"

record document =
  do_category :: nat
  do_uploaded_by :: nat
  do_filename :: string
  do_key :: "storage_key option"
  do_mime :: string
  do_size :: int
  do_status :: scan_status
  do_scanned_at :: "int option"
  do_scan_result :: string
  do_classification :: string
  do_version :: nat
  do_root :: "nat option"
  do_latest :: bool
  do_expires_at :: "int option"
  do_retain_until :: "int option"
  do_hold :: bool
  do_hold_reason :: string
  do_hold_by :: "nat option"
  do_deleted_at :: "int option"
  do_deleted_by :: "nat option"
  do_deletion_reason :: string
  do_description :: string
  do_created_at :: int

record access_token =
  tk_document :: nat
  tk_issued_to :: nat
  tk_expires_at :: int
  tk_used_at :: "int option"
  tk_ip :: "string option"

text \<open>What the services write to the audit log; \<open>ev_token\<close> is the key of a download token.\<close>

datatype document_event_type =
    EvCreated | EvStatusChanged | EvThreat | EvDeleted | EvPurged | EvHoldApplied | EvHoldReleased
  | EvViewed | EvTokensPurged

record document_event =
  de_type :: document_event_type
  de_document :: "nat option"
  de_actor :: "nat option"
  de_token :: "nat option"
  de_note :: string
  de_time :: int

text \<open>A presigned POST: the policy the store checks and the fields the form is rendered with.\<close>

datatype post_condition = KeyIs storage_key | LengthRange nat nat | FieldIs string string

record presigned_post =
  ps_key :: storage_key
  ps_fields :: "(string \<times> string) list"
  ps_conditions :: "post_condition list"
  ps_expires_at :: int

text \<open>A destruction under way: what \<open>hard_delete\<close> read under its lock.\<close>

record purge_job =
  pj_document :: nat
  pj_key :: "storage_key option"
  pj_locked_at :: int
  pj_destroyed :: bool

record document_db =
  dd_categories :: "document_category table"
  dd_docs :: "document table"
  dd_tokens :: "access_token table"
  dd_store :: "storage_key \<rightharpoonup> string"
  dd_posts :: "presigned_post list"
  dd_audit :: "document_event list"
  dd_scan_queue :: "nat list"
  dd_verdicts :: "(nat \<times> string) list"
  dd_purges :: "purge_job list"
  dd_stale :: "(nat \<times> storage_key option) list"
  dd_fresh :: nat

datatype document_error =
    NoCategory | DocDenied | DocNotFound | BadSize | TooLarge | BadExtension | BadMime | Misconfigured
  | UploadGone | FileMissing | BadContent | PdfLocked | PdfBroken | BadArchive | TooManyEntries
  | BadRatio | ArchiveLocked | StoreDown | OnHold | AlreadyDeleted | NotDeleted | NotMarkedDeleted
  | GraceRunning | NotTransitory | NoActor | HoldExists | NoHold | CorruptChain | RootDeleted
  | RowProtected | TokenExpired | ScanRetry | NoJob

section \<open>Users and settings\<close>

record doc_user =
  du_pk :: nat
  du_authenticated :: bool
  du_superuser :: bool
  du_staff :: bool
  du_perms :: "string list"

definition du_has_perm :: "doc_user \<Rightarrow> string \<Rightarrow> bool" where
  "du_has_perm u p \<longleftrightarrow> du_superuser u \<or> p \<in> set (du_perms u)"

datatype pdf_reading = PdfPlain | PdfEncrypted | PdfNeedsPassword | PdfUnreadable

record zip_entry =
  ze_size :: nat
  ze_compressed :: nat
  ze_locked :: bool

datatype clam_answer = ClamClean | ClamFound string | ClamError

text \<open>
  The settings, and the libraries: \<open>dv_accepts\<close> tells whether the store accepts an upload under a policy,
  \<open>dv_magic\<close> and \<open>dv_pikepdf\<close> are \<open>None\<close> when not installed,
  \<open>dv_magic\<close> answers \<open>None\<close> when it raises, \<open>dv_zip\<close> when the archive cannot be parsed.
\<close>

record document_env =
  dv_mimes :: "string list"
  dv_max_staff :: nat
  dv_max_citizen :: nat
  dv_post_ttl :: int
  dv_token_ttl :: int
  dv_grace_days :: int
  dv_site_url :: string
  dv_confirm_path :: "nat \<Rightarrow> string"
  dv_kms_key :: string
  dv_magic :: "(string \<Rightarrow> string option) option"
  dv_magic_required :: bool
  dv_pikepdf :: "(string \<Rightarrow> pdf_reading) option"
  dv_zip :: "string \<Rightarrow> zip_entry list option"
  dv_zip_max_entries :: nat
  dv_zip_max_ratio :: nat
  dv_scanner :: bool
  dv_clam :: "string \<Rightarrow> clam_answer"
  dv_utc_day :: "int \<Rightarrow> int"
  dv_local_day :: "int \<Rightarrow> int"
  dv_mask_ip :: "string \<Rightarrow> string option"
  dv_accepts :: "presigned_post \<Rightarrow> string \<Rightarrow> int \<Rightarrow> bool"
  dv_sqlite :: bool

definition doc_day :: int where
  "doc_day = 86400"

definition user_may_upload :: "doc_user \<Rightarrow> document_category \<Rightarrow> bool" where
  "user_may_upload u c = (if \<not> du_authenticated u then False
     else if du_superuser u then True
     else if du_has_perm u ''documents.upload_staff_document'' then True
     else if dc_staff_only c then False
     else True)"

definition staff_uploader :: "doc_user \<Rightarrow> bool" where
  "staff_uploader u \<longleftrightarrow> du_staff u \<or> du_superuser u \<or> du_has_perm u ''documents.upload_staff_document''"

definition user_may_version :: "doc_user \<Rightarrow> document \<Rightarrow> document_category \<Rightarrow> bool" where
  "user_may_version u rt c = (if \<not> du_authenticated u then False
     else if du_superuser u then True
     else if du_has_perm u ''documents.upload_staff_document'' then True
     else do_uploaded_by rt = du_pk u \<and> du_has_perm u ''documents.upload_document'' \<and> \<not> dc_staff_only c)"

definition user_may_download :: "doc_user \<Rightarrow> document \<Rightarrow> bool" where
  "user_may_download u d = (if \<not> du_authenticated u then False
     else if du_superuser u then True
     else if du_has_perm u ''documents.coordinator_view_document'' then True
     else do_uploaded_by d = du_pk u)"

section \<open>Checks of an upload\<close>

definition allowed_extensions :: "string list" where
  "allowed_extensions = [''pdf'', ''jpg'', ''jpeg'', ''png'', ''webp'', ''docx'', ''xlsx'', ''csv'', ''txt'']"

definition zip_family :: "string list" where
  "zip_family = [''docx'', ''xlsx'']"

definition pdf_mime :: string where
  "pdf_mime = ''application/pdf''"

definition zip_mimes :: "string list" where
  "zip_mimes = [''application/zip'',
     ''application/vnd.openxmlformats-officedocument.wordprocessingml.document'',
     ''application/vnd.openxmlformats-officedocument.spreadsheetml.sheet'',
     ''application/vnd.openxmlformats-officedocument.presentationml.presentation'',
     ''application/vnd.ms-office'']"

text \<open>The last part of a path that is neither empty nor a single dot, as \<open>PurePosixPath.name\<close>.\<close>

fun path_name :: "string \<Rightarrow> string \<Rightarrow> string \<Rightarrow> string" where
  "path_name part name [] = (if part = '''' \<or> part = ''.'' then name else part)"
| "path_name part name (c # cs) = (if c = CHR ''/''
     then path_name '''' (if part = '''' \<or> part = ''.'' then name else part) cs
     else path_name (part @ [c]) name cs)"

text \<open>\<open>Path(filename).suffix.lstrip(".").lower()\<close>: a dot first or last in the name starts no suffix.\<close>

definition file_extension :: "string \<Rightarrow> string" where
  "file_extension filename = (let back = rev (path_name '''' '''' filename);
       ext = takeWhile (\<lambda>c. c \<noteq> CHR ''.'') back; rest = dropWhile (\<lambda>c. c \<noteq> CHR ''.'') back
     in if ext = '''' \<or> length rest < 2 then '''' else py_lower (rev ext))"

definition upload_mimes :: "document_env \<Rightarrow> document_category \<Rightarrow> string list" where
  "upload_mimes env c = (if dc_mimes c \<noteq> [] then dc_mimes c else dv_mimes env)"

definition max_upload_size :: "document_env \<Rightarrow> doc_user \<Rightarrow> document_category \<Rightarrow> nat" where
  "max_upload_size env u c = (if 0 < dc_max_size c then dc_max_size c
     else if staff_uploader u then dv_max_staff env else dv_max_citizen env)"

text \<open>Layers 2 to 4: what is refused before any byte is transferred.\<close>

definition refuse_upload ::
  "document_env \<Rightarrow> doc_user \<Rightarrow> document_category \<Rightarrow> string \<Rightarrow> string \<Rightarrow> int \<Rightarrow> document_error option" where
  "refuse_upload env u c filename mime sz =
     (if sz \<le> 0 then Some BadSize
      else if int (max_upload_size env u c) < sz then Some TooLarge
      else if file_extension filename \<notin> set allowed_extensions then Some BadExtension
      else if upload_mimes env c = [] then Some Misconfigured
      else if mime \<notin> set (upload_mimes env c) then Some BadMime
      else None)"

text \<open>Layer 5: the type of the first bytes; \<open>Inr None\<close> when detection is switched off.\<close>

definition magic_length :: nat where
  "magic_length = 8192"

definition validate_magic_bytes :: "document_env \<Rightarrow> string \<Rightarrow> string list \<Rightarrow> document_error + string option" where
  "validate_magic_bytes env first mimes = (if mimes = [] then Inl Misconfigured
     else case dv_magic env of
       None \<Rightarrow> if dv_magic_required env then Inl Misconfigured else Inr None
     | Some magic \<Rightarrow> (case magic first of None \<Rightarrow> Inl BadContent
         | Some m \<Rightarrow> if m \<notin> set mimes then Inl BadContent else Inr (Some m)))"

text \<open>Layer 5b. Without the library the bytes are searched for the name of the dictionary.\<close>

fun has_bytes :: "string \<Rightarrow> string \<Rightarrow> bool" where
  "has_bytes w [] = (w = [])"
| "has_bytes w (c # cs) = (take (length w) (c # cs) = w \<or> has_bytes w cs)"

definition check_pdf :: "document_env \<Rightarrow> string \<Rightarrow> document_error option" where
  "check_pdf env bytes = (case dv_pikepdf env of
     Some pikepdf \<Rightarrow> (case pikepdf bytes of PdfPlain \<Rightarrow> None | PdfEncrypted \<Rightarrow> Some PdfLocked
       | PdfNeedsPassword \<Rightarrow> Some PdfLocked | PdfUnreadable \<Rightarrow> Some PdfBroken)
   | None \<Rightarrow> if has_bytes ''/Encrypt'' bytes then Some PdfLocked else None)"

text \<open>Layer 6; the ratio is compared without division.\<close>

definition check_zip :: "document_env \<Rightarrow> string \<Rightarrow> document_error option" where
  "check_zip env bytes = (case dv_zip env bytes of
     None \<Rightarrow> Some BadArchive
   | Some es \<Rightarrow>
       if dv_zip_max_entries env < length es then Some TooManyEntries
       else if list_ex (\<lambda>e. 0 < ze_compressed e \<and> dv_zip_max_ratio env * ze_compressed e < ze_size e) es then Some BadRatio
       else if list_ex ze_locked es then Some ArchiveLocked
       else None)"

text \<open>Layers 5 to 6 on the bytes in the store: the type to record, or what is wrong with them.\<close>

definition check_content :: "document_env \<Rightarrow> document_category \<Rightarrow> document \<Rightarrow> string \<Rightarrow> document_error + string" where
  "check_content env c d bytes =
     (if upload_mimes env c = [] then Inl Misconfigured
      else case validate_magic_bytes env (take magic_length bytes) (upload_mimes env c) of
        Inl e \<Rightarrow> Inl e
      | Inr detected \<Rightarrow>
          let ext = file_extension (do_filename d);
            pdf = (case detected of Some m \<Rightarrow> m = pdf_mime | None \<Rightarrow> ext = ''pdf'');
            zip = (case detected of Some m \<Rightarrow> m \<in> set zip_mimes | None \<Rightarrow> ext \<in> set zip_family)
          in case (if pdf then check_pdf env bytes else None) of
            Some e \<Rightarrow> Inl e
          | None \<Rightarrow> (case (if zip then check_zip env bytes else None) of
              Some e \<Rightarrow> Inl e
            | None \<Rightarrow> Inr (case detected of Some m \<Rightarrow> m | None \<Rightarrow> do_mime d)))"

section \<open>Tables\<close>

definition put_doc :: "nat \<Rightarrow> document \<Rightarrow> document_db \<Rightarrow> document_db" where
  "put_doc k d s = s\<lparr>dd_docs := tput k d (dd_docs s)\<rparr>"

definition doc_event :: "document_event_type \<Rightarrow> nat option \<Rightarrow> nat option \<Rightarrow> nat option \<Rightarrow> string \<Rightarrow> int \<Rightarrow> document_db \<Rightarrow> document_db" where
  "doc_event ty k actor token note now s = s\<lparr>dd_audit := dd_audit s @ [\<lparr>de_type = ty, de_document = k, de_actor = actor,
     de_token = token, de_note = note, de_time = now\<rparr>]\<rparr>"

definition category_of :: "document_db \<Rightarrow> document \<Rightarrow> document_category option" where
  "category_of s d = tget (dd_categories s) (do_category d)"

definition stored :: "document_db \<Rightarrow> storage_key option \<Rightarrow> string option" where
  "stored s key = (case key of None \<Rightarrow> None | Some x \<Rightarrow> dd_store s x)"

definition erase_object :: "storage_key option \<Rightarrow> document_db \<Rightarrow> document_db" where
  "erase_object key s = (case key of None \<Rightarrow> s | Some x \<Rightarrow> s\<lparr>dd_store := (dd_store s)(x := None)\<rparr>)"

section \<open>Upload\<close>

text \<open>The retention dates of a new document.\<close>

definition schedule_expiry :: "document_env \<Rightarrow> document_category \<Rightarrow> document \<Rightarrow> document" where
  "schedule_expiry env c d =
     d\<lparr>do_expires_at := (if \<not> dc_transitory c \<and> 0 < dc_max_days c
         then Some (do_created_at d + doc_day * int (dc_max_days c)) else None),
       do_retain_until := (if 0 < dc_min_days c
         then Some (dv_utc_day env (do_created_at d + doc_day * int (dc_min_days c))) else None)\<rparr>"

definition make_storage_key :: "nat \<Rightarrow> nat \<Rightarrow> storage_key" where
  "make_storage_key k file = (QuarantineArea, k, file)"

definition new_document ::
  "int \<Rightarrow> doc_user \<Rightarrow> nat \<Rightarrow> document_category \<Rightarrow> string \<Rightarrow> string \<Rightarrow> int \<Rightarrow> storage_key \<Rightarrow> document" where
  "new_document now u ck c filename mime sz key =
     \<lparr>do_category = ck, do_uploaded_by = du_pk u, do_filename = filename, do_key = Some key, do_mime = mime,
      do_size = sz, do_status = ScPendingUpload, do_scanned_at = None, do_scan_result = '''',
      do_classification = dc_classification c, do_version = 1, do_root = None, do_latest = True,
      do_expires_at = None, do_retain_until = None, do_hold = False, do_hold_reason = '''', do_hold_by = None,
      do_deleted_at = None, do_deleted_by = None, do_deletion_reason = '''', do_description = '''',
      do_created_at = now\<rparr>"

text \<open>The presigned POST for a key: every condition on a field comes with the field.\<close>

definition post_fields :: "document_env \<Rightarrow> document_category \<Rightarrow> nat \<Rightarrow> (string \<times> string) list" where
  "post_fields env c k =
     (if length (upload_mimes env c) = 1 then [(''Content-Type'', hd (upload_mimes env c))] else [])
     @ (if dv_kms_key env \<noteq> '''' then [(''x-amz-server-side-encryption'', ''aws:kms''),
          (''x-amz-server-side-encryption-aws-kms-key-id'', dv_kms_key env)] else [])
     @ (let base = rev (dropWhile (\<lambda>ch. ch = CHR ''/'') (rev (dv_site_url env)))
        in if base \<noteq> '''' then [(''success_action_redirect'', base @ dv_confirm_path env k)] else [])"

definition generate_presigned_post ::
  "document_env \<Rightarrow> int \<Rightarrow> document_category \<Rightarrow> nat \<Rightarrow> storage_key \<Rightarrow> nat \<Rightarrow> presigned_post" where
  "generate_presigned_post env now c k key cap =
     \<lparr>ps_key = key, ps_fields = post_fields env c k,
      ps_conditions = KeyIs key # LengthRange 1 cap # map (\<lambda>(f, v). FieldIs f v) (post_fields env c k),
      ps_expires_at = now + dv_post_ttl env\<rparr>"

text \<open>
  A browser's POST: the store puts the bytes under the key of a policy it accepts them for. The
  same policy may be used again.
\<close>

definition browser_post :: "document_env \<Rightarrow> document_db \<Rightarrow> int \<Rightarrow> storage_key \<Rightarrow> string \<Rightarrow> document_error + document_db" where
  "browser_post env s now key bytes =
     (if list_ex (\<lambda>p. ps_key p = key \<and> dv_accepts env p bytes now) (dd_posts s)
      then Inr (s\<lparr>dd_store := (dd_store s)(key \<mapsto> bytes)\<rparr>) else Inl DocDenied)"

text \<open>\<open>presigned\<close> tells whether the store client could sign the policy.\<close>

definition validate_upload_request ::
  "document_env \<Rightarrow> document_db \<Rightarrow> int \<Rightarrow> doc_user \<Rightarrow> string \<Rightarrow> string \<Rightarrow> string \<Rightarrow> int \<Rightarrow> bool
     \<Rightarrow> document_error + (document_db \<times> nat)" where
  "validate_upload_request env s now u slug filename mime sz presigned =
     (case tfind (\<lambda>c. dc_slug c = slug) (dd_categories s) of
       None \<Rightarrow> Inl NoCategory
     | Some (ck, c) \<Rightarrow>
         if \<not> user_may_upload u c then Inl DocDenied
         else case refuse_upload env u c filename mime sz of
           Some e \<Rightarrow> Inl e
         | None \<Rightarrow>
             if \<not> presigned then Inl StoreDown
             else let k = dd_fresh s; key = make_storage_key k (Suc k);
                 d = schedule_expiry env c (new_document now u ck c filename mime sz key)
               in Inr ((put_doc k d s)\<lparr>dd_fresh := Suc (Suc k),
                 dd_posts := dd_posts s @ [generate_presigned_post env now c k key (max_upload_size env u c)]\<rparr>, k))"

definition confirm_upload ::
  "document_env \<Rightarrow> document_db \<Rightarrow> int \<Rightarrow> doc_user \<Rightarrow> nat \<Rightarrow> document_error + document_db" where
  "confirm_upload env s now u k = (case tget (dd_docs s) k of
     None \<Rightarrow> Inl DocNotFound
   | Some d \<Rightarrow>
       if do_uploaded_by d \<noteq> du_pk u then Inl DocNotFound
       else if do_status d \<in> {ScScanning, ScActive} then Inr s
       else if do_status d \<in> {ScQuarantined, ScDeleted} then Inl UploadGone
       else (case (stored s (do_key d), category_of s d) of
         (Some bytes, Some c) \<Rightarrow> (case check_content env c d bytes of
             Inl e \<Rightarrow> Inl e
           | Inr mime \<Rightarrow>
               Inr ((doc_event EvCreated (Some k) (Some (du_pk u)) None ''confirmed'' now
                 (put_doc k (d\<lparr>do_status := ScScanning, do_mime := mime\<rparr>) s))\<lparr>dd_scan_queue := dd_scan_queue s @ [k]\<rparr>))
       | _ \<Rightarrow> Inl FileMissing))"

section \<open>Scanning\<close>

text \<open>\<open>_mark_document_active_dev_bypass\<close>, when no scanner is configured.\<close>

definition mark_active_dev_bypass :: "document_db \<Rightarrow> int \<Rightarrow> nat \<Rightarrow> document_error + document_db" where
  "mark_active_dev_bypass s now k = (case tget (dd_docs s) k of
     None \<Rightarrow> Inl ScanRetry
   | Some d \<Rightarrow> if do_status d \<noteq> ScScanning then Inr s
       else Inr (put_doc k (d\<lparr>do_status := ScActive, do_scanned_at := Some now, do_scan_result := ''DEV_BYPASS''\<rparr>) s))"

definition promoted_key :: "storage_key \<Rightarrow> storage_key option" where
  "promoted_key key = (case key of (QuarantineArea, k, f) \<Rightarrow> Some (ActiveArea, k, f) | _ \<Rightarrow> None)"

text \<open>The copy into the active area: the new key with the store, nothing to do, or a failure.\<close>

definition promote_object :: "document_db \<Rightarrow> storage_key option \<Rightarrow> bool \<Rightarrow> document_error + (storage_key \<times> document_db) option" where
  "promote_object s key copied = (case key of
     None \<Rightarrow> Inr None
   | Some old \<Rightarrow> (case promoted_key old of
       None \<Rightarrow> Inr None
     | Some new \<Rightarrow> (case dd_store s old of
         None \<Rightarrow> Inr None
       | Some bytes \<Rightarrow> if copied then Inr (Some (new, s\<lparr>dd_store := (dd_store s)(new \<mapsto> bytes)\<rparr>)) else Inl StoreDown)))"

definition mark_active_clamav :: "document_db \<Rightarrow> int \<Rightarrow> nat \<Rightarrow> bool \<Rightarrow> bool \<Rightarrow> document_error + document_db" where
  "mark_active_clamav s now k copied removed = (case tget (dd_docs s) k of
     None \<Rightarrow> Inr s
   | Some d \<Rightarrow>
       if do_status d \<noteq> ScScanning then Inr s
       else (case promote_object s (do_key d) copied of
         Inl e \<Rightarrow> Inl e
       | Inr moved \<Rightarrow>
           let (key, s1) = (case moved of None \<Rightarrow> (do_key d, s) | Some (new, t) \<Rightarrow> (Some new, t));
             s2 = doc_event EvStatusChanged (Some k) None None ''OK'' now
               (put_doc k (d\<lparr>do_status := ScActive, do_scanned_at := Some now, do_scan_result := ''OK'', do_key := key\<rparr>) s1)
           in Inr (if moved \<noteq> None \<and> removed then erase_object (do_key d) s2 else s2)))"

text \<open>The row of a document with a threat; the object is deleted after the transaction.\<close>

definition quarantine_row :: "document_db \<Rightarrow> int \<Rightarrow> nat \<Rightarrow> document \<Rightarrow> string \<Rightarrow> document_db" where
  "quarantine_row s now k d result = doc_event EvThreat (Some k) None None result now
     (put_doc k (d\<lparr>do_status := ScQuarantined, do_scanned_at := Some now, do_scan_result := result\<rparr>) s)"

definition mark_quarantined_clamav :: "document_db \<Rightarrow> int \<Rightarrow> nat \<Rightarrow> string \<Rightarrow> bool \<Rightarrow> document_db" where
  "mark_quarantined_clamav s now k virus removed = (case tget (dd_docs s) k of
     None \<Rightarrow> s
   | Some d \<Rightarrow>
       if do_status d \<noteq> ScScanning then s
       else let s1 = quarantine_row s now k d (''FOUND: '' @ virus)
         in if removed then erase_object (do_key d) s1 else s1)"

definition quarantine_on_scan_failure :: "document_db \<Rightarrow> int \<Rightarrow> nat \<Rightarrow> string \<Rightarrow> document_db" where
  "quarantine_on_scan_failure s now k exc = (case tget (dd_docs s) k of
     None \<Rightarrow> s
   | Some d \<Rightarrow> if do_status d \<noteq> ScScanning then s else quarantine_row s now k d (''SCAN_FAILURE:'' @ exc))"

text \<open>
  The task up to its verdict. The worker takes the key under a lock, reads the object and asks
  the scanner; it then holds the verdict until it records it. \<open>Inl ScanRetry\<close> is a retry.
\<close>

definition scan_document :: "document_env \<Rightarrow> document_db \<Rightarrow> int \<Rightarrow> nat \<Rightarrow> bool \<Rightarrow> document_error + document_db" where
  "scan_document env s now k removed =
     (if \<not> dv_scanner env then mark_active_dev_bypass s now k
      else case tget (dd_docs s) k of
        None \<Rightarrow> Inl ScanRetry
      | Some d \<Rightarrow>
          if do_status d \<noteq> ScScanning then Inr s
          else (case stored s (do_key d) of
            None \<Rightarrow> Inr (mark_quarantined_clamav s now k ''STORAGE_ERROR:_StorageReadError'' removed)
          | Some bytes \<Rightarrow> (case dv_clam env bytes of
              ClamError \<Rightarrow> Inl ScanRetry
            | ClamClean \<Rightarrow> Inr (s\<lparr>dd_verdicts := dd_verdicts s @ [(k, ''OK'')]\<rparr>)
            | ClamFound v \<Rightarrow> Inr (s\<lparr>dd_verdicts := dd_verdicts s @ [(k, v)]\<rparr>))))"

text \<open>A verdict that cannot be recorded is dropped: the task is retried from the start.\<close>

definition record_verdict ::
  "document_db \<Rightarrow> int \<Rightarrow> nat \<Rightarrow> string \<Rightarrow> bool \<Rightarrow> bool \<Rightarrow> document_error + document_db" where
  "record_verdict s now k verdict copied removed =
     (if (k, verdict) \<notin> set (dd_verdicts s) then Inl NoJob
      else let s1 = s\<lparr>dd_verdicts := remove1 (k, verdict) (dd_verdicts s)\<rparr> in
        if verdict = ''OK'' then Inr (commit s1 (mark_active_clamav s1 now k copied removed))
        else Inr (mark_quarantined_clamav s1 now k verdict removed))"

section \<open>Versions\<close>

definition in_chain :: "nat \<Rightarrow> nat \<times> document \<Rightarrow> bool" where
  "in_chain rk kd \<longleftrightarrow> fst kd = rk \<or> do_root (snd kd) = Some rk"

definition highest_version :: "(nat \<times> document) list \<Rightarrow> (nat \<times> document) option" where
  "highest_version ds = (case ds of [] \<Rightarrow> None
     | kd # rest \<Rightarrow> Some (fold (\<lambda>a b. if do_version (snd b) < do_version (snd a) then a else b) rest kd))"

text \<open>The latest version of a chain; when none is marked, or several are, the highest of them.\<close>

definition current_latest :: "(nat \<times> document) list \<Rightarrow> (nat \<times> document) option" where
  "current_latest ds = (let marked = filter (\<lambda>kd. do_latest (snd kd)) ds
     in if marked = [] then highest_version ds else highest_version marked)"

text \<open>
  The view's transaction holds the locks on the chain until it ends, so a failure to sign the
  policy leaves nothing behind: the service restores the chain and the exception undoes the rest.
  The chain is the one of a call that runs alone: the locking query of the code does not return a
  version that a concurrent call inserts while it waits, which is outside the model.
\<close>

definition create_new_version ::
  "document_env \<Rightarrow> document_db \<Rightarrow> int \<Rightarrow> doc_user \<Rightarrow> nat \<Rightarrow> string \<Rightarrow> string \<Rightarrow> int \<Rightarrow> string \<Rightarrow> bool
     \<Rightarrow> document_error + (document_db \<times> nat)" where
  "create_new_version env s now u k filename mime sz description presigned = (case tget (dd_docs s) k of
     None \<Rightarrow> Inl DocNotFound
   | Some d \<Rightarrow>
       let rk = (case do_root d of None \<Rightarrow> k | Some r \<Rightarrow> r) in
       (case tget (dd_docs s) rk of
         None \<Rightarrow> Inl CorruptChain
       | Some rt \<Rightarrow>
           if do_root rt \<noteq> None then Inl CorruptChain
           else if do_deleted_at rt \<noteq> None then Inl RootDeleted
           else if dv_sqlite env then Inl Misconfigured
           else (case category_of s rt of
             None \<Rightarrow> Inl NoCategory
           | Some c \<Rightarrow>
               if \<not> user_may_version u rt c then Inl DocDenied
               else case refuse_upload env u c filename mime sz of
                 Some e \<Rightarrow> Inl e
               | None \<Rightarrow> (case current_latest (filter (in_chain rk) (dd_docs s)) of
                   None \<Rightarrow> Inl CorruptChain
                 | Some (lk, ld) \<Rightarrow>
                     if \<not> presigned then Inl StoreDown
                     else let v = dd_fresh s; key = make_storage_key v (Suc v);
                         n = schedule_expiry env c ((new_document now u (do_category rt) c filename mime sz key)
                           \<lparr>do_version := Suc (do_version ld), do_root := Some rk, do_description := description,
                            do_hold := do_hold rt\<rparr>);
                         s1 = put_doc v n (put_doc lk (ld\<lparr>do_latest := False\<rparr>) s)
                       in Inr ((doc_event EvCreated (Some v) (Some (du_pk u)) None ''version'' now s1)
                         \<lparr>dd_fresh := Suc (Suc v), dd_posts := dd_posts s
                            @ [generate_presigned_post env now c v key (max_upload_size env u c)]\<rparr>, v)))))"

section \<open>Retention\<close>

definition deleted_row :: "int \<Rightarrow> nat option \<Rightarrow> string \<Rightarrow> document \<Rightarrow> document" where
  "deleted_row now actor reason d = d\<lparr>do_deleted_at := Some now, do_status := ScDeleted, do_deleted_by := actor,
     do_deletion_reason := reason\<rparr>"

definition soft_delete ::
  "document_db \<Rightarrow> int \<Rightarrow> nat \<Rightarrow> nat option \<Rightarrow> string \<Rightarrow> document_error + document_db" where
  "soft_delete s now k actor reason = (case tget (dd_docs s) k of
     None \<Rightarrow> Inl DocNotFound
   | Some d \<Rightarrow>
       if do_hold d then Inl OnHold
       else if do_deleted_at d \<noteq> None then Inl AlreadyDeleted
       else Inr (doc_event EvDeleted (Some k) actor None (if reason = '''' then ''retention_expired'' else reason) now
         (put_doc k (deleted_row now actor reason d) s)))"

text \<open>
  \<open>hard_delete\<close> in its three parts: the checks under the lock, the deletion of the object with
  the lock released, and the commit, which only a row still marked deleted accepts.
\<close>

definition hard_delete_lock :: "document_env \<Rightarrow> document_db \<Rightarrow> int \<Rightarrow> nat \<Rightarrow> document_error + document_db" where
  "hard_delete_lock env s now k = (case tget (dd_docs s) k of
     None \<Rightarrow> Inl DocNotFound
   | Some d \<Rightarrow>
       if do_hold d then Inl OnHold
       else if do_deleted_at d = None then Inl NotDeleted
       else if do_status d = ScPurged then Inr s
       else if do_status d \<noteq> ScDeleted then Inl NotMarkedDeleted
       else if now - doc_day * dv_grace_days env < the (do_deleted_at d) then Inl GraceRunning
       else Inr (s\<lparr>dd_purges := dd_purges s @ [\<lparr>pj_document = k, pj_key = do_key d, pj_locked_at = now,
         pj_destroyed = False\<rparr>]\<rparr>))"

definition hard_delete_store :: "document_db \<Rightarrow> purge_job \<Rightarrow> bool \<Rightarrow> document_error + document_db" where
  "hard_delete_store s j removed =
     (if j \<notin> set (dd_purges s) \<or> pj_destroyed j then Inl NoJob
      else let rest = remove1 j (dd_purges s) in
        if pj_key j = None then Inr (s\<lparr>dd_purges := rest @ [j\<lparr>pj_destroyed := True\<rparr>]\<rparr>)
        else if removed then Inr (erase_object (pj_key j) (s\<lparr>dd_purges := rest @ [j\<lparr>pj_destroyed := True\<rparr>]\<rparr>))
        else Inr (s\<lparr>dd_purges := rest\<rparr>))"

definition hard_delete_commit :: "document_db \<Rightarrow> int \<Rightarrow> purge_job \<Rightarrow> document_error + document_db" where
  "hard_delete_commit s cleared_at j =
     (if j \<notin> set (dd_purges s) \<or> \<not> pj_destroyed j then Inl NoJob
      else let s1 = s\<lparr>dd_purges := remove1 j (dd_purges s)\<rparr>; k = pj_document j in
        case tget (dd_docs s) k of
          None \<Rightarrow> Inr s1
        | Some d \<Rightarrow> if do_status d \<noteq> ScDeleted then Inr s1
            else Inr (doc_event EvPurged (Some k) None None '''' cleared_at
              (put_doc k (d\<lparr>do_key := None, do_status := ScPurged\<rparr>) s1)))"

text \<open>The whole call; a failed deletion of the object ends it without an error.\<close>

definition hard_delete :: "document_env \<Rightarrow> document_db \<Rightarrow> int \<Rightarrow> nat \<Rightarrow> bool \<Rightarrow> document_error + document_db" where
  "hard_delete env s now k removed = (case hard_delete_lock env s now k of
     Inl e \<Rightarrow> Inl e
   | Inr s1 \<Rightarrow>
       if dd_purges s1 = dd_purges s then Inr s1
       else let j = last (dd_purges s1) in
         case hard_delete_store s1 j removed of
           Inl e \<Rightarrow> Inl e
         | Inr s2 \<Rightarrow> if pj_key j \<noteq> None \<and> \<not> removed then Inr s2
             else hard_delete_commit s2 now (j\<lparr>pj_destroyed := True\<rparr>))"

definition mark_purpose_fulfilled :: "document_db \<Rightarrow> int \<Rightarrow> nat \<Rightarrow> nat option \<Rightarrow> document_error + document_db" where
  "mark_purpose_fulfilled s now k actor = (case tget (dd_docs s) k of
     None \<Rightarrow> Inl DocNotFound
   | Some d \<Rightarrow> (case category_of s d of
       None \<Rightarrow> Inl NoCategory
     | Some c \<Rightarrow>
         if \<not> dc_transitory c then Inl NotTransitory
         else if do_hold d then Inl OnHold
         else if do_deleted_at d \<noteq> None then Inl AlreadyDeleted
         else if actor = None then Inl NoActor
         else Inr (doc_event EvDeleted (Some k) actor None ''transitory_purpose_fulfilled'' now
           (put_doc k ((deleted_row now actor ''transitory_purpose_fulfilled'' d)\<lparr>do_expires_at := Some now\<rparr>) s))))"

definition apply_legal_hold :: "document_db \<Rightarrow> int \<Rightarrow> nat \<Rightarrow> doc_user \<Rightarrow> string \<Rightarrow> document_error + document_db" where
  "apply_legal_hold s now k u reason = (case tget (dd_docs s) k of
     None \<Rightarrow> Inl DocNotFound
   | Some d \<Rightarrow>
       if \<not> du_has_perm u ''documents.manage_legal_hold'' then Inl DocDenied
       else if do_hold d then Inl HoldExists
       else Inr (doc_event EvHoldApplied (Some k) (Some (du_pk u)) None reason now
         (put_doc k (d\<lparr>do_hold := True, do_hold_reason := reason, do_hold_by := Some (du_pk u)\<rparr>) s)))"

definition release_legal_hold :: "document_db \<Rightarrow> int \<Rightarrow> nat \<Rightarrow> doc_user \<Rightarrow> string \<Rightarrow> document_error + document_db" where
  "release_legal_hold s now k u reason = (case tget (dd_docs s) k of
     None \<Rightarrow> Inl DocNotFound
   | Some d \<Rightarrow>
       if \<not> du_has_perm u ''documents.manage_legal_hold'' then Inl DocDenied
       else if \<not> do_hold d then Inl NoHold
       else Inr (doc_event EvHoldReleased (Some k) (Some (du_pk u)) None reason now (put_doc k (d\<lparr>do_hold := False\<rparr>) s)))"

section \<open>Download tokens\<close>

definition token_purgeable :: "int \<Rightarrow> access_token \<Rightarrow> bool" where
  "token_purgeable now t \<longleftrightarrow> tk_expires_at t \<le> now \<or> tk_used_at t \<noteq> None"

definition purge_expired_tokens :: "document_db \<Rightarrow> int \<Rightarrow> bool \<Rightarrow> document_db \<times> nat" where
  "purge_expired_tokens s now dry =
     (let n = tcount (token_purgeable now) (dd_tokens s);
        s1 = s\<lparr>dd_tokens := filter (\<lambda>kt. \<not> token_purgeable now (snd kt)) (dd_tokens s)\<rparr>
      in if dry then (s, n)
        else (if 0 < n then doc_event EvTokensPurged None None None (show_nat n) now s1 else s1, n))"

definition masked_ip :: "document_env \<Rightarrow> string option \<Rightarrow> string option" where
  "masked_ip env ip = (case ip of None \<Rightarrow> None | Some x \<Rightarrow> dv_mask_ip env x)"

text \<open>
  Both keep the download when the audit log refuses the entry: \<open>logged\<close> tells whether it took it.
\<close>

definition issue_access_token ::
  "document_env \<Rightarrow> document_db \<Rightarrow> int \<Rightarrow> doc_user \<Rightarrow> nat \<Rightarrow> string option \<Rightarrow> bool \<Rightarrow> document_error + (document_db \<times> nat)" where
  "issue_access_token env s now u k ip logged = (case tget (dd_docs s) k of
     None \<Rightarrow> Inl DocNotFound
   | Some d \<Rightarrow>
       if \<not> user_may_download u d then Inl DocNotFound
       else if do_status d \<noteq> ScActive \<or> do_deleted_at d \<noteq> None then Inl DocNotFound
       else let tk = dd_fresh s;
           token = \<lparr>tk_document = k, tk_issued_to = du_pk u, tk_expires_at = now + dv_token_ttl env,
             tk_used_at = None, tk_ip = masked_ip env ip\<rparr>;
           s1 = s\<lparr>dd_fresh := Suc tk, dd_tokens := tput tk token (dd_tokens s)\<rparr>
         in Inr (if logged then doc_event EvViewed (Some k) (Some (du_pk u)) (Some tk) ''token_issued'' now s1 else s1, tk))"

definition consume_access_token ::
  "document_db \<Rightarrow> int \<Rightarrow> doc_user \<Rightarrow> nat \<Rightarrow> bool \<Rightarrow> document_error + (document_db \<times> nat)" where
  "consume_access_token s now u tk logged = (case tget (dd_tokens s) tk of
     None \<Rightarrow> Inl DocNotFound
   | Some t \<Rightarrow>
       if tk_issued_to t \<noteq> du_pk u then Inl DocNotFound
       else if tk_used_at t \<noteq> None then Inl DocNotFound
       else if tk_expires_at t \<le> now then Inl TokenExpired
       else let s1 = s\<lparr>dd_tokens := tput tk (t\<lparr>tk_used_at := Some now\<rparr>) (dd_tokens s)\<rparr>
         in Inr (if logged then doc_event EvViewed (Some (tk_document t)) (Some (du_pk u)) (Some tk) ''token_redeemed'' now s1
           else s1, tk_document t))"

section \<open>Tasks\<close>

definition stale_upload :: "document_env \<Rightarrow> int \<Rightarrow> document \<Rightarrow> bool" where
  "stale_upload env now d \<longleftrightarrow> do_status d = ScPendingUpload \<and> do_created_at d \<le> now - (dv_post_ttl env + 300)"

text \<open>
  \<open>cleanup_stale_pending_uploads\<close>: objects first, rows second, each row only while it still
  waits for its upload. A row that other rows name as their root is protected: the statement
  fails and the run ends. A storage failure is logged; \<open>reached\<close> tells which keys were deleted.
\<close>

definition purge_objects :: "(storage_key \<Rightarrow> bool) \<Rightarrow> storage_key option list \<Rightarrow> document_db \<Rightarrow> document_db" where
  "purge_objects reached keys s = fold (\<lambda>key t. case key of None \<Rightarrow> t
     | Some x \<Rightarrow> if reached x then erase_object (Some x) t else t) keys s"

definition delete_pending_rows :: "nat list \<Rightarrow> document_db \<Rightarrow> document_error + (document_db \<times> nat)" where
  "delete_pending_rows ks s =
     (let gone = (\<lambda>kd. fst kd \<in> set ks \<and> do_status (snd kd) = ScPendingUpload);
        ids = map fst (filter gone (dd_docs s))
      in if list_ex (\<lambda>kd. \<exists>r \<in> set ids. do_root (snd kd) = Some r) (dd_docs s) then Inl RowProtected
        else Inr (s\<lparr>dd_docs := filter (\<lambda>kd. \<not> gone kd) (dd_docs s)\<rparr>, length ids))"

definition cleanup_chunk :: nat where
  "cleanup_chunk = 500"

function chunks_of :: "nat \<Rightarrow> 'a list \<Rightarrow> 'a list list" where
  "chunks_of n xs = (if xs = [] \<or> n = 0 then [] else take n xs # chunks_of n (drop n xs))"
  by auto
termination by (relation "measure (\<lambda>(n, xs). length xs)") auto

declare chunks_of.simps [simp del]

fun cleanup_chunks :: "(storage_key \<Rightarrow> bool) \<Rightarrow> (nat \<times> storage_key option) list list \<Rightarrow> document_db \<Rightarrow> document_db \<times> nat option" where
  "cleanup_chunks reached [] s = (s, Some 0)"
| "cleanup_chunks reached (ch # chs) s = (let s1 = purge_objects reached (map snd ch) s in
     case delete_pending_rows (map fst ch) s1 of
       Inl e \<Rightarrow> (s1, None)
     | Inr (s2, n) \<Rightarrow> (let (s3, m) = cleanup_chunks reached chs s2 in (s3, map_option (\<lambda>i. n + i) m)))"

definition stale_uploads :: "document_env \<Rightarrow> document_db \<Rightarrow> int \<Rightarrow> (nat \<times> storage_key option) list" where
  "stale_uploads env s now = map (\<lambda>kd. (fst kd, do_key (snd kd))) (filter (\<lambda>kd. stale_upload env now (snd kd)) (dd_docs s))"

definition cleanup_stale_pending_uploads ::
  "document_env \<Rightarrow> document_db \<Rightarrow> int \<Rightarrow> (storage_key \<Rightarrow> bool) \<Rightarrow> document_db \<times> nat option" where
  "cleanup_stale_pending_uploads env s now reached = cleanup_chunks reached (chunks_of cleanup_chunk (stale_uploads env s now)) s"

definition pending_disposal :: "document_env \<Rightarrow> int \<Rightarrow> document \<Rightarrow> bool" where
  "pending_disposal env now d \<longleftrightarrow> (case do_expires_at d of None \<Rightarrow> False | Some e \<Rightarrow> e \<le> now)
     \<and> (case do_retain_until d of None \<Rightarrow> False | Some r \<Rightarrow> r \<le> dv_local_day env now)
     \<and> \<not> do_hold d \<and> do_deleted_at d = None"

record task_summary =
  ts_total :: nat
  ts_done :: nat
  ts_skipped :: nat

fun dispose_all :: "int \<Rightarrow> nat list \<Rightarrow> document_db \<Rightarrow> nat \<Rightarrow> nat \<Rightarrow> document_db \<times> nat \<times> nat" where
  "dispose_all now [] s n m = (s, n, m)"
| "dispose_all now (k # ks) s n m = (case soft_delete s now k None ''retention_expired'' of
     Inl e \<Rightarrow> dispose_all now ks s n (Suc m)
   | Inr s' \<Rightarrow> dispose_all now ks s' (Suc n) m)"

definition run_disposal_schedule :: "document_env \<Rightarrow> document_db \<Rightarrow> int \<Rightarrow> document_db \<times> task_summary" where
  "run_disposal_schedule env s now =
     (let ks = map fst (filter (\<lambda>kd. pending_disposal env now (snd kd)) (dd_docs s));
        (s', n, m) = dispose_all now ks s 0 0
      in (s', \<lparr>ts_total = length ks, ts_done = n, ts_skipped = m\<rparr>))"

text \<open>The query of the task always waits 30 days; the setting is checked again by \<open>hard_delete\<close>.\<close>

definition pending_hard_delete :: "int \<Rightarrow> document \<Rightarrow> bool" where
  "pending_hard_delete now d \<longleftrightarrow> (case do_deleted_at d of None \<Rightarrow> False | Some t \<Rightarrow> t \<le> now - doc_day * 30)
     \<and> do_status d = ScDeleted \<and> \<not> do_hold d"

fun destroy_all :: "document_env \<Rightarrow> int \<Rightarrow> (nat \<Rightarrow> bool) \<Rightarrow> nat list \<Rightarrow> document_db \<Rightarrow> nat \<Rightarrow> nat \<Rightarrow> document_db \<times> nat \<times> nat" where
  "destroy_all env now removed [] s n m = (s, n, m)"
| "destroy_all env now removed (k # ks) s n m = (case hard_delete env s now k (removed k) of
     Inl e \<Rightarrow> destroy_all env now removed ks s n (Suc m)
   | Inr s' \<Rightarrow> destroy_all env now removed ks s' (Suc n) m)"

definition run_hard_delete_schedule ::
  "document_env \<Rightarrow> document_db \<Rightarrow> int \<Rightarrow> (nat \<Rightarrow> bool) \<Rightarrow> document_db \<times> task_summary" where
  "run_hard_delete_schedule env s now removed =
     (let ks = map fst (filter (\<lambda>kd. pending_hard_delete now (snd kd)) (dd_docs s));
        (s', n, m) = destroy_all env now removed ks s 0 0
      in (s', \<lparr>ts_total = length ks, ts_done = n, ts_skipped = m\<rparr>))"

text \<open>The documents whose uploaders are told that they expire, with the days the mail names.\<close>

definition expiring_documents :: "document_env \<Rightarrow> document_db \<Rightarrow> int \<Rightarrow> int \<Rightarrow> (nat \<times> nat \<times> int) list" where
  "expiring_documents env s now days =
     map (\<lambda>kd. (fst kd, do_uploaded_by (snd kd),
         max 0 (dv_local_day env (the (do_expires_at (snd kd))) - dv_local_day env now)))
       (filter (\<lambda>kd. let d = snd kd in do_status d = ScActive \<and> do_deleted_at d = None \<and> \<not> do_hold d \<and> do_latest d
         \<and> (case do_expires_at d of None \<Rightarrow> False | Some e \<Rightarrow> now \<le> e \<and> e \<le> now + doc_day * days)) (dd_docs s))"

section \<open>Runs\<close>

text \<open>
  The clean-up is split where it leaves the database: the snapshot goes into \<open>dd_stale\<close>, the
  objects and the rows are steps of their own.
\<close>

definition sweep_snapshot :: "document_env \<Rightarrow> document_db \<Rightarrow> int \<Rightarrow> document_db" where
  "sweep_snapshot env s now = s\<lparr>dd_stale := stale_uploads env s now\<rparr>"

definition sweep_objects :: "document_db \<Rightarrow> document_db" where
  "sweep_objects s = purge_objects (\<lambda>_. True) (map snd (dd_stale s)) s"

definition sweep_rows :: "document_db \<Rightarrow> document_error + document_db" where
  "sweep_rows s = (case delete_pending_rows (map fst (dd_stale s)) s of
     Inl e \<Rightarrow> Inl e | Inr (s', n) \<Rightarrow> Inr (s'\<lparr>dd_stale := []\<rparr>))"

datatype document_op =
    DoUpload int doc_user string string string int bool
  | DoPost int storage_key string
  | DoConfirm int doc_user nat
  | DoScan int nat bool
  | DoVerdict int nat string bool bool
  | DoScanFailed int nat string
  | DoVersion int doc_user nat string string int string bool
  | DoSoftDelete int nat "nat option" string
  | DoFulfil int nat "nat option"
  | DoHold int nat doc_user string
  | DoRelease int nat doc_user string
  | DoLockPurge int nat
  | DoDestroy purge_job bool
  | DoCommitPurge int purge_job
  | DoSweep int
  | DoSweepObjects
  | DoSweepRows
  | DoIssue int doc_user nat "string option" bool
  | DoConsume int doc_user nat bool
  | DoPurgeTokens int

fun document_step :: "document_env \<Rightarrow> document_db \<Rightarrow> document_op \<Rightarrow> document_error + document_db" where
  "document_step env s (DoUpload now u slug filename mime sz presigned) =
     map_sum id fst (validate_upload_request env s now u slug filename mime sz presigned)"
| "document_step env s (DoPost now key bytes) = browser_post env s now key bytes"
| "document_step env s (DoConfirm now u k) = confirm_upload env s now u k"
| "document_step env s (DoScan now k removed) = scan_document env s now k removed"
| "document_step env s (DoVerdict now k verdict copied removed) = record_verdict s now k verdict copied removed"
| "document_step env s (DoScanFailed now k exc) = Inr (quarantine_on_scan_failure s now k exc)"
| "document_step env s (DoVersion now u k filename mime sz description presigned) =
     map_sum id fst (create_new_version env s now u k filename mime sz description presigned)"
| "document_step env s (DoSoftDelete now k actor reason) = soft_delete s now k actor reason"
| "document_step env s (DoFulfil now k actor) = mark_purpose_fulfilled s now k actor"
| "document_step env s (DoHold now k u reason) = apply_legal_hold s now k u reason"
| "document_step env s (DoRelease now k u reason) = release_legal_hold s now k u reason"
| "document_step env s (DoLockPurge now k) = hard_delete_lock env s now k"
| "document_step env s (DoDestroy j removed) = hard_delete_store s j removed"
| "document_step env s (DoCommitPurge now j) = hard_delete_commit s now j"
| "document_step env s (DoSweep now) = Inr (sweep_snapshot env s now)"
| "document_step env s DoSweepObjects = Inr (sweep_objects s)"
| "document_step env s DoSweepRows = sweep_rows s"
| "document_step env s (DoIssue now u k ip logged) = map_sum id fst (issue_access_token env s now u k ip logged)"
| "document_step env s (DoConsume now u tk logged) = map_sum id fst (consume_access_token s now u tk logged)"
| "document_step env s (DoPurgeTokens now) = Inr (fst (purge_expired_tokens s now False))"

end
