(* ===== verification/DocumentInv.thy ===== *)
theory DocumentInv
  imports Documents
begin

text \<open>
  What a service call can do to the tables, as a relation with one rule per kind of effect, and
  the invariants of documents, versions and tokens, each proved once per effect.
\<close>

section \<open>Histories\<close>

text \<open>The life of a document as its audit entries tell it.\<close>

definition lifecycle_types :: "document_event_type list" where
  "lifecycle_types = [EvCreated, EvStatusChanged, EvThreat, EvDeleted, EvPurged]"

definition lifecycle :: "document_event \<Rightarrow> bool" where
  "lifecycle e \<longleftrightarrow> de_type e \<in> set lifecycle_types"

fun next_status :: "scan_status \<Rightarrow> document_event_type \<Rightarrow> string \<Rightarrow> scan_status option" where
  "next_status ScPendingUpload EvCreated note = Some (if note = ''version'' then ScPendingUpload else ScScanning)"
| "next_status ScScanning EvStatusChanged note = Some ScActive"
| "next_status ScScanning EvThreat note = Some ScQuarantined"
| "next_status ScPendingUpload EvDeleted note = Some ScDeleted"
| "next_status ScScanning EvDeleted note = Some ScDeleted"
| "next_status ScActive EvDeleted note = Some ScDeleted"
| "next_status ScQuarantined EvDeleted note = Some ScDeleted"
| "next_status ScDeleted EvPurged note = Some ScPurged"
| "next_status st ty note = None"

definition document_history :: "document_db \<Rightarrow> nat \<Rightarrow> document_event list" where
  "document_history s k = filter (\<lambda>e. lifecycle e \<and> de_document e = Some k) (dd_audit s)"

definition replay :: "document_event list \<Rightarrow> scan_status option" where
  "replay es = foldl (\<lambda>st e. Option.bind st (\<lambda>x. next_status x (de_type e) (de_note e))) (Some ScPendingUpload) es"

lemma replay_Nil [simp]: "replay [] = Some ScPendingUpload"
  by (simp add: replay_def)

lemma replay_snoc [simp]: "replay (es @ [e]) = Option.bind (replay es) (\<lambda>x. next_status x (de_type e) (de_note e))"
  by (simp add: replay_def)

lemma next_status_deleted:
  "next_status st EvDeleted note = (if st \<in> {ScDeleted, ScPurged} then None else Some ScDeleted)"
  by (cases st) auto

lemma history_append:
  "document_history (s\<lparr>dd_audit := dd_audit s @ [e]\<rparr>) k
    = document_history s k @ (if lifecycle e \<and> de_document e = Some k then [e] else [])"
  by (simp add: document_history_def)

section \<open>Effects\<close>

definition same_version :: "document \<Rightarrow> document \<Rightarrow> bool" where
  "same_version d d' \<longleftrightarrow> do_root d' = do_root d \<and> do_version d' = do_version d \<and> do_latest d' = do_latest d"

definition key_owner :: "document \<Rightarrow> nat option" where
  "key_owner d = map_option (\<lambda>x. fst (snd x)) (do_key d)"

text \<open>A destruction keeps what it read under its lock.\<close>

definition jobs_from :: "purge_job list \<Rightarrow> purge_job list \<Rightarrow> bool" where
  "jobs_from js js' \<longleftrightarrow> (\<forall>j' \<in> set js'. \<exists>j \<in> set js. pj_document j' = pj_document j \<and> pj_key j' = pj_key j
     \<and> pj_locked_at j' = pj_locked_at j)"

lemma jobs_from_refl [simp]: "jobs_from js js"
  by (auto simp: jobs_from_def)

lemma jobs_from_subset: "set js' \<subseteq> set js \<Longrightarrow> jobs_from js js'"
  by (auto simp: jobs_from_def)

definition new_row :: "nat \<Rightarrow> document \<Rightarrow> bool" where
  "new_row k d \<longleftrightarrow> do_status d = ScPendingUpload \<and> key_owner d = Some k \<and> do_deleted_at d = None \<and> do_latest d"

text \<open>What an audit entry says of the row it comes with.\<close>

definition row_event :: "purge_job list \<Rightarrow> nat \<Rightarrow> document \<Rightarrow> document \<Rightarrow> document_event \<Rightarrow> bool" where
  "row_event js k d d' e \<longleftrightarrow> same_version d d' \<and> de_document e = Some k \<and> de_token e = None \<and> de_type e \<noteq> EvViewed
     \<and> (key_owner d' = key_owner d \<or> do_key d' = None)
     \<and> (if lifecycle e then next_status (do_status d) (de_type e) (de_note e) = Some (do_status d')
        else do_status d' = do_status d)
     \<and> (if de_type e = EvDeleted then do_deleted_at d' = Some (de_time e) else do_deleted_at d' = do_deleted_at d)
     \<and> (do_status d' = ScActive \<longrightarrow> do_status d = ScActive \<and> do_scan_result d' = do_scan_result d \<or> do_scan_result d' = ''OK'')
     \<and> (de_type e = EvPurged \<longrightarrow> do_key d' = None \<and> (\<exists>j \<in> set js. pj_document j = k \<and> pj_locked_at j \<le> de_time e))"

inductive doc_effect :: "document_env \<Rightarrow> document_db \<Rightarrow> document_db \<Rightarrow> bool" for env where
  Idle: "dd_docs s' = dd_docs s \<Longrightarrow> dd_tokens s' = dd_tokens s \<Longrightarrow> dd_audit s' = dd_audit s
    \<Longrightarrow> dd_fresh s' = dd_fresh s \<Longrightarrow> jobs_from (dd_purges s) (dd_purges s') \<Longrightarrow> doc_effect env s s'"
| Row: "tget (dd_docs s) k = Some d \<Longrightarrow> dd_docs s' = tput k d' (dd_docs s) \<Longrightarrow> row_event (dd_purges s) k d d' e
    \<Longrightarrow> dd_audit s' = dd_audit s @ [e] \<Longrightarrow> dd_tokens s' = dd_tokens s \<Longrightarrow> dd_fresh s' = dd_fresh s
    \<Longrightarrow> jobs_from (dd_purges s) (dd_purges s') \<Longrightarrow> doc_effect env s s'"
| Upload: "k = dd_fresh s \<Longrightarrow> dd_docs s' = tput k d (dd_docs s) \<Longrightarrow> new_row k d \<Longrightarrow> do_root d = None \<Longrightarrow> do_version d = 1
    \<Longrightarrow> dd_audit s' = dd_audit s \<Longrightarrow> dd_tokens s' = dd_tokens s \<Longrightarrow> dd_fresh s' = Suc (Suc k)
    \<Longrightarrow> dd_purges s' = dd_purges s \<Longrightarrow> doc_effect env s s'"
| Version: "v = dd_fresh s \<Longrightarrow> tget (dd_docs s) rk = Some rt \<Longrightarrow> do_root rt = None
    \<Longrightarrow> current_latest (filter (in_chain rk) (dd_docs s)) = Some (lk, ld)
    \<Longrightarrow> dd_docs s' = tput v n (tput lk (ld\<lparr>do_latest := False\<rparr>) (dd_docs s)) \<Longrightarrow> new_row v n
    \<Longrightarrow> do_root n = Some rk \<Longrightarrow> do_version n = Suc (do_version ld)
    \<Longrightarrow> de_type e = EvCreated \<Longrightarrow> de_note e = ''version'' \<Longrightarrow> de_document e = Some v \<Longrightarrow> de_token e = None
    \<Longrightarrow> dd_audit s' = dd_audit s @ [e] \<Longrightarrow> dd_tokens s' = dd_tokens s \<Longrightarrow> dd_fresh s' = Suc (Suc v)
    \<Longrightarrow> dd_purges s' = dd_purges s \<Longrightarrow> doc_effect env s s'"
| Remove: "dd_docs s' = filter (\<lambda>kd. \<not> (gone (fst kd) \<and> do_status (snd kd) = ScPendingUpload)) (dd_docs s)
    \<Longrightarrow> (\<And>k d r. tget (dd_docs s) k = Some d \<Longrightarrow> do_root d = Some r \<Longrightarrow> tget (dd_docs s) r \<noteq> None \<Longrightarrow> tget (dd_docs s') r \<noteq> None)
    \<Longrightarrow> dd_audit s' = dd_audit s \<Longrightarrow> dd_tokens s' = dd_tokens s \<Longrightarrow> dd_fresh s' = dd_fresh s
    \<Longrightarrow> dd_purges s' = dd_purges s \<Longrightarrow> doc_effect env s s'"
| Lock: "tget (dd_docs s) (pj_document j) = Some d \<Longrightarrow> do_status d = ScDeleted \<Longrightarrow> do_deleted_at d = Some t
    \<Longrightarrow> \<not> do_hold d \<Longrightarrow> t + doc_day * dv_grace_days env \<le> pj_locked_at j \<Longrightarrow> pj_key j = do_key d
    \<Longrightarrow> dd_purges s' = dd_purges s @ [j] \<Longrightarrow> dd_docs s' = dd_docs s \<Longrightarrow> dd_tokens s' = dd_tokens s
    \<Longrightarrow> dd_audit s' = dd_audit s \<Longrightarrow> dd_fresh s' = dd_fresh s \<Longrightarrow> doc_effect env s s'"
| Issue: "tk = dd_fresh s \<Longrightarrow> dd_tokens s' = tput tk t (dd_tokens s) \<Longrightarrow> tk_used_at t = None
    \<Longrightarrow> de_type e = EvViewed \<Longrightarrow> de_note e = ''token_issued'' \<Longrightarrow> de_token e = Some tk
    \<Longrightarrow> de_actor e = Some (tk_issued_to t) \<Longrightarrow> de_document e = Some (tk_document t)
    \<Longrightarrow> tk_expires_at t = de_time e + dv_token_ttl env \<Longrightarrow> tk_document t < dd_fresh s
    \<Longrightarrow> dd_audit s' = dd_audit s @ [e] \<Longrightarrow> dd_docs s' = dd_docs s \<Longrightarrow> dd_fresh s' = Suc tk
    \<Longrightarrow> dd_purges s' = dd_purges s \<Longrightarrow> doc_effect env s s'"
| Redeem: "tget (dd_tokens s) tk = Some t \<Longrightarrow> tk_used_at t = None \<Longrightarrow> de_time e < tk_expires_at t
    \<Longrightarrow> dd_tokens s' = tput tk (t\<lparr>tk_used_at := Some (de_time e)\<rparr>) (dd_tokens s)
    \<Longrightarrow> de_type e = EvViewed \<Longrightarrow> de_note e = ''token_redeemed'' \<Longrightarrow> de_token e = Some tk
    \<Longrightarrow> de_actor e = Some (tk_issued_to t) \<Longrightarrow> de_document e = Some (tk_document t)
    \<Longrightarrow> dd_audit s' = dd_audit s @ [e] \<Longrightarrow> dd_docs s' = dd_docs s \<Longrightarrow> dd_fresh s' = dd_fresh s
    \<Longrightarrow> dd_purges s' = dd_purges s \<Longrightarrow> doc_effect env s s'"
| Expire: "dd_tokens s' = filter (\<lambda>kt. \<not> P (snd kt)) (dd_tokens s)
    \<Longrightarrow> dd_audit s' = dd_audit s \<or> (\<exists>e. dd_audit s' = dd_audit s @ [e] \<and> de_type e = EvTokensPurged
          \<and> de_document e = None \<and> de_token e = None)
    \<Longrightarrow> dd_docs s' = dd_docs s \<Longrightarrow> dd_fresh s' = dd_fresh s \<Longrightarrow> dd_purges s' = dd_purges s \<Longrightarrow> doc_effect env s s'"

section \<open>Every service has one of the effects\<close>

text \<open>
  A destruction is committed after it was locked: clocks do not go back. The audit log takes the
  entries of downloads.
\<close>

fun document_owed :: "document_db \<Rightarrow> document_op \<Rightarrow> bool" where
  "document_owed s (DoCommitPurge now j) = (pj_locked_at j \<le> now)"
| "document_owed s (DoIssue now u k ip logged) = logged"
| "document_owed s (DoConsume now u tk logged) = logged"
| "document_owed s x = True"

definition rows_sound :: "document_db \<Rightarrow> bool" where
  "rows_sound s \<longleftrightarrow> (\<forall>k d. tget (dd_docs s) k = Some d \<longrightarrow> k < dd_fresh s
     \<and> (do_status d = ScPurged \<longrightarrow> do_key d = None)
     \<and> (do_deleted_at d = None \<longleftrightarrow> do_status d \<notin> {ScDeleted, ScPurged}))"

lemma rows_soundD:
  assumes "rows_sound s" "tget (dd_docs s) k = Some d"
  shows "k < dd_fresh s" "do_status d = ScPurged \<Longrightarrow> do_key d = None"
    "do_deleted_at d = None \<longleftrightarrow> do_status d \<notin> {ScDeleted, ScPurged}"
  using assms by (auto simp: rows_sound_def)

lemmas row_simps = row_event_def same_version_def key_owner_def lifecycle_def lifecycle_types_def doc_event_def put_doc_def

lemma erase_object_rows [simp]:
  "dd_docs (erase_object key s) = dd_docs s" "dd_tokens (erase_object key s) = dd_tokens s"
  "dd_audit (erase_object key s) = dd_audit s" "dd_fresh (erase_object key s) = dd_fresh s"
  "dd_purges (erase_object key s) = dd_purges s" "dd_posts (erase_object key s) = dd_posts s"
  "dd_categories (erase_object key s) = dd_categories s" "dd_verdicts (erase_object key s) = dd_verdicts s"
  "dd_stale (erase_object key s) = dd_stale s"
  by (simp_all add: erase_object_def split: option.splits)

lemma purge_objects_rows [simp]:
  "dd_docs (purge_objects r keys s) = dd_docs s" "dd_tokens (purge_objects r keys s) = dd_tokens s"
  "dd_audit (purge_objects r keys s) = dd_audit s" "dd_fresh (purge_objects r keys s) = dd_fresh s"
  "dd_purges (purge_objects r keys s) = dd_purges s" "dd_stale (purge_objects r keys s) = dd_stale s"
  unfolding purge_objects_def by (induction keys arbitrary: s) (simp_all split: option.splits)

lemma upload_effect:
  assumes "validate_upload_request env s now u slug filename mime sz presigned = Inr (s', k)"
  shows "doc_effect env s s'"
proof -
  from assms obtain ck c where
    s': "s' = (put_doc (dd_fresh s) (schedule_expiry env c (new_document now u ck c filename mime sz
        (make_storage_key (dd_fresh s) (Suc (dd_fresh s))))) s)\<lparr>dd_fresh := Suc (Suc (dd_fresh s)),
        dd_posts := dd_posts s @ [generate_presigned_post env now c (dd_fresh s)
          (make_storage_key (dd_fresh s) (Suc (dd_fresh s))) (max_upload_size env u c)]\<rparr>"
    by (auto simp: validate_upload_request_def Let_def split: option.splits prod.splits if_splits)
  show ?thesis
    by (rule doc_effect.Upload [OF refl])
      (auto simp: s' put_doc_def new_row_def key_owner_def schedule_expiry_def new_document_def make_storage_key_def)
qed

lemma version_effect:
  assumes "create_new_version env s now u k filename mime sz description presigned = Inr (s', v)"
  shows "doc_effect env s s'"
proof -
  from assms obtain d rk rt lk ld n where facts: "tget (dd_docs s) rk = Some rt" "do_root rt = None"
    "current_latest (filter (in_chain rk) (dd_docs s)) = Some (lk, ld)"
    and s': "dd_docs s' = tput (dd_fresh s) n (tput lk (ld\<lparr>do_latest := False\<rparr>) (dd_docs s))"
      "dd_audit s' = dd_audit s @ [\<lparr>de_type = EvCreated, de_document = Some (dd_fresh s), de_actor = Some (du_pk u),
         de_token = None, de_note = ''version'', de_time = now\<rparr>]"
      "dd_fresh s' = Suc (Suc (dd_fresh s))" "dd_tokens s' = dd_tokens s" "dd_purges s' = dd_purges s"
    and n: "new_row (dd_fresh s) n" "do_root n = Some rk" "do_version n = Suc (do_version ld)"
    by (auto simp: create_new_version_def Let_def doc_event_def put_doc_def new_row_def key_owner_def
        schedule_expiry_def new_document_def make_storage_key_def split: option.splits prod.splits if_splits)
  show ?thesis
    by (rule doc_effect.Version [OF refl facts s'(1) n(1-3) _ _ _ _ s'(2)]) (simp_all add: s')
qed

lemma confirm_effect:
  assumes rows: "rows_sound s" and "confirm_upload env s now u k = Inr s'"
  shows "doc_effect env s s'"
proof (cases "s' = s")
  case True
  then show ?thesis by (simp add: doc_effect.Idle)
next
  case False
  with assms(2) obtain d mime where d: "tget (dd_docs s) k = Some d" "do_status d \<notin> {ScScanning, ScActive, ScQuarantined, ScDeleted}"
    "do_key d \<noteq> None"
    and s': "s' = (doc_event EvCreated (Some k) (Some (du_pk u)) None ''confirmed'' now
      (put_doc k (d\<lparr>do_status := ScScanning, do_mime := mime\<rparr>) s))\<lparr>dd_scan_queue := dd_scan_queue s @ [k]\<rparr>"
    by (auto simp: confirm_upload_def stored_def split: option.splits if_splits sum.splits)
  have "do_status d = ScPendingUpload"
    using d(2,3) rows_soundD(2) [OF rows d(1)] by (cases "do_status d") auto
  then show ?thesis
    by (intro doc_effect.Row [OF d(1), of s' "d\<lparr>do_status := ScScanning, do_mime := mime\<rparr>"])
      (auto simp: s' row_simps)
qed

lemma active_effect:
  assumes "mark_active_clamav s now k copied removed = Inr s'"
  shows "doc_effect env s s'"
proof (cases "s' = s")
  case True
  then show ?thesis by (simp add: doc_effect.Idle)
next
  case False
  with assms obtain d moved where d: "tget (dd_docs s) k = Some d" "do_status d = ScScanning"
    and moved: "promote_object s (do_key d) copied = Inr moved"
    by (auto simp: mark_active_clamav_def split: option.splits if_splits sum.splits)
  define key where "key = (case moved of None \<Rightarrow> do_key d | Some (new, t) \<Rightarrow> Some new)"
  have own: "map_option (\<lambda>x. fst (snd x)) key = key_owner d"
    using moved by (auto simp: promote_object_def promoted_key_def key_def key_owner_def
        split: option.splits if_splits storage_prefix.splits)
  have rows: "dd_docs t = dd_docs s \<and> dd_tokens t = dd_tokens s \<and> dd_audit t = dd_audit s
      \<and> dd_fresh t = dd_fresh s \<and> dd_purges t = dd_purges s" if "moved = Some (new, t)" for new t
    using moved that by (auto simp: promote_object_def split: option.splits if_splits)
  let ?d = "d\<lparr>do_status := ScActive, do_scanned_at := Some now, do_scan_result := ''OK'', do_key := key\<rparr>"
  let ?e = "\<lparr>de_type = EvStatusChanged, de_document = Some k, de_actor = None, de_token = None, de_note = ''OK'', de_time = now\<rparr>"
  have s': "dd_docs s' = tput k ?d (dd_docs s)" "dd_audit s' = dd_audit s @ [?e]" "dd_tokens s' = dd_tokens s"
    "dd_fresh s' = dd_fresh s" "dd_purges s' = dd_purges s"
    using assms d moved rows
    by (auto simp: mark_active_clamav_def Let_def doc_event_def put_doc_def key_def split: option.splits prod.splits)
  show ?thesis
    by (rule doc_effect.Row [OF d(1) s'(1) _ s'(2-4)]) (insert own, auto simp: s'(5) row_simps d(2))
qed

lemma quarantine_effect:
  assumes "tget (dd_docs s) k = Some d" "do_status d = ScScanning"
    and "dd_docs s' = dd_docs (quarantine_row s now k d result)" "dd_audit s' = dd_audit (quarantine_row s now k d result)"
    "dd_tokens s' = dd_tokens s" "dd_fresh s' = dd_fresh s" "dd_purges s' = dd_purges s"
  shows "doc_effect env s s'"
  by (rule doc_effect.Row [OF assms(1), of s'
        "d\<lparr>do_status := ScQuarantined, do_scanned_at := Some now, do_scan_result := result\<rparr>"])
    (auto simp: assms quarantine_row_def row_simps)

lemma mark_quarantined_effect: "doc_effect env s (mark_quarantined_clamav s now k virus removed)"
proof (cases "\<exists>d. tget (dd_docs s) k = Some d \<and> do_status d = ScScanning")
  case True
  then obtain d where d: "tget (dd_docs s) k = Some d" "do_status d = ScScanning" by blast
  show ?thesis
    by (rule quarantine_effect [OF d, of _ now "''FOUND: '' @ virus"])
      (simp_all add: mark_quarantined_clamav_def d Let_def quarantine_row_def doc_event_def put_doc_def)
next
  case False
  then have "mark_quarantined_clamav s now k virus removed = s"
    by (auto simp: mark_quarantined_clamav_def split: option.splits)
  then show ?thesis by (simp add: doc_effect.Idle)
qed

lemma scan_failure_effect: "doc_effect env s (quarantine_on_scan_failure s now k exc)"
proof (cases "\<exists>d. tget (dd_docs s) k = Some d \<and> do_status d = ScScanning")
  case True
  then obtain d where d: "tget (dd_docs s) k = Some d" "do_status d = ScScanning" by blast
  show ?thesis
    by (rule quarantine_effect [OF d, of _ now "''SCAN_FAILURE:'' @ exc"])
      (simp_all add: quarantine_on_scan_failure_def d quarantine_row_def doc_event_def put_doc_def)
next
  case False
  then have "quarantine_on_scan_failure s now k exc = s"
    by (auto simp: quarantine_on_scan_failure_def split: option.splits)
  then show ?thesis by (simp add: doc_effect.Idle)
qed

lemma scan_effect:
  assumes "dv_scanner env" "scan_document env s now k removed = Inr s'"
  shows "doc_effect env s s'"
proof -
  from assms have "s' = s \<or> s' = mark_quarantined_clamav s now k ''STORAGE_ERROR:_StorageReadError'' removed
      \<or> (\<exists>v. s' = s\<lparr>dd_verdicts := dd_verdicts s @ [(k, v)]\<rparr>)"
    by (auto simp: scan_document_def split: option.splits if_splits clam_answer.splits)
  then show ?thesis
    by (auto intro: doc_effect.Idle mark_quarantined_effect)
qed

lemma effect_verdicts:
  assumes "doc_effect env (s\<lparr>dd_verdicts := v\<rparr>) t"
  shows "doc_effect env s t"
  using assms
proof cases
  case Idle
  then show ?thesis by (intro doc_effect.Idle) simp_all
next
  case (Row k d d' e)
  then show ?thesis by (intro doc_effect.Row [of s k d t d' e]) simp_all
next
  case (Upload k d)
  then show ?thesis by (intro doc_effect.Upload [of k s t d]) simp_all
next
  case (Version v rk rt lk ld n e)
  then show ?thesis by (intro doc_effect.Version [of v s rk rt lk ld t n e]) simp_all
next
  case (Remove gone)
  show ?thesis by (rule doc_effect.Remove [of t gone s]) (use Remove in simp_all)
next
  case (Lock j d u)
  then show ?thesis by (intro doc_effect.Lock [of s j d u env t]) simp_all
next
  case (Issue tk u e)
  then show ?thesis by (intro doc_effect.Issue [of tk s t u e env]) simp_all
next
  case (Redeem tk u e)
  then show ?thesis by (intro doc_effect.Redeem [of s tk u e t]) simp_all
next
  case (Expire P)
  then show ?thesis by (intro doc_effect.Expire [of t P s]) simp_all
qed

lemma verdict_effect:
  assumes "record_verdict s now k verdict copied removed = Inr s'"
  shows "doc_effect env s s'"
proof -
  let ?s1 = "s\<lparr>dd_verdicts := remove1 (k, verdict) (dd_verdicts s)\<rparr>"
  show ?thesis
  proof (cases "verdict = ''OK''")
    case False
    with assms have "s' = mark_quarantined_clamav ?s1 now k verdict removed"
      by (simp add: record_verdict_def split: if_splits)
    then show ?thesis using effect_verdicts [OF mark_quarantined_effect] by simp
  next
    case True
    with assms have s': "s' = commit ?s1 (mark_active_clamav ?s1 now k copied removed)"
      by (simp add: record_verdict_def Let_def split: if_splits)
    show ?thesis
    proof (cases "mark_active_clamav ?s1 now k copied removed")
      case (Inl e)
      then show ?thesis using s' by (simp add: doc_effect.Idle)
    next
      case (Inr t)
      from effect_verdicts [OF active_effect [OF Inr]] show ?thesis using Inr s' by simp
    qed
  qed
qed

lemma soft_delete_effect:
  assumes rows: "rows_sound s" and run: "soft_delete s now k actor reason = Inr s'"
  shows "doc_effect env s s'"
proof -
  from run obtain d why where d: "tget (dd_docs s) k = Some d" "do_deleted_at d = None"
    and s': "s' = doc_event EvDeleted (Some k) actor None why now (put_doc k (deleted_row now actor reason d) s)"
    by (auto simp: soft_delete_def split: option.splits if_splits)
  have "do_status d \<notin> {ScDeleted, ScPurged}" using rows_soundD(3) [OF rows d(1)] d(2) by simp
  then show ?thesis
    by (intro doc_effect.Row [OF d(1), of s' "deleted_row now actor reason d"])
      (auto simp: s' row_simps deleted_row_def next_status_deleted)
qed

lemma fulfil_effect:
  assumes rows: "rows_sound s" and run: "mark_purpose_fulfilled s now k actor = Inr s'"
  shows "doc_effect env s s'"
proof -
  let ?d = "\<lambda>d. (deleted_row now actor ''transitory_purpose_fulfilled'' d)\<lparr>do_expires_at := Some now\<rparr>"
  from run obtain d where d: "tget (dd_docs s) k = Some d" "do_deleted_at d = None"
    and s': "s' = doc_event EvDeleted (Some k) actor None ''transitory_purpose_fulfilled'' now (put_doc k (?d d) s)"
    by (auto simp: mark_purpose_fulfilled_def split: option.splits if_splits)
  have "do_status d \<notin> {ScDeleted, ScPurged}" using rows_soundD(3) [OF rows d(1)] d(2) by simp
  then show ?thesis
    by (intro doc_effect.Row [OF d(1), of s' "?d d"])
      (auto simp: s' row_simps deleted_row_def next_status_deleted)
qed

lemma hold_effect:
  assumes "apply_legal_hold s now k u reason = Inr s'"
  shows "doc_effect env s s'"
proof -
  let ?d = "\<lambda>d. d\<lparr>do_hold := True, do_hold_reason := reason, do_hold_by := Some (du_pk u)\<rparr>"
  from assms obtain d where d: "tget (dd_docs s) k = Some d"
    and s': "s' = doc_event EvHoldApplied (Some k) (Some (du_pk u)) None reason now (put_doc k (?d d) s)"
    by (auto simp: apply_legal_hold_def split: option.splits if_splits)
  show ?thesis by (intro doc_effect.Row [OF d, of s' "?d d"]) (auto simp: s' row_simps)
qed

lemma release_effect:
  assumes "release_legal_hold s now k u reason = Inr s'"
  shows "doc_effect env s s'"
proof -
  from assms obtain d where d: "tget (dd_docs s) k = Some d"
    and s': "s' = doc_event EvHoldReleased (Some k) (Some (du_pk u)) None reason now (put_doc k (d\<lparr>do_hold := False\<rparr>) s)"
    by (auto simp: release_legal_hold_def split: option.splits if_splits)
  show ?thesis by (intro doc_effect.Row [OF d, of s' "d\<lparr>do_hold := False\<rparr>"]) (auto simp: s' row_simps)
qed

lemma lock_effect:
  assumes "hard_delete_lock env s now k = Inr s'"
  shows "doc_effect env s s'"
proof (cases "s' = s")
  case True
  then show ?thesis by (simp add: doc_effect.Idle)
next
  case False
  with assms obtain d t where d: "tget (dd_docs s) k = Some d" "do_status d = ScDeleted" "do_deleted_at d = Some t"
      "\<not> do_hold d" "t + doc_day * dv_grace_days env \<le> now"
    and s': "s' = s\<lparr>dd_purges := dd_purges s @ [\<lparr>pj_document = k, pj_key = do_key d, pj_locked_at = now,
      pj_destroyed = False\<rparr>]\<rparr>"
    by (auto simp: hard_delete_lock_def split: option.splits if_splits)
  let ?j = "\<lparr>pj_document = k, pj_key = do_key d, pj_locked_at = now, pj_destroyed = False\<rparr>"
  show ?thesis
    by (rule doc_effect.Lock [of s ?j d t]) (simp_all add: s' d)
qed

lemma destroy_effect:
  assumes "hard_delete_store s j removed = Inr s'"
  shows "doc_effect env s s'"
proof -
  from assms have j: "j \<in> set (dd_purges s)"
    and s': "dd_docs s' = dd_docs s" "dd_tokens s' = dd_tokens s" "dd_audit s' = dd_audit s" "dd_fresh s' = dd_fresh s"
      "set (dd_purges s') \<subseteq> insert (j\<lparr>pj_destroyed := True\<rparr>) (set (dd_purges s))"
    using set_remove1_subset [of j "dd_purges s"]
    by (auto simp: hard_delete_store_def Let_def split: if_splits)
  have "jobs_from (dd_purges s) (dd_purges s')"
    unfolding jobs_from_def using j s'(5) by fastforce
  with s' show ?thesis by (intro doc_effect.Idle)
qed

lemma commit_effect:
  assumes owed: "pj_locked_at j \<le> now" and run: "hard_delete_commit s now j = Inr s'"
  shows "doc_effect env s s'"
proof -
  let ?s1 = "s\<lparr>dd_purges := remove1 j (dd_purges s)\<rparr>"
  from run have j: "j \<in> set (dd_purges s)" by (auto simp: hard_delete_commit_def split: if_splits)
  have jobs: "jobs_from (dd_purges s) (remove1 j (dd_purges s))"
    by (rule jobs_from_subset [OF set_remove1_subset])
  from run consider "s' = ?s1"
    | d where "tget (dd_docs s) (pj_document j) = Some d" "do_status d = ScDeleted"
      "s' = doc_event EvPurged (Some (pj_document j)) None None '''' now
         (put_doc (pj_document j) (d\<lparr>do_key := None, do_status := ScPurged\<rparr>) ?s1)"
    by (auto simp: hard_delete_commit_def Let_def split: option.splits if_splits)
  then show ?thesis
  proof cases
    case 1
    then show ?thesis using jobs by (intro doc_effect.Idle) auto
  next
    case (2 d)
    show ?thesis
      by (rule doc_effect.Row [OF 2(1), of s' "d\<lparr>do_key := None, do_status := ScPurged\<rparr>"])
        (use j jobs owed in \<open>auto simp: 2(2,3) row_simps\<close>)
  qed
qed

lemma sweep_rows_effect:
  assumes ok: "tok (dd_docs s)" and run: "sweep_rows s = Inr s'"
  shows "doc_effect env s s'"
proof -
  let ?ks = "set (map fst (dd_stale s))"
  let ?gone = "\<lambda>kd. fst kd \<in> ?ks \<and> do_status (snd kd) = ScPendingUpload"
  let ?ids = "map fst (filter ?gone (dd_docs s))"
  have free: "\<not> list_ex (\<lambda>kd. \<exists>r \<in> set ?ids. do_root (snd kd) = Some r) (dd_docs s)"
  proof
    assume "list_ex (\<lambda>kd. \<exists>r \<in> set ?ids. do_root (snd kd) = Some r) (dd_docs s)"
    then have "sweep_rows s = Inl RowProtected" by (simp only: sweep_rows_def delete_pending_rows_def Let_def if_True sum.case)
    with run show False by simp
  qed
  then have "s' = s\<lparr>dd_docs := filter (\<lambda>kd. \<not> ?gone kd) (dd_docs s), dd_stale := []\<rparr>"
    using run by (auto simp only: sweep_rows_def delete_pending_rows_def Let_def if_False sum.case prod.case sum.inject)
  then have s': "dd_docs s' = filter (\<lambda>kd. \<not> ?gone kd) (dd_docs s)" "dd_audit s' = dd_audit s"
      "dd_tokens s' = dd_tokens s" "dd_fresh s' = dd_fresh s" "dd_purges s' = dd_purges s"
    by simp_all
  have keep: "do_root (snd kd) \<noteq> Some (fst kr)" if "kd \<in> set (dd_docs s)" "kr \<in> set (dd_docs s)" "?gone kr" for kd kr
    using free that by (force simp: list_ex_iff)
  show ?thesis
  proof (rule doc_effect.Remove [of s' "\<lambda>k. k \<in> ?ks"])
    fix k d r
    assume d: "tget (dd_docs s) k = Some d" "do_root d = Some r" and r: "tget (dd_docs s) r \<noteq> None"
    then obtain rt where rt: "tget (dd_docs s) r = Some rt" by blast
    have "(r, rt) \<in> set (dd_docs s)" by (rule tget_in_set [OF rt])
    moreover have "\<not> ?gone (r, rt)"
      using keep [OF tget_in_set [OF d(1)] \<open>(r, rt) \<in> set (dd_docs s)\<close>] d(2) by auto
    ultimately have "(r, rt) \<in> set (dd_docs s')" by (simp add: s'(1))
    moreover have "tok (dd_docs s')" unfolding s'(1) by (rule tok_filter [OF ok])
    ultimately show "tget (dd_docs s') r \<noteq> None" by (simp add: tget_iff [symmetric])
  qed (simp_all add: s')
qed

lemma issue_effect:
  assumes rows: "rows_sound s" and run: "issue_access_token env s now u k ip True = Inr (s', tk)"
  shows "doc_effect env s s'"
proof -
  let ?t = "\<lparr>tk_document = k, tk_issued_to = du_pk u, tk_expires_at = now + dv_token_ttl env,
     tk_used_at = None, tk_ip = masked_ip env ip\<rparr>"
  from run obtain d where d: "tget (dd_docs s) k = Some d"
    and s': "s' = doc_event EvViewed (Some k) (Some (du_pk u)) (Some (dd_fresh s)) ''token_issued'' now
      (s\<lparr>dd_fresh := Suc (dd_fresh s), dd_tokens := tput (dd_fresh s) ?t (dd_tokens s)\<rparr>)"
    by (auto simp: issue_access_token_def Let_def split: option.splits if_splits)
  show ?thesis
    by (rule doc_effect.Issue [OF refl, of s' s ?t]) (simp_all add: s' doc_event_def rows_soundD(1) [OF rows d])
qed

lemma consume_effect:
  assumes "consume_access_token s now u tk True = Inr (s', k)"
  shows "doc_effect env s s'"
proof -
  from assms obtain t where t: "tget (dd_tokens s) tk = Some t" "tk_used_at t = None" "now < tk_expires_at t"
      "tk_issued_to t = du_pk u"
    and s': "s' = doc_event EvViewed (Some (tk_document t)) (Some (du_pk u)) (Some tk) ''token_redeemed'' now
      (s\<lparr>dd_tokens := tput tk (t\<lparr>tk_used_at := Some now\<rparr>) (dd_tokens s)\<rparr>)"
    by (auto simp: consume_access_token_def split: option.splits if_splits)
  show ?thesis
    by (rule doc_effect.Redeem [OF t(1,2), of
          "\<lparr>de_type = EvViewed, de_document = Some (tk_document t), de_actor = Some (du_pk u), de_token = Some tk,
             de_note = ''token_redeemed'', de_time = now\<rparr>"])
      (simp_all add: s' t doc_event_def)
qed

lemma purge_tokens_effect: "doc_effect env s (fst (purge_expired_tokens s now False))"
  by (rule doc_effect.Expire [of _ "token_purgeable now"]) (simp_all add: purge_expired_tokens_def Let_def doc_event_def)

lemma document_step_effect:
  assumes "dv_scanner env" "rows_sound s" "tok (dd_docs s)" "document_owed s x" "document_step env s x = Inr s'"
  shows "doc_effect env s s'"
proof (cases x)
  case (DoPost now key bytes)
  with assms(5) have "\<exists>st. s' = s\<lparr>dd_store := st\<rparr>" by (auto simp: browser_post_def split: if_splits)
  then show ?thesis by (auto intro: doc_effect.Idle)
next
  case (DoSweep now)
  with assms(5) show ?thesis by (auto simp: sweep_snapshot_def intro: doc_effect.Idle)
next
  case DoSweepObjects
  with assms(5) show ?thesis by (auto simp: sweep_objects_def intro: doc_effect.Idle)
qed (use assms in \<open>auto simp: upload_effect version_effect confirm_effect scan_effect verdict_effect scan_failure_effect
    soft_delete_effect fulfil_effect hold_effect release_effect lock_effect destroy_effect commit_effect
    sweep_rows_effect issue_effect consume_effect purge_tokens_effect map_sum_def id_def
    split: sum.splits prod.splits\<close>)

section \<open>Documents and their history\<close>

definition deletion_logged :: "document_db \<Rightarrow> nat \<Rightarrow> int \<Rightarrow> bool" where
  "deletion_logged s k t \<longleftrightarrow> (\<exists>e \<in> set (dd_audit s). de_type e = EvDeleted \<and> de_document e = Some k \<and> de_time e = t)"

definition row_told :: "document_db \<Rightarrow> nat \<Rightarrow> document \<Rightarrow> bool" where
  "row_told s k d \<longleftrightarrow> (key_owner d = None \<or> key_owner d = Some k)
     \<and> replay (document_history s k) = Some (do_status d)
     \<and> (\<forall>t. do_deleted_at d = Some t \<longrightarrow> deletion_logged s k t)
     \<and> (do_status d = ScActive \<longrightarrow> do_scan_result d = ''OK'')"

definition logged_below :: "document_db \<Rightarrow> bool" where
  "logged_below s \<longleftrightarrow> (\<forall>e \<in> set (dd_audit s). (\<forall>k. de_document e = Some k \<longrightarrow> k < dd_fresh s)
     \<and> (\<forall>k. de_token e = Some k \<longrightarrow> k < dd_fresh s))"

definition waited :: "document_env \<Rightarrow> document_db \<Rightarrow> nat \<Rightarrow> int \<Rightarrow> bool" where
  "waited env s k t \<longleftrightarrow> (\<exists>u. deletion_logged s k u \<and> u + doc_day * dv_grace_days env \<le> t)"

definition job_sound :: "document_env \<Rightarrow> document_db \<Rightarrow> purge_job \<Rightarrow> bool" where
  "job_sound env s j \<longleftrightarrow> (\<exists>d. tget (dd_docs s) (pj_document j) = Some d \<and> do_status d \<in> {ScDeleted, ScPurged})
     \<and> waited env s (pj_document j) (pj_locked_at j)
     \<and> (\<forall>x. pj_key j = Some x \<longrightarrow> fst (snd x) = pj_document j)"

definition purge_told :: "document_env \<Rightarrow> document_db \<Rightarrow> document_event \<Rightarrow> bool" where
  "purge_told env s e \<longleftrightarrow> (de_type e = EvPurged \<longrightarrow> (\<exists>k. de_document e = Some k \<and> waited env s k (de_time e)))"

definition doc_inv :: "document_env \<Rightarrow> document_db \<Rightarrow> bool" where
  "doc_inv env s \<longleftrightarrow> tok (dd_docs s) \<and> rows_sound s \<and> logged_below s
     \<and> (\<forall>k d. tget (dd_docs s) k = Some d \<longrightarrow> row_told s k d)
     \<and> (\<forall>j \<in> set (dd_purges s). job_sound env s j) \<and> (\<forall>e \<in> set (dd_audit s). purge_told env s e)"

lemma doc_invD:
  assumes "doc_inv env s"
  shows "tok (dd_docs s)" "rows_sound s" "logged_below s"
    "tget (dd_docs s) k = Some d \<Longrightarrow> row_told s k d"
    "j \<in> set (dd_purges s) \<Longrightarrow> job_sound env s j"
    "e \<in> set (dd_audit s) \<Longrightarrow> purge_told env s e"
  using assms by (auto simp: doc_inv_def)

text \<open>The log grows, and what it says is not taken back.\<close>

lemma logged_mono:
  assumes "dd_audit s' = dd_audit s @ es"
  shows "deletion_logged s k t \<Longrightarrow> deletion_logged s' k t" "waited env s k u \<Longrightarrow> waited env s' k u"
    "purge_told env s e \<Longrightarrow> purge_told env s' e"
  using assms unfolding deletion_logged_def waited_def purge_told_def by auto

lemma history_grows:
  assumes "dd_audit s' = dd_audit s @ es"
  shows "document_history s' k = document_history s k @ filter (\<lambda>e. lifecycle e \<and> de_document e = Some k) es"
  by (simp add: document_history_def assms)

lemma history_fresh:
  assumes "logged_below s" "dd_fresh s \<le> k"
  shows "document_history s k = []"
  using assms by (fastforce simp: document_history_def logged_below_def filter_empty_conv)

lemma row_told_same:
  assumes "row_told s k d" "dd_audit s' = dd_audit s @ es"
    and "filter (\<lambda>e. lifecycle e \<and> de_document e = Some k) es = []"
    and "key_owner d' = key_owner d" "do_status d' = do_status d" "do_deleted_at d' = do_deleted_at d"
      "do_scan_result d' = do_scan_result d"
  shows "row_told s' k d'"
  using assms logged_mono(1) [OF assms(2)] history_grows [OF assms(2), of k] by (auto simp: row_told_def)

lemma job_sound_mono:
  assumes job: "job_sound env s j" and log: "dd_audit s' = dd_audit s @ es"
    and row: "\<And>d. tget (dd_docs s) (pj_document j) = Some d \<Longrightarrow> do_status d \<in> {ScDeleted, ScPurged}
      \<Longrightarrow> \<exists>d'. tget (dd_docs s') (pj_document j) = Some d' \<and> do_status d' \<in> {ScDeleted, ScPurged}"
    and from_j: "pj_document j' = pj_document j" "pj_key j' = pj_key j" "pj_locked_at j' = pj_locked_at j"
  shows "job_sound env s' j'"
  using job row logged_mono(2) [OF log] by (auto simp: job_sound_def from_j)

text \<open>The invariant after an effect, from what it does to rows, jobs and log.\<close>

lemma doc_inv_after:
  assumes inv: "doc_inv env s" and log: "dd_audit s' = dd_audit s @ es" and jobs: "jobs_from (dd_purges s) (dd_purges s')"
    and fresh: "dd_fresh s \<le> dd_fresh s'" and tok: "tok (dd_docs s')" and rows: "rows_sound s'"
    and told: "\<And>k d. tget (dd_docs s') k = Some d \<Longrightarrow> row_told s' k d"
    and closed: "\<And>k d. tget (dd_docs s) k = Some d \<Longrightarrow> do_status d \<in> {ScDeleted, ScPurged}
      \<Longrightarrow> \<exists>d'. tget (dd_docs s') k = Some d' \<and> do_status d' \<in> {ScDeleted, ScPurged}"
    and below: "\<And>e. e \<in> set es \<Longrightarrow> (\<forall>k. de_document e = Some k \<longrightarrow> k < dd_fresh s') \<and> (\<forall>k. de_token e = Some k \<longrightarrow> k < dd_fresh s')"
    and purged: "\<And>e. e \<in> set es \<Longrightarrow> purge_told env s' e"
  shows "doc_inv env s'"
proof -
  have "job_sound env s' j'" if "j' \<in> set (dd_purges s')" for j'
  proof -
    from jobs that obtain j where j: "j \<in> set (dd_purges s)" "pj_document j' = pj_document j" "pj_key j' = pj_key j"
      "pj_locked_at j' = pj_locked_at j" by (auto simp: jobs_from_def)
    show ?thesis by (rule job_sound_mono [OF doc_invD(5) [OF inv j(1)] log closed j(2-4)])
  qed
  moreover have "logged_below s'"
    using doc_invD(3) [OF inv] fresh below by (fastforce simp: logged_below_def log)
  moreover have "purge_told env s' e" if "e \<in> set (dd_audit s')" for e
    using that purged logged_mono(3) [OF log doc_invD(6) [OF inv]] by (auto simp: log)
  ultimately show ?thesis using tok rows told by (simp add: doc_inv_def)
qed

lemma row_effect_inv:
  assumes inv: "doc_inv env s" and row: "tget (dd_docs s) k = Some d" "dd_docs s' = tput k d' (dd_docs s)"
    and ev: "row_event (dd_purges s) k d d' e" and log: "dd_audit s' = dd_audit s @ [e]"
    and keep: "dd_fresh s' = dd_fresh s" "jobs_from (dd_purges s) (dd_purges s')"
  shows "doc_inv env s'"
proof (rule doc_inv_after [OF inv log keep(2)])
  note old = rows_soundD [OF doc_invD(2) [OF inv] row(1)] doc_invD(4) [OF inv row(1)]
  have st: "do_status d' = (if lifecycle e then the (next_status (do_status d) (de_type e) (de_note e)) else do_status d)"
    "lifecycle e \<Longrightarrow> next_status (do_status d) (de_type e) (de_note e) \<noteq> None"
    using ev by (auto simp: row_event_def)
  have dead: "do_status d' \<in> {ScDeleted, ScPurged} \<longleftrightarrow> do_status d \<in> {ScDeleted, ScPurged} \<or> de_type e = EvDeleted"
    using st by (cases "do_status d"; cases "de_type e") (auto simp: lifecycle_def lifecycle_types_def)
  have purged: "do_status d' = ScPurged \<longleftrightarrow> do_status d = ScPurged \<or> de_type e = EvPurged"
    using st by (cases "do_status d"; cases "de_type e") (auto simp: lifecycle_def lifecycle_types_def)
  show "dd_fresh s \<le> dd_fresh s'" by (simp add: keep)
  show "tok (dd_docs s')" by (simp add: row(2) tok_tput doc_invD(1) [OF inv])
  show "rows_sound s'"
    unfolding rows_sound_def row(2) keep(1) tget_tput
    using doc_invD(2) [OF inv] old(1-3) ev dead purged
    by (auto simp: rows_sound_def row_event_def key_owner_def split: if_splits)
  show "row_told s' j q" if "tget (dd_docs s') j = Some q" for j q
  proof (cases "j = k")
    case False
    with that row_told_same [OF doc_invD(4) [OF inv] log, of j q q] ev show ?thesis
      by (auto simp: row(2) tget_tput row_event_def)
  next
    case True
    have q: "q = d'" using that True by (simp add: row(2) tget_tput)
    have hist: "document_history s' k = document_history s k @ (if lifecycle e then [e] else [])"
      using ev by (simp add: history_grows [OF log] row_event_def)
    have "replay (document_history s' k) = Some (do_status d')"
      using old(4) ev by (auto simp: hist row_told_def row_event_def)
    moreover have "deletion_logged s' k t" if "do_deleted_at d' = Some t" for t
    proof (cases "de_type e = EvDeleted")
      case True
      with that ev have "de_time e = t" "de_document e = Some k" by (auto simp: row_event_def)
      with True show ?thesis by (auto simp: deletion_logged_def log)
    next
      case False
      with that ev have "do_deleted_at d = Some t" by (simp add: row_event_def)
      with old(4) show ?thesis by (auto intro: logged_mono(1) [OF log] simp: row_told_def)
    qed
    ultimately show ?thesis using old(4) ev
      by (auto simp: True q row_told_def row_event_def key_owner_def)
  qed
  show "\<exists>q'. tget (dd_docs s') j = Some q' \<and> do_status q' \<in> {ScDeleted, ScPurged}"
    if "tget (dd_docs s) j = Some q" "do_status q \<in> {ScDeleted, ScPurged}" for j q
    using that dead row(1) by (auto simp: row(2) tget_tput)
  show "(\<forall>i. de_document x = Some i \<longrightarrow> i < dd_fresh s') \<and> (\<forall>i. de_token x = Some i \<longrightarrow> i < dd_fresh s')" if "x \<in> set [e]" for x
    using that ev old(1) by (simp add: row_event_def keep)
  show "purge_told env s' x" if "x \<in> set [e]" for x
  proof -
    have "\<exists>i. de_document e = Some i \<and> waited env s' i (de_time e)" if "de_type e = EvPurged"
    proof -
      from ev that obtain j where j: "j \<in> set (dd_purges s)" "pj_document j = k" "pj_locked_at j \<le> de_time e"
        and doc: "de_document e = Some k" by (auto simp: row_event_def)
      have "waited env s k (pj_locked_at j)" using doc_invD(5) [OF inv j(1)] j(2) by (simp add: job_sound_def)
      then have "waited env s k (de_time e)" using j(3) by (auto simp: waited_def)
      from logged_mono(2) [OF log this] doc show ?thesis by blast
    qed
    with that show ?thesis by (simp add: purge_told_def)
  qed
qed

lemma new_row_told:
  assumes inv: "doc_inv env s" and log: "dd_audit s' = dd_audit s @ es" and row: "new_row (dd_fresh s) d"
    and es: "filter (\<lambda>e. lifecycle e \<and> de_document e = Some (dd_fresh s)) es = [] \<or>
      (\<exists>e. es = [e] \<and> de_type e = EvCreated \<and> de_note e = ''version'' \<and> de_document e = Some (dd_fresh s))"
  shows "row_told s' (dd_fresh s) d"
proof -
  have "document_history s (dd_fresh s) = []" by (rule history_fresh [OF doc_invD(3) [OF inv] order_refl])
  then have "document_history s' (dd_fresh s) = filter (\<lambda>e. lifecycle e \<and> de_document e = Some (dd_fresh s)) es"
    by (simp add: history_grows [OF log])
  then have "replay (document_history s' (dd_fresh s)) = Some ScPendingUpload"
    using es by (auto simp: replay_def lifecycle_def lifecycle_types_def)
  with row show ?thesis by (simp add: row_told_def new_row_def)
qed

lemma fresh_row:
  assumes "doc_inv env s"
  shows "tget (dd_docs s) (dd_fresh s) = None"
  using rows_soundD(1) [OF doc_invD(2) [OF assms]] by (cases "tget (dd_docs s) (dd_fresh s)") auto

lemma upload_inv:
  assumes inv: "doc_inv env s" and rows: "dd_docs s' = tput (dd_fresh s) d (dd_docs s)" "new_row (dd_fresh s) d"
    and keep: "dd_audit s' = dd_audit s" "dd_fresh s' = Suc (Suc (dd_fresh s))" "dd_purges s' = dd_purges s"
  shows "doc_inv env s'"
proof (rule doc_inv_after [OF inv])
  have log: "dd_audit s' = dd_audit s @ []" by (simp add: keep)
  show "dd_audit s' = dd_audit s @ []" by (rule log)
  show "tok (dd_docs s')" by (simp add: rows tok_tput doc_invD(1) [OF inv])
  show "rows_sound s'"
    using doc_invD(2) [OF inv] rows(2)
    by (fastforce simp: rows_sound_def rows(1) keep(2) tget_tput new_row_def key_owner_def)
  show "row_told s' j q" if "tget (dd_docs s') j = Some q" for j q
    using that new_row_told [OF inv log rows(2)] row_told_same [OF doc_invD(4) [OF inv] log, of j q q]
    by (auto simp: rows(1) tget_tput split: if_splits)
  show "\<exists>q'. tget (dd_docs s') j = Some q' \<and> do_status q' \<in> {ScDeleted, ScPurged}"
    if "tget (dd_docs s) j = Some q" "do_status q \<in> {ScDeleted, ScPurged}" for j q
    using that fresh_row [OF inv] by (auto simp: rows(1) tget_tput)
qed (simp_all add: keep)

text \<open>The latest version of a chain is a row of it, and no marked row has a higher number.\<close>

lemma highest_fold:
  "fold (\<lambda>a b. if do_version (snd b) < do_version (snd a) then a else b) rest kd = m
    \<Longrightarrow> m \<in> set (kd # rest) \<and> (\<forall>x \<in> set (kd # rest). do_version (snd x) \<le> do_version (snd m))"
  by (induction rest arbitrary: kd) (auto split: if_splits, force+)

lemma highest_version_max:
  "highest_version ds = Some m \<Longrightarrow> m \<in> set ds \<and> (\<forall>x \<in> set ds. do_version (snd x) \<le> do_version (snd m))"
  using highest_fold [OF refl, of "tl ds" "hd ds"] by (cases ds) (simp_all add: highest_version_def)

lemma current_latest_row:
  assumes "current_latest ds = Some m"
  shows "m \<in> set ds" "x \<in> set ds \<Longrightarrow> do_latest (snd x) \<Longrightarrow> do_version (snd x) \<le> do_version (snd m) \<and> do_latest (snd m)"
    "\<forall>x \<in> set ds. \<not> do_latest (snd x) \<Longrightarrow> x \<in> set ds \<Longrightarrow> do_version (snd x) \<le> do_version (snd m)"
proof -
  let ?marked = "filter (\<lambda>kd. do_latest (snd kd)) ds"
  have m: "highest_version (if ?marked = [] then ds else ?marked) = Some m"
    using assms by (simp add: current_latest_def Let_def split: if_splits)
  note h = highest_version_max [OF m]
  show "m \<in> set ds" using h by (cases "?marked = []") auto
  show "do_version (snd x) \<le> do_version (snd m) \<and> do_latest (snd m)" if "x \<in> set ds" "do_latest (snd x)"
  proof -
    from that have marked: "x \<in> set ?marked" by simp
    then have "?marked \<noteq> []" by (metis empty_iff empty_set)
    with h have "m \<in> set ?marked" "\<forall>x \<in> set ?marked. do_version (snd x) \<le> do_version (snd m)"
      by (simp_all only: if_False) blast+
    then have "do_version (snd x) \<le> do_version (snd m) \<and> m \<in> set ?marked" using marked by blast
    then show ?thesis by simp
  qed
  show "do_version (snd x) \<le> do_version (snd m)" if none: "\<forall>x \<in> set ds. \<not> do_latest (snd x)" "x \<in> set ds"
  proof -
    from none(1) have "?marked = []" by (simp add: filter_empty_conv)
    with m have "highest_version ds = Some m" by simp
    from highest_version_max [OF this] none(2) show ?thesis by blast
  qed
qed

lemma version_inv:
  assumes inv: "doc_inv env s" and latest: "current_latest (filter (in_chain rk) (dd_docs s)) = Some (lk, ld)"
    and rows: "dd_docs s' = tput (dd_fresh s) n (tput lk (ld\<lparr>do_latest := False\<rparr>) (dd_docs s))" "new_row (dd_fresh s) n"
    and ev: "de_type e = EvCreated" "de_note e = ''version''" "de_document e = Some (dd_fresh s)" "de_token e = None"
    and log: "dd_audit s' = dd_audit s @ [e]" and keep: "dd_fresh s' = Suc (Suc (dd_fresh s))" "dd_purges s' = dd_purges s"
  shows "doc_inv env s'"
proof (rule doc_inv_after [OF inv log])
  have ld: "tget (dd_docs s) lk = Some ld"
    using current_latest_row(1) [OF latest] doc_invD(1) [OF inv] by (simp add: tget_iff)
  have lk: "lk \<noteq> dd_fresh s" using ld fresh_row [OF inv] by auto
  have get: "tget (dd_docs s') j = (if j = dd_fresh s then Some n else if j = lk then Some (ld\<lparr>do_latest := False\<rparr>) else tget (dd_docs s) j)" for j
    by (simp add: rows(1) tget_tput)
  show "jobs_from (dd_purges s) (dd_purges s')" by (simp add: keep)
  show "dd_fresh s \<le> dd_fresh s'" by (simp add: keep)
  show "tok (dd_docs s')" by (simp add: rows tok_tput doc_invD(1) [OF inv])
  show "rows_sound s'"
    using doc_invD(2) [OF inv] rows(2) rows_soundD [OF doc_invD(2) [OF inv] ld]
    by (auto simp: rows_sound_def get keep(1) new_row_def key_owner_def split: if_splits intro: less_SucI)
  have old: "row_told s' j q'" if "tget (dd_docs s) j = Some q" "key_owner q' = key_owner q" "do_status q' = do_status q"
    "do_deleted_at q' = do_deleted_at q" "do_scan_result q' = do_scan_result q" for j q q'
    using that rows_soundD(1) [OF doc_invD(2) [OF inv] that(1)]
    by (intro row_told_same [OF doc_invD(4) [OF inv that(1)] log]) (auto simp: ev)
  show "row_told s' j q" if "tget (dd_docs s') j = Some q" for j q
    using that new_row_told [OF inv log rows(2)] ev old [OF ld, of "ld\<lparr>do_latest := False\<rparr>"] old [of j q q]
    by (auto simp: get key_owner_def split: if_splits)
  show "\<exists>q'. tget (dd_docs s') j = Some q' \<and> do_status q' \<in> {ScDeleted, ScPurged}"
    if "tget (dd_docs s) j = Some q" "do_status q \<in> {ScDeleted, ScPurged}" for j q
    using that ld fresh_row [OF inv] by (auto simp: get)
qed (auto simp: ev keep purge_told_def)

lemma remove_inv:
  assumes inv: "doc_inv env s"
    and rows: "dd_docs s' = filter (\<lambda>kd. \<not> (gone (fst kd) \<and> do_status (snd kd) = ScPendingUpload)) (dd_docs s)"
    and keep: "dd_audit s' = dd_audit s" "dd_fresh s' = dd_fresh s" "dd_purges s' = dd_purges s"
  shows "doc_inv env s'"
proof (rule doc_inv_after [OF inv])
  have log: "dd_audit s' = dd_audit s @ []" by (simp add: keep)
  show "dd_audit s' = dd_audit s @ []" by (rule log)
  show tok': "tok (dd_docs s')" unfolding rows by (rule tok_filter [OF doc_invD(1) [OF inv]])
  have sub: "tget (dd_docs s') j = Some q \<longleftrightarrow> tget (dd_docs s) j = Some q \<and> \<not> (gone j \<and> do_status q = ScPendingUpload)" for j q
    using tok' doc_invD(1) [OF inv] by (simp add: tget_iff rows)
  show "rows_sound s'" using doc_invD(2) [OF inv] by (auto simp: rows_sound_def sub keep)
  show "row_told s' j q" if "tget (dd_docs s') j = Some q" for j q
    using that row_told_same [OF doc_invD(4) [OF inv] log, of j q q] by (simp add: sub)
  show "\<exists>q'. tget (dd_docs s') j = Some q' \<and> do_status q' \<in> {ScDeleted, ScPurged}"
    if "tget (dd_docs s) j = Some q" "do_status q \<in> {ScDeleted, ScPurged}" for j q
    using that by (auto simp: sub)
qed (simp_all add: keep)

text \<open>An effect on the tokens alone.\<close>

lemma tokens_only_inv:
  assumes inv: "doc_inv env s" and log: "dd_audit s' = dd_audit s @ es" and keep: "dd_docs s' = dd_docs s"
    "dd_fresh s \<le> dd_fresh s'" "jobs_from (dd_purges s) (dd_purges s')"
    and es: "\<And>e. e \<in> set es \<Longrightarrow> \<not> lifecycle e \<and> (\<forall>k. de_document e = Some k \<longrightarrow> k < dd_fresh s')
      \<and> (\<forall>k. de_token e = Some k \<longrightarrow> k < dd_fresh s')"
  shows "doc_inv env s'"
proof (rule doc_inv_after [OF inv log keep(3,2)])
  show "tok (dd_docs s')" by (simp add: keep doc_invD(1) [OF inv])
  show "rows_sound s'" using doc_invD(2) [OF inv] keep(2) by (fastforce simp: rows_sound_def keep(1))
  show "row_told s' j q" if "tget (dd_docs s') j = Some q" for j q
    using that es by (intro row_told_same [OF doc_invD(4) [OF inv] log]) (auto simp: keep filter_empty_conv)
  show "purge_told env s' e" if "e \<in> set es" for e
    using es [OF that] by (auto simp: purge_told_def lifecycle_def lifecycle_types_def)
qed (use es in \<open>auto simp: keep\<close>)

lemma lock_inv:
  assumes inv: "doc_inv env s" and row: "tget (dd_docs s) (pj_document j) = Some d" "do_status d = ScDeleted"
      "do_deleted_at d = Some t" "t + doc_day * dv_grace_days env \<le> pj_locked_at j" "pj_key j = do_key d"
    and s': "dd_purges s' = dd_purges s @ [j]" "dd_docs s' = dd_docs s" "dd_audit s' = dd_audit s" "dd_fresh s' = dd_fresh s"
  shows "doc_inv env s'"
proof -
  note same = s'(2-4)
  have told: "row_told s' k q \<longleftrightarrow> row_told s k q" "deletion_logged s' k u \<longleftrightarrow> deletion_logged s k u" for k q u
    by (simp_all add: row_told_def document_history_def deletion_logged_def same)
  note d = doc_invD(4) [OF inv row(1), unfolded row_told_def]
  have "job_sound env s' j"
    using d row by (auto simp: job_sound_def same(1) waited_def told(2) key_owner_def)
  then show ?thesis
    using inv by (auto simp: doc_inv_def told s' rows_sound_def logged_below_def job_sound_def purge_told_def waited_def)
qed

lemma doc_effect_inv:
  assumes "doc_effect env s s'" and inv: "doc_inv env s" and tokens: "\<And>tk t. tget (dd_tokens s) tk = Some t \<Longrightarrow> tk < dd_fresh s \<and> tk_document t < dd_fresh s"
  shows "doc_inv env s'"
  using assms(1)
proof cases
  case Idle
  show ?thesis by (rule tokens_only_inv [OF inv, of s' "[]"]) (simp_all add: Idle)
next
  case (Row k d d' e)
  show ?thesis by (rule row_effect_inv [OF inv Row(1-4,6,7)])
next
  case (Upload k d)
  show ?thesis by (rule upload_inv [OF inv, of s' d]) (use Upload in simp_all)
next
  case (Version v rk rt lk ld n e)
  show ?thesis by (rule version_inv [OF inv Version(4), of s' n e]) (use Version in simp_all)
next
  case (Remove gone)
  show ?thesis by (rule remove_inv [OF inv Remove(1)]) (use Remove(3-) in simp_all)
next
  case (Lock j d t)
  show ?thesis by (rule lock_inv [OF inv Lock(1-3,5-8)]) (simp_all add: Lock)
next
  case (Issue tk t e)
  show ?thesis by (rule tokens_only_inv [OF inv Issue(11)]) (use Issue in \<open>auto simp: lifecycle_def lifecycle_types_def\<close>)
next
  case (Redeem tk t e)
  show ?thesis by (rule tokens_only_inv [OF inv Redeem(10)])
    (use Redeem tokens [OF Redeem(1)] in \<open>auto simp: lifecycle_def lifecycle_types_def\<close>)
next
  case (Expire P)
  from Expire(2) obtain es where "dd_audit s' = dd_audit s @ es"
    "\<And>e. e \<in> set es \<Longrightarrow> de_type e = EvTokensPurged \<and> de_document e = None \<and> de_token e = None"
    by (metis append_Nil2 empty_iff empty_set insert_iff list.simps(15))
  with Expire show ?thesis by (intro tokens_only_inv [OF inv]) (auto simp: lifecycle_def lifecycle_types_def)
qed

section \<open>Versions\<close>

definition chain_of :: "nat \<Rightarrow> document \<Rightarrow> nat" where
  "chain_of k d = (case do_root d of None \<Rightarrow> k | Some r \<Rightarrow> r)"

definition rooted :: "document table \<Rightarrow> document \<Rightarrow> bool" where
  "rooted t d \<longleftrightarrow> (case do_root d of None \<Rightarrow> do_version d = 1
     | Some r \<Rightarrow> 2 \<le> do_version d \<and> (\<exists>rt. tget t r = Some rt \<and> do_root rt = None))"

definition versions_sound :: "document table \<Rightarrow> bool" where
  "versions_sound t \<longleftrightarrow> (\<forall>k d. tget t k = Some d \<longrightarrow> rooted t d)
     \<and> (\<forall>k d j q. tget t k = Some d \<longrightarrow> tget t j = Some q \<longrightarrow> chain_of k d = chain_of j q
          \<longrightarrow> (do_version d = do_version q \<longrightarrow> k = j) \<and> (do_latest d \<longrightarrow> do_version q \<le> do_version d))"

lemma versions_soundD:
  assumes "versions_sound t" "tget t k = Some d"
  shows "rooted t d" "1 \<le> do_version d"
    "tget t j = Some q \<Longrightarrow> chain_of k d = chain_of j q \<Longrightarrow> do_version d = do_version q \<Longrightarrow> k = j"
    "tget t j = Some q \<Longrightarrow> chain_of k d = chain_of j q \<Longrightarrow> do_latest d \<Longrightarrow> do_version q \<le> do_version d"
proof -
  show r: "rooted t d" using assms by (simp add: versions_sound_def)
  then show "1 \<le> do_version d" by (simp add: rooted_def split: option.splits)
qed (use assms in \<open>simp_all add: versions_sound_def\<close>)

text \<open>A row may keep its place in the chain and lose its mark.\<close>

definition version_kept :: "document \<Rightarrow> document \<Rightarrow> bool" where
  "version_kept d d' \<longleftrightarrow> do_root d' = do_root d \<and> do_version d' = do_version d \<and> (do_latest d' \<longrightarrow> do_latest d)"

lemma versions_row:
  assumes ok: "versions_sound t" and d: "tget t k = Some d" and same: "version_kept d d'"
  shows "versions_sound (tput k d' t)"
proof -
  have came: "\<exists>q. tget t j = Some q \<and> version_kept q q'" if "tget (tput k d' t) j = Some q'" for j q'
    using that d same by (auto simp: tget_tput version_kept_def split: if_splits)
  have "rooted (tput k d' t) q'" if "tget (tput k d' t) j = Some q'" for j q'
  proof -
    from came [OF that] obtain q where q: "tget t j = Some q" "version_kept q q'" by blast
    from versions_soundD(1) [OF ok q(1)] q(2) have "rooted t q'" by (simp add: rooted_def version_kept_def split: option.splits)
    then show ?thesis using d same by (auto simp: rooted_def tget_tput version_kept_def split: option.splits)
  qed
  moreover have "(do_version q' = do_version p' \<longrightarrow> j = i) \<and> (do_latest q' \<longrightarrow> do_version p' \<le> do_version q')"
    if q': "tget (tput k d' t) j = Some q'" and p': "tget (tput k d' t) i = Some p'" and ch: "chain_of j q' = chain_of i p'"
    for j q' i p'
  proof -
    from came [OF q'] obtain q where q: "tget t j = Some q" "version_kept q q'" by blast
    from came [OF p'] obtain p where p: "tget t i = Some p" "version_kept p p'" by blast
    from ch q(2) p(2) have "chain_of j q = chain_of i p" by (simp add: chain_of_def version_kept_def)
    with versions_soundD(3,4) [OF ok q(1) p(1)] q(2) p(2) show ?thesis by (auto simp: version_kept_def)
  qed
  ultimately show ?thesis unfolding versions_sound_def by blast
qed

lemma versions_subset:
  assumes ok: "versions_sound t" and sub: "\<And>k d. tget u k = Some d \<Longrightarrow> tget t k = Some d"
    and roots: "\<And>k d r. tget t k = Some d \<Longrightarrow> do_root d = Some r \<Longrightarrow> tget t r \<noteq> None \<Longrightarrow> tget u r \<noteq> None"
  shows "versions_sound u"
proof -
  have "rooted u d" if "tget u k = Some d" for k d
  proof -
    note r = versions_soundD(1) [OF ok sub [OF that]]
    show ?thesis
    proof (cases "do_root d")
      case None
      with r show ?thesis by (simp add: rooted_def)
    next
      case (Some r')
      with r obtain rt where rt: "tget t r' = Some rt" "do_root rt = None" by (auto simp: rooted_def)
      from roots [OF sub [OF that] Some] rt(1) obtain rt' where "tget u r' = Some rt'" by auto
      with sub [OF this] rt r Some show ?thesis by (simp add: rooted_def)
    qed
  qed
  with ok sub show ?thesis unfolding versions_sound_def by blast
qed

text \<open>A new chain, or a new version on top of one, of a key the table does not have.\<close>

lemma versions_new:
  assumes ok: "versions_sound t" and new: "tget t v = None" and root: "rooted t n"
    and own: "do_root n \<noteq> Some v"
    and top: "\<And>k d. tget t k = Some d \<Longrightarrow> chain_of k d = chain_of v n \<Longrightarrow> do_version d < do_version n \<and> \<not> do_latest d"
  shows "versions_sound (tput v n t)"
proof -
  have keep: "rooted t d \<Longrightarrow> rooted (tput v n t) d" for d
    using new by (auto simp: rooted_def tget_tput split: option.splits)
  have "rooted (tput v n t) d" if "tget (tput v n t) k = Some d" for k d
    using that keep root versions_soundD(1) [OF ok] by (auto simp: tget_tput split: if_splits)
  moreover have "(do_version d = do_version q \<longrightarrow> k = j) \<and> (do_latest d \<longrightarrow> do_version q \<le> do_version d)"
    if d: "tget (tput v n t) k = Some d" and q: "tget (tput v n t) j = Some q" and ch: "chain_of k d = chain_of j q" for k d j q
    using d q ch top [of k d] top [of j q] versions_soundD(3,4) [OF ok, of k d j q]
    by (auto simp: tget_tput less_imp_le split: if_splits)
  ultimately show ?thesis unfolding versions_sound_def by blast
qed

lemma no_chain_yet:
  assumes "versions_sound t" "tget t v = None" "tget t k = Some d"
  shows "chain_of k d \<noteq> v"
  using versions_soundD(1) [OF assms(1,3)] assms(2,3) by (auto simp: chain_of_def rooted_def split: option.splits)

lemma current_latest_top:
  assumes ok: "versions_sound t" and tok: "tok t" and rt: "tget t rk = Some rt" "do_root rt = None"
    and latest: "current_latest (filter (in_chain rk) t) = Some (lk, ld)"
  shows "tget t lk = Some ld" "chain_of lk ld = rk"
    "tget t k = Some d \<Longrightarrow> chain_of k d = rk \<Longrightarrow> do_version d \<le> do_version ld \<and> (do_latest d \<longrightarrow> k = lk)"
proof -
  let ?c = "filter (in_chain rk) t"
  have mem: "(k, d) \<in> set ?c \<longleftrightarrow> tget t k = Some d \<and> chain_of k d = rk" for k d
  proof (cases "tget t k = Some d")
    case True
    with rt have "k = rk \<Longrightarrow> do_root d = None" by simp
    with True show ?thesis by (auto simp: tget_iff [OF tok] in_chain_def chain_of_def split: option.splits)
  qed (simp add: tget_iff [OF tok])
  note cl = current_latest_row [OF latest]
  have ld: "tget t lk = Some ld \<and> chain_of lk ld = rk" using cl(1) by (simp only: mem)
  then show "tget t lk = Some ld" "chain_of lk ld = rk" by simp_all
  show "do_version d \<le> do_version ld \<and> (do_latest d \<longrightarrow> k = lk)" if d: "tget t k = Some d" "chain_of k d = rk"
  proof (cases "\<exists>x \<in> set ?c. do_latest (snd x)")
    case True
    then have "do_latest ld" using cl(2) by auto
    then have le: "do_version d \<le> do_version ld"
      using versions_soundD(4) [OF ok conjunct1 [OF ld] d(1)] ld d(2) by simp
    moreover have "k = lk" if "do_latest d"
    proof -
      have "do_version ld \<le> do_version d"
        using versions_soundD(4) [OF ok d(1) conjunct1 [OF ld]] ld d(2) that by simp
      with le versions_soundD(3) [OF ok d(1) conjunct1 [OF ld]] ld d(2) show ?thesis by simp
    qed
    ultimately show ?thesis by blast
  next
    case False
    with cl(3) [of "(k, d)"] d have "do_version d \<le> do_version ld" by (simp add: mem del: set_filter)
    moreover have "\<not> do_latest d" using False d mem [of k d] by force
    ultimately show ?thesis by blast
  qed
qed

lemma doc_effect_versions:
  assumes "doc_effect env s s'" and inv: "doc_inv env s" and ok: "versions_sound (dd_docs s)"
  shows "versions_sound (dd_docs s')"
  using assms(1)
proof cases
  case (Row k d d' e)
  then show ?thesis using versions_row [OF ok Row(1)] by (simp add: row_event_def same_version_def version_kept_def)
next
  case (Upload k d)
  have "versions_sound (tput k d (dd_docs s))"
    by (rule versions_new [OF ok]) (use Upload fresh_row [OF inv] no_chain_yet [OF ok fresh_row [OF inv]]
        in \<open>auto simp: rooted_def chain_of_def\<close>)
  with Upload show ?thesis by simp
next
  case (Version v rk rt lk ld n e)
  note top = current_latest_top [OF ok doc_invD(1) [OF inv] Version(2-4)]
  let ?t = "tput lk (ld\<lparr>do_latest := False\<rparr>) (dd_docs s)"
  have new: "tget (dd_docs s) v = None" using fresh_row [OF inv] Version(1) by simp
  have lk: "lk \<noteq> v" using top(1) new by auto
  have t: "tget ?t k = Some d \<longleftrightarrow> (if k = lk then d = ld\<lparr>do_latest := False\<rparr> else tget (dd_docs s) k = Some d)" for k d
    by (auto simp: tget_tput)
  have base: "\<exists>rt'. tget ?t rk = Some rt' \<and> do_root rt' = None"
    using Version(2,3) top(1) by (auto simp: tget_tput)
  have sound: "versions_sound ?t" by (rule versions_row [OF ok top(1)]) (simp add: version_kept_def)
  have "versions_sound (tput v n ?t)"
  proof (rule versions_new [OF sound])
    show "tget ?t v = None" using new lk by (simp add: tget_tput)
    show "rooted ?t n" using base Version versions_soundD(2) [OF ok top(1)] by (simp add: rooted_def)
    show "do_root n \<noteq> Some v" using Version(2,7) new by auto
    show "do_version d < do_version n \<and> \<not> do_latest d" if "tget ?t k = Some d" "chain_of k d = chain_of v n" for k d
      using that top(3) [of k] Version(7,8)
      by (auto simp: t chain_of_def less_Suc_eq_le split: if_splits option.splits)
  qed
  with Version show ?thesis by simp
next
  case (Remove gone)
  have tok': "tok (dd_docs s')" unfolding Remove(1) by (rule tok_filter [OF doc_invD(1) [OF inv]])
  show ?thesis
    by (rule versions_subset [OF ok])
      (use Remove tok' doc_invD(1) [OF inv] in \<open>simp_all add: tget_iff\<close>)
qed (simp_all add: ok)

end
