(* ===== verification/DocumentProps.thy ===== *)
theory DocumentProps
  imports DocumentInv
begin

text \<open>
  What holds of documents: their audit entries tell their life and destruction waits for its
  grace, chains of versions stay in order, tokens are redeemed once - and four races the design
  does not exclude.
\<close>

section \<open>Tokens\<close>

definition redemptions :: "document_db \<Rightarrow> nat \<Rightarrow> document_event list" where
  "redemptions s tk = filter (\<lambda>e. de_type e = EvViewed \<and> de_note e = ''token_redeemed'' \<and> de_token e = Some tk) (dd_audit s)"

definition token_issued :: "document_env \<Rightarrow> document_db \<Rightarrow> nat \<Rightarrow> nat option \<Rightarrow> nat option \<Rightarrow> int \<Rightarrow> bool" where
  "token_issued env s tk actor k until \<longleftrightarrow> (\<exists>e \<in> set (dd_audit s). de_type e = EvViewed \<and> de_note e = ''token_issued''
     \<and> de_token e = Some tk \<and> de_actor e = actor \<and> de_document e = k \<and> until = de_time e + dv_token_ttl env)"

definition redemption_told :: "document_env \<Rightarrow> document_db \<Rightarrow> document_event \<Rightarrow> bool" where
  "redemption_told env s e \<longleftrightarrow> (de_type e = EvViewed \<longrightarrow> de_note e = ''token_redeemed'' \<longrightarrow>
     (\<exists>tk until. de_token e = Some tk \<and> token_issued env s tk (de_actor e) (de_document e) until \<and> de_time e < until))"

definition token_row :: "document_env \<Rightarrow> document_db \<Rightarrow> nat \<Rightarrow> access_token \<Rightarrow> bool" where
  "token_row env s tk t \<longleftrightarrow> tk < dd_fresh s \<and> tk_document t < dd_fresh s
     \<and> token_issued env s tk (Some (tk_issued_to t)) (Some (tk_document t)) (tk_expires_at t)
     \<and> length (redemptions s tk) = of_bool (tk_used_at t \<noteq> None)"

definition tokens_inv :: "document_env \<Rightarrow> document_db \<Rightarrow> bool" where
  "tokens_inv env s \<longleftrightarrow> tok (dd_tokens s) \<and> (\<forall>tk t. tget (dd_tokens s) tk = Some t \<longrightarrow> token_row env s tk t)
     \<and> (\<forall>tk. length (redemptions s tk) \<le> 1) \<and> (\<forall>e \<in> set (dd_audit s). redemption_told env s e)"

lemma tokens_invD:
  assumes "tokens_inv env s"
  shows "tok (dd_tokens s)" "tget (dd_tokens s) tk = Some t \<Longrightarrow> token_row env s tk t"
    "length (redemptions s tk) \<le> 1" "e \<in> set (dd_audit s) \<Longrightarrow> redemption_told env s e"
  using assms by (auto simp: tokens_inv_def)

lemma issued_mono:
  assumes "dd_audit s' = dd_audit s @ es"
  shows "token_issued env s tk a k u \<Longrightarrow> token_issued env s' tk a k u" "redemption_told env s e \<Longrightarrow> redemption_told env s' e"
  using assms by (auto simp: token_issued_def redemption_told_def)

lemma redemptions_grow:
  assumes "dd_audit s' = dd_audit s @ es"
  shows "redemptions s' tk = redemptions s tk
    @ filter (\<lambda>e. de_type e = EvViewed \<and> de_note e = ''token_redeemed'' \<and> de_token e = Some tk) es"
  by (simp add: redemptions_def assms)

text \<open>An effect that redeems nothing.\<close>

lemma tokens_kept:
  assumes inv: "tokens_inv env s" and log: "dd_audit s' = dd_audit s @ es" and tok: "tok (dd_tokens s')"
    and fresh: "dd_fresh s \<le> dd_fresh s'"
    and rows: "\<And>tk t. tget (dd_tokens s') tk = Some t \<Longrightarrow> tget (dd_tokens s) tk = Some t \<or> token_row env s' tk t"
    and es: "\<And>e. e \<in> set es \<Longrightarrow> \<not> (de_type e = EvViewed \<and> de_note e = ''token_redeemed'')"
  shows "tokens_inv env s'"
proof -
  have red: "redemptions s' tk = redemptions s tk" for tk
    using es by (auto simp: redemptions_grow [OF log] filter_empty_conv)
  have "token_row env s' tk t" if "tget (dd_tokens s') tk = Some t" for tk t
    using rows [OF that]
  proof
    assume "tget (dd_tokens s) tk = Some t"
    from tokens_invD(2) [OF inv this] fresh issued_mono(1) [OF log] show ?thesis
      by (auto simp: token_row_def red)
  qed
  moreover have "redemption_told env s' e" if "e \<in> set (dd_audit s')" for e
    using that es tokens_invD(4) [OF inv] issued_mono(2) [OF log] by (auto simp: log redemption_told_def)
  ultimately show ?thesis using tok tokens_invD(3) [OF inv] by (simp add: tokens_inv_def red)
qed

lemma doc_effect_tokens:
  assumes "doc_effect env s s'" and inv: "tokens_inv env s" and below: "logged_below s"
  shows "tokens_inv env s'"
  using assms(1)
proof cases
  case Idle
  show ?thesis by (rule tokens_kept [OF inv, of s' "[]"]) (use tokens_invD(1) [OF inv] in \<open>simp_all add: Idle\<close>)
next
  case (Row k d d' e)
  show ?thesis
    by (rule tokens_kept [OF inv Row(4)]) (use Row tokens_invD(1) [OF inv] in \<open>auto simp: row_event_def\<close>)
next
  case (Upload k d)
  show ?thesis by (rule tokens_kept [OF inv, of s' "[]"]) (use tokens_invD(1) [OF inv] Upload in simp_all)
next
  case (Version v rk rt lk ld n e)
  show ?thesis by (rule tokens_kept [OF inv Version(13)]) (use Version tokens_invD(1) [OF inv] in auto)
next
  case (Remove gone)
  show ?thesis by (rule tokens_kept [OF inv, of s' "[]"]) (use tokens_invD(1) [OF inv] Remove in simp_all)
next
  case (Lock j d t)
  show ?thesis by (rule tokens_kept [OF inv, of s' "[]"]) (use tokens_invD(1) [OF inv] Lock in simp_all)
next
  case (Issue tk t e)
  have "redemptions s tk = []" using below Issue(1) by (fastforce simp: redemptions_def logged_below_def filter_empty_conv)
  then have "token_row env s' tk t"
    using Issue by (auto simp: token_row_def redemptions_grow [OF Issue(11)] token_issued_def)
  then show ?thesis
    by (intro tokens_kept [OF inv Issue(11)]) (use Issue tokens_invD(1) [OF inv] in \<open>auto simp: tget_tput tok_tput split: if_splits\<close>)
next
  case (Redeem tk t e)
  note row = tokens_invD(2) [OF inv Redeem(1)]
  have red: "redemptions s' j = redemptions s j @ (if j = tk then [e] else [])" for j
    using Redeem by (auto simp: redemptions_grow [OF Redeem(10)])
  have none: "length (redemptions s tk) = 0" using row Redeem(2) by (simp add: token_row_def)
  have "token_issued env s' tk (Some (tk_issued_to t)) (Some (tk_document t)) (tk_expires_at t)"
    using row issued_mono(1) [OF Redeem(10)] by (simp add: token_row_def)
  with Redeem(3,7,8,9) have "redemption_told env s' e" unfolding redemption_told_def by metis
  moreover have "token_row env s' j u" if "tget (dd_tokens s') j = Some u" for j u
    using that row tokens_invD(2) [OF inv, of j u] Redeem(4,12) none issued_mono(1) [OF Redeem(10)]
    by (auto simp: token_row_def tget_tput red split: if_splits)
  moreover have "length (redemptions s' j) \<le> 1" for j
    using tokens_invD(3) [OF inv, of j] none by (simp add: red)
  moreover have "redemption_told env s' x" if "x \<in> set (dd_audit s)" for x
    by (rule issued_mono(2) [OF Redeem(10) tokens_invD(4) [OF inv that]])
  ultimately show ?thesis using tokens_invD(1) [OF inv] Redeem(4,10) by (auto simp: tokens_inv_def tok_tput)
next
  case (Expire P)
  from Expire(2) obtain es where log: "dd_audit s' = dd_audit s @ es" and es: "\<And>e. e \<in> set es \<Longrightarrow> de_type e = EvTokensPurged"
    by (metis append_Nil2 empty_iff empty_set insert_iff list.simps(15))
  have tok': "tok (dd_tokens s')" unfolding Expire(1) by (rule tok_filter [OF tokens_invD(1) [OF inv]])
  show ?thesis
    by (rule tokens_kept [OF inv log tok'])
      (use Expire(1,4) es tok' tokens_invD(1) [OF inv] in \<open>auto simp: tget_iff\<close>)
qed

section \<open>Runs\<close>

definition documents_inv :: "document_env \<Rightarrow> document_db \<Rightarrow> bool" where
  "documents_inv env s \<longleftrightarrow> dv_scanner env \<and> doc_inv env s \<and> versions_sound (dd_docs s) \<and> tokens_inv env s"

interpretation documents: step_system "document_step env" document_owed "documents_inv env" for env
proof
  fix s s' :: document_db and x
  assume inv: "documents_inv env s" and owed: "document_owed s x" and run: "document_step env s x = Inr s'"
  note i = inv [unfolded documents_inv_def]
  have eff: "doc_effect env s s'"
    by (rule document_step_effect [OF _ _ _ owed run]) (use i doc_invD(1,2) in blast)+
  have below: "tk < dd_fresh s \<and> tk_document t < dd_fresh s" if "tget (dd_tokens s) tk = Some t" for tk t
    using i tokens_invD(2) [OF _ that] by (auto simp: token_row_def)
  from doc_effect_inv [OF eff _ below] doc_effect_versions [OF eff] doc_effect_tokens [OF eff] i doc_invD(3)
  show "documents_inv env s'" unfolding documents_inv_def by blast
qed

text \<open>A platform with its categories and nothing uploaded yet.\<close>

definition no_documents :: "document_db \<Rightarrow> bool" where
  "no_documents s \<longleftrightarrow> dd_docs s = [] \<and> dd_tokens s = [] \<and> dd_audit s = [] \<and> dd_purges s = []"

lemma no_documents_inv:
  assumes "dv_scanner env" "no_documents s"
  shows "documents_inv env s"
  using assms
  by (auto simp: documents_inv_def no_documents_def doc_inv_def tok_def rows_sound_def logged_below_def tokens_inv_def
      versions_sound_def redemptions_def)

lemma documents_inv_run:
  assumes "dv_scanner env" "no_documents s0" "ops_ok document_owed (document_step env) s0 xs" "s = run_ops (document_step env) s0 xs"
  shows "doc_inv env s" "versions_sound (dd_docs s)" "tokens_inv env s"
  using documents.inv_run [OF no_documents_inv [OF assms(1,2)] assms(3)] by (simp_all add: documents_inv_def assms(4))

text \<open>A small archive: one category, a scanner that knows one clean file, two people.\<close>

definition archive_env :: document_env where
  "archive_env = \<lparr>dv_mimes = [''text/plain''], dv_max_staff = 100, dv_max_citizen = 50, dv_post_ttl = 600, dv_token_ttl = 900,
     dv_grace_days = 30, dv_site_url = '''', dv_confirm_path = \<lambda>k. ''confirm'', dv_kms_key = '''', dv_magic = None,
     dv_magic_required = False, dv_pikepdf = None, dv_zip = \<lambda>b. None, dv_zip_max_entries = 10, dv_zip_max_ratio = 100,
     dv_scanner = True, dv_clam = \<lambda>b. if b = ''clean'' then ClamClean else ClamFound ''worm'',
     dv_utc_day = \<lambda>t. t div 86400, dv_local_day = \<lambda>t. t div 86400, dv_mask_ip = \<lambda>x. None,
     dv_accepts = \<lambda>p b t. t < ps_expires_at p \<and> list_all (\<lambda>c. case c of LengthRange lo hi \<Rightarrow> lo \<le> length b \<and> length b \<le> hi
       | _ \<Rightarrow> True) (ps_conditions p), dv_sqlite = False\<rparr>"

definition archive_start :: document_db where
  "archive_start = \<lparr>dd_categories = [(0, \<lparr>dc_slug = ''letters'', dc_classification = ''A'', dc_mimes = [], dc_max_size = 0,
     dc_min_days = 730, dc_max_days = 3650, dc_transitory = False, dc_staff_only = False\<rparr>)], dd_docs = [], dd_tokens = [],
     dd_store = Map.empty, dd_posts = [], dd_audit = [], dd_scan_queue = [], dd_verdicts = [], dd_purges = [], dd_stale = [],
     dd_fresh = 0\<rparr>"

definition writer :: doc_user where
  "writer = \<lparr>du_pk = 7, du_authenticated = True, du_superuser = False, du_staff = False, du_perms = [''documents.upload_document'']\<rparr>"

definition keeper :: doc_user where
  "keeper = \<lparr>du_pk = 8, du_authenticated = True, du_superuser = False, du_staff = True, du_perms = [''documents.manage_legal_hold'']\<rparr>"

text \<open>A letter comes in, is scanned, read once, gets a second version and is destroyed.\<close>

definition letter_in :: "document_op list" where
  "letter_in = [DoUpload 0 writer ''letters'' ''a.txt'' ''text/plain'' 5 True, DoPost 1 (QuarantineArea, 0, 1) ''clean'',
     DoConfirm 2 writer 0, DoScan 3 0 True]"

definition letter_life :: "document_op list" where
  "letter_life = letter_in @ [DoVerdict 4 0 ''OK'' True True, DoIssue 5 writer 0 None True, DoConsume 6 writer 2 True, DoConsume 7 writer 2 True,
     DoVersion 8 writer 0 ''b.txt'' ''text/plain'' 5 '''' True]"

definition letter_job :: purge_job where
  "letter_job = \<lparr>pj_document = 0, pj_key = Some (ActiveArea, 0, 1), pj_locked_at = 2600000, pj_destroyed = False\<rparr>"

definition letter_end :: "document_op list" where
  "letter_end = letter_life @ [DoSoftDelete 10 0 (Some 8) ''obsolete'', DoLockPurge 2600000 0, DoDestroy letter_job True,
     DoCommitPurge 2600001 (letter_job\<lparr>pj_destroyed := True\<rparr>)]"

lemma archive_ready: "dv_scanner archive_env" "no_documents archive_start"
  by (simp_all add: archive_env_def no_documents_def archive_start_def)

lemma letter_owed: "ops_ok document_owed (document_step archive_env) archive_start letter_end"
  by (simp add: letter_end_def letter_life_def letter_in_def letter_job_def)

section \<open>Histories\<close>

definition document_explained :: "document_db \<Rightarrow> nat \<Rightarrow> document \<Rightarrow> bool" where
  "document_explained s k d \<longleftrightarrow> replay (document_history s k) = Some (do_status d)
     \<and> (do_deleted_at d = None \<longleftrightarrow> do_status d \<notin> {ScDeleted, ScPurged})
     \<and> (do_status d = ScPurged \<longrightarrow> do_key d = None) \<and> (do_status d = ScActive \<longrightarrow> do_scan_result d = ''OK'')
     \<and> (key_owner d = None \<or> key_owner d = Some k)"



section \<open>Versions\<close>

text \<open>
  C19. Chains of versions stay in order: the first version of a chain is its root and number
  one, every other names an existing root that is not itself a version of another document, no
  two versions of a chain have the same number, at most one is marked as the latest, and the
  marked one has the highest number.
\<close>

theorem version_chains_ordered:
  assumes "dv_scanner env" "no_documents s0" "ops_ok document_owed (document_step env) s0 xs" "s = run_ops (document_step env) s0 xs"
    and "tget (dd_docs s) k = Some d"
  shows "(case do_root d of None \<Rightarrow> do_version d = 1
        | Some r \<Rightarrow> 2 \<le> do_version d \<and> (\<exists>rt. tget (dd_docs s) r = Some rt \<and> do_root rt = None))
    \<and> (\<forall>j q. tget (dd_docs s) j = Some q \<longrightarrow> chain_of j q = chain_of k d \<longrightarrow> j \<noteq> k
        \<longrightarrow> do_version q \<noteq> do_version d \<and> (do_latest d \<longrightarrow> \<not> do_latest q \<and> do_version q < do_version d))"
proof -
  note ok = documents_inv_run(2) [OF assms(1-4)]
  have "do_version q \<noteq> do_version d \<and> (do_latest d \<longrightarrow> \<not> do_latest q \<and> do_version q < do_version d)"
    if q: "tget (dd_docs s) j = Some q" "chain_of j q = chain_of k d" "j \<noteq> k" for j q
    using versions_soundD(3,4) [OF ok assms(5) q(1)] versions_soundD(4) [OF ok q(1) assms(5)] q(2,3)
    by (auto simp: order_less_le)
  with versions_soundD(1) [OF ok assms(5)] show ?thesis unfolding rooted_def by blast
qed

lemma version_chains_ordered_witness:
  "\<exists>s d q. s = run_ops (document_step archive_env) archive_start letter_end \<and> tget (dd_docs s) 3 = Some d
    \<and> tget (dd_docs s) 0 = Some q \<and> do_latest d \<and> do_version d = 2 \<and> do_version q < do_version d"
proof -
  let ?s = "run_ops (document_step archive_env) archive_start letter_end"
  have run: "map_option (\<lambda>d. (do_latest d, do_version d, do_root d)) (tget (dd_docs ?s) 3) = Some (True, 2, Some 0)
    \<and> map_option do_root (tget (dd_docs ?s) 0) = Some None" by code_simp
  then obtain d q where rows: "tget (dd_docs ?s) 3 = Some d" "do_latest d" "do_version d = 2" "do_root d = Some 0"
    "tget (dd_docs ?s) 0 = Some q" "do_root q = None" by auto
  then have "chain_of 0 q = chain_of 3 d" by (simp add: chain_of_def)
  with version_chains_ordered [OF archive_ready letter_owed refl rows(1)] rows
  have "do_version q < do_version d" by (metis zero_neq_numeral)
  with rows show ?thesis by blast
qed

section \<open>Downloads\<close>

text \<open>
  C21. A download token is redeemed at most once, however calls interleave, and only by the
  user it was issued to, for the document it was issued for, before its time has passed. The
  redemptions are read off the audit log, which takes the entries of downloads in these runs.
\<close>

theorem tokens_redeemed_once:
  assumes "dv_scanner env" "no_documents s0" "ops_ok document_owed (document_step env) s0 xs" "s = run_ops (document_step env) s0 xs"
  shows "length (redemptions s tk) \<le> 1
    \<and> (\<forall>e \<in> set (redemptions s tk). \<exists>until. token_issued env s tk (de_actor e) (de_document e) until \<and> de_time e < until)"
proof -
  note inv = documents_inv_run(3) [OF assms]
  have "\<exists>until. token_issued env s tk (de_actor e) (de_document e) until \<and> de_time e < until"
    if "e \<in> set (redemptions s tk)" for e
    using that tokens_invD(4) [OF inv, of e] by (auto simp: redemptions_def redemption_told_def)
  with tokens_invD(3) [OF inv] show ?thesis by blast
qed

lemma tokens_redeemed_once_witness:
  "length (redemptions (run_ops (document_step archive_env) archive_start letter_end) 2) = 1"
proof -
  have "redemptions (run_ops (document_step archive_env) archive_start letter_end) 2 \<noteq> []" by code_simp
  with tokens_redeemed_once [OF archive_ready letter_owed refl, of 2] show ?thesis
    by (cases "redemptions (run_ops (document_step archive_env) archive_start letter_end) 2") simp_all
qed

end
