(* ===== verification/DocumentRaces.thy ===== *)
theory DocumentRaces
  imports DocumentProps
begin

text \<open>
  Legal holds, the clean-up of uploads that never arrived, and three interleavings of steps that
  the locks of the services do not exclude.
\<close>

section \<open>Holds\<close>

definition on_hold :: "document_db \<Rightarrow> nat \<Rightarrow> bool" where
  "on_hold s k \<longleftrightarrow> (\<exists>d. tget (dd_docs s) k = Some d \<and> do_hold d \<and> do_deleted_at d = None
     \<and> do_status d \<in> {ScScanning, ScActive, ScQuarantined})"

fun releases :: "nat \<Rightarrow> document_op \<Rightarrow> bool" where
  "releases k (DoRelease now j u reason) = (j = k)"
| "releases k x = False"

lemma on_hold_other: "on_hold s k \<Longrightarrow> tget (dd_docs s') k = tget (dd_docs s) k \<Longrightarrow> on_hold s' k"
  by (simp add: on_hold_def)

lemma on_hold_put:
  assumes "on_hold s k" "tget (dd_docs s) j = Some d" "dd_docs s' = tput j d' (dd_docs s)"
    and "j = k \<Longrightarrow> do_hold d \<Longrightarrow> do_hold d' \<and> do_deleted_at d' = do_deleted_at d
      \<and> (do_status d' = do_status d \<or> do_status d' \<in> {ScScanning, ScActive, ScQuarantined})"
  shows "on_hold s' k"
  using assms by (cases "j = k") (auto simp: on_hold_def tget_tput)

lemma on_hold_scan:
  assumes "on_hold s k"
  shows "on_hold (quarantine_on_scan_failure s now j exc) k"
    "on_hold (mark_quarantined_clamav s now j virus removed) k"
    "mark_active_dev_bypass s now j = Inr s' \<Longrightarrow> on_hold s' k"
    "mark_active_clamav s now j copied removed = Inr s' \<Longrightarrow> on_hold s' k"
  using assms
  by (auto simp: quarantine_on_scan_failure_def mark_quarantined_clamav_def mark_active_dev_bypass_def mark_active_clamav_def
      promote_object_def quarantine_row_def put_doc_def doc_event_def Let_def on_hold_def tget_tput
      split: option.splits if_splits sum.splits prod.splits)

lemma on_hold_verdicts: "on_hold s k \<Longrightarrow> on_hold (s\<lparr>dd_verdicts := vs\<rparr>) k"
  by (simp add: on_hold_def)

lemma hold_step:
  assumes hold: "on_hold s k" and inv: "documents_inv env s" and run: "document_step env s x = Inr s'" and no: "\<not> releases k x"
  shows "on_hold s' k"
proof -
  have tok: "tok (dd_docs s)" and rows: "rows_sound s" using inv doc_invD(1,2) by (auto simp: documents_inv_def)
  from hold obtain h where h: "tget (dd_docs s) k = Some h" by (auto simp: on_hold_def)
  with rows have fresh: "k \<noteq> dd_fresh s" by (auto simp: rows_sound_def)
  show ?thesis
  proof (cases x)
    case (DoUpload now u slug filename mime sz presigned)
    with run fresh show ?thesis
      by (intro on_hold_other [OF hold]) (auto simp: validate_upload_request_def map_sum_Inr_iff put_doc_def Let_def tget_tput
          split: option.splits prod.splits if_splits)
  next
    case (DoVersion now u j filename mime sz description presigned)
    with run obtain v where "create_new_version env s now u j filename mime sz description presigned = Inr (s', v)"
      by (auto simp: map_sum_Inr_iff)
    then obtain rk lk ld n where latest: "current_latest (filter (in_chain rk) (dd_docs s)) = Some (lk, ld)"
      and s': "dd_docs s' = tput (dd_fresh s) n (tput lk (ld\<lparr>do_latest := False\<rparr>) (dd_docs s))"
      by (auto simp: create_new_version_def Let_def doc_event_def put_doc_def split: option.splits prod.splits if_splits)
    have "tget (dd_docs s) lk = Some ld" using current_latest_row(1) [OF latest] by (simp add: tget_iff [OF tok])
    with hold fresh show ?thesis by (auto simp: on_hold_def s' tget_tput)
  next
    case DoSweepRows
    with run have "dd_docs s' = filter (\<lambda>kd. \<not> (fst kd \<in> set (map fst (dd_stale s)) \<and> do_status (snd kd) = ScPendingUpload)) (dd_docs s)"
      by (auto simp: sweep_rows_def delete_pending_rows_def Let_def simp del: list_ex_iff split: if_splits)
    then have "tget (dd_docs s') k = Some h" if "do_status h \<noteq> ScPendingUpload"
      using h that by (simp add: tget_iff [OF tok] tget_iff [OF tok_filter [OF tok]] del: set_map)
    with hold h show ?thesis by (auto simp: on_hold_def)
  next
    case (DoVerdict now j verdict copied removed)
    let ?s1 = "s\<lparr>dd_verdicts := remove1 (j, verdict) (dd_verdicts s)\<rparr>"
    have "on_hold (commit ?s1 (mark_active_clamav ?s1 now j copied removed)) k"
      using on_hold_scan(4) [OF on_hold_verdicts [OF hold]] on_hold_verdicts [OF hold]
      by (cases "mark_active_clamav ?s1 now j copied removed") simp_all
    with DoVerdict run on_hold_scan(2) [OF on_hold_verdicts [OF hold]] show ?thesis
      by (auto simp: record_verdict_def Let_def split: if_splits)
  next
    case (DoScan now j removed)
    with run on_hold_scan(2,3) [OF hold] on_hold_verdicts [OF hold] hold show ?thesis
      by (auto simp: scan_document_def split: option.splits if_splits clam_answer.splits)
  next
    case (DoScanFailed now j exc)
    with run on_hold_scan(1) [OF hold] show ?thesis by auto
  next
    case (DoConfirm now u j)
    with run hold show ?thesis
      by (auto simp: confirm_upload_def on_hold_def put_doc_def doc_event_def tget_tput split: option.splits if_splits sum.splits)
  qed (use run hold no in \<open>auto simp: on_hold_scan browser_post_def soft_delete_def mark_purpose_fulfilled_def apply_legal_hold_def
      release_legal_hold_def hard_delete_lock_def hard_delete_store_def hard_delete_commit_def sweep_snapshot_def
      sweep_objects_def issue_access_token_def consume_access_token_def purge_expired_tokens_def
      on_hold_def put_doc_def doc_event_def Let_def map_sum_Inr_iff tget_tput
      split: option.splits if_splits prod.splits\<close>)
qed

text \<open>
  C12. A legal hold keeps a document: from a state where a document that was received and not
  deleted is on hold, no sequence of service calls and worker steps without a release of this
  hold deletes, purges or removes it.
\<close>

theorem hold_protects_document:
  assumes "documents_inv env s" "on_hold s k" "ops_ok document_owed (document_step env) s xs" "\<forall>x \<in> set xs. \<not> releases k x"
  shows "on_hold (run_ops (document_step env) s xs) k"
  using assms
proof (induction xs arbitrary: s)
  case (Cons x xs)
  have "documents_inv env (commit s (document_step env s x))"
    using Cons.prems(1,3) by (intro documents.inv_commit) simp_all
  moreover have "on_hold (commit s (document_step env s x)) k"
    using hold_step [OF Cons.prems(2,1)] Cons.prems(2,4) by (cases "document_step env s x") simp_all
  ultimately show ?case using Cons.IH Cons.prems(3,4) by simp
qed simp

lemma hold_protects_document_witness:
  "\<exists>s. s = run_ops (document_step archive_env) archive_start (letter_in @ [DoHold 4 0 keeper ''case 12''])
    \<and> on_hold (run_ops (document_step archive_env) s [DoVerdict 5 0 ''OK'' True True, DoSoftDelete 6 0 None '''',
        DoFulfil 7 0 (Some 8), DoLockPurge 9999999 0]) 0"
proof -
  let ?xs = "letter_in @ [DoHold 4 0 keeper ''case 12'']"
  let ?s = "run_ops (document_step archive_env) archive_start ?xs"
  have inv: "documents_inv archive_env ?s"
    by (rule documents.inv_run [OF no_documents_inv [OF archive_ready]]) (simp add: letter_in_def)
  have "map_option (\<lambda>d. (do_hold d, do_deleted_at d, do_status d)) (tget (dd_docs ?s) 0) = Some (True, None, ScScanning)"
    by code_simp
  then have "on_hold ?s 0" by (auto simp: on_hold_def)
  from hold_protects_document [OF inv this, of "[DoVerdict 5 0 ''OK'' True True, DoSoftDelete 6 0 None '''',
        DoFulfil 7 0 (Some 8), DoLockPurge 9999999 0]"] show ?thesis
    by (simp del: run_ops.simps document_step.simps)
qed

text \<open>
  C36. A hold that comes while a destruction is under way does not stop it: between the lock of
  \<open>hard_delete\<close> and its deletion of the object the row is free, the hold is accepted and
  logged, and the object and the key are destroyed all the same.
\<close>

theorem hold_misses_running_purge:
  assumes d: "tget (dd_docs s) k = Some d" "do_status d = ScDeleted" "do_deleted_at d = Some t" "\<not> do_hold d" "do_key d = Some x"
    and grace: "t + doc_day * dv_grace_days env \<le> now"
    and u: "du_has_perm u ''documents.manage_legal_hold''"
    and j: "j = \<lparr>pj_document = k, pj_key = Some x, pj_locked_at = now, pj_destroyed = False\<rparr>" "j \<notin> set (dd_purges s)"
    and s': "s' = run_ops (document_step env) s [DoLockPurge now k, DoHold later k u reason, DoDestroy j True,
      DoCommitPurge later' (j\<lparr>pj_destroyed := True\<rparr>)]"
  shows "dd_store s' x = None \<and> tget (dd_docs s') k = Some (d\<lparr>do_hold := True, do_hold_reason := reason,
      do_hold_by := Some (du_pk u), do_key := None, do_status := ScPurged\<rparr>)
    \<and> (\<exists>e \<in> set (dd_audit s'). de_type e = EvHoldApplied \<and> de_document e = Some k \<and> de_time e = later)"
proof -
  have "document_step env s (DoLockPurge now k) = Inr (s\<lparr>dd_purges := dd_purges s @ [j]\<rparr>)"
    using d grace by (simp add: hard_delete_lock_def j)
  with d u j(2) show ?thesis
    by (simp add: s' apply_legal_hold_def hard_delete_store_def hard_delete_commit_def doc_event_def put_doc_def
        erase_object_def tget_tput remove1_append Let_def j(1))
qed

lemma hold_misses_running_purge_witness:
  "\<exists>s s' d. s = run_ops (document_step archive_env) archive_start (letter_life @ [DoSoftDelete 10 0 (Some 8) ''obsolete''])
    \<and> s' = run_ops (document_step archive_env) s [DoLockPurge 2600000 0, DoHold 2600001 0 keeper ''case 12'',
        DoDestroy letter_job True, DoCommitPurge 2600002 (letter_job\<lparr>pj_destroyed := True\<rparr>)]
    \<and> stored s (Some (ActiveArea, 0, 1)) = Some ''clean'' \<and> stored s' (Some (ActiveArea, 0, 1)) = None
    \<and> tget (dd_docs s') 0 = Some d \<and> do_hold d \<and> do_status d = ScPurged"
proof -
  let ?s = "run_ops (document_step archive_env) archive_start (letter_life @ [DoSoftDelete 10 0 (Some 8) ''obsolete''])"
  have run: "(let s = ?s in (map_option (\<lambda>d. (do_status d, do_deleted_at d, do_hold d, do_key d)) (tget (dd_docs s) 0),
      stored s (Some (ActiveArea, 0, 1)), dd_purges s))
    = (Some (ScDeleted, Some 10, False, Some (ActiveArea, 0, 1)), Some ''clean'', [])" by code_simp
  then obtain d where d: "tget (dd_docs ?s) 0 = Some d" "do_status d = ScDeleted" "do_deleted_at d = Some 10" "\<not> do_hold d"
    "do_key d = Some (ActiveArea, 0, 1)" by (auto simp: Let_def)
  have g: "10 + doc_day * dv_grace_days archive_env \<le> 2600000" by (simp add: doc_day_def archive_env_def)
  have u: "du_has_perm keeper ''documents.manage_legal_hold''" by (simp add: keeper_def du_has_perm_def)
  from hold_misses_running_purge [OF d g u letter_job_def _ refl] run show ?thesis by (auto simp: Let_def stored_def)
qed

section \<open>Scans\<close>

text \<open>
  C37. The bytes that become active need not be those that were scanned: when the uploader posts
  once more, under the policy that is still valid, between the scanner's reading of a clean
  object and the recording of its verdict, the new bytes - whatever the scanner would say of
  them - are copied to the active area and can be downloaded.
\<close>

theorem unscanned_bytes_become_active:
  assumes scanner: "dv_scanner env"
    and d: "tget (dd_docs s) k = Some d" "do_status d = ScScanning" "do_deleted_at d = None" "do_key d = Some (QuarantineArea, k, f)"
    and clean: "dd_store s (QuarantineArea, k, f) = Some a" "dv_clam env a = ClamClean"
    and p: "p \<in> set (dd_posts s)" "ps_key p = (QuarantineArea, k, f)" "dv_accepts env p b later"
    and u: "user_may_download u d"
    and s': "s' = run_ops (document_step env) s [DoScan now k r, DoPost later (QuarantineArea, k, f) b, DoVerdict later' k ''OK'' True r]"
  shows "stored s' (Some (ActiveArea, k, f)) = Some b
    \<and> (\<exists>d'. tget (dd_docs s') k = Some d' \<and> do_status d' = ScActive \<and> do_scan_result d' = ''OK'' \<and> do_key d' = Some (ActiveArea, k, f))
    \<and> (\<exists>t tk. issue_access_token env s' at_last u k None logged = Inr (t, tk))"
proof -
  have scan: "scan_document env s now k r = Inr (s\<lparr>dd_verdicts := dd_verdicts s @ [(k, ''OK'')]\<rparr>)"
    using scanner d clean by (simp add: scan_document_def stored_def)
  have post: "browser_post env t later (QuarantineArea, k, f) b = Inr (t\<lparr>dd_store := (dd_store t)((QuarantineArea, k, f) \<mapsto> b)\<rparr>)"
    if "dd_posts t = dd_posts s" for t
    using p that by (auto simp: browser_post_def list_ex_iff)
  have "s' = (let s1 = doc_event EvStatusChanged (Some k) None None ''OK'' later'
        (put_doc k (d\<lparr>do_status := ScActive, do_scanned_at := Some later', do_scan_result := ''OK'', do_key := Some (ActiveArea, k, f)\<rparr>)
          (s\<lparr>dd_verdicts := remove1 (k, ''OK'') (dd_verdicts s @ [(k, ''OK'')]),
             dd_store := (dd_store s)((QuarantineArea, k, f) \<mapsto> b, (ActiveArea, k, f) \<mapsto> b)\<rparr>))
      in if r then erase_object (Some (QuarantineArea, k, f)) s1 else s1)"
    using d by (simp add: s' scan post record_verdict_def mark_active_clamav_def promote_object_def promoted_key_def Let_def)
  moreover have "user_may_download u d'" if "do_uploaded_by d' = do_uploaded_by d" for d'
  proof -
    have "user_may_download u d' = user_may_download u d" using that by (simp add: user_may_download_def)
    with u show ?thesis by simp
  qed
  ultimately show ?thesis
    using d(3) by (cases r) (simp_all add: stored_def erase_object_def doc_event_def put_doc_def tget_tput
        issue_access_token_def Let_def)
qed

lemma unscanned_bytes_become_active_witness:
  "\<exists>s s'. s = run_ops (document_step archive_env) archive_start (take 3 letter_in)
    \<and> s' = run_ops (document_step archive_env) s [DoScan 3 0 True, DoPost 4 (QuarantineArea, 0, 1) ''worm'', DoVerdict 5 0 ''OK'' True True]
    \<and> stored s' (Some (ActiveArea, 0, 1)) = Some ''worm'' \<and> dv_clam archive_env ''worm'' = ClamFound ''worm''"
proof -
  let ?s = "run_ops (document_step archive_env) archive_start (take 3 letter_in)"
  have run: "(let s = ?s in (map_option (\<lambda>d. (do_status d, do_deleted_at d, do_key d, do_uploaded_by d)) (tget (dd_docs s) 0),
      stored s (Some (QuarantineArea, 0, 1)), map (\<lambda>p. (ps_key p, dv_accepts archive_env p ''worm'' 4)) (dd_posts s)))
    = (Some (ScScanning, None, Some (QuarantineArea, 0, 1), 7), Some ''clean'', [((QuarantineArea, 0, 1), True)])" by code_simp
  then obtain d p where d: "tget (dd_docs ?s) 0 = Some d" "do_status d = ScScanning" "do_deleted_at d = None"
      "do_key d = Some (QuarantineArea, 0, 1)" "do_uploaded_by d = 7" "dd_store ?s (QuarantineArea, 0, 1) = Some ''clean''"
    and p: "p \<in> set (dd_posts ?s)" "ps_key p = (QuarantineArea, 0, 1)" "dv_accepts archive_env p ''worm'' 4"
    by (auto simp: Let_def stored_def)
  have clam: "dv_clam archive_env ''clean'' = ClamClean" "dv_clam archive_env ''worm'' = ClamFound ''worm''"
    by (simp_all add: archive_env_def)
  have u: "user_may_download writer d" using d(5) by (simp add: user_may_download_def writer_def du_has_perm_def)
  from unscanned_bytes_become_active [OF archive_ready(1) d(1-4,6) clam(1) p u refl] clam(2) show ?thesis by blast
qed

section \<open>The clean-up\<close>

lemma delete_pending_rows_docs:
  assumes "delete_pending_rows ks s = Inr (s', n)"
  shows "dd_docs s' = filter (\<lambda>kd. \<not> (fst kd \<in> set ks \<and> do_status (snd kd) = ScPendingUpload)) (dd_docs s)"
  using assms by (auto simp: delete_pending_rows_def Let_def simp del: list_ex_iff split: if_splits)

lemma cleanup_chunks_docs:
  assumes "cleanup_chunks reached chs s = (t, Some n)"
  shows "dd_docs t = filter (\<lambda>kd. \<not> (fst kd \<in> fst ` set (concat chs) \<and> do_status (snd kd) = ScPendingUpload)) (dd_docs s)"
  using assms
proof (induction chs arbitrary: s n)
  case (Cons ch chs)
  let ?s1 = "purge_objects reached (map snd ch) s"
  from Cons.prems obtain s2 m i where del: "delete_pending_rows (map fst ch) ?s1 = Inr (s2, m)"
    and rest: "cleanup_chunks reached chs s2 = (t, Some i)"
    by (auto simp: Let_def split: sum.splits prod.splits)
  from Cons.IH [OF rest] delete_pending_rows_docs [OF del] show ?case
    by (auto simp: filter_filter intro!: filter_cong)
qed simp

lemma concat_chunks: "0 < n \<Longrightarrow> concat (chunks_of n xs) = xs"
proof (induction n xs rule: chunks_of.induct)
  case (1 n xs)
  then show ?case by (subst chunks_of.simps) (auto simp: append_take_drop_id)
qed

text \<open>A run that ends normally has removed the rows whose upload is overdue, and no others.\<close>

lemma cleanup_removes_stale_uploads:
  assumes tok: "tok (dd_docs s)" and run: "cleanup_stale_pending_uploads env s now reached = (t, Some n)"
  shows "dd_docs t = filter (\<lambda>kd. \<not> stale_upload env now (snd kd)) (dd_docs s)"
proof -
  have "fst kd \<in> fst ` set (stale_uploads env s now) \<and> do_status (snd kd) = ScPendingUpload \<longleftrightarrow> stale_upload env now (snd kd)"
    if kd: "kd \<in> set (dd_docs s)" for kd
  proof
    assume "fst kd \<in> fst ` set (stale_uploads env s now) \<and> do_status (snd kd) = ScPendingUpload"
    then obtain q where q: "(fst kd, q) \<in> set (dd_docs s)" "stale_upload env now q" by (auto simp: stale_uploads_def)
    with kd have "q = snd kd" using tget_iff [OF tok] by (metis option.inject prod.collapse)
    with q show "stale_upload env now (snd kd)" by simp
  next
    assume "stale_upload env now (snd kd)"
    with kd show "fst kd \<in> fst ` set (stale_uploads env s now) \<and> do_status (snd kd) = ScPendingUpload"
      by (force simp: stale_uploads_def stale_upload_def)
  qed
  with cleanup_chunks_docs [OF run [unfolded cleanup_stale_pending_uploads_def]] show ?thesis
    by (simp add: concat_chunks cleanup_chunk_def cong: filter_cong)
qed

text \<open>
  C38. A version whose upload never arrives hides the document: once the clean-up has removed its
  row, no version of the chain is marked as the latest, although every version that had been
  received is still there.
\<close>

theorem abandoned_version_hides_document:
  assumes inv: "documents_inv env s" and d0: "tget (dd_docs s) k = Some d0"
    and made: "create_new_version env s now u k filename mime sz description True = Inr (s1, v)"
    and late: "now + dv_post_ttl env + 300 \<le> later"
    and swept: "cleanup_stale_pending_uploads env s1 later reached = (s2, Some n)"
  shows "(\<forall>j d. tget (dd_docs s2) j = Some d \<longrightarrow> chain_of j d = chain_of k d0 \<longrightarrow> \<not> do_latest d)
    \<and> (\<forall>j d. tget (dd_docs s) j = Some d \<longrightarrow> do_status d \<noteq> ScPendingUpload
        \<longrightarrow> (\<exists>d'. tget (dd_docs s2) j = Some d' \<and> do_status d' = do_status d \<and> do_root d' = do_root d))"
proof -
  note i = inv [unfolded documents_inv_def]
  have tok: "tok (dd_docs s)" and ok: "versions_sound (dd_docs s)" and rows: "rows_sound s"
    using i doc_invD(1,2) by blast+
  from made d0 obtain rt lk ld nv where rt: "tget (dd_docs s) (chain_of k d0) = Some rt" "do_root rt = None"
    and latest: "current_latest (filter (in_chain (chain_of k d0)) (dd_docs s)) = Some (lk, ld)"
    and s1: "dd_docs s1 = tput (dd_fresh s) nv (tput lk (ld\<lparr>do_latest := False\<rparr>) (dd_docs s))"
    and nv: "do_status nv = ScPendingUpload" "do_created_at nv = now"
    by (auto simp: create_new_version_def chain_of_def Let_def doc_event_def put_doc_def schedule_expiry_def new_document_def
        split: option.splits prod.splits if_splits)
  note top = current_latest_top [OF ok tok rt latest]
  have below: "j < dd_fresh s" if "tget (dd_docs s) j = Some d" for j d by (rule rows_soundD(1) [OF rows that])
  have lk: "lk \<noteq> dd_fresh s" using below [OF top(1)] by simp
  have tok1: "tok (dd_docs s1)" by (simp add: s1 tok_tput tok)
  have get2: "tget (dd_docs s2) j = Some d \<longleftrightarrow> tget (dd_docs s1) j = Some d \<and> \<not> stale_upload env later d" for j d
    unfolding cleanup_removes_stale_uploads [OF tok1 swept] by (simp add: tget_iff [OF tok1] tget_iff [OF tok_filter [OF tok1]])
  have stale: "stale_upload env later nv" using nv late by (simp add: stale_upload_def)
  have was: "\<exists>q. tget (dd_docs s) j = Some q \<and> chain_of j q = chain_of j d \<and> (do_latest d \<longrightarrow> do_latest q \<and> j \<noteq> lk)"
    if "tget (dd_docs s2) j = Some d" for j d
    using that top(1) stale by (auto simp: get2 s1 tget_tput chain_of_def split: if_splits)
  have "\<not> do_latest d" if "tget (dd_docs s2) j = Some d" "chain_of j d = chain_of k d0" for j d
    using was [OF that(1)] that(2) top(3) by metis
  moreover have "\<exists>d'. tget (dd_docs s2) j = Some d' \<and> do_status d' = do_status d \<and> do_root d' = do_root d"
    if d: "tget (dd_docs s) j = Some d" "do_status d \<noteq> ScPendingUpload" for j d
    using d below [OF d(1)] top(1) by (auto simp: get2 s1 tget_tput stale_upload_def)
  ultimately show ?thesis by blast
qed

definition letter_read :: "document_op list" where
  "letter_read = letter_in @ [DoVerdict 4 0 ''OK'' True True, DoIssue 5 writer 0 None True, DoConsume 6 writer 2 True]"

lemma abandoned_version_hides_document_witness:
  "\<exists>s s1 s2 v d. s = run_ops (document_step archive_env) archive_start letter_read
    \<and> create_new_version archive_env s 8 writer 0 ''b.txt'' ''text/plain'' 5 '''' True = Inr (s1, v)
    \<and> cleanup_stale_pending_uploads archive_env s1 908 (\<lambda>x. True) = (s2, Some 1)
    \<and> tget (dd_docs s2) 0 = Some d \<and> do_status d = ScActive \<and> \<not> do_latest d"
proof -
  let ?s = "run_ops (document_step archive_env) archive_start letter_read"
  let ?made = "create_new_version archive_env ?s 8 writer 0 ''b.txt'' ''text/plain'' 5 '''' True"
  have inv: "documents_inv archive_env ?s"
    by (rule documents.inv_run [OF no_documents_inv [OF archive_ready]]) (simp add: letter_in_def letter_read_def)
  have run: "map_option (\<lambda>d. (do_status d, do_root d)) (tget (dd_docs ?s) 0) = Some (ScActive, None)
      \<and> map_sum id (\<lambda>x. snd (cleanup_stale_pending_uploads archive_env (fst x) 908 (\<lambda>x. True))) ?made = Inr (Some 1)" by code_simp
  then obtain d0 where d0: "tget (dd_docs ?s) 0 = Some d0" "do_status d0 = ScActive" "do_root d0 = None" by auto
  from run obtain s1 v where made: "?made = Inr (s1, v)"
    and one: "snd (cleanup_stale_pending_uploads archive_env s1 908 (\<lambda>x. True)) = Some 1"
    by (cases ?made) auto
  from one obtain s2 where swept: "cleanup_stale_pending_uploads archive_env s1 908 (\<lambda>x. True) = (s2, Some 1)"
    by (metis prod.collapse)
  have late: "8 + dv_post_ttl archive_env + 300 \<le> 908" by (simp add: archive_env_def)
  note hidden = abandoned_version_hides_document [OF inv d0(1) made late swept]
  from hidden d0 obtain d where d: "tget (dd_docs s2) 0 = Some d" "do_status d = ScActive" "do_root d = None"
    by (metis scan_status.distinct(3))
  with hidden d0(3) have "\<not> do_latest d" by (simp add: chain_of_def)
  with d made swept show ?thesis by blast
qed

end
