(* ===== verification/VolunteerRecords.thy ===== *)
theory VolunteerRecords
  imports Prelude
begin

text \<open>
  Volunteers: applications to opportunities (\<open>apps/volunteers/services/applications.py\<close>), hours
  and recognition (\<open>hours.py\<close>), honoraria under the CRA thresholds (\<open>honoraria.py\<close>) with the
  checks of \<open>models.py\<close>.

  A service runs in one transaction. What it leaves for \<open>on_commit\<close> runs later and by itself:
  the recomputation of a volunteer's hours, the milestones and the notice of an honorarium are
  operations of their own, over the rows of a queue of callbacks, and a process may die before
  it runs them. Hours and amounts are in hundredths; a decimal with more than two places, which
  the field validators refuse, is \<open>None\<close>. Keys of new rows come from one counter.
\<close>

section \<open>Rows\<close>

datatype application_status = ApPending | ApInReview | ApApproved | ApRejected | ApWithdrawn | ApWaitlisted

record volunteer_application =
  vap_opportunity :: nat
  vap_volunteer :: nat
  vap_motivation :: string
  vap_consent :: "nat option"
  vap_notes :: string
  vap_status :: application_status
  vap_reviewed_by :: "nat option"
  vap_reviewed_at :: "int option"
  vap_reason :: string

datatype opportunity_status = OpDraft | OpPublished | OpClosed | OpArchived

record opportunity =
  vop_program :: nat
  vop_status :: opportunity_status
  vop_closes_at :: "int option"

text \<open>The hours approved so far are stored with the volunteer.\<close>

record volunteer_row =
  vpr_user :: nat
  vpr_total :: int

datatype hours_status = HoursPending | HoursApproved | HoursRejected

record hours_row =
  vho_volunteer :: nat
  vho_opportunity :: "nat option"
  vho_shift :: "nat option"
  vho_date :: int
  vho_hours :: int
  vho_description :: string
  vho_status :: hours_status
  vho_approved_by :: "nat option"
  vho_approved_at :: "int option"
  vho_reason :: string

datatype honorarium_type = ExpenseReimbursement | HonorariumPayment

text \<open>A payment date is year, month and day.\<close>

record honorarium =
  vhn_volunteer :: nat
  vhn_type :: honorarium_type
  vhn_amount :: int
  vhn_description :: string
  vhn_date :: "int \<times> nat \<times> nat"
  vhn_t4a :: bool
  vhn_payment :: "nat option"
  vhn_created_by :: nat

text \<open>The intent and the payment written for an honorarium, as one row of the ledger.\<close>

record ledger_entry =
  vle_payer :: nat
  vle_amount :: int
  vle_net :: int
  vle_honorarium :: nat

record vol_user =
  vu_pk :: nat
  vu_superuser :: bool
  vu_perms :: "string list"

definition vu_has_perm :: "vol_user \<Rightarrow> string \<Rightarrow> bool" where
  "vu_has_perm u p \<longleftrightarrow> vu_superuser u \<or> p \<in> set (vu_perms u)"

datatype vol_signal =
    ApplicationSubmitted nat nat
  | ReviewRequested nat
  | ApplicationWithdrawn nat nat
  | ApplicationApproved nat nat
  | ApplicationNotSelected nat nat
  | HoursLogged nat
  | HoursApprovedBy nat nat
  | HoursRejectedBy nat nat
  | MilestoneAchieved nat int
  | HonorariumCreated nat
  | T4aThresholdReached nat int
  | CraAlertReached nat int

text \<open>
  What a committed approval still has to do: \<open>vhc_new\<close> is the recomputed total once it is known.
\<close>

record hours_callback =
  vhc_log :: nat
  vhc_volunteer :: nat
  vhc_old :: int
  vhc_new :: "int option"

record vol_state =
  vst_volunteers :: "volunteer_row table"
  vst_opportunities :: "opportunity table"
  vst_coordinators :: "nat table"
  vst_shifts :: "nat table"
  vst_applications :: "volunteer_application table"
  vst_logs :: "hours_row table"
  vst_milestones :: "(nat \<times> int) list"
  vst_honoraria :: "honorarium table"
  vst_ledger :: "ledger_entry table"
  vst_callbacks :: "hours_callback list"
  vst_notices :: "nat list"
  vst_signals :: "vol_signal list"
  vst_fresh :: nat

text \<open>The thresholds of the settings, in cents, and the date of an instant.\<close>

record vol_env =
  vn_alert :: int
  vn_t4a :: int
  vn_block :: int
  vn_today :: "int \<Rightarrow> int"

datatype vol_error =
    VolDenied | NotAccepting | DuplicateApplication | NotWithdrawable | NotReviewable | FutureDate
  | WrongShift | AlreadyLogged | InvalidHours | NotPending | ReasonMissing | InvalidHonorarium
  | HardBlock | UnknownType | VolNotFound

definition vol_signals :: "vol_signal list \<Rightarrow> vol_state \<Rightarrow> vol_state" where
  "vol_signals xs s = s\<lparr>vst_signals := vst_signals s @ xs\<rparr>"

section \<open>Applications\<close>

definition is_accepting_applications :: "int \<Rightarrow> opportunity \<Rightarrow> bool" where
  "is_accepting_applications now p = (if vop_status p \<noteq> OpPublished then False
     else case vop_closes_at p of None \<Rightarrow> True | Some t \<Rightarrow> \<not> t < now)"

definition put_application :: "nat \<Rightarrow> volunteer_application \<Rightarrow> vol_state \<Rightarrow> vol_state" where
  "put_application k a s = s\<lparr>vst_applications := tput k a (vst_applications s)\<rparr>"

text \<open>
  A volunteer has at most one row per opportunity: an application that was withdrawn is
  submitted again by resetting its row, and any other row refuses a new application.
\<close>

definition apply_for ::
  "vol_state \<Rightarrow> int \<Rightarrow> nat \<Rightarrow> nat \<Rightarrow> string \<Rightarrow> nat option \<Rightarrow> vol_user \<Rightarrow> vol_error + (vol_state \<times> nat)" where
  "apply_for s now v o_pk motivation consent actor = (case (tget (vst_volunteers s) v, tget (vst_opportunities s) o_pk) of
     (Some p, Some opp) \<Rightarrow>
       if vpr_user p \<noteq> vu_pk actor then Inl VolDenied
       else if \<not> is_accepting_applications now opp then Inl NotAccepting
       else let same = (\<lambda>a. vap_opportunity a = o_pk \<and> vap_volunteer a = v)
         in if list_ex (\<lambda>ka. same (snd ka) \<and> vap_status (snd ka) \<noteq> ApWithdrawn) (vst_applications s) then Inl DuplicateApplication
         else (case tfind (\<lambda>a. same a \<and> vap_status a = ApWithdrawn) (vst_applications s) of
           Some (k, a) \<Rightarrow> Inr (vol_signals [ApplicationSubmitted k (vu_pk actor), ReviewRequested k]
             (put_application k (a\<lparr>vap_status := ApPending, vap_motivation := motivation, vap_consent := consent,
                vap_reviewed_by := None, vap_reviewed_at := None, vap_reason := ''''\<rparr>) s), k)
         | None \<Rightarrow> let k = vst_fresh s in Inr (vol_signals [ApplicationSubmitted k (vu_pk actor), ReviewRequested k]
             (put_application k \<lparr>vap_opportunity = o_pk, vap_volunteer = v, vap_motivation = motivation, vap_consent = consent,
                vap_notes = '''', vap_status = ApPending, vap_reviewed_by = None, vap_reviewed_at = None, vap_reason = ''''\<rparr>
                (s\<lparr>vst_fresh := Suc k\<rparr>)), k))
   | _ \<Rightarrow> Inl VolNotFound)"

definition withdraw_application :: "vol_state \<Rightarrow> nat \<Rightarrow> vol_user \<Rightarrow> vol_error + vol_state" where
  "withdraw_application s k actor = (case tget (vst_applications s) k of
     None \<Rightarrow> Inl VolNotFound
   | Some a \<Rightarrow>
       if map_option vpr_user (tget (vst_volunteers s) (vap_volunteer a)) \<noteq> Some (vu_pk actor) then Inl VolDenied
       else if vap_status a \<notin> {ApPending, ApApproved} then Inl NotWithdrawable
       else Inr (vol_signals [ApplicationWithdrawn k (vu_pk actor)] (put_application k (a\<lparr>vap_status := ApWithdrawn\<rparr>) s)))"

definition reviewable :: "application_status list" where
  "reviewable = [ApPending, ApInReview, ApWaitlisted]"

text \<open>The scope of a coordinator: the program of the application's opportunity.\<close>

definition coordinates :: "vol_state \<Rightarrow> vol_user \<Rightarrow> volunteer_application \<Rightarrow> bool" where
  "coordinates s u a \<longleftrightarrow> vu_superuser u \<or> (case tget (vst_opportunities s) (vap_opportunity a) of
     None \<Rightarrow> False | Some opp \<Rightarrow> tget (vst_coordinators s) (vop_program opp) = Some (vu_pk u))"

definition approve_application :: "vol_state \<Rightarrow> int \<Rightarrow> nat \<Rightarrow> vol_user \<Rightarrow> vol_error + vol_state" where
  "approve_application s now k actor =
     (if \<not> vu_has_perm actor ''volunteers.change_volunteerapplication'' then Inl VolDenied
      else case tget (vst_applications s) k of
        None \<Rightarrow> Inl VolNotFound
      | Some a \<Rightarrow>
          if \<not> coordinates s actor a then Inl VolDenied
          else if vap_status a \<notin> set reviewable then Inl NotReviewable
          else Inr (vol_signals [ApplicationApproved k (vu_pk actor)] (put_application k
            (a\<lparr>vap_status := ApApproved, vap_reviewed_by := Some (vu_pk actor), vap_reviewed_at := Some now\<rparr>) s)))"

definition reject_application :: "vol_state \<Rightarrow> int \<Rightarrow> nat \<Rightarrow> string \<Rightarrow> vol_user \<Rightarrow> vol_error + vol_state" where
  "reject_application s now k reason actor =
     (if \<not> vu_has_perm actor ''volunteers.change_volunteerapplication'' then Inl VolDenied
      else case tget (vst_applications s) k of
        None \<Rightarrow> Inl VolNotFound
      | Some a \<Rightarrow>
          if \<not> coordinates s actor a then Inl VolDenied
          else if vap_status a \<notin> set reviewable then Inl NotReviewable
          else Inr (vol_signals [ApplicationNotSelected k (vu_pk actor)] (put_application k
            (a\<lparr>vap_status := ApRejected, vap_reason := reason, vap_reviewed_by := Some (vu_pk actor),
               vap_reviewed_at := Some now\<rparr>) s)))"

section \<open>Hours\<close>

text \<open>The validators of the fields, and the constraint on a volunteer's log of a shift.\<close>

definition hours_valid :: "int option \<Rightarrow> string \<Rightarrow> bool" where
  "hours_valid hours description \<longleftrightarrow> (case hours of None \<Rightarrow> False | Some h \<Rightarrow> 1 \<le> h \<and> h \<le> 2400) \<and> length description \<le> 500"

definition logged_for_shift :: "vol_state \<Rightarrow> nat \<Rightarrow> nat \<Rightarrow> bool" where
  "logged_for_shift s v sh \<longleftrightarrow> list_ex (\<lambda>kh. vho_volunteer (snd kh) = v \<and> vho_shift (snd kh) = Some sh) (vst_logs s)"

definition put_hours :: "nat \<Rightarrow> hours_row \<Rightarrow> vol_state \<Rightarrow> vol_state" where
  "put_hours k h s = s\<lparr>vst_logs := tput k h (vst_logs s)\<rparr>"

definition log_hours ::
  "vol_env \<Rightarrow> vol_state \<Rightarrow> int \<Rightarrow> nat \<Rightarrow> nat \<Rightarrow> int option \<Rightarrow> int \<Rightarrow> string \<Rightarrow> nat option \<Rightarrow> vol_user
     \<Rightarrow> vol_error + (vol_state \<times> nat)" where
  "log_hours env s now v o_pk hours date description shift actor = (case tget (vst_volunteers s) v of
     None \<Rightarrow> Inl VolNotFound
   | Some p \<Rightarrow>
       if vu_pk actor \<noteq> vpr_user p then Inl VolDenied
       else if vn_today env now < date then Inl FutureDate
       else if (case shift of None \<Rightarrow> False | Some sh \<Rightarrow> tget (vst_shifts s) sh \<noteq> Some o_pk) then Inl WrongShift
       else if (case shift of None \<Rightarrow> False | Some sh \<Rightarrow> logged_for_shift s v sh) then Inl AlreadyLogged
       else if \<not> hours_valid hours description then Inl InvalidHours
       else let k = vst_fresh s in
         Inr (vol_signals [HoursLogged k] (put_hours k
           \<lparr>vho_volunteer = v, vho_opportunity = Some o_pk, vho_shift = shift, vho_date = date, vho_hours = the hours,
            vho_description = description, vho_status = HoursPending, vho_approved_by = None, vho_approved_at = None,
            vho_reason = ''''\<rparr> (s\<lparr>vst_fresh := Suc k\<rparr>)), k))"

text \<open>
  The transaction of an approval. The total it remembers is the stored one, as it is before
  the callback of this approval recomputes it.
\<close>

definition approve_hours :: "vol_state \<Rightarrow> int \<Rightarrow> nat \<Rightarrow> vol_user \<Rightarrow> vol_error + vol_state" where
  "approve_hours s now k actor =
     (if \<not> vu_has_perm actor ''volunteers.change_hourslog'' then Inl VolDenied
      else case tget (vst_logs s) k of
        None \<Rightarrow> Inl VolNotFound
      | Some h \<Rightarrow>
          if vho_status h \<noteq> HoursPending then Inl NotPending
          else if \<not> hours_valid (Some (vho_hours h)) (vho_description h) then Inl InvalidHours
          else case tget (vst_volunteers s) (vho_volunteer h) of
            None \<Rightarrow> Inl VolNotFound
          | Some p \<Rightarrow> Inr ((put_hours k (h\<lparr>vho_status := HoursApproved, vho_approved_by := Some (vu_pk actor),
                vho_approved_at := Some now\<rparr>) s)
              \<lparr>vst_callbacks := vst_callbacks s @ [\<lparr>vhc_log = k, vhc_volunteer = vho_volunteer h, vhc_old = vpr_total p,
                 vhc_new = None\<rparr>],
               vst_signals := vst_signals s @ [HoursApprovedBy k (vu_pk actor)]\<rparr>))"

definition reject_hours :: "vol_state \<Rightarrow> nat \<Rightarrow> string \<Rightarrow> vol_user \<Rightarrow> vol_error + vol_state" where
  "reject_hours s k reason actor =
     (if \<not> vu_has_perm actor ''volunteers.change_hourslog'' then Inl VolDenied
      else if py_strip reason = '''' then Inl ReasonMissing
      else case tget (vst_logs s) k of
        None \<Rightarrow> Inl VolNotFound
      | Some h \<Rightarrow>
          if vho_status h \<noteq> HoursPending then Inl NotPending
          else if \<not> hours_valid (Some (vho_hours h)) (vho_description h) then Inl InvalidHours
          else Inr (vol_signals [HoursRejectedBy k (vu_pk actor)] (put_hours k
            (h\<lparr>vho_status := HoursRejected, vho_reason := take 300 (py_strip reason)\<rparr>) s)))"

text \<open>The sum of a volunteer's approved hours.\<close>

definition approved_hours :: "nat \<Rightarrow> hours_row table \<Rightarrow> int" where
  "approved_hours v t = sum_list (map (\<lambda>kh. vho_hours (snd kh))
     (filter (\<lambda>kh. vho_volunteer (snd kh) = v \<and> vho_status (snd kh) = HoursApproved) t))"

text \<open>\<open>_recompute_total_hours\<close>, run by the callback \<open>c\<close>.\<close>

definition recompute_total_hours :: "vol_state \<Rightarrow> hours_callback \<Rightarrow> vol_error + vol_state" where
  "recompute_total_hours s c =
     (if c \<notin> set (vst_callbacks s) \<or> vhc_new c \<noteq> None then Inl VolNotFound
      else case tget (vst_volunteers s) (vhc_volunteer c) of
        None \<Rightarrow> Inl VolNotFound
      | Some p \<Rightarrow> let total = approved_hours (vhc_volunteer c) (vst_logs s) in
          Inr (s\<lparr>vst_volunteers := tput (vhc_volunteer c) (p\<lparr>vpr_total := total\<rparr>) (vst_volunteers s),
            vst_callbacks := remove1 c (vst_callbacks s) @ [c\<lparr>vhc_new := Some total\<rparr>]\<rparr>))"

definition milestone_thresholds :: "int list" where
  "milestone_thresholds = [2500, 5000, 10000, 25000, 50000, 100000]"

text \<open>\<open>_check_milestones\<close>: one row per volunteer and threshold, announced when it is created.\<close>

fun award :: "nat \<Rightarrow> int \<Rightarrow> int \<Rightarrow> int list \<Rightarrow> vol_state \<Rightarrow> vol_state" where
  "award v old new [] s = s"
| "award v old new (t # ts) s = award v old new ts
     (if old < t \<and> t \<le> new \<and> (v, t) \<notin> set (vst_milestones s)
      then vol_signals [MilestoneAchieved v t] (s\<lparr>vst_milestones := vst_milestones s @ [(v, t)]\<rparr>) else s)"

definition check_milestones :: "vol_state \<Rightarrow> hours_callback \<Rightarrow> vol_error + vol_state" where
  "check_milestones s c = (case vhc_new c of
     None \<Rightarrow> Inl VolNotFound
   | Some new \<Rightarrow> if c \<notin> set (vst_callbacks s) then Inl VolNotFound
       else Inr (award (vhc_volunteer c) (vhc_old c) new milestone_thresholds (s\<lparr>vst_callbacks := remove1 c (vst_callbacks s)\<rparr>)))"

text \<open>The process that owns a callback ends before it has run it, or the rest of it.\<close>

definition lose_callback :: "vol_state \<Rightarrow> hours_callback \<Rightarrow> vol_error + vol_state" where
  "lose_callback s c = (if c \<notin> set (vst_callbacks s) then Inl VolNotFound
     else Inr (s\<lparr>vst_callbacks := remove1 c (vst_callbacks s)\<rparr>))"

section \<open>Honoraria\<close>

definition cumulative_ytd :: "nat \<Rightarrow> int \<Rightarrow> honorarium table \<Rightarrow> int" where
  "cumulative_ytd v year t = sum_list (map (\<lambda>kh. vhn_amount (snd kh))
     (filter (\<lambda>kh. vhn_volunteer (snd kh) = v \<and> vhn_type (snd kh) = HonorariumPayment \<and> fst (vhn_date (snd kh)) = year) t))"

definition payment_type_of :: "string \<Rightarrow> honorarium_type option" where
  "payment_type_of x = (if x = ''expense_reimbursement'' then Some ExpenseReimbursement
     else if x = ''honorarium'' then Some HonorariumPayment else None)"

text \<open>\<open>Honorarium.full_clean\<close> of a new row: the field validators and \<open>clean\<close>; the flag for the slip.\<close>

definition clean_honorarium :: "vol_env \<Rightarrow> honorarium table \<Rightarrow> nat \<Rightarrow> honorarium_type \<Rightarrow> int option \<Rightarrow> string \<Rightarrow> int \<Rightarrow> vol_error + bool" where
  "clean_honorarium env t v ty amount description year = (case amount of
     None \<Rightarrow> Inl InvalidHonorarium
   | Some a \<Rightarrow>
       if a < 1 \<or> 100000000 \<le> a \<or> description = '''' \<or> 300 < length description then Inl InvalidHonorarium
       else if ty \<noteq> HonorariumPayment then Inr False
       else let projected = cumulative_ytd v year t + a
         in if vn_block env \<le> projected then Inl HardBlock else Inr (vn_t4a env \<le> projected))"

text \<open>
  How the wiring into the ledger goes: well, not at all (the ledger's models cannot be imported),
  or a statement of it fails. The last is caught inside the transaction, whose end then rolls
  everything back without an error.
\<close>

datatype wiring = WiringDone | WiringAbsent | WiringFailed

definition create_honorarium ::
  "vol_env \<Rightarrow> vol_state \<Rightarrow> nat \<Rightarrow> string \<Rightarrow> int option \<Rightarrow> string \<Rightarrow> int \<times> nat \<times> nat \<Rightarrow> vol_user \<Rightarrow> wiring
     \<Rightarrow> vol_error + (vol_state \<times> nat)" where
  "create_honorarium env s v ty amount description date creator w =
     (if \<not> vu_has_perm creator ''volunteers.add_honorarium'' then Inl VolDenied
      else case payment_type_of ty of
        None \<Rightarrow> Inl UnknownType
      | Some pt \<Rightarrow> (case tget (vst_volunteers s) v of
          None \<Rightarrow> Inl VolNotFound
        | Some p \<Rightarrow> (case clean_honorarium env (vst_honoraria s) v pt amount description (fst date) of
            Inl e \<Rightarrow> Inl e
          | Inr flag \<Rightarrow>
              let k = vst_fresh s; le = Suc k;
                row = \<lparr>vhn_volunteer = v, vhn_type = pt, vhn_amount = the amount, vhn_description = description, vhn_date = date,
                  vhn_t4a = flag, vhn_payment = (if w = WiringDone then Some le else None), vhn_created_by = vu_pk creator\<rparr>;
                entry = \<lparr>vle_payer = vpr_user p, vle_amount = the amount, vle_net = the amount - 0, vle_honorarium = k\<rparr>;
                s1 = s\<lparr>vst_fresh := Suc le\<rparr>
              in Inr (if w = WiringFailed then s1
                else s1\<lparr>vst_honoraria := tput k row (vst_honoraria s),
                  vst_ledger := (if w = WiringDone then tput le entry (vst_ledger s) else vst_ledger s),
                  vst_notices := vst_notices s @ [k]\<rparr>, k))))"

text \<open>What follows the commit of honorarium \<open>k\<close>: the total of the year decides which notice is sent.\<close>

definition honorarium_notice :: "vol_env \<Rightarrow> vol_state \<Rightarrow> nat \<Rightarrow> vol_error + vol_state" where
  "honorarium_notice env s k = (if k \<notin> set (vst_notices s) then Inl VolNotFound
     else let s1 = s\<lparr>vst_notices := remove1 k (vst_notices s)\<rparr> in
       (case tget (vst_honoraria s) k of
         None \<Rightarrow> Inr s1
       | Some h \<Rightarrow>
           let ytd = cumulative_ytd (vhn_volunteer h) (fst (vhn_date h)) (vst_honoraria s)
           in Inr (vol_signals (HonorariumCreated k # (if vhn_type h \<noteq> HonorariumPayment then []
               else if vn_t4a env \<le> ytd then [T4aThresholdReached k ytd]
               else if vn_alert env \<le> ytd then [CraAlertReached k ytd] else [])) s1)))"

section \<open>Runs\<close>

datatype vol_op =
    VoApply int nat nat string "nat option" vol_user
  | VoWithdraw nat vol_user
  | VoApprove int nat vol_user
  | VoReject int nat string vol_user
  | VoLog int nat nat "int option" int string "nat option" vol_user
  | VoApproveHours int nat vol_user
  | VoRejectHours nat string vol_user
  | VoRecompute hours_callback
  | VoMilestones hours_callback
  | VoLose hours_callback
  | VoHonorarium nat string "int option" string "int \<times> nat \<times> nat" vol_user wiring
  | VoNotice nat

fun vol_step :: "vol_env \<Rightarrow> vol_state \<Rightarrow> vol_op \<Rightarrow> vol_error + vol_state" where
  "vol_step env s (VoApply now v o_pk motivation consent actor) = map_sum id fst (apply_for s now v o_pk motivation consent actor)"
| "vol_step env s (VoWithdraw k actor) = withdraw_application s k actor"
| "vol_step env s (VoApprove now k actor) = approve_application s now k actor"
| "vol_step env s (VoReject now k reason actor) = reject_application s now k reason actor"
| "vol_step env s (VoLog now v o_pk hours date description shift actor) =
     map_sum id fst (log_hours env s now v o_pk hours date description shift actor)"
| "vol_step env s (VoApproveHours now k actor) = approve_hours s now k actor"
| "vol_step env s (VoRejectHours k reason actor) = reject_hours s k reason actor"
| "vol_step env s (VoRecompute c) = recompute_total_hours s c"
| "vol_step env s (VoMilestones c) = check_milestones s c"
| "vol_step env s (VoLose c) = lose_callback s c"
| "vol_step env s (VoHonorarium v ty amount description date creator w) =
     map_sum id fst (create_honorarium env s v ty amount description date creator w)"
| "vol_step env s (VoNotice k) = honorarium_notice env s k"

end
