(* ===== verification/VolunteerInv.thy ===== *)
theory VolunteerInv
  imports VolunteerRecords
begin

text \<open>
  Invariants of the volunteers' records, one group per kind of record, each kept by every
  operation: hours and milestones, applications, honoraria.
\<close>

section \<open>Hours\<close>

fun milestone_of :: "vol_signal \<Rightarrow> (nat \<times> int) option" where
  "milestone_of (MilestoneAchieved v t) = Some (v, t)"
| "milestone_of x = None"

definition announced :: "vol_state \<Rightarrow> (nat \<times> int) list" where
  "announced s = List.map_filter milestone_of (vst_signals s)"

definition has_total :: "vol_state \<Rightarrow> nat \<Rightarrow> int \<Rightarrow> bool" where
  "has_total s v t \<longleftrightarrow> (\<exists>p. tget (vst_volunteers s) v = Some p \<and> t \<le> vpr_total p)"

definition callback_sound :: "vol_state \<Rightarrow> hours_callback \<Rightarrow> bool" where
  "callback_sound s c \<longleftrightarrow> has_total s (vhc_volunteer c) (vhc_old c)
     \<and> (\<forall>n. vhc_new c = Some n \<longrightarrow> has_total s (vhc_volunteer c) n)"

text \<open>What holds even when callbacks are lost.\<close>

definition hours_inv :: "vol_state \<Rightarrow> bool" where
  "hours_inv s \<longleftrightarrow> tok (vst_logs s)
     \<and> (\<forall>k h. tget (vst_logs s) k = Some h \<longrightarrow> k < vst_fresh s \<and> 0 \<le> vho_hours h)
     \<and> (\<forall>v p. tget (vst_volunteers s) v = Some p \<longrightarrow> vpr_total p \<le> approved_hours v (vst_logs s))
     \<and> (\<forall>c \<in> set (vst_callbacks s). callback_sound s c)
     \<and> (\<forall>v t. (v, t) \<in> set (vst_milestones s) \<longrightarrow> t \<in> set milestone_thresholds \<and> has_total s v t)
     \<and> distinct (vst_milestones s) \<and> announced s = vst_milestones s"

text \<open>A recomputed total whose milestones are still to be checked.\<close>

definition to_award :: "vol_state \<Rightarrow> nat \<Rightarrow> int \<Rightarrow> bool" where
  "to_award s v t \<longleftrightarrow> (\<exists>c \<in> set (vst_callbacks s). vhc_volunteer c = v \<and> vhc_old c < t \<and> (\<exists>n. vhc_new c = Some n \<and> t \<le> n))"

text \<open>What holds as long as every callback runs.\<close>

definition hours_complete :: "vol_state \<Rightarrow> bool" where
  "hours_complete s \<longleftrightarrow>
     (\<forall>v p. tget (vst_volunteers s) v = Some p \<longrightarrow> (\<exists>c \<in> set (vst_callbacks s). vhc_volunteer c = v \<and> vhc_new c = None)
        \<or> vpr_total p = approved_hours v (vst_logs s))
     \<and> (\<forall>v t. t \<in> set milestone_thresholds \<longrightarrow> has_total s v t \<longrightarrow> (v, t) \<in> set (vst_milestones s) \<or> to_award s v t)"

lemma hours_invD:
  assumes "hours_inv s"
  shows "tok (vst_logs s)" "tget (vst_logs s) k = Some h \<Longrightarrow> k < vst_fresh s" "tget (vst_logs s) k = Some h \<Longrightarrow> 0 \<le> vho_hours h"
    "tget (vst_volunteers s) v = Some p \<Longrightarrow> vpr_total p \<le> approved_hours v (vst_logs s)"
    "c \<in> set (vst_callbacks s) \<Longrightarrow> callback_sound s c"
    "(v, t) \<in> set (vst_milestones s) \<Longrightarrow> t \<in> set milestone_thresholds \<and> has_total s v t"
    "distinct (vst_milestones s)" "announced s = vst_milestones s"
  using assms by (auto simp: hours_inv_def)

text \<open>A row's part of the sum.\<close>

definition hours_of :: "nat \<Rightarrow> hours_row \<Rightarrow> int" where
  "hours_of v h = (if vho_volunteer h = v \<and> vho_status h = HoursApproved then vho_hours h else 0)"

lemma approved_hours_sum: "approved_hours v t = sum_list (map (\<lambda>kh. hours_of v (snd kh)) t)"
  unfolding approved_hours_def hours_of_def by (induction t) simp_all

lemma approved_hours_put:
  "tok t \<Longrightarrow> tget t k = Some h \<Longrightarrow> approved_hours v (tput k h' t) = approved_hours v t - hours_of v h + hours_of v h'"
proof (induction t)
  case (Cons x t)
  obtain j q where x: "x = (j, q)" by (cases x)
  from Cons show ?case
    by (cases "j = k") (auto simp: x tput_Cons tget_Cons tok_def approved_hours_sum)
qed simp

lemma approved_hours_new:
  "tget t k = None \<Longrightarrow> approved_hours v (tput k h t) = approved_hours v t + hours_of v h"
  by (simp add: tput_new approved_hours_sum)

lemma has_total_mono: "has_total s v t \<Longrightarrow> u \<le> t \<Longrightarrow> has_total s v u"
  by (auto simp: has_total_def)

lemma announced_signals [simp]:
  "announced (vol_signals xs s) = announced s @ List.map_filter milestone_of xs"
  by (simp add: announced_def vol_signals_def map_filter_def)

lemma vol_signals_rows [simp]:
  "vst_volunteers (vol_signals xs s) = vst_volunteers s" "vst_logs (vol_signals xs s) = vst_logs s"
  "vst_milestones (vol_signals xs s) = vst_milestones s" "vst_callbacks (vol_signals xs s) = vst_callbacks s"
  "vst_fresh (vol_signals xs s) = vst_fresh s" "vst_applications (vol_signals xs s) = vst_applications s"
  "vst_honoraria (vol_signals xs s) = vst_honoraria s" "vst_ledger (vol_signals xs s) = vst_ledger s"
  "vst_signals (vol_signals xs s) = vst_signals s @ xs" "vst_notices (vol_signals xs s) = vst_notices s"
  by (simp_all add: vol_signals_def)

text \<open>Operations that have nothing to do with hours.\<close>

definition hours_frame :: "vol_state \<Rightarrow> vol_state \<Rightarrow> bool" where
  "hours_frame s s' \<longleftrightarrow> vst_volunteers s' = vst_volunteers s \<and> vst_logs s' = vst_logs s \<and> vst_milestones s' = vst_milestones s
     \<and> vst_callbacks s' = vst_callbacks s \<and> announced s' = announced s \<and> vst_fresh s \<le> vst_fresh s'"

lemma hours_frame_inv:
  assumes "hours_frame s s'"
  shows "hours_inv s \<Longrightarrow> hours_inv s'" "hours_complete s \<Longrightarrow> hours_complete s'"
  using assms
  by (auto simp: hours_frame_def hours_inv_def hours_complete_def has_total_def callback_sound_def to_award_def intro: less_le_trans)

text \<open>A change of the logs that leaves the sums, with no callback or with one that is to recompute.\<close>

lemma hours_logs_inv:
  assumes inv: "hours_inv s" and same: "vst_volunteers s' = vst_volunteers s" "vst_milestones s' = vst_milestones s" "announced s' = announced s"
    and logs: "tok (vst_logs s')" "\<And>k h. tget (vst_logs s') k = Some h \<Longrightarrow> k < vst_fresh s' \<and> 0 \<le> vho_hours h"
    and more: "\<And>v. approved_hours v (vst_logs s) \<le> approved_hours v (vst_logs s')"
    and cbs: "\<And>c. c \<in> set (vst_callbacks s') \<Longrightarrow> c \<in> set (vst_callbacks s) \<or> callback_sound s c"
  shows "hours_inv s'"
proof -
  have total: "has_total s' = has_total s" by (simp add: has_total_def fun_eq_iff same)
  then have "callback_sound s' c" if "c \<in> set (vst_callbacks s')" for c
    using cbs [OF that] hours_invD(5) [OF inv] by (auto simp: callback_sound_def)
  moreover have "vpr_total p \<le> approved_hours v (vst_logs s')" if "tget (vst_volunteers s') v = Some p" for v p
    using order_trans [OF hours_invD(4) [OF inv] more] that by (simp add: same)
  ultimately show ?thesis
    using logs hours_invD(6-8) [OF inv] by (simp add: hours_inv_def same total)
qed

lemma log_hours_inv:
  assumes inv: "hours_inv s" and run: "log_hours env s now v o_pk hours date description shift actor = Inr (s', k)"
  shows "hours_inv s'" "hours_complete s \<Longrightarrow> hours_complete s'"
proof -
  define h where "h = \<lparr>vho_volunteer = v, vho_opportunity = Some o_pk, vho_shift = shift, vho_date = date, vho_hours = the hours,
    vho_description = description, vho_status = HoursPending, vho_approved_by = None, vho_approved_at = None, vho_reason = ''''\<rparr>"
  have s': "s' = vol_signals [HoursLogged (vst_fresh s)] (put_hours (vst_fresh s) h (s\<lparr>vst_fresh := Suc (vst_fresh s)\<rparr>))"
    and h: "vho_status h = HoursPending" "0 \<le> vho_hours h"
    using run by (auto simp: log_hours_def hours_valid_def h_def Let_def split: option.splits if_splits)
  have none: "tget (vst_logs s) (vst_fresh s) = None"
    using hours_invD(2) [OF inv] by (cases "tget (vst_logs s) (vst_fresh s)") auto
  have sums: "approved_hours u (vst_logs s') = approved_hours u (vst_logs s)" for u
    by (simp add: s' put_hours_def approved_hours_new [OF none] hours_of_def h(1))
  show "hours_inv s'"
    by (rule hours_logs_inv [OF inv])
      (use hours_invD(1-3) [OF inv] h(2) in \<open>auto simp: s' put_hours_def map_filter_def announced_def vol_signals_def
         approved_hours_new [OF none] hours_of_def h(1) tok_tput tget_tput less_Suc_eq split: if_splits\<close>)
  show "hours_complete s'" if "hours_complete s"
    using that by (simp add: hours_complete_def sums has_total_def to_award_def) (simp add: s' put_hours_def)
qed

lemma approve_hours_inv:
  assumes inv: "hours_inv s" and run: "approve_hours s now k actor = Inr s'"
  shows "hours_inv s'" "hours_complete s \<Longrightarrow> hours_complete s'"
proof -
  obtain h p where h: "tget (vst_logs s) k = Some h" "vho_status h = HoursPending" "tget (vst_volunteers s) (vho_volunteer h) = Some p"
    and s': "s' = (put_hours k (h\<lparr>vho_status := HoursApproved, vho_approved_by := Some (vu_pk actor), vho_approved_at := Some now\<rparr>) s)
       \<lparr>vst_callbacks := vst_callbacks s @ [\<lparr>vhc_log = k, vhc_volunteer = vho_volunteer h, vhc_old = vpr_total p, vhc_new = None\<rparr>],
        vst_signals := vst_signals s @ [HoursApprovedBy k (vu_pk actor)]\<rparr>"
    using run by (auto simp: approve_hours_def split: option.splits if_splits)
  have sums: "approved_hours u (vst_logs s') = approved_hours u (vst_logs s) + (if u = vho_volunteer h then vho_hours h else 0)" for u
    by (simp add: s' put_hours_def approved_hours_put [OF hours_invD(1) [OF inv] h(1)] hours_of_def h(2))
  show "hours_inv s'"
  proof (rule hours_logs_inv [OF inv])
    show "approved_hours u (vst_logs s) \<le> approved_hours u (vst_logs s')" for u
      using hours_invD(3) [OF inv h(1)] by (simp add: sums)
  qed (use hours_invD(1-3) [OF inv] h in \<open>auto simp: s' put_hours_def announced_def map_filter_def tok_tput tget_tput
       callback_sound_def has_total_def split: if_splits\<close>)
  show "hours_complete s'" if c: "hours_complete s"
  proof -
    have "(\<exists>c \<in> set (vst_callbacks s'). vhc_volunteer c = v \<and> vhc_new c = None) \<or> vpr_total q = approved_hours v (vst_logs s')"
      if "tget (vst_volunteers s') v = Some q" for v q
    proof (cases "v = vho_volunteer h")
      case True
      then show ?thesis by (simp add: s')
    next
      case False
      with c that show ?thesis unfolding sums by (auto simp: hours_complete_def s' put_hours_def)
    qed
    moreover have "has_total s' v t = has_total s v t" "to_award s v t \<Longrightarrow> to_award s' v t" for v t
      by (auto simp: has_total_def to_award_def s' put_hours_def)
    moreover have "vst_milestones s' = vst_milestones s" by (simp add: s' put_hours_def)
    ultimately show ?thesis using c unfolding hours_complete_def by metis
  qed
qed

lemma reject_hours_inv:
  assumes inv: "hours_inv s" and run: "reject_hours s k reason actor = Inr s'"
  shows "hours_inv s'" "hours_complete s \<Longrightarrow> hours_complete s'"
proof -
  obtain h where h: "tget (vst_logs s) k = Some h" "vho_status h = HoursPending"
    and s': "s' = vol_signals [HoursRejectedBy k (vu_pk actor)] (put_hours k
       (h\<lparr>vho_status := HoursRejected, vho_reason := take 300 (py_strip reason)\<rparr>) s)"
    using run by (auto simp: reject_hours_def split: option.splits if_splits)
  have sums: "approved_hours u (vst_logs s') = approved_hours u (vst_logs s)" for u
    by (simp add: s' put_hours_def approved_hours_put [OF hours_invD(1) [OF inv] h(1)] hours_of_def h(2))
  show "hours_inv s'"
  proof (rule hours_logs_inv [OF inv])
    show "approved_hours u (vst_logs s) \<le> approved_hours u (vst_logs s')" for u by (simp add: sums)
  qed (use hours_invD(1-3) [OF inv] h in \<open>auto simp: s' put_hours_def map_filter_def announced_def vol_signals_def
       tok_tput tget_tput split: if_splits\<close>)
  show "hours_complete s'" if "hours_complete s"
    using that by (simp add: hours_complete_def sums has_total_def to_award_def) (simp add: s' put_hours_def)
qed

lemma in_remove1: "x \<in> set xs \<Longrightarrow> x \<noteq> c \<Longrightarrow> x \<in> set (remove1 c xs)"
  by (simp add: in_set_remove1)

lemma recompute_inv:
  assumes inv: "hours_inv s" and run: "recompute_total_hours s c = Inr s'"
  shows "hours_inv s'" "hours_complete s \<Longrightarrow> hours_complete s'" "has_total s v t \<Longrightarrow> has_total s' v t"
proof -
  let ?v = "vhc_volunteer c" and ?c = "c\<lparr>vhc_new := Some (approved_hours (vhc_volunteer c) (vst_logs s))\<rparr>"
  obtain p where c: "c \<in> set (vst_callbacks s)" "vhc_new c = None" and p: "tget (vst_volunteers s) ?v = Some p"
    and s': "s' = s\<lparr>vst_volunteers := tput ?v (p\<lparr>vpr_total := approved_hours ?v (vst_logs s)\<rparr>) (vst_volunteers s),
       vst_callbacks := remove1 c (vst_callbacks s) @ [?c]\<rparr>"
    using run by (auto simp: recompute_total_hours_def Let_def split: option.splits if_splits)
  have le: "vpr_total p \<le> approved_hours ?v (vst_logs s)" by (rule hours_invD(4) [OF inv p])
  have total: "has_total s' u t \<longleftrightarrow> (if u = ?v then t \<le> approved_hours ?v (vst_logs s) else has_total s u t)" for u t
    by (simp add: has_total_def s' tget_tput)
  have mono: "has_total s' u t" if "has_total s u t" for u t
    using that p le by (auto simp: total) (auto simp: has_total_def)
  then show "has_total s v t \<Longrightarrow> has_total s' v t" .
  have old: "has_total s ?v (vhc_old c)" using hours_invD(5) [OF inv c(1)] by (simp add: callback_sound_def)
  have "callback_sound s' d" if "d \<in> set (vst_callbacks s')" for d
  proof (cases "d = ?c")
    case True
    then show ?thesis using mono [OF old] by (simp add: callback_sound_def total)
  next
    case False
    with that have "d \<in> set (vst_callbacks s)" using set_remove1_subset [of c "vst_callbacks s"] by (auto simp: s')
    from hours_invD(5) [OF inv this] mono show ?thesis by (auto simp: callback_sound_def)
  qed
  moreover have "vpr_total q \<le> approved_hours u (vst_logs s)" if "tget (vst_volunteers s') u = Some q" for u q
    using that hours_invD(4) [OF inv] by (auto simp: s' tget_tput split: if_splits)
  moreover have "announced s' = announced s" "vst_logs s' = vst_logs s" "vst_milestones s' = vst_milestones s" "vst_fresh s' = vst_fresh s"
    by (simp_all add: s' announced_def)
  ultimately show "hours_inv s'" using hours_invD(1-3,6-8) [OF inv] mono by (simp add: hours_inv_def)
  show "hours_complete s'" if complete: "hours_complete s"
  proof -
    have keep: "d \<in> set (vst_callbacks s')" if "d \<in> set (vst_callbacks s)" "d \<noteq> c" for d
      using that by (simp add: s' in_remove1)
    have "(\<exists>d \<in> set (vst_callbacks s'). vhc_volunteer d = u \<and> vhc_new d = None) \<or> vpr_total q = approved_hours u (vst_logs s')"
      if q: "tget (vst_volunteers s') u = Some q" for u q
    proof (cases "u = ?v")
      case True
      with q show ?thesis by (auto simp: s' tget_tput)
    next
      case False
      with q have "tget (vst_volunteers s) u = Some q" by (simp add: s' tget_tput)
      with complete consider (pending) d where "d \<in> set (vst_callbacks s)" "vhc_volunteer d = u" "vhc_new d = None"
        | (equal) "vpr_total q = approved_hours u (vst_logs s)"
        unfolding hours_complete_def by blast
      then show ?thesis
      proof cases
        case pending
        with keep [of d] False show ?thesis by auto
      qed (simp add: s')
    qed
    moreover have "(u, t) \<in> set (vst_milestones s') \<or> to_award s' u t"
      if t: "t \<in> set milestone_thresholds" "has_total s' u t" for u t
    proof (cases "has_total s u t")
      case True
      with complete t(1) have "(u, t) \<in> set (vst_milestones s) \<or> to_award s u t" unfolding hours_complete_def by blast
      moreover have "to_award s' u t" if "to_award s u t"
        using that keep c(2) unfolding to_award_def by (metis option.distinct(1))
      ultimately show ?thesis by (auto simp: s')
    next
      case False
      with t(2) have u: "u = ?v" "t \<le> approved_hours ?v (vst_logs s)" by (simp_all add: total split: if_splits)
      from old have "vhc_old c \<le> vpr_total p" by (simp add: has_total_def p)
      moreover have "vpr_total p < t" using False by (simp add: u has_total_def p not_le)
      ultimately have "to_award s' u t" using u by (simp add: to_award_def s')
      then show ?thesis ..
    qed
    ultimately show ?thesis by (simp add: hours_complete_def)
  qed
qed

lemma award_rows:
  "vst_volunteers (award v old new ts s) = vst_volunteers s" "vst_logs (award v old new ts s) = vst_logs s"
  "vst_callbacks (award v old new ts s) = vst_callbacks s" "vst_fresh (award v old new ts s) = vst_fresh s"
  "set (vst_milestones (award v old new ts s)) = set (vst_milestones s) \<union> {(v, t) |t. t \<in> set ts \<and> old < t \<and> t \<le> new}"
  by (induction ts arbitrary: s) auto

lemma award_announced:
  "announced s = vst_milestones s \<Longrightarrow> announced (award v old new ts s) = vst_milestones (award v old new ts s)"
  "distinct (vst_milestones s) \<Longrightarrow> distinct (vst_milestones (award v old new ts s))"
proof (induction ts arbitrary: s)
  case (Cons t ts)
  {
    case 1
    let ?s1 = "vol_signals [MilestoneAchieved v t] (s\<lparr>vst_milestones := vst_milestones s @ [(v, t)]\<rparr>)"
    have "announced ?s1 = vst_milestones ?s1" using 1 by (simp add: announced_def map_filter_def)
    with 1 Cons.IH(1) [of s] Cons.IH(1) [of ?s1] show ?case by simp
  next
    case 2
    then show ?case by (simp add: Cons.IH(2))
  }
qed simp_all

lemma check_milestones_inv:
  assumes inv: "hours_inv s" and run: "check_milestones s c = Inr s'"
  shows "hours_inv s'" "hours_complete s \<Longrightarrow> hours_complete s'"
proof -
  obtain n where c: "c \<in> set (vst_callbacks s)" "vhc_new c = Some n"
    and s': "s' = award (vhc_volunteer c) (vhc_old c) n milestone_thresholds (s\<lparr>vst_callbacks := remove1 c (vst_callbacks s)\<rparr>)"
    using run by (auto simp: check_milestones_def split: option.splits if_splits)
  have rows: "vst_volunteers s' = vst_volunteers s" "vst_logs s' = vst_logs s" "vst_fresh s' = vst_fresh s"
    "vst_callbacks s' = remove1 c (vst_callbacks s)"
    "set (vst_milestones s') = set (vst_milestones s)
       \<union> {(vhc_volunteer c, t) |t. t \<in> set milestone_thresholds \<and> vhc_old c < t \<and> t \<le> n}"
    by (simp_all add: s' award_rows)
  have total: "has_total s' = has_total s" by (simp add: has_total_def fun_eq_iff rows)
  have n: "has_total s (vhc_volunteer c) n" using hours_invD(5) [OF inv c(1)] c(2) by (simp add: callback_sound_def)
  have "callback_sound s' d" if "d \<in> set (vst_callbacks s')" for d
    using that hours_invD(5) [OF inv] set_remove1_subset [of c "vst_callbacks s"] by (auto simp: rows callback_sound_def total)
  moreover have "t \<in> set milestone_thresholds \<and> has_total s' v t" if "(v, t) \<in> set (vst_milestones s')" for v t
    using that hours_invD(6) [OF inv] has_total_mono [OF n] unfolding total rows by auto
  moreover have "announced s' = vst_milestones s'" "distinct (vst_milestones s')"
    using award_announced hours_invD(7,8) [OF inv] by (simp_all add: s' announced_def)
  ultimately show "hours_inv s'" using hours_invD(1-4) [OF inv] unfolding hours_inv_def rows(1-4) by blast
  show "hours_complete s'" if complete: "hours_complete s"
  proof -
    have "(\<exists>d \<in> set (vst_callbacks s'). vhc_volunteer d = u \<and> vhc_new d = None) \<or> vpr_total q = approved_hours u (vst_logs s')"
      if "tget (vst_volunteers s') u = Some q" for u q
    proof -
      from that complete have "(\<exists>d \<in> set (vst_callbacks s). vhc_volunteer d = u \<and> vhc_new d = None) \<or> vpr_total q = approved_hours u (vst_logs s)"
        by (auto simp: hours_complete_def rows)
      moreover have "d \<noteq> c" if "vhc_new d = None" for d using that c(2) by auto
      ultimately show ?thesis unfolding rows by (metis in_remove1)
    qed
    moreover have "(u, t) \<in> set (vst_milestones s') \<or> to_award s' u t"
      if t: "t \<in> set milestone_thresholds" "has_total s u t" for u t
    proof -
      from complete t consider "(u, t) \<in> set (vst_milestones s)"
        | (due) d m where "d \<in> set (vst_callbacks s)" "vhc_volunteer d = u" "vhc_old d < t" "vhc_new d = Some m" "t \<le> m"
        unfolding hours_complete_def to_award_def by blast
      then show ?thesis
      proof cases
        case due
        show ?thesis
        proof (cases "d = c")
          case True
          with due c(2) t(1) show ?thesis by (simp add: rows)
        next
          case False
          with due show ?thesis by (auto simp: to_award_def rows in_set_remove1)
        qed
      qed (simp add: rows)
    qed
    ultimately show ?thesis by (simp add: hours_complete_def total)
  qed
qed

lemma lose_callback_inv:
  assumes "hours_inv s" "lose_callback s c = Inr s'"
  shows "hours_inv s'"
  using assms set_remove1_subset [of c "vst_callbacks s"]
  by (auto simp: lose_callback_def hours_inv_def callback_sound_def has_total_def announced_def split: if_splits)

lemma other_hours_frame:
  assumes "vol_step env s x = Inr s'" and "\<nexists>now v o_pk hours date description shift actor. x = VoLog now v o_pk hours date description shift actor"
    and "\<nexists>now k actor. x = VoApproveHours now k actor" "\<nexists>k reason actor. x = VoRejectHours k reason actor"
    and "\<nexists>c. x = VoRecompute c" "\<nexists>c. x = VoMilestones c" "\<nexists>c. x = VoLose c"
  shows "hours_frame s s'"
  using assms
  by (cases x) (auto simp: hours_frame_def apply_for_def withdraw_application_def approve_application_def reject_application_def
      create_honorarium_def honorarium_notice_def map_sum_Inr_iff put_application_def announced_def vol_signals_def Let_def
      map_filter_def split: option.splits prod.splits if_splits sum.splits)

lemma vol_step_hours:
  assumes run: "vol_step env s x = Inr s'" and inv: "hours_inv s"
  shows "hours_inv s'" "(\<And>c. x \<noteq> VoLose c) \<Longrightarrow> hours_complete s \<Longrightarrow> hours_complete s'"
proof -
  consider (log) now v o_pk hours date description shift actor where "x = VoLog now v o_pk hours date description shift actor"
    | (approve) now k actor where "x = VoApproveHours now k actor" | (reject) k reason actor where "x = VoRejectHours k reason actor"
    | (recompute) c where "x = VoRecompute c" | (check) c where "x = VoMilestones c" | (lose) c where "x = VoLose c"
    | (other) "hours_frame s s'"
    using other_hours_frame [OF run] by blast
  note cases = this
  show "hours_inv s'"
    using cases run log_hours_inv(1) [OF inv] approve_hours_inv(1) [OF inv] reject_hours_inv(1) [OF inv] recompute_inv(1) [OF inv]
      check_milestones_inv(1) [OF inv] lose_callback_inv [OF inv] hours_frame_inv(1) [OF _ inv]
    by cases (auto simp: map_sum_Inr_iff)
  show "hours_complete s'" if "\<And>c. x \<noteq> VoLose c" "hours_complete s"
    using cases run that log_hours_inv(2) [OF inv] approve_hours_inv(2) [OF inv] reject_hours_inv(2) [OF inv] recompute_inv(2) [OF inv]
      check_milestones_inv(2) [OF inv] hours_frame_inv(2)
    by cases (auto simp: map_sum_Inr_iff)
qed

section \<open>Applications\<close>

text \<open>The life of an application, as its signals tell it.\<close>

fun application_of :: "vol_signal \<Rightarrow> nat option" where
  "application_of (ApplicationSubmitted k u) = Some k"
| "application_of (ApplicationWithdrawn k u) = Some k"
| "application_of (ApplicationApproved k u) = Some k"
| "application_of (ApplicationNotSelected k u) = Some k"
| "application_of x = None"

fun application_move :: "application_status option \<Rightarrow> vol_signal \<Rightarrow> application_status option" where
  "application_move None (ApplicationSubmitted k u) = Some ApPending"
| "application_move (Some ApWithdrawn) (ApplicationSubmitted k u) = Some ApPending"
| "application_move (Some ApPending) (ApplicationWithdrawn k u) = Some ApWithdrawn"
| "application_move (Some ApApproved) (ApplicationWithdrawn k u) = Some ApWithdrawn"
| "application_move (Some ApPending) (ApplicationApproved k u) = Some ApApproved"
| "application_move (Some ApPending) (ApplicationNotSelected k u) = Some ApRejected"
| "application_move st x = None"

definition application_signals :: "vol_state \<Rightarrow> nat \<Rightarrow> vol_signal list" where
  "application_signals s k = filter (\<lambda>x. application_of x = Some k) (vst_signals s)"

text \<open>The status after a list of signals; \<open>None\<close> when one of them was no legal move.\<close>

definition tell_application :: "vol_signal list \<Rightarrow> application_status option option" where
  "tell_application xs = foldl (\<lambda>st x. Option.bind st (\<lambda>a. map_option Some (application_move a x))) (Some None) xs"

lemma tell_snoc: "tell_application (xs @ [x]) = Option.bind (tell_application xs) (\<lambda>a. map_option Some (application_move a x))"
  by (simp add: tell_application_def)

definition application_ok :: "vol_state \<Rightarrow> nat \<Rightarrow> volunteer_application \<Rightarrow> bool" where
  "application_ok s k a \<longleftrightarrow> k < vst_fresh s
     \<and> (vap_status a \<in> {ApApproved, ApRejected} \<longrightarrow> vap_reviewed_by a \<noteq> None \<and> vap_reviewed_at a \<noteq> None)
     \<and> (vap_status a = ApPending \<longrightarrow> vap_reviewed_by a = None) \<and> vap_status a \<notin> {ApInReview, ApWaitlisted}"

definition applications_inv :: "vol_state \<Rightarrow> bool" where
  "applications_inv s \<longleftrightarrow> tok (vst_applications s)
     \<and> (\<forall>k. tell_application (application_signals s k) = Some (map_option vap_status (tget (vst_applications s) k)))
     \<and> (\<forall>k a. tget (vst_applications s) k = Some a \<longrightarrow> application_ok s k a)
     \<and> (\<forall>k a j b. tget (vst_applications s) k = Some a \<longrightarrow> tget (vst_applications s) j = Some b
         \<longrightarrow> vap_opportunity a = vap_opportunity b \<longrightarrow> vap_volunteer a = vap_volunteer b \<longrightarrow> k = j)"

lemma applications_invD:
  assumes "applications_inv s"
  shows "tok (vst_applications s)"
    "tell_application (application_signals s k) = Some (map_option vap_status (tget (vst_applications s) k))"
    "tget (vst_applications s) k = Some a \<Longrightarrow> application_ok s k a"
    "tget (vst_applications s) k = Some a \<Longrightarrow> tget (vst_applications s) j = Some b
       \<Longrightarrow> vap_opportunity a = vap_opportunity b \<Longrightarrow> vap_volunteer a = vap_volunteer b \<Longrightarrow> k = j"
  using assms by (auto simp: applications_inv_def)

text \<open>One row changes and one signal tells of it; others may follow that tell of no application.\<close>

lemma applications_change:
  assumes inv: "applications_inv s" and rows: "vst_applications s' = tput k a' (vst_applications s)" "vst_fresh s \<le> vst_fresh s'"
    and sig: "vst_signals s' = vst_signals s @ x # rest" "application_of x = Some k" "\<And>y. y \<in> set rest \<Longrightarrow> application_of y = None"
    and move: "application_move (map_option vap_status (tget (vst_applications s) k)) x = Some (vap_status a')"
    and ok: "application_ok s' k a'"
    and alone: "\<And>j b. tget (vst_applications s) j = Some b \<Longrightarrow> vap_opportunity b = vap_opportunity a'
      \<Longrightarrow> vap_volunteer b = vap_volunteer a' \<Longrightarrow> j = k"
  shows "applications_inv s'"
proof -
  have rest: "filter (\<lambda>y. application_of y = Some j) rest = []" for j using sig(3) by (auto simp: filter_empty_conv)
  have "application_signals s' j = application_signals s j @ (if j = k then [x] else [])" for j
    by (simp add: application_signals_def sig(1,2) rest)
  then have "tell_application (application_signals s' j) = Some (map_option vap_status (tget (vst_applications s') j))" for j
    using applications_invD(2) [OF inv] move by (simp add: rows tget_tput tell_snoc)
  moreover have "application_ok s' j b" if "tget (vst_applications s') j = Some b" for j b
    using that ok applications_invD(3) [OF inv, of j b] rows(2) by (auto simp: rows(1) tget_tput application_ok_def split: if_splits)
  moreover have "i = j" if "tget (vst_applications s') i = Some a" "tget (vst_applications s') j = Some b"
      "vap_opportunity a = vap_opportunity b" "vap_volunteer a = vap_volunteer b" for i a j b
    using that alone [of i a] alone [of j b] applications_invD(4) [OF inv, of i a j b] by (auto simp: rows(1) tget_tput split: if_splits)
  ultimately show ?thesis using applications_invD(1) [OF inv] by (simp add: applications_inv_def rows(1) tok_tput)
qed

lemma applications_review:
  assumes inv: "applications_inv s" and a: "tget (vst_applications s) k = Some a"
    and same: "vap_opportunity a' = vap_opportunity a" "vap_volunteer a' = vap_volunteer a"
    and s': "s' = vol_signals (x # rest) (put_application k a' s)"
    and sig: "application_of x = Some k" "\<And>y. y \<in> set rest \<Longrightarrow> application_of y = None"
    and move: "application_move (Some (vap_status a)) x = Some (vap_status a')"
    and ok: "application_ok s k a'"
  shows "applications_inv s'"
proof (rule applications_change [OF inv])
  show "vst_signals s' = vst_signals s @ x # rest" "vst_applications s' = tput k a' (vst_applications s)" "vst_fresh s \<le> vst_fresh s'"
    "application_ok s' k a'"
    using ok by (simp_all add: s' put_application_def vol_signals_def application_ok_def)
  show "j = k" if "tget (vst_applications s) j = Some b" "vap_opportunity b = vap_opportunity a'" "vap_volunteer b = vap_volunteer a'" for j b
    using applications_invD(4) [OF inv that(1) a] that(2,3) same by simp
qed (use a sig move in simp_all)

lemma applications_frame:
  assumes inv: "applications_inv s" and rows: "vst_applications s' = vst_applications s" "vst_fresh s \<le> vst_fresh s'"
    and sig: "vst_signals s' = vst_signals s @ rest" "\<And>y. y \<in> set rest \<Longrightarrow> application_of y = None"
  shows "applications_inv s'"
proof -
  have "filter (\<lambda>y. application_of y = Some j) rest = []" for j using sig(2) by (auto simp: filter_empty_conv)
  then have "application_signals s' = application_signals s" by (simp add: application_signals_def fun_eq_iff sig(1))
  then show ?thesis using inv rows by (auto simp: applications_inv_def application_ok_def intro: less_le_trans)
qed

lemma apply_for_inv:
  assumes inv: "applications_inv s" and run: "apply_for s now v o_pk motivation consent actor = Inr (s', k)"
  shows "applications_inv s'"
proof -
  let ?same = "\<lambda>a. vap_opportunity a = o_pk \<and> vap_volunteer a = v"
  let ?find = "tfind (\<lambda>a. ?same a \<and> vap_status a = ApWithdrawn) (vst_applications s)"
  have free: "vap_status a = ApWithdrawn" if "tget (vst_applications s) j = Some a" "?same a" for j a
  proof (rule ccontr)
    assume "vap_status a \<noteq> ApWithdrawn"
    with that tget_in_set [OF that(1)] have "list_ex (\<lambda>ka. ?same (snd ka) \<and> vap_status (snd ka) \<noteq> ApWithdrawn) (vst_applications s)"
      by (force simp: list_ex_iff)
    with run show False by (simp add: apply_for_def Let_def split: option.splits if_splits)
  qed
  show ?thesis
  proof (cases ?find)
    case None
    define a where "a = \<lparr>vap_opportunity = o_pk, vap_volunteer = v, vap_motivation = motivation, vap_consent = consent,
      vap_notes = '''', vap_status = ApPending, vap_reviewed_by = None, vap_reviewed_at = None, vap_reason = ''''\<rparr>"
    have k: "tget (vst_applications s) (vst_fresh s) = None"
      using applications_invD(3) [OF inv] by (cases "tget (vst_applications s) (vst_fresh s)") (auto simp: application_ok_def)
    have "s' = vol_signals [ApplicationSubmitted (vst_fresh s) (vu_pk actor), ReviewRequested (vst_fresh s)]
        (put_application (vst_fresh s) a (s\<lparr>vst_fresh := Suc (vst_fresh s)\<rparr>))"
      using run None by (auto simp: apply_for_def a_def Let_def split: option.splits if_splits)
    then show ?thesis
      by (intro applications_change [OF inv, of s' "vst_fresh s" a "ApplicationSubmitted (vst_fresh s) (vu_pk actor)"
            "[ReviewRequested (vst_fresh s)]"])
        (use k tfind_None [OF None] free in \<open>auto simp: put_application_def a_def application_ok_def\<close>)
  next
    case (Some ja)
    obtain j a where "ja = (j, a)" by (cases ja)
    with tfind_Some [of _ "vst_applications s" j a] Some applications_invD(1) [OF inv]
    have a: "tget (vst_applications s) j = Some a" "?same a" "vap_status a = ApWithdrawn" and find: "?find = Some (j, a)" by blast+
    define a' where "a' = a\<lparr>vap_status := ApPending, vap_motivation := motivation, vap_consent := consent, vap_reviewed_by := None,
      vap_reviewed_at := None, vap_reason := ''''\<rparr>"
    have "s' = vol_signals [ApplicationSubmitted j (vu_pk actor), ReviewRequested j] (put_application j a' s)"
      using run find by (auto simp: apply_for_def a'_def Let_def split: option.splits if_splits)
    moreover have "application_ok s j a'" using applications_invD(3) [OF inv a(1)] by (simp add: application_ok_def a'_def)
    ultimately show ?thesis
      by (intro applications_review [OF inv a(1), of a' s' "ApplicationSubmitted j (vu_pk actor)" "[ReviewRequested j]"])
        (simp_all add: a(3) a'_def)
  qed
qed

lemma vol_step_applications:
  assumes inv: "applications_inv s" and run: "vol_step env s x = Inr s'"
  shows "applications_inv s'"
proof -
  note ok = applications_invD(3) [OF inv]
  show ?thesis
  proof (cases x)
    case (VoApply now v o_pk motivation consent actor)
    with run apply_for_inv [OF inv] show ?thesis by (auto simp: map_sum_Inr_iff)
  next
    case (VoWithdraw k actor)
    with run obtain a where a: "tget (vst_applications s) k = Some a" "vap_status a \<in> {ApPending, ApApproved}"
      and s': "s' = vol_signals [ApplicationWithdrawn k (vu_pk actor)] (put_application k (a\<lparr>vap_status := ApWithdrawn\<rparr>) s)"
      by (auto simp: withdraw_application_def split: option.splits if_splits)
    show ?thesis
      by (rule applications_review [OF inv a(1) _ _ s']) (use a(2) ok [OF a(1)] in \<open>auto simp: application_ok_def\<close>)
  next
    case (VoApprove now k actor)
    with run obtain a where a: "tget (vst_applications s) k = Some a" "vap_status a \<in> set reviewable"
      and s': "s' = vol_signals [ApplicationApproved k (vu_pk actor)] (put_application k
        (a\<lparr>vap_status := ApApproved, vap_reviewed_by := Some (vu_pk actor), vap_reviewed_at := Some now\<rparr>) s)"
      by (auto simp: approve_application_def split: option.splits if_splits)
    show ?thesis
      by (rule applications_review [OF inv a(1) _ _ s']) (use a(2) ok [OF a(1)] in \<open>auto simp: application_ok_def reviewable_def\<close>)
  next
    case (VoReject now k reason actor)
    with run obtain a where a: "tget (vst_applications s) k = Some a" "vap_status a \<in> set reviewable"
      and s': "s' = vol_signals [ApplicationNotSelected k (vu_pk actor)] (put_application k (a\<lparr>vap_status := ApRejected,
        vap_reason := reason, vap_reviewed_by := Some (vu_pk actor), vap_reviewed_at := Some now\<rparr>) s)"
      by (auto simp: reject_application_def split: option.splits if_splits)
    show ?thesis
      by (rule applications_review [OF inv a(1) _ _ s']) (use a(2) ok [OF a(1)] in \<open>auto simp: application_ok_def reviewable_def\<close>)
  next
    case (VoMilestones c)
    then obtain n t where s': "s' = award (vhc_volunteer c) (vhc_old c) n milestone_thresholds t"
      and t: "vst_applications t = vst_applications s" "vst_signals t = vst_signals s" "vst_fresh t = vst_fresh s"
      using run by (auto simp: check_milestones_def split: option.splits if_splits)
    have "\<exists>rest. vst_applications (award v old new ts u) = vst_applications u \<and> vst_signals (award v old new ts u) = vst_signals u @ rest
        \<and> (\<forall>y \<in> set rest. application_of y = None)" for v old new ts u
    proof (induction ts arbitrary: u)
      case (Cons y ts)
      let ?u = "vol_signals [MilestoneAchieved v y] (u\<lparr>vst_milestones := vst_milestones u @ [(v, y)]\<rparr>)"
      from Cons.IH [of u] Cons.IH [of ?u] show ?case by fastforce
    qed simp
    with t s' applications_frame [OF inv, of s'] award_rows(4) show ?thesis by (metis order_refl)
  qed (use run in \<open>auto simp: map_sum_Inr_iff log_hours_def approve_hours_def reject_hours_def recompute_total_hours_def
      lose_callback_def create_honorarium_def honorarium_notice_def put_hours_def Let_def
      intro!: applications_frame [OF inv] split: option.splits if_splits sum.splits prod.splits\<close>)
qed

section \<open>Honoraria\<close>

text \<open>The ledger entry of a row, and the flag for the slip as the total of the year up to the row decides it.\<close>

definition ledger_matches :: "vol_state \<Rightarrow> nat \<Rightarrow> honorarium \<Rightarrow> bool" where
  "ledger_matches s k h \<longleftrightarrow> (\<forall>j. vhn_payment h = Some j \<longrightarrow> (\<exists>e. tget (vst_ledger s) j = Some e
     \<and> vle_honorarium e = k \<and> vle_amount e = vhn_amount h \<and> vle_net e = vhn_amount h))"

definition flag_exact :: "vol_env \<Rightarrow> honorarium table \<Rightarrow> nat \<Rightarrow> honorarium \<Rightarrow> bool" where
  "flag_exact env before k h \<longleftrightarrow> (vhn_t4a h \<longleftrightarrow> vhn_type h = HonorariumPayment
     \<and> vn_t4a env \<le> cumulative_ytd (vhn_volunteer h) (fst (vhn_date h)) (before @ [(k, h)]))"

definition honoraria_inv :: "vol_env \<Rightarrow> vol_state \<Rightarrow> bool" where
  "honoraria_inv env s \<longleftrightarrow> tok (vst_honoraria s)
     \<and> (\<forall>k h. tget (vst_honoraria s) k = Some h \<longrightarrow> k < vst_fresh s \<and> 1 \<le> vhn_amount h \<and> ledger_matches s k h)
     \<and> (\<forall>j e. tget (vst_ledger s) j = Some e \<longrightarrow> j < vst_fresh s
         \<and> (\<exists>h. tget (vst_honoraria s) (vle_honorarium e) = Some h \<and> vhn_payment h = Some j))
     \<and> (\<forall>v y. cumulative_ytd v y (vst_honoraria s) < vn_block env)
     \<and> (\<forall>before k h after. vst_honoraria s = before @ (k, h) # after \<longrightarrow> flag_exact env before k h)"

lemma honoraria_invD:
  assumes "honoraria_inv env s"
  shows "tok (vst_honoraria s)" "tget (vst_honoraria s) k = Some h \<Longrightarrow> k < vst_fresh s"
    "tget (vst_honoraria s) k = Some h \<Longrightarrow> 1 \<le> vhn_amount h \<and> ledger_matches s k h"
    "tget (vst_ledger s) j = Some e \<Longrightarrow> j < vst_fresh s
       \<and> (\<exists>h. tget (vst_honoraria s) (vle_honorarium e) = Some h \<and> vhn_payment h = Some j)"
    "cumulative_ytd v y (vst_honoraria s) < vn_block env"
    "vst_honoraria s = before @ (k, h) # after \<Longrightarrow> flag_exact env before k h"
  using assms by (auto simp: honoraria_inv_def)

lemma ytd_snoc: "cumulative_ytd v y (t @ [(k, h)]) = cumulative_ytd v y t
    + (if vhn_volunteer h = v \<and> vhn_type h = HonorariumPayment \<and> fst (vhn_date h) = y then vhn_amount h else 0)"
  by (simp add: cumulative_ytd_def)

lemma honoraria_frame:
  assumes "honoraria_inv env s" "vst_honoraria s' = vst_honoraria s" "vst_ledger s' = vst_ledger s" "vst_fresh s \<le> vst_fresh s'"
  shows "honoraria_inv env s'"
proof -
  have "ledger_matches s' = ledger_matches s" by (simp add: ledger_matches_def fun_eq_iff assms(3))
  with assms less_le_trans [OF _ assms(4)] show ?thesis unfolding honoraria_inv_def by metis
qed

lemma create_honorarium_inv:
  assumes inv: "honoraria_inv env s"
    and run: "create_honorarium env s v ty amount description date creator w = Inr (s', k)"
  shows "honoraria_inv env s'"
proof (cases "w = WiringFailed")
  case True
  with run show ?thesis
    by (intro honoraria_frame [OF inv]) (auto simp: create_honorarium_def Let_def split: option.splits sum.splits if_splits)
next
  case False
  let ?k = "vst_fresh s"
  obtain pt where pt: "payment_type_of ty = Some pt" "vu_has_perm creator ''volunteers.add_honorarium''"
    using run by (cases "payment_type_of ty") (auto simp: create_honorarium_def split: if_splits)
  obtain p where p: "tget (vst_volunteers s) v = Some p"
    using run pt by (cases "tget (vst_volunteers s) v") (auto simp: create_honorarium_def)
  obtain flag where flag': "clean_honorarium env (vst_honoraria s) v pt amount description (fst date) = Inr flag"
    using run pt p by (cases "clean_honorarium env (vst_honoraria s) v pt amount description (fst date)") (auto simp: create_honorarium_def)
  then obtain a where facts: "clean_honorarium env (vst_honoraria s) v pt (Some a) description (fst date) = Inr flag" "amount = Some a"
    by (cases amount) (auto simp: clean_honorarium_def)
  have s': "s' = s\<lparr>vst_fresh := Suc (Suc ?k), vst_honoraria := tput ?k \<lparr>vhn_volunteer = v, vhn_type = pt, vhn_amount = a,
          vhn_description = description, vhn_date = date, vhn_t4a = flag,
          vhn_payment = (if w = WiringDone then Some (Suc ?k) else None), vhn_created_by = vu_pk creator\<rparr> (vst_honoraria s),
        vst_ledger := (if w = WiringDone then tput (Suc ?k) \<lparr>vle_payer = vpr_user p, vle_amount = a, vle_net = a, vle_honorarium = ?k\<rparr>
          (vst_ledger s) else vst_ledger s),
        vst_notices := vst_notices s @ [?k]\<rparr>"
    using run pt p facts False by (auto simp: create_honorarium_def Let_def)
  define h where "h = \<lparr>vhn_volunteer = v, vhn_type = pt, vhn_amount = a, vhn_description = description, vhn_date = date, vhn_t4a = flag,
    vhn_payment = (if w = WiringDone then Some (Suc ?k) else None), vhn_created_by = vu_pk creator\<rparr>"
  have a: "1 \<le> a" and flag: "flag \<longleftrightarrow> pt = HonorariumPayment \<and> vn_t4a env \<le> cumulative_ytd v (fst date) (vst_honoraria s) + a"
    and below: "pt = HonorariumPayment \<Longrightarrow> cumulative_ytd v (fst date) (vst_honoraria s) + a < vn_block env"
    using facts by (auto simp: clean_honorarium_def Let_def split: if_splits)
  have none: "tget (vst_honoraria s) ?k = None"
    using honoraria_invD(2) [OF inv] by (cases "tget (vst_honoraria s) ?k") auto
  have fresh: "vst_fresh s' = Suc (Suc ?k)" by (simp add: s')
  have rows: "vst_honoraria s' = vst_honoraria s @ [(?k, h)]" by (simp add: s' h_def tput_new [OF none])
  have get: "tget (vst_honoraria s') j = (if j = ?k then Some h else tget (vst_honoraria s) j)" for j
    by (simp add: s' h_def tget_tput)
  have ledger: "tget (vst_ledger s') j = (if w = WiringDone \<and> j = Suc ?k
      then Some \<lparr>vle_payer = vpr_user p, vle_amount = a, vle_net = a, vle_honorarium = ?k\<rparr> else tget (vst_ledger s) j)" for j
    by (simp add: s' tget_tput)
  have old: "ledger_matches s' j q" if "tget (vst_honoraria s) j = Some q" for j q
    using honoraria_invD(3) [OF inv that] honoraria_invD(4) [OF inv, of "Suc ?k"] by (fastforce simp: ledger_matches_def ledger)
  have "ledger_matches s' ?k h" by (simp add: ledger_matches_def ledger h_def)
  then have "j < vst_fresh s' \<and> 1 \<le> vhn_amount q \<and> ledger_matches s' j q" if "tget (vst_honoraria s') j = Some q" for j q
    using that a old honoraria_invD(2,3) [OF inv, of j q] by (auto simp: get h_def fresh split: if_splits)
  moreover have "j < vst_fresh s' \<and> (\<exists>q. tget (vst_honoraria s') (vle_honorarium e) = Some q \<and> vhn_payment q = Some j)"
    if "tget (vst_ledger s') j = Some e" for j e
    using that honoraria_invD(4) [OF inv, of j e] none by (auto simp: ledger get h_def fresh split: if_splits)
  moreover have "cumulative_ytd u y (vst_honoraria s') < vn_block env" for u y
    using honoraria_invD(5) [OF inv, of u y] below by (auto simp: rows ytd_snoc h_def)
  moreover have "flag_exact env before j q" if "vst_honoraria s' = before @ (j, q) # after" for before j q after
  proof (cases after rule: rev_cases)
    case Nil
    with that have "before = vst_honoraria s" "j = ?k" "q = h" by (simp_all add: rows)
    then show ?thesis by (simp add: flag_exact_def ytd_snoc h_def flag)
  next
    case (snoc rest z)
    with that have "vst_honoraria s = before @ (j, q) # rest" by (simp add: rows)
    then show ?thesis by (rule honoraria_invD(6) [OF inv])
  qed
  moreover have "tok (vst_honoraria s')" by (simp add: s' tok_tput honoraria_invD(1) [OF inv])
  ultimately show ?thesis by (simp add: honoraria_inv_def)
qed

lemma vol_step_honoraria:
  assumes inv: "honoraria_inv env s" and run: "vol_step env s x = Inr s'"
  shows "honoraria_inv env s'"
proof (cases x)
  case (VoHonorarium v ty amount description date creator w)
  with run obtain k where "create_honorarium env s v ty amount description date creator w = Inr (s', k)"
    by (auto simp: map_sum_Inr_iff)
  then show ?thesis by (rule create_honorarium_inv [OF inv])
next
  case (VoMilestones c)
  have "vst_honoraria (award v old new ts u) = vst_honoraria u \<and> vst_ledger (award v old new ts u) = vst_ledger u" for v old new ts u
    by (induction ts arbitrary: u) auto
  with VoMilestones run show ?thesis
    by (intro honoraria_frame [OF inv]) (auto simp: check_milestones_def award_rows split: option.splits if_splits)
qed (use run in \<open>auto simp: map_sum_Inr_iff log_hours_def approve_hours_def reject_hours_def recompute_total_hours_def
    apply_for_def withdraw_application_def approve_application_def reject_application_def put_application_def
    lose_callback_def honorarium_notice_def put_hours_def Let_def
    intro!: honoraria_frame [OF inv] split: option.splits if_splits sum.splits prod.splits\<close>)

end
