(* ===== verification/VolunteerProps.thy ===== *)
theory VolunteerProps
  imports VolunteerInv
begin

text \<open>
  What holds of volunteers' records: hours and milestones are exact once every callback has run
  - and a milestone is lost for good when one has not -, the signals of an application tell its
  life, and no volunteer's honoraria of a year reach the hard block.
\<close>

section \<open>Runs\<close>

definition vol_inv :: "vol_env \<Rightarrow> vol_state \<Rightarrow> bool" where
  "vol_inv env s \<longleftrightarrow> hours_inv s \<and> applications_inv s \<and> honoraria_inv env s"

fun loses :: "vol_op \<Rightarrow> bool" where
  "loses (VoLose c) = True"
| "loses x = False"

interpretation volunteers: step_system "vol_step env" "\<lambda>s x. True" "vol_inv env" for env
  by unfold_locales (auto simp: vol_inv_def intro: vol_step_hours(1) vol_step_applications vol_step_honoraria)

interpretation hours: step_system "vol_step env" "\<lambda>s x. \<not> loses x" "\<lambda>s. vol_inv env s \<and> hours_complete s" for env
proof
  fix s s' and x
  assume inv: "vol_inv env s \<and> hours_complete s" and x: "\<not> loses x" and run: "vol_step env s x = Inr s'"
  from x have "x \<noteq> VoLose c" for c by auto
  with vol_step_hours(2) [OF run] inv have "hours_complete s'" unfolding vol_inv_def by blast
  with volunteers.inv_step [OF _ _ run] inv show "vol_inv env s' \<and> hours_complete s'" by blast
qed

text \<open>A platform with volunteers and opportunities, before anything is recorded.\<close>

definition no_records :: "vol_state \<Rightarrow> bool" where
  "no_records s \<longleftrightarrow> vst_applications s = [] \<and> vst_logs s = [] \<and> vst_milestones s = [] \<and> vst_honoraria s = [] \<and> vst_ledger s = []
     \<and> vst_callbacks s = [] \<and> vst_signals s = [] \<and> (\<forall>v p. tget (vst_volunteers s) v = Some p \<longrightarrow> vpr_total p = 0)"

lemma no_records_inv:
  assumes "no_records s" "0 < vn_block env"
  shows "vol_inv env s \<and> hours_complete s"
  using assms
  by (auto simp: no_records_def vol_inv_def hours_inv_def hours_complete_def applications_inv_def honoraria_inv_def announced_def
      map_filter_def approved_hours_def cumulative_ytd_def application_signals_def tell_application_def has_total_def
      milestone_thresholds_def)

lemma ops_ok_all: "\<forall>x \<in> set xs. P x \<Longrightarrow> ops_ok (\<lambda>s x. P x) step s xs"
  by (induction xs arbitrary: s) auto

section \<open>Hours and milestones\<close>

lemma announced_count: "length (filter (\<lambda>x. x = MilestoneAchieved v t) xs) = count_list (List.map_filter milestone_of xs) (v, t)"
proof (induction xs)
  case (Cons x xs)
  then show ?case by (cases x) (auto simp: map_filter_def)
qed (simp add: map_filter_def)

lemma count_distinct: "distinct xs \<Longrightarrow> count_list xs x = of_bool (x \<in> set xs)"
  by (induction xs) auto

text \<open>
  C14. Hours are exact: after any interleaving of logged, approved and rejected hours and of the
  callbacks of approvals, none of which was lost, a volunteer none of whose callbacks is pending
  has the sum of the approved hours as total and exactly the milestones this total reaches, each
  announced once.
\<close>

theorem hours_and_milestones_exact:
  assumes "no_records s0" "0 < vn_block env" "\<forall>x \<in> set xs. \<not> loses x" "s = run_ops (vol_step env) s0 xs"
    and "tget (vst_volunteers s) v = Some p" "\<forall>c \<in> set (vst_callbacks s). vhc_volunteer c \<noteq> v"
  shows "vpr_total p = approved_hours v (vst_logs s)
    \<and> (\<forall>t. (v, t) \<in> set (vst_milestones s) \<longleftrightarrow> t \<in> set milestone_thresholds \<and> t \<le> vpr_total p)
    \<and> (\<forall>t. length (filter (\<lambda>x. x = MilestoneAchieved v t) (vst_signals s)) = of_bool ((v, t) \<in> set (vst_milestones s)))"
proof -
  have inv: "hours_inv s" "hours_complete s"
    using hours.inv_run [OF no_records_inv [OF assms(1,2)] ops_ok_all [OF assms(3)]] by (simp_all add: assms(4) vol_inv_def)
  have "vpr_total p = approved_hours v (vst_logs s)" using inv(2) assms(5,6) unfolding hours_complete_def by blast
  moreover have "(v, t) \<in> set (vst_milestones s)" if "t \<in> set milestone_thresholds" "t \<le> vpr_total p" for t
  proof -
    have "has_total s v t" using that assms(5) by (simp add: has_total_def)
    with inv(2) that(1) have "(v, t) \<in> set (vst_milestones s) \<or> to_award s v t" unfolding hours_complete_def by blast
    with assms(6) show ?thesis by (auto simp: to_award_def)
  qed
  moreover have "t \<in> set milestone_thresholds \<and> t \<le> vpr_total p" if "(v, t) \<in> set (vst_milestones s)" for t
    using hours_invD(6) [OF inv(1) that] assms(5) by (simp add: has_total_def)
  moreover have "length (filter (\<lambda>x. x = MilestoneAchieved v t) (vst_signals s)) = of_bool ((v, t) \<in> set (vst_milestones s))" for t
    using hours_invD(7,8) [OF inv(1)] count_distinct [of "vst_milestones s" "(v, t)"]
    by (simp add: announced_count announced_def)
  ultimately show ?thesis by blast
qed

text \<open>A shelter with one volunteer and one coordinator; two approvals overlap.\<close>

definition shelter_env :: vol_env where
  "shelter_env = \<lparr>vn_alert = 45000, vn_t4a = 50000, vn_block = 100000, vn_today = \<lambda>t. t div 86400\<rparr>"

definition helper :: vol_user where
  "helper = \<lparr>vu_pk = 7, vu_superuser = False, vu_perms = []\<rparr>"

definition lead :: vol_user where
  "lead = \<lparr>vu_pk = 8, vu_superuser = False, vu_perms = [''volunteers.change_hourslog'', ''volunteers.change_volunteerapplication'',
     ''volunteers.add_honorarium'']\<rparr>"

definition shelter :: vol_state where
  "shelter = \<lparr>vst_volunteers = [(1, \<lparr>vpr_user = 7, vpr_total = 0\<rparr>)],
     vst_opportunities = [(2, \<lparr>vop_program = 3, vop_status = OpPublished, vop_closes_at = None\<rparr>)], vst_coordinators = [(3, 8)],
     vst_shifts = [(4, 2)], vst_applications = [], vst_logs = [], vst_milestones = [], vst_honoraria = [], vst_ledger = [],
     vst_callbacks = [], vst_notices = [], vst_signals = [], vst_fresh = 10\<rparr>"

definition two_shifts :: "vol_op list" where
  "two_shifts = [VoLog 0 1 2 (Some 2400) 0 '''' (Some 4) helper, VoLog 0 1 2 (Some 800) 0 '''' None helper,
     VoApproveHours 1 10 lead, VoApproveHours 2 11 lead]"

definition cb_first :: "int option \<Rightarrow> hours_callback" where
  "cb_first x = \<lparr>vhc_log = 10, vhc_volunteer = 1, vhc_old = 0, vhc_new = x\<rparr>"

definition cb_second :: "int option \<Rightarrow> hours_callback" where
  "cb_second x = \<lparr>vhc_log = 11, vhc_volunteer = 1, vhc_old = 0, vhc_new = x\<rparr>"

definition callbacks_run :: "vol_op list" where
  "callbacks_run = [VoRecompute (cb_second None), VoRecompute (cb_first None), VoMilestones (cb_first (Some 3200)),
     VoMilestones (cb_second (Some 3200))]"

lemma shelter_ready: "no_records shelter" "0 < vn_block shelter_env"
  by (auto simp: no_records_def shelter_def shelter_env_def tget_def split: if_splits)

lemma hours_and_milestones_exact_witness:
  "\<exists>s p. s = run_ops (vol_step shelter_env) shelter (two_shifts @ callbacks_run) \<and> tget (vst_volunteers s) 1 = Some p
    \<and> vpr_total p = 3200 \<and> approved_hours 1 (vst_logs s) = 3200 \<and> (1, 2500) \<in> set (vst_milestones s)
    \<and> (1, 5000) \<notin> set (vst_milestones s) \<and> length (filter (\<lambda>x. x = MilestoneAchieved 1 2500) (vst_signals s)) = 1"
proof -
  let ?s = "run_ops (vol_step shelter_env) shelter (two_shifts @ callbacks_run)"
  have run: "(let s = ?s in (map_option vpr_total (tget (vst_volunteers s) 1), vst_callbacks s)) = (Some 3200, [])" by code_simp
  then obtain p where p: "tget (vst_volunteers ?s) 1 = Some p" "vpr_total p = 3200" by (auto simp: Let_def)
  have ok: "\<forall>x \<in> set (two_shifts @ callbacks_run). \<not> loses x" by (simp add: two_shifts_def callbacks_run_def)
  have none: "\<forall>c \<in> set (vst_callbacks ?s). vhc_volunteer c \<noteq> 1" using run by (simp add: Let_def)
  from hours_and_milestones_exact [OF shelter_ready ok refl p(1) none] p show ?thesis
    by (intro exI [of _ ?s] exI [of _ p]) (simp add: milestone_thresholds_def)
qed

text \<open>A milestone that no callback will award: the total is past it, and so is what every callback starts from.\<close>

definition missed :: "vol_state \<Rightarrow> nat \<Rightarrow> int \<Rightarrow> bool" where
  "missed s v t \<longleftrightarrow> (v, t) \<notin> set (vst_milestones s) \<and> has_total s v t
     \<and> (\<forall>c \<in> set (vst_callbacks s). vhc_volunteer c = v \<longrightarrow> t \<le> vhc_old c)"

lemma missed_step:
  assumes inv: "hours_inv s" and missed: "missed s v t" and run: "vol_step env s x = Inr s'"
  shows "missed s' v t"
proof -
  have keep: "missed s' v t" if "vst_volunteers s' = vst_volunteers s" "vst_milestones s' = vst_milestones s"
      "set (vst_callbacks s') \<subseteq> set (vst_callbacks s)" for s'
    using missed that by (auto simp: missed_def has_total_def)
  consider (log) now u o_pk hours date description shift actor where "x = VoLog now u o_pk hours date description shift actor"
    | (approve) now k actor where "x = VoApproveHours now k actor" | (reject) k reason actor where "x = VoRejectHours k reason actor"
    | (recompute) c where "x = VoRecompute c" | (check) c where "x = VoMilestones c" | (lose) c where "x = VoLose c"
    | (other) "hours_frame s s'"
    using other_hours_frame [OF run] by blast
  then show ?thesis
  proof cases
    case (approve now k actor)
    with run missed show ?thesis
      by (auto simp: approve_hours_def put_hours_def missed_def has_total_def split: option.splits if_splits)
  next
    case (recompute c)
    with run have rec: "recompute_total_hours s c = Inr s'" by simp
    from missed recompute_inv(3) [OF inv rec] have "has_total s' v t" by (simp add: missed_def)
    moreover obtain n where rows: "vst_milestones s' = vst_milestones s" "c \<in> set (vst_callbacks s)"
        "vst_callbacks s' = remove1 c (vst_callbacks s) @ [c\<lparr>vhc_new := n\<rparr>]"
      using rec by (auto simp: recompute_total_hours_def Let_def split: option.splits if_splits)
    have "t \<le> vhc_old d" if d: "d \<in> set (vst_callbacks s')" "vhc_volunteer d = v" for d
    proof (cases "d = c\<lparr>vhc_new := n\<rparr>")
      case True
      with d missed rows(2) show ?thesis by (simp add: missed_def)
    next
      case False
      with d(1) rows(3) set_remove1_subset [of c "vst_callbacks s"] have "d \<in> set (vst_callbacks s)" by auto
      with d(2) missed show ?thesis by (simp add: missed_def)
    qed
    ultimately show ?thesis using missed rows(1) by (simp add: missed_def)
  next
    case (check c)
    then obtain n where c: "c \<in> set (vst_callbacks s)"
      and s': "s' = award (vhc_volunteer c) (vhc_old c) n milestone_thresholds (s\<lparr>vst_callbacks := remove1 c (vst_callbacks s)\<rparr>)"
      using run by (auto simp: check_milestones_def split: option.splits if_splits)
    from missed c set_remove1_subset [of c "vst_callbacks s"] show ?thesis
      by (auto simp: missed_def has_total_def s' award_rows)
  next
    case (lose c)
    with run set_remove1_subset [of c "vst_callbacks s"] show ?thesis
      by (intro keep) (auto simp: lose_callback_def split: if_splits)
  qed (use run in \<open>auto simp: map_sum_Inr_iff log_hours_def reject_hours_def put_hours_def hours_frame_def Let_def intro!: keep split: option.splits if_splits\<close>)
qed

text \<open>
  C39. A lost callback loses a milestone for good: when the process dies after the total was
  recomputed and before the milestones were checked, and no other callback of the same volunteer
  is pending, a threshold between the old and the new total that was not awarded before is never
  awarded - whatever hours are approved later, their callbacks start from a total
  that is past it.
\<close>

theorem lost_milestone_never_awarded:
  assumes inv: "vol_inv env s" and c: "c \<in> set (vst_callbacks s)" "vhc_new c = Some n" "vhc_old c < t" "t \<le> n"
    and new: "(vhc_volunteer c, t) \<notin> set (vst_milestones s)"
    and alone: "\<forall>d \<in> set (remove1 c (vst_callbacks s)). vhc_volunteer d \<noteq> vhc_volunteer c"
    and s': "s' = run_ops (vol_step env) s (VoLose c # xs)"
  shows "(vhc_volunteer c, t) \<notin> set (vst_milestones s') \<and> has_total s' (vhc_volunteer c) t"
proof -
  let ?s1 = "s\<lparr>vst_callbacks := remove1 c (vst_callbacks s)\<rparr>"
  have lose: "vol_step env s (VoLose c) = Inr ?s1" using c(1) by (simp add: lose_callback_def)
  have "has_total s (vhc_volunteer c) n" using inv c(1,2) hours_invD(5) by (auto simp: vol_inv_def callback_sound_def)
  then have "missed ?s1 (vhc_volunteer c) t"
    using new alone has_total_mono [OF _ c(4)] by (auto simp: missed_def has_total_def)
  moreover have "vol_inv env ?s1" using volunteers.inv_step [OF inv _ lose] by simp
  moreover have "missed (run_ops (vol_step env) u ys) v t" if "missed u v t" "vol_inv env u" for u ys v
    using that
  proof (induction ys arbitrary: u)
    case (Cons y ys)
    have "missed (commit u (vol_step env u y)) v t"
      using missed_step [of u v t env y] Cons.prems by (cases "vol_step env u y") (auto simp: vol_inv_def)
    with Cons.IH volunteers.inv_commit [OF Cons.prems(2)] show ?case by simp
  qed simp
  ultimately show ?thesis using lose by (simp add: s' missed_def)
qed

lemma lost_milestone_never_awarded_witness:
  "\<exists>s s'. s = run_ops (vol_step shelter_env) shelter [VoLog 0 1 2 (Some 2400) 0 '''' None helper, VoLog 0 1 2 (Some 2400) 0 '''' None helper,
        VoApproveHours 1 10 lead, VoRecompute (cb_first None), VoMilestones (cb_first (Some 2400)), VoApproveHours 2 11 lead,
        VoRecompute (cb_second None\<lparr>vhc_old := 2400\<rparr>)]
    \<and> s' = run_ops (vol_step shelter_env) s (VoLose (cb_second (Some 4800)\<lparr>vhc_old := 2400\<rparr>) # two_shifts)
    \<and> has_total s' 1 2500 \<and> (1, 2500) \<notin> set (vst_milestones s')"
proof -
  let ?xs = "[VoLog 0 1 2 (Some 2400) 0 '''' None helper, VoLog 0 1 2 (Some 2400) 0 '''' None helper,
        VoApproveHours 1 10 lead, VoRecompute (cb_first None), VoMilestones (cb_first (Some 2400)), VoApproveHours 2 11 lead,
        VoRecompute (cb_second None\<lparr>vhc_old := 2400\<rparr>)]"
  let ?s = "run_ops (vol_step shelter_env) shelter ?xs" and ?c = "cb_second (Some 4800)\<lparr>vhc_old := 2400\<rparr>"
  have inv: "vol_inv shelter_env ?s"
    by (rule volunteers.inv_run) (use no_records_inv [OF shelter_ready] in simp_all)
  have run: "vst_callbacks ?s = [?c] \<and> vst_milestones ?s = []" by code_simp
  have c: "?c \<in> set (vst_callbacks ?s)" "vhc_new ?c = Some 4800" "vhc_old ?c < 2500" "(2500::int) \<le> 4800" "vhc_volunteer ?c = 1"
    using run by (simp_all add: cb_second_def)
  have new: "(vhc_volunteer ?c, 2500) \<notin> set (vst_milestones ?s)" "\<forall>d \<in> set (remove1 ?c (vst_callbacks ?s)). vhc_volunteer d \<noteq> vhc_volunteer ?c"
    using run by simp_all
  from lost_milestone_never_awarded [OF inv c(1-4) new refl, of two_shifts] c(5) show ?thesis by auto
qed

section \<open>Applications\<close>

text \<open>
  C40. The signals of an application tell its life: after any sequence of calls they lead, by the
  moves of the life cycle, to the status of its row; a volunteer has at most one application per
  opportunity, one that was approved or rejected has a reviewer, and one that waits for its
  review has none.
\<close>

theorem application_signals_explain_status:
  assumes "no_records s0" "0 < vn_block env" "s = run_ops (vol_step env) s0 xs" "tget (vst_applications s) k = Some a"
  shows "tell_application (application_signals s k) = Some (Some (vap_status a))
    \<and> (vap_status a \<in> {ApApproved, ApRejected} \<longrightarrow> vap_reviewed_by a \<noteq> None)
    \<and> (vap_status a = ApPending \<longrightarrow> vap_reviewed_by a = None)
    \<and> (\<forall>j b. tget (vst_applications s) j = Some b \<longrightarrow> vap_opportunity b = vap_opportunity a
        \<longrightarrow> vap_volunteer b = vap_volunteer a \<longrightarrow> j = k)"
proof -
  have inv: "applications_inv s"
    using volunteers.inv_run [of env s0 xs] no_records_inv [OF assms(1,2)] by (simp add: assms(3) vol_inv_def)
  have "tell_application (application_signals s k) = Some (Some (vap_status a))"
    using applications_invD(2) [OF inv, of k] assms(4) by simp
  moreover note applications_invD(3) [OF inv assms(4)] applications_invD(4) [OF inv _ assms(4)]
  ultimately show ?thesis unfolding application_ok_def by blast
qed

definition second_try :: "vol_op list" where
  "second_try = [VoApply 0 1 2 ''Hello'' None helper, VoApprove 1 10 lead, VoWithdraw 10 helper, VoApply 2 1 2 ''Again'' None helper,
     VoReject 3 10 ''full'' lead, VoApply 4 1 2 ''Once more'' None helper]"

lemma application_signals_explain_status_witness:
  "\<exists>s a. s = run_ops (vol_step shelter_env) shelter second_try \<and> tget (vst_applications s) 10 = Some a \<and> vap_status a = ApRejected
    \<and> tell_application (application_signals s 10) = Some (Some ApRejected) \<and> vap_reviewed_by a = Some 8"
proof -
  let ?s = "run_ops (vol_step shelter_env) shelter second_try"
  have run: "map_option (\<lambda>a. (vap_status a, vap_reviewed_by a)) (tget (vst_applications ?s) 10) = Some (ApRejected, Some 8)" by code_simp
  then obtain a where a: "tget (vst_applications ?s) 10 = Some a" "vap_status a = ApRejected" "vap_reviewed_by a = Some 8" by auto
  from application_signals_explain_status [OF shelter_ready refl a(1)] a(2)
  have "tell_application (application_signals ?s 10) = Some (Some ApRejected)" by (simp only:)
  with a show ?thesis by blast
qed

section \<open>Honoraria\<close>

text \<open>
  C20. No volunteer's honoraria of a calendar year reach the hard block, whoever records them and
  in whatever order; a row is flagged for the tax slip exactly when it is an honorarium and the
  total of its year up to and including it has reached the threshold; and the rows of the ledger
  match the honoraria that name them, amount for amount.
\<close>

theorem honoraria_stay_below_block:
  assumes "no_records s0" "0 < vn_block env" "s = run_ops (vol_step env) s0 xs"
  shows "cumulative_ytd v year (vst_honoraria s) < vn_block env
    \<and> (\<forall>before k h after. vst_honoraria s = before @ (k, h) # after \<longrightarrow> (vhn_t4a h \<longleftrightarrow> vhn_type h = HonorariumPayment
        \<and> vn_t4a env \<le> cumulative_ytd (vhn_volunteer h) (fst (vhn_date h)) (before @ [(k, h)])))
    \<and> (\<forall>j e. tget (vst_ledger s) j = Some e \<longrightarrow> (\<exists>h. tget (vst_honoraria s) (vle_honorarium e) = Some h
        \<and> vhn_payment h = Some j \<and> vle_amount e = vhn_amount h))"
proof -
  have inv: "honoraria_inv env s"
    using volunteers.inv_run [of env s0 xs] no_records_inv [OF assms(1,2)] by (simp add: assms(3) vol_inv_def)
  have "\<exists>h. tget (vst_honoraria s) (vle_honorarium e) = Some h \<and> vhn_payment h = Some j \<and> vle_amount e = vhn_amount h"
    if e: "tget (vst_ledger s) j = Some e" for j e
  proof -
    from honoraria_invD(4) [OF inv e] obtain h where h: "tget (vst_honoraria s) (vle_honorarium e) = Some h" "vhn_payment h = Some j" by blast
    with honoraria_invD(3) [OF inv h(1)] e show ?thesis by (auto simp: ledger_matches_def)
  qed
  with honoraria_invD(5,6) [OF inv] show ?thesis by (simp add: flag_exact_def)
qed

definition gifts :: "vol_op list" where
  "gifts = [VoHonorarium 1 ''honorarium'' (Some 30000) ''talk'' (2026, 1, 5) lead WiringDone, VoNotice 10,
     VoHonorarium 1 ''honorarium'' (Some 20000) ''talk'' (2026, 2, 5) lead WiringAbsent, VoNotice 12,
     VoHonorarium 1 ''honorarium'' (Some 50000) ''talk'' (2026, 3, 5) lead WiringDone,
     VoHonorarium 1 ''expense_reimbursement'' (Some 50000) ''bus'' (2026, 3, 6) lead WiringDone]"

lemma honoraria_stay_below_block_witness:
  "\<exists>s. s = run_ops (vol_step shelter_env) shelter gifts \<and> cumulative_ytd 1 2026 (vst_honoraria s) = 50000
    \<and> cumulative_ytd 1 2026 (vst_honoraria s) < vn_block shelter_env
    \<and> map (\<lambda>kh. vhn_t4a (snd kh)) (vst_honoraria s) = [False, True, False] \<and> length (vst_ledger s) = 2"
proof -
  let ?s = "run_ops (vol_step shelter_env) shelter gifts"
  have "(let s = ?s in (cumulative_ytd 1 2026 (vst_honoraria s), map (\<lambda>kh. vhn_t4a (snd kh)) (vst_honoraria s), length (vst_ledger s)))
    = (50000, [False, True, False], 2)" by code_simp
  with honoraria_stay_below_block [OF shelter_ready refl, of 1 2026 gifts] show ?thesis by (auto simp: Let_def)
qed

text \<open>
  When a statement of the wiring fails, the caller gets the honorarium as if it had been created,
  but its row is gone and nothing will ever write it.
\<close>

lemma honorarium_lost_silently:
  assumes inv: "honoraria_inv env s" and run: "create_honorarium env s v ty amount description date creator WiringFailed = Inr (s', k)"
  shows "tget (vst_honoraria (run_ops (vol_step env) s' xs)) k = None"
proof -
  have start: "tget (vst_honoraria s') k = None \<and> k < vst_fresh s'"
  proof -
    have "k = vst_fresh s" "vst_honoraria s' = vst_honoraria s" "vst_fresh s' = Suc (Suc (vst_fresh s))"
      using run by (auto simp: create_honorarium_def Let_def split: option.splits sum.splits if_splits)
    with honoraria_invD(2) [OF inv, of k] show ?thesis by (cases "tget (vst_honoraria s) k") auto
  qed
  have award: "vst_honoraria (award w old new ts u) = vst_honoraria u" for w old new ts u
    by (induction ts arbitrary: u) auto
  have step: "tget (vst_honoraria u') k = None \<and> k < vst_fresh u'"
    if "tget (vst_honoraria u) k = None \<and> k < vst_fresh u" "vol_step env u x = Inr u'" for u u' x
    using that
    by (cases x) (auto simp: map_sum_Inr_iff log_hours_def approve_hours_def reject_hours_def recompute_total_hours_def
        apply_for_def withdraw_application_def approve_application_def reject_application_def put_application_def
        lose_callback_def honorarium_notice_def put_hours_def create_honorarium_def check_milestones_def award award_rows Let_def tget_tput
        split: option.splits if_splits sum.splits prod.splits)
  have "tget (vst_honoraria (run_ops (vol_step env) u xs)) k = None" if "tget (vst_honoraria u) k = None \<and> k < vst_fresh u" for u
    using that
  proof (induction xs arbitrary: u)
    case (Cons x xs)
    have "tget (vst_honoraria (commit u (vol_step env u x))) k = None \<and> k < vst_fresh (commit u (vol_step env u x))"
      using step [OF Cons.prems] Cons.prems by (cases "vol_step env u x") auto
    with Cons.IH show ?case by simp
  qed simp
  with start show ?thesis by blast
qed

end
