(* ===== verification/Spec2Isabelle.thy ===== *)
theory Spec2Isabelle
  imports AuditChain WorkItems BookingProps GenerationProps Delivery BatchDecision ShiftProps
    RuntimeProps CallbackProps RowsFit BatchProcessingProps BatchStuck CommandProps
    VoucherProps BillProps ConsentProps DocumentRaces VolunteerProps
begin

text \<open>
  CivicOS, a Django platform for municipal services: a verification library for its service
  layer. The platform is a set of applications under \<open>src/apps\<close> over one relational
  database. Their core logic is in service modules, which the web views and the background
  tasks call; a service runs in a database transaction, locks the rows it decides on and
  writes an audit entry. The library models the services of the audit log, the workflow engine,
  appointments, volunteers, message delivery, government payments, consents and documents.

  Conventions. A table is an association list from primary keys to rows (\<open>Prelude.table\<close>); a
  model class is a record with the columns the services read or write, and a choices column is
  a datatype. A service is a function from the state to an error or the new state: \<open>Inl\<close> is
  an exception, and the transaction is rolled back because the caller keeps the old state.
  \<open>run_ops\<close> folds a list of calls over a state and drops the failed ones. A row lock makes
  concurrent calls of the locking services sequential, so interleavings are the orders of the
  calls in a list; where the code reads without a lock or leaves a transaction in between, the
  call is split into its parts and the parts are calls of their own: the transactions of a
  provider call and of a recovery (\<open>ProviderRuntime\<close>), an instance loaded earlier (\<open>WorkItems\<close>),
  the lease of a batch and its decision (\<open>BatchLease\<close>, \<open>BatchDecision\<close>). Four services are taken
  as sequential although their locks do not exclude every concurrent call: \<open>record_event\<close> (a
  row lock on the last entry does not stop a concurrent insertion), \<open>update_policy\<close> and
  \<open>update_data_agreement\<close> (no lock), and \<open>create_new_version\<close> (a locked chain does not contain
  the row a concurrent call inserts). Time, keys of new rows, random
  tokens, digests, settings, and answers of providers, receivers and the broker are arguments.
  Times are integer seconds (microseconds and minutes where a theory says so), amounts integer
  cents, strings lists of code points below 256. Python's integers do not overflow; columns
  with a maximal length are cut or checked where the code cuts or the database refuses.

  Shared theory. \<open>Prelude\<close> holds tables and their laws (the locale \<open>table_store\<close>,
  interpreted on \<open>tget\<close> and \<open>tput\<close>), runs with invariants and two-state relations (the
  locales over \<open>run_ops\<close>, interpreted by every component on its own step function),
  transition tables, strings and sums.

  The components, with the code they model.

  \<open>AuditChain\<close>: \<open>apps/audit\<close> - entries chained by digests, \<open>record_event\<close>, the guards
  of \<open>save\<close> and \<open>delete\<close>, the batched \<open>verify_chain\<close> and the exit code of the command.
  Lemmas: every recorded log verifies, the verifier equals a simple reference, the last digest
  binds the whole log.

  \<open>WorkItems\<close>: \<open>apps/workflows\<close> - claim, assign, status changes, the SLA task, history.
  Lemmas: histories explain items, closed items are frozen, the SLA task marks exactly the
  overdue items.

  \<open>Appointments\<close>, \<open>Booking\<close>: \<open>apps/appointments\<close>, the data, policies and the booking
  service (\<open>services/booking.py\<close>, \<open>slots.py\<close>, the tasks). \<open>BookingCorrect\<close> states an
  abstract specification - the moves a booking and its slot can make - and its invariants,
  \<open>BookingRefine\<close> shows that every service call is a sequence of those moves, and
  \<open>BookingProps\<close> draws the consequences: no overbooking, caps, audit trail, suspension. Their
  runs consist of the services and tasks modelled here; the GovStack scheduler, which is not,
  writes to the same slots and blocks one under its exclusive appointment.

  \<open>Availability\<close>: \<open>services/availability.py\<close> and slot generation. \<open>AvailabilityProps\<close>
  equates the interval walk with a filtered grid and bounds every offer; \<open>GenerationProps\<close>
  proves generation idempotent and shows when it double books. The last section below composes
  generation with booking.

  \<open>Delivery\<close>: \<open>services/delivery_state.py\<close> - leases, attempts and history of a message to
  one recipient.

  \<open>ShiftScheduling\<close>, \<open>ShiftProps\<close>: \<open>apps/volunteers/services/scheduling.py\<close> - capacity,
  the waiting list and promotion from it.

  \<open>BatchLease\<close>, \<open>BatchDecision\<close>: \<open>govstack_batch_lease.py\<close>, \<open>govstack_batch_policy.py\<close>,
  \<open>govstack_batch_decision.py\<close> - fencing generations and the unique decision of a batch.

  \<open>PaymentAttempts\<close>: \<open>govstack_failure_services.py\<close> - payment attempts, guarded outcomes,
  observations of providers, reconciliation, the callback outbox and the triage tasks.
  \<open>ProviderRuntime\<close>: \<open>provider_runtime.py\<close>, \<open>provider_registry.py\<close>, \<open>execution_intent.py\<close>,
  \<open>payment_recovery.py\<close> - workers that claim an attempt, call a provider and finalise.
  \<open>RuntimeClaims\<close>, \<open>RuntimeOnce\<close>, \<open>RuntimeSettlement\<close>, \<open>RuntimeProps\<close>, \<open>RowsFit\<close> and
  \<open>CallbackProps\<close>: one submission per attempt, one recorded result per claim, settlement only
  on verified evidence, progress, column bounds, and the fate of every callback under replay.

  \<open>BatchProcessing\<close>: \<open>govstack_tasks.py\<close> and batch reception - children bound to attempts,
  finality materialised, the batch decided, projected and announced under its lease.
  \<open>BatchProcessingProps\<close>: a closed batch is final, its status and its two sums are those of the
  settled and the rejected instructions. \<open>BatchStuck\<close>: runs
  of batches and workers together, in which no batch ever closes.

  \<open>PaymentCommands\<close>, \<open>CommandProps\<close>: \<open>payment_command_boundary.py\<close>, its consumer and task -
  idempotent reservation, the outbox and the handoff to an attempt.

  \<open>Vouchers\<close>, \<open>VoucherProps\<close> and \<open>Bills\<close>, \<open>BillProps\<close>: \<open>govstack_services.py\<close> - the
  voucher engine, and bill payments with their settlement checks.

  \<open>Consent\<close>, \<open>ConsentTrail\<close>, \<open>ConsentInv\<close>, \<open>ConsentProps\<close>: \<open>apps/consent\<close> - records of
  consent, their signatures, the agreements they refer to and the linked revisions of all of
  them, with the volunteer rows that refer to a record. Every trail is linked and explains its
  record, the services refine a set of consents, and the right to be forgotten is refused while
  an application protects a record and else erases the records, leaving some snapshots.

  \<open>Documents\<close>, \<open>DocumentInv\<close>, \<open>DocumentProps\<close>, \<open>DocumentRaces\<close>: \<open>apps/documents\<close>
  (\<open>services/upload.py\<close>, \<open>versioning.py\<close>, \<open>retention.py\<close>, \<open>download.py\<close> and \<open>tasks.py\<close>) -
  uploads through presigned posts, the checks of their content, scanning, chains of versions,
  retention, legal holds, disposal and the tokens of a download. Rows and stored objects are
  separate: the three parts of a purge and the two of a scan are operations of their own. The
  audit log explains the rows, chains are ordered, tokens are redeemed once, a hold protects a
  document; and what a running purge, a reused upload and an abandoned version still break.

  \<open>VolunteerRecords\<close>, \<open>VolunteerInv\<close>, \<open>VolunteerProps\<close>: \<open>apps/volunteers\<close>
  (\<open>services/applications.py\<close>, \<open>hours.py\<close>, \<open>honoraria.py\<close>) - applications and their review,
  hours with totals and milestones, honoraria under the thresholds of the tax rules. What runs
  after a commit is an operation of its own, which a dying process loses.

  Loops. The walk over a window (\<open>Availability\<close>) is a \<open>partial_function\<close> whose value \<open>None\<close> is a
  loop without end; \<open>AvailabilityProps.walk_is_filtered_grid\<close> shows that it returns for every
  positive interval. No other loop needs fuel: the serial numbers of vouchers are tried five
  times and callbacks five times, as in the code; \<open>Documents.chunks_of\<close> cuts a list into batches
  and ends because the rest is shorter; every other loop is structural recursion over a list of
  rows.

  What the theorems about failures mean. A theorem of the form "it can happen" states a
  behaviour of the code that its comments or its design exclude; each gives the general
  hypotheses under which it happens and its witness is a concrete run.

  Not modelled. Web views, serializers, permissions, templates, administration, migrations and
  settings: they parse, authorise and present. Card payments, donations and receipts: they are
  driven by the calls of an external gateway. Storage, virus scanners and parsers of files are
  parameters of the documents component; attachments of documents and notices by mail are left
  out. Notifications, reports and volunteer screening: delivery of mail, read-only sums and
  record keeping. The GovStack scheduler: list and update operations over JSON, and the delivery
  runtime of scheduled messages, a state machine with leases, retries and generations of its
  own that is left to an extension. Digests, JSON texts, time zones and the database are
  parameters, with the documented behaviour relied upon as named hypotheses.
\<close>

section \<open>Slot generation feeds booking\<close>

lemma offered_row:
  assumes off: "offered env known utc dtz cal sls now type d st prof x"
    and pos: "0 < at_duration_minutes (en_type env type)" "1 \<le> at_capacity_per_slot (en_type env type)"
  shows "slot_clean (offer_slot x) = [] \<and> bookable (offer_slot x)"
proof -
  from off obtain loc name tz wins a b where x: "x = mk_offer env type st loc name
      (day_context env sls now type st loc (utc tz d 0) (utc tz d (b div 60))) (of_start x)"
    by (rule offered_facts)
  have f: "of_end x = of_start x + minute_seconds * int (at_duration_minutes (en_type env type))"
    using arg_cong [OF x, of of_end] by (simp add: mk_offer_def day_context_def Let_def)
  have g: "of_eff_start x \<le> of_start x"
    using arg_cong [OF x, of of_eff_start] by (simp add: mk_offer_def day_context_def Let_def minute_seconds_def)
  have h: "of_end x \<le> of_eff_end x"
    using arg_cong [OF x, of of_eff_end] f by (simp add: mk_offer_def day_context_def Let_def minute_seconds_def)
  have i: "of_spaces x = at_capacity_per_slot (en_type env type)"
    using arg_cong [OF x, of of_spaces] by (simp add: mk_offer_def)
  show ?thesis
    using pos f g h i by (simp add: offer_slot_def slot_clean_def bookable_def minute_seconds_def)
qed

text \<open>One generation run is one insertion of empty slots that the table's constraints accept.\<close>

lemma generate_rows:
  assumes ok: "intervals_ok env type" "0 < at_duration_minutes (en_type env type)"
    "1 \<le> at_capacity_per_slot (en_type env type)"
    and gen: "generate_slots_for_range env known utc dtz cal uuid s now type staff d0 d1 = Some (s', n)"
  shows "\<exists>rows. appt_step env rev_ok s (OpAddSlots rows) = Inr s' \<and> op_ok (OpAddSlots rows)
    \<and> (\<forall>k sl. (k, sl) \<in> set rows \<longrightarrow> slot_clean sl = [] \<and> bookable sl)"
proof -
  obtain xs where xs: "get_available_slots env known utc dtz cal s now type d0 d1 None (Some staff) None = Some xs"
    "\<And>x. x \<in> set xs \<Longrightarrow> \<exists>st prof d. offered env known utc dtz cal (ap_slots s) now type d st prof x"
    using available_set [OF ok(1), of known utc dtz cal s now d0 d1 None "Some staff" None] by blast
  let ?rows = "zip (map uuid [0..<length xs]) (map offer_slot xs)"
  have s': "s' = s\<lparr>ap_slots := bulk_create_slots ?rows (ap_slots s)\<rparr>"
    using gen xs(1) by (auto simp: generate_slots_for_range_def Let_def split: if_splits)
  have row: "slot_clean sl = [] \<and> bookable sl \<and> sl_spaces sl = 0 \<and> sl_status sl = Available"
    if "(k, sl) \<in> set ?rows" for k sl
  proof -
    from that obtain x where x: "x \<in> set xs" "sl = offer_slot x" by (auto dest!: set_zip_rightD)
    from xs(2) [OF x(1)] obtain st prof d
      where "offered env known utc dtz cal (ap_slots s) now type d st prof x" by blast
    from offered_row [OF this ok(2,3)] x(2) show ?thesis by (simp add: offer_slot_def)
  qed
  have "1 \<le> sl_capacity sl" if "bookable sl" for sl
    using that by (simp add: bookable_def)
  with row have "op_ok (OpAddSlots ?rows)" by (auto simp: list_all_iff)
  with s' row show ?thesis by (intro exI [of _ ?rows]) simp
qed

definition slots_added :: "appt_state \<Rightarrow> appt_state \<Rightarrow> bool" where
  "slots_added s s' \<longleftrightarrow> ap_bookings s' = ap_bookings s
    \<and> (\<forall>k sl. tget (ap_slots s) k = Some sl \<longrightarrow> tget (ap_slots s') k = Some sl)
    \<and> (\<forall>k sl. tget (ap_slots s') k = Some sl \<longrightarrow>
         tget (ap_slots s) k = Some sl \<or> tget (ap_slots s) k = None \<and> slot_clean sl = [] \<and> bookable sl)"

lemma slots_added_refl: "slots_added s s"
  by (simp add: slots_added_def)

lemma slots_added_trans:
  assumes "slots_added s s'" and "slots_added s' s''"
  shows "slots_added s s''"
  unfolding slots_added_def
proof (intro conjI allI impI)
  show "ap_bookings s'' = ap_bookings s" using assms by (simp add: slots_added_def)
  show "tget (ap_slots s'') k = Some sl" if "tget (ap_slots s) k = Some sl" for k sl
    using assms that by (simp add: slots_added_def)
  show "tget (ap_slots s) k = Some sl \<or> tget (ap_slots s) k = None \<and> slot_clean sl = [] \<and> bookable sl"
    if "tget (ap_slots s'') k = Some sl" for k sl
  proof (cases "tget (ap_slots s') k")
    case None
    with assms(1) have "tget (ap_slots s) k = None"
      unfolding slots_added_def by (cases "tget (ap_slots s) k") auto
    moreover from assms(2) that have "tget (ap_slots s') k = Some sl
        \<or> tget (ap_slots s') k = None \<and> slot_clean sl = [] \<and> bookable sl"
      unfolding slots_added_def by blast
    ultimately show ?thesis using None by simp
  next
    case (Some sl')
    with that assms(2) have "tget (ap_slots s') k = Some sl" by (auto simp: slots_added_def)
    with assms(1) show ?thesis by (simp add: slots_added_def)
  qed
qed

lemma slots_added_rows:
  assumes step: "appt_step env rev_ok s (OpAddSlots rows) = Inr s'"
    and ok: "\<And>k sl. (k, sl) \<in> set rows \<Longrightarrow> slot_clean sl = [] \<and> bookable sl"
  shows "slots_added s s'"
proof -
  have "ap_bookings s' = ap_bookings s" and sl: "ap_slots s' = bulk_create_slots rows (ap_slots s)"
    using step by auto
  moreover have "slot_clean sl = [] \<and> bookable sl" if "tget rows k = Some sl" for k sl
    using tget_in_set [OF that] ok by blast
  ultimately show ?thesis
    unfolding slots_added_def sl bulk_create_get by (auto split: option.splits)
qed

lemma generate_period_run:
  assumes "\<And>t. intervals_ok env t" "\<And>t. 0 < at_duration_minutes (en_type env t)"
    "\<And>t. 1 \<le> at_capacity_per_slot (en_type env t)"
    and "generate_slots_for_period env known utc dtz cal uuid now today date_to s combos = Some (s', n, m)"
  shows "(\<exists>ys. list_all op_ok ys \<and> s' = run_ops (appt_step env rev_ok) s ys) \<and> slots_added s s' \<and> m = length combos"
  using assms(4)
proof (induction combos arbitrary: s n m)
  case Nil
  then have "s' = s" "m = 0" by simp_all
  moreover have "list_all op_ok [] \<and> s = run_ops (appt_step env rev_ok) s []" by simp
  ultimately show ?case by (auto simp: slots_added_refl intro!: exI [of _ "[]"])
next
  case (Cons c combos)
  obtain st type where c: "c = (st, type)" by (cases c)
  from Cons.prems obtain s1 n1 n2 m2
    where one: "generate_slots_for_range env known utc dtz cal (uuid c) s (now c) type st today date_to = Some (s1, n1)"
      and rest: "generate_slots_for_period env known utc dtz cal uuid now today date_to s1 combos = Some (s', n2, m2)"
      and m: "m = m2 + 1"
    by (auto simp: c split: option.splits)
  from generate_rows [OF assms(1-3) one] obtain rows
    where rows: "appt_step env rev_ok s (OpAddSlots rows) = Inr s1" "op_ok (OpAddSlots rows)"
      and new: "\<And>k sl. (k, sl) \<in> set rows \<Longrightarrow> slot_clean sl = [] \<and> bookable sl"
    by blast
  from Cons.IH [OF rest] obtain ys where ys: "list_all op_ok ys" "s' = run_ops (appt_step env rev_ok) s1 ys"
    and more: "slots_added s1 s'" "m2 = length combos" by blast
  have "slots_added s s1" by (rule slots_added_rows [OF rows(1) new])
  with more have "slots_added s s'" by (blast intro: slots_added_trans)
  moreover have "list_all op_ok (OpAddSlots rows # ys)
      \<and> s' = run_ops (appt_step env rev_ok) s (OpAddSlots rows # ys)"
    using rows ys by simp
  ultimately show ?case using m more(2) by (intro conjI exI [of _ "OpAddSlots rows # ys"]) auto
qed

text \<open>
  C24. Generation composes with booking. The nightly task, run in any state the booking
  services can reach, is a sequence of insertions the booking component accepts: it processes
  every combination, changes no booking and no stored slot, every new slot satisfies the
  table's constraints and can be booked, and the slot and booking tables stay consistent, so
  the guarantees of the booking component hold afterwards. Intervals, durations and
  capacities are positive. Each combination reads the clock anew.
\<close>

theorem nightly_task_feeds_booking:
  assumes "\<And>t. intervals_ok env t" and "\<And>t. 0 < at_duration_minutes (en_type env t)"
    and "\<And>t. 1 \<le> at_capacity_per_slot (en_type env t)" and "policy_cap env M" and "list_all op_ok xs"
    and "s = run_ops (appt_step env rev_ok) no_appts xs"
    and "generate_slots_for_period env known utc dtz cal uuid now today date_to s combos = Some (s', n, m)"
  shows "m = length combos \<and> ap_bookings s' = ap_bookings s
    \<and> (\<forall>k sl. tget (ap_slots s') k = Some sl \<longrightarrow>
         tget (ap_slots s) k = Some sl \<or> tget (ap_slots s) k = None \<and> slot_clean sl = [] \<and> bookable sl)
    \<and> (\<forall>k sl. tget (ap_slots s) k = Some sl \<longrightarrow> tget (ap_slots s') k = Some sl)
    \<and> tables_ok (ap_slots s') (ap_bookings s')"
proof -
  from generate_period_run [OF assms(1-3,7)] obtain ys
    where ys: "list_all op_ok ys" "s' = run_ops (appt_step env rev_ok) s ys"
      and added: "slots_added s s'" and m: "m = length combos" by blast
  have "appt_inv M s" unfolding assms(6) by (rule appt_inv_run [OF assms(4,5) no_appts_inv])
  then have "appt_inv M s'" unfolding ys(2) by (rule appt_inv_run [OF assms(4) ys(1)])
  then have ok: "tables_ok (ap_slots s') (ap_bookings s')" by (simp add: appt_inv_def core_def)
  from m ok added show ?thesis by (simp add: slots_added_def)
qed

text \<open>The office, over its one combination, from the empty system.\<close>

lemma office_positive: "0 < at_duration_minutes (en_type office_env t)" "1 \<le> at_capacity_per_slot (en_type office_env t)"
  by (simp_all add: office_env_def office_type_def)

lemma office_cap: "policy_cap office_env 3"
  by (simp add: policy_cap_def slot_policy_def resolve_policy_def office_env_def office_type_def policy_from_settings_def dget_def)

theorem nightly_task_feeds_booking_witness:
  "\<exists>s' n. generate_slots_for_period office_env (\<lambda>_. True) plain_utc ''UTC'' office_calendar (\<lambda>_. id) (\<lambda>_. 0) 1 1
        (run_ops (appt_step office_env (\<lambda>_. True)) no_appts []) [(1, 1)] = Some (s', n, 1)
     \<and> ap_bookings s' = [] \<and> tables_ok (ap_slots s') (ap_bookings s')"
proof -
  obtain s' n where g: "generate_slots_for_period office_env (\<lambda>_. True) plain_utc ''UTC'' office_calendar (\<lambda>_. id) (\<lambda>_. 0) 1 1
      (run_ops (appt_step office_env (\<lambda>_. True)) no_appts []) [(1, 1)] = Some (s', n, 1)"
    using office_offers by (simp add: no_appts_def office_empty_def generate_slots_for_range_def Let_def)
  from nightly_task_feeds_booking [OF office_intervals office_positive office_cap _ refl g] g show ?thesis
    by (auto simp: no_appts_def)
qed

end
